(* ===== verification/Prelude.thy ===== *)
theory Prelude
  imports Main
begin

text \<open>
  Shared vocabulary of the development. Identifiers (UUIDs) are natural numbers, instants are
  integers counting microseconds of UTC, a Python \<^verbatim>\<open>str\<close> that is only compared or looked up
  is a \<^typ>\<open>string\<close>, and a Python \<^verbatim>\<open>str\<close> that the code inspects character by character is a list
  of Unicode code points (\<open>ustr\<close>), so that lengths and offsets count what Python counts. The
  theory also holds the order-by primitives the SQL adapters share and the list lemmas the
  component proofs use; the collection \<open>strip_simps\<close> gathers the facts on \<^verbatim>\<open>str.strip\<close>.
\<close>

type_synonym uuid = nat
type_synonym instant = int
type_synonym ustr = "nat list"

named_theorems strip_simps

abbreviation seconds :: "int \<Rightarrow> int" where
  "seconds n \<equiv> n * 1000000"

abbreviation minutes :: "int \<Rightarrow> int" where
  "minutes n \<equiv> seconds (n * 60)"

abbreviation days :: "int \<Rightarrow> int" where
  "days n \<equiv> minutes (n * 60 * 24)"

subsection \<open>Python strings\<close>

text \<open>The code points for which Python's \<^verbatim>\<open>str.isspace\<close> holds; \<^verbatim>\<open>str.strip()\<close> removes these.\<close>

definition py_isspace :: "nat \<Rightarrow> bool" where
  "py_isspace c \<longleftrightarrow>
     (9 \<le> c \<and> c \<le> 13) \<or> (28 \<le> c \<and> c \<le> 32) \<or> c = 133 \<or> c = 160 \<or> c = 5760 \<or>
     (8192 \<le> c \<and> c \<le> 8202) \<or> c = 8232 \<or> c = 8233 \<or> c = 8239 \<or> c = 8287 \<or> c = 12288"

definition strip_by :: "('a \<Rightarrow> bool) \<Rightarrow> 'a list \<Rightarrow> 'a list" where
  "strip_by p xs = rev (dropWhile p (rev (dropWhile p xs)))"

definition ustrip :: "ustr \<Rightarrow> ustr" where
  "ustrip = strip_by py_isspace"

definition sspace :: "char \<Rightarrow> bool" where
  "sspace c = py_isspace (of_char c)"

definition sstrip :: "string \<Rightarrow> string" where
  "sstrip = strip_by sspace"

text \<open>\<^verbatim>\<open>not s.strip()\<close>\<close>

definition ublank :: "ustr \<Rightarrow> bool" where
  "ublank s \<longleftrightarrow> ustrip s = []"

definition sblank :: "string \<Rightarrow> bool" where
  "sblank s \<longleftrightarrow> sstrip s = []"

text \<open>A literal of the source as code points.\<close>

definition ulit :: "string \<Rightarrow> ustr" where
  "ulit s = map of_char s"

text \<open>\<^verbatim>\<open>s.startswith(p)\<close>\<close>

definition startswith :: "'a list \<Rightarrow> 'a list \<Rightarrow> bool" where
  "startswith s p \<longleftrightarrow> take (length p) s = p"

definition endswith :: "'a list \<Rightarrow> 'a list \<Rightarrow> bool" where
  "endswith s p \<longleftrightarrow> startswith (rev s) (rev p)"

subsection \<open>Sorting by a key\<close>

text \<open>
  A stable insertion sort by an integer key, ascending: what \<^verbatim>\<open>sorted(..., key=...)\<close> and an
  \<^verbatim>\<open>ORDER BY\<close> on one column return (rows that tie keep the order they were given in).
\<close>

fun insert_key :: "('a \<Rightarrow> int) \<Rightarrow> 'a \<Rightarrow> 'a list \<Rightarrow> 'a list" where
  "insert_key f x [] = [x]"
| "insert_key f x (y # ys) = (if f x \<le> f y then x # y # ys else y # insert_key f x ys)"

fun sort_by :: "('a \<Rightarrow> int) \<Rightarrow> 'a list \<Rightarrow> 'a list" where
  "sort_by f [] = []"
| "sort_by f (x # xs) = insert_key f x (sort_by f xs)"

fun sorted_on :: "('a \<Rightarrow> int) \<Rightarrow> 'a list \<Rightarrow> bool" where
  "sorted_on f [] = True"
| "sorted_on f (x # xs) = ((\<forall>y \<in> set xs. f x \<le> f y) \<and> sorted_on f xs)"

subsection \<open>Lemmas\<close>

lemma dropWhile_Nil_all: "dropWhile p xs = [] \<longleftrightarrow> (\<forall>x \<in> set xs. p x)"
  by (induction xs) auto

lemma strip_by_Nil [strip_simps]: "strip_by p xs = [] \<longleftrightarrow> (\<forall>x \<in> set xs. p x)"
proof -
  have "strip_by p xs = [] \<longleftrightarrow> (\<forall>x \<in> set (dropWhile p xs). p x)"
    by (simp add: strip_by_def dropWhile_Nil_all)
  also have "\<dots> \<longleftrightarrow> (\<forall>x \<in> set xs. p x)"
    by (induction xs) auto
  finally show ?thesis .
qed

lemma ublank_all [strip_simps]: "ublank s \<longleftrightarrow> (\<forall>c \<in> set s. py_isspace c)"
  by (simp add: ublank_def ustrip_def strip_simps)

lemma sblank_all [strip_simps]: "sblank s \<longleftrightarrow> (\<forall>c \<in> set s. sspace c)"
  by (simp add: sblank_def sstrip_def strip_simps)

lemmas blank_simps = ublank_all sblank_all sspace_def py_isspace_def

lemma ublank_append [simp]: "ublank (xs @ ys) \<longleftrightarrow> ublank xs \<and> ublank ys"
  by (auto simp: strip_simps)

lemma strip_by_keeps: "x \<in> set xs \<Longrightarrow> \<not> p x \<Longrightarrow> x \<in> set (strip_by p xs)"
proof -
  have "x \<in> set ys \<Longrightarrow> \<not> p x \<Longrightarrow> x \<in> set (dropWhile p ys)" for ys by (induction ys) auto
  then show "x \<in> set xs \<Longrightarrow> \<not> p x \<Longrightarrow> x \<in> set (strip_by p xs)" by (simp add: strip_by_def)
qed

lemma length_strip_by: "length (strip_by p xs) \<le> length xs"
proof -
  have "length (dropWhile p (rev (dropWhile p xs))) \<le> length (rev (dropWhile p xs))"
    by (rule length_dropWhile_le)
  also have "\<dots> \<le> length xs" by (simp add: length_dropWhile_le)
  finally show ?thesis by (simp add: strip_by_def)
qed

lemma dropWhile_rev_hd: "xs \<noteq> [] \<Longrightarrow> \<not> p (hd xs) \<Longrightarrow> dropWhile p (rev xs) \<noteq> [] \<and> last (dropWhile p (rev xs)) = hd xs"
  by (cases xs) (auto simp: dropWhile_append)

lemma hd_dropWhile_not: "dropWhile p xs \<noteq> [] \<Longrightarrow> \<not> p (hd (dropWhile p xs))"
  by (induction xs) auto

lemma strip_by_idem [simp]: "strip_by p (strip_by p xs) = strip_by p xs"
proof (cases "dropWhile p xs = []")
  case True
  show ?thesis unfolding strip_by_def True by simp
next
  case False
  let ?a = "dropWhile p xs"
  let ?b = "dropWhile p (rev ?a)"
  have b: "?b \<noteq> []" "last ?b = hd ?a"
    using dropWhile_rev_hd [of ?a p] hd_dropWhile_not [OF False] False by auto
  have "\<not> p (hd (rev ?b))" using b hd_dropWhile_not [OF False] by (simp add: hd_rev)
  then have "dropWhile p (rev ?b) = rev ?b" using b by (cases "rev ?b") auto
  moreover have "dropWhile p ?b = ?b"
    using b(1) hd_dropWhile_not [of p "rev ?a"] by (cases ?b) auto
  ultimately show ?thesis by (simp add: strip_by_def)
qed

lemma ublank_ustrip [simp]: "ublank (ustrip s) \<longleftrightarrow> ublank s"
  by (simp add: ublank_def ustrip_def)

lemma startswith_append [simp]: "startswith (p @ s) p"
  by (simp add: startswith_def)

lemma startswith_Nil [simp]: "startswith s []"
  by (simp add: startswith_def)

lemma startswith_length: "startswith s p \<Longrightarrow> length p \<le> length s"
  unfolding startswith_def by (metis length_take min.cobounded1)

lemma set_insert_key [simp]: "set (insert_key f x xs) = insert x (set xs)"
  by (induction xs) auto

lemma set_sort_by [simp]: "set (sort_by f xs) = set xs"
  by (induction xs) auto

lemma length_insert_key [simp]: "length (insert_key f x xs) = Suc (length xs)"
  by (induction xs) auto

lemma length_sort_by [simp]: "length (sort_by f xs) = length xs"
  by (induction xs) auto

lemma sort_by_Nil_iff [simp]: "sort_by f xs = [] \<longleftrightarrow> xs = []"
  by (metis length_0_conv length_sort_by)

lemma sorted_on_insert_key: "sorted_on f xs \<Longrightarrow> sorted_on f (insert_key f x xs)"
  by (induction xs) (auto intro: order_trans)

lemma sorted_on_sort_by [simp]: "sorted_on f (sort_by f xs)"
  by (induction xs) (auto intro: sorted_on_insert_key)

lemma distinct_insert_key: "distinct (insert_key f x xs) \<longleftrightarrow> x \<notin> set xs \<and> distinct xs"
  by (induction xs) auto

lemma distinct_sort_by [simp]: "distinct (sort_by f xs) \<longleftrightarrow> distinct xs"
  by (induction xs) (auto simp: distinct_insert_key)

lemma filter_insert_key:
  "sorted_on f xs \<Longrightarrow>
     filter p (insert_key f x xs) = (if p x then insert_key f x (filter p xs) else filter p xs)"
proof (induction xs)
  case (Cons y ys)
  have head: "insert_key f x zs = x # zs" if "\<forall>z \<in> set zs. f x \<le> f z" for zs
    using that by (cases zs) auto
  have "insert_key f x (filter p ys) = x # filter p ys" if "f x \<le> f y"
    using Cons.prems that by (intro head) auto
  with Cons show ?case by auto
qed simp

lemma filter_sort_by: "filter p (sort_by f xs) = sort_by f (filter p xs)"
  by (induction xs) (auto simp: filter_insert_key)

lemma sorted_on_append:
  "sorted_on f (xs @ ys) \<longleftrightarrow>
     sorted_on f xs \<and> sorted_on f ys \<and> (\<forall>x \<in> set xs. \<forall>y \<in> set ys. f x \<le> f y)"
  by (induction xs) auto

lemma sorted_on_filter: "sorted_on f xs \<Longrightarrow> sorted_on f (filter p xs)"
  by (induction xs) auto

lemma sort_by_cong_key: "(\<And>x. x \<in> set xs \<Longrightarrow> f x = k) \<Longrightarrow> sort_by f xs = xs"
proof (induction xs)
  case (Cons x xs)
  then have "sort_by f xs = xs" by simp
  with Cons.prems show ?case by (cases xs) auto
qed simp

lemma filter_eq_distinct: "distinct xs \<Longrightarrow> x \<in> set xs \<Longrightarrow> filter (\<lambda>y. y = x) xs = [x]"
  by (induction xs) (auto simp: filter_empty_conv)

lemma find_SomeD: "List.find P xs = Some x \<Longrightarrow> x \<in> set xs \<and> P x"
  by (auto simp: find_Some_iff)

lemma find_unique:
  assumes "x \<in> set xs" "P x" "\<And>y. y \<in> set xs \<Longrightarrow> P y \<Longrightarrow> y = x"
  shows "List.find P xs = Some x"
proof (cases "List.find P xs")
  case None then show ?thesis using assms(1,2) by (auto simp: find_None_iff)
next
  case (Some y)
  then have "y \<in> set xs" "P y" by (auto simp: find_Some_iff)
  with assms(3) Some show ?thesis by simp
qed

subsection \<open>Work that runs in ticks\<close>

text \<open>A lane's ticks, one after the other; the index tells one tick's inputs from the next.\<close>

fun ticks :: "(nat \<Rightarrow> 's \<Rightarrow> 's) \<Rightarrow> nat \<Rightarrow> 's \<Rightarrow> 's" where
  "ticks tick 0 s = s"
| "ticks tick (Suc n) s = ticks tick n (tick n s)"

text \<open>
  The contract of a lane that works off a backlog: every tick keeps the invariant and takes at
  least one off what is owed, until nothing is. Then enough ticks leave nothing owed, whatever
  the ticks' inputs are.
\<close>

locale draining =
  fixes inv :: "'s \<Rightarrow> bool" and tick :: "nat \<Rightarrow> 's \<Rightarrow> 's" and owed :: "'s \<Rightarrow> nat"
  assumes tick_inv: "inv s \<Longrightarrow> inv (tick i s)"
    and tick_owed: "inv s \<Longrightarrow> owed (tick i s) \<le> owed s - 1"
begin

lemma ticks_owed: "inv s \<Longrightarrow> inv (ticks tick n s) \<and> owed (ticks tick n s) \<le> owed s - n"
proof (induction n arbitrary: s)
  case (Suc n)
  from Suc.IH [OF tick_inv [OF Suc.prems, of n]] tick_owed [OF Suc.prems, of n] show ?case by auto
qed simp

lemma drained: "inv s \<Longrightarrow> owed s \<le> n \<Longrightarrow> inv (ticks tick n s) \<and> owed (ticks tick n s) = 0"
  using ticks_owed [of s n] by simp

end

lemma sum_list_less:
  assumes "\<And>x. x \<in> set xs \<Longrightarrow> (g x :: nat) \<le> f x" "y \<in> set xs" "g y < f y"
  shows "sum_list (map g xs) < sum_list (map f xs)"
  using assms
proof (induction xs)
  case (Cons x xs)
  have le: "sum_list (map g xs) \<le> sum_list (map f xs)" using Cons.prems(1) by (intro sum_list_mono) auto
  show ?case
  proof (cases "y = x")
    case True then show ?thesis using le Cons.prems(3) by simp
  next
    case False
    then have "sum_list (map g xs) < sum_list (map f xs)" using Cons by auto
    then show ?thesis using Cons.prems(1) [of x] by simp
  qed
qed simp

end
