(* ===== verification/Errors.thy ===== *)
theory Errors
  imports Prelude
begin

text \<open>
  The error taxonomy of \<^verbatim>\<open>dw_kernel/errors.py\<close> and its mapping onto HTTP statuses in
  \<^verbatim>\<open>dw_api/errors.py\<close> and \<^verbatim>\<open>dw_api/exception_handlers.py\<close>. An exception of the source is a value of
  \<open>dw_error\<close>, one constructor per exception class with the message it was raised with; the
  class hierarchy is the family of predicates \<open>is_domain\<close>, \<open>is_conflict\<close> and
  \<open>is_infrastructure\<close>, which decide what an \<^verbatim>\<open>except\<close> clause catches. The \<^verbatim>\<open>details\<close> dictionary
  of an exception is diagnostic text and is not carried, except where code branches on it (the
  reason of \<open>AdmissionRefusedError\<close>). Python exceptions outside the taxonomy
  are the other constructors of \<open>exc\<close>; a computation that may raise returns \<open>exc + 'a\<close>.
\<close>

datatype error_code =
    VALIDATION_FAILED | NOT_FOUND | CONFLICT | UNAUTHENTICATED | PERMISSION_DENIED
  | ENTITLEMENT_DENIED | APPROVAL_REQUIRED | TENANT_CONTEXT_MISSING | IDEMPOTENCY_CONFLICT
  | RATE_LIMITED | PAYLOAD_TOO_LARGE | UNSUPPORTED_MEDIA_TYPE | TIMEOUT
  | UPSTREAM_UNAVAILABLE | INTERNAL

datatype dw_error =
    BaseDWError string
  | DomainError string
  | ConfigError string
  | InvalidCursorError string
  | OutboundUrlError string
  | BudgetExceededError string
  | NotFoundError string
  | ConflictError string
  | AdmissionRefusedError string
  | UnauthenticatedError string
  | PermissionDeniedError string
  | EntitlementDeniedError string
  | QuotaExceededError string
  | PayloadTooLargeError string
  | UnsupportedMediaTypeError string
  | ApprovalRequiredError string
  | TenantContextMissingError string
  | IdempotencyConflictError string
  | InfrastructureError string
  | CircuitOpenError string

fun code_of :: "dw_error \<Rightarrow> error_code" where
  "code_of (BaseDWError _) = INTERNAL"
| "code_of (DomainError _) = VALIDATION_FAILED"
| "code_of (ConfigError _) = VALIDATION_FAILED"
| "code_of (InvalidCursorError _) = VALIDATION_FAILED"
| "code_of (OutboundUrlError _) = VALIDATION_FAILED"
| "code_of (BudgetExceededError _) = VALIDATION_FAILED"
| "code_of (NotFoundError _) = NOT_FOUND"
| "code_of (ConflictError _) = CONFLICT"
| "code_of (AdmissionRefusedError _) = CONFLICT"
| "code_of (UnauthenticatedError _) = UNAUTHENTICATED"
| "code_of (PermissionDeniedError _) = PERMISSION_DENIED"
| "code_of (EntitlementDeniedError _) = ENTITLEMENT_DENIED"
| "code_of (QuotaExceededError _) = RATE_LIMITED"
| "code_of (PayloadTooLargeError _) = PAYLOAD_TOO_LARGE"
| "code_of (UnsupportedMediaTypeError _) = UNSUPPORTED_MEDIA_TYPE"
| "code_of (ApprovalRequiredError _) = APPROVAL_REQUIRED"
| "code_of (TenantContextMissingError _) = TENANT_CONTEXT_MISSING"
| "code_of (IdempotencyConflictError _) = IDEMPOTENCY_CONFLICT"
| "code_of (InfrastructureError _) = UPSTREAM_UNAVAILABLE"
| "code_of (CircuitOpenError _) = UPSTREAM_UNAVAILABLE"

text \<open>The subclasses of \<^verbatim>\<open>DomainError\<close>, \<^verbatim>\<open>ConflictError\<close> and \<^verbatim>\<open>InfrastructureError\<close>.\<close>

fun is_domain :: "dw_error \<Rightarrow> bool" where
  "is_domain (DomainError _) = True"
| "is_domain (ConfigError _) = True"
| "is_domain (InvalidCursorError _) = True"
| "is_domain (OutboundUrlError _) = True"
| "is_domain (BudgetExceededError _) = True"
| "is_domain _ = False"

fun is_conflict :: "dw_error \<Rightarrow> bool" where
  "is_conflict (ConflictError _) = True"
| "is_conflict (AdmissionRefusedError _) = True"
| "is_conflict _ = False"

fun is_infrastructure :: "dw_error \<Rightarrow> bool" where
  "is_infrastructure (InfrastructureError _) = True"
| "is_infrastructure (CircuitOpenError _) = True"
| "is_infrastructure _ = False"

text \<open>\<^verbatim>\<open>type(exc).__name__\<close>\<close>

fun error_message :: "dw_error \<Rightarrow> string" where
  "error_message (BaseDWError m) = m"
| "error_message (DomainError m) = m"
| "error_message (ConfigError m) = m"
| "error_message (InvalidCursorError m) = m"
| "error_message (OutboundUrlError m) = m"
| "error_message (BudgetExceededError m) = m"
| "error_message (NotFoundError m) = m"
| "error_message (ConflictError m) = m"
| "error_message (AdmissionRefusedError m) = m"
| "error_message (UnauthenticatedError m) = m"
| "error_message (PermissionDeniedError m) = m"
| "error_message (EntitlementDeniedError m) = m"
| "error_message (QuotaExceededError m) = m"
| "error_message (PayloadTooLargeError m) = m"
| "error_message (UnsupportedMediaTypeError m) = m"
| "error_message (ApprovalRequiredError m) = m"
| "error_message (TenantContextMissingError m) = m"
| "error_message (IdempotencyConflictError m) = m"
| "error_message (InfrastructureError m) = m"
| "error_message (CircuitOpenError m) = m"

fun error_name :: "dw_error \<Rightarrow> string" where
  "error_name (BaseDWError _) = ''DWError''"
| "error_name (DomainError _) = ''DomainError''"
| "error_name (ConfigError _) = ''ConfigError''"
| "error_name (InvalidCursorError _) = ''InvalidCursorError''"
| "error_name (OutboundUrlError _) = ''OutboundUrlError''"
| "error_name (BudgetExceededError _) = ''BudgetExceededError''"
| "error_name (NotFoundError _) = ''NotFoundError''"
| "error_name (ConflictError _) = ''ConflictError''"
| "error_name (AdmissionRefusedError _) = ''AdmissionRefusedError''"
| "error_name (UnauthenticatedError _) = ''UnauthenticatedError''"
| "error_name (PermissionDeniedError _) = ''PermissionDeniedError''"
| "error_name (EntitlementDeniedError _) = ''EntitlementDeniedError''"
| "error_name (QuotaExceededError _) = ''QuotaExceededError''"
| "error_name (PayloadTooLargeError _) = ''PayloadTooLargeError''"
| "error_name (UnsupportedMediaTypeError _) = ''UnsupportedMediaTypeError''"
| "error_name (ApprovalRequiredError _) = ''ApprovalRequiredError''"
| "error_name (TenantContextMissingError _) = ''TenantContextMissingError''"
| "error_name (IdempotencyConflictError _) = ''IdempotencyConflictError''"
| "error_name (InfrastructureError _) = ''InfrastructureError''"
| "error_name (CircuitOpenError _) = ''CircuitOpenError''"

text \<open>
  Exceptions outside the taxonomy: the built-ins the sources raise, pydantic's
  \<^verbatim>\<open>ValidationError\<close>, LangGraph's \<^verbatim>\<open>GraphBubbleUp\<close> (the approval interrupt), a provider error
  with an HTTP status, and any other exception class by its name.
\<close>

datatype exc =
    DW dw_error
  | ValueError string
  | AssertionError
  | KeyError
  | TimeoutError
  | ConnectionError
  | ValidationError
  | GraphBubbleUp
  | StatusError int
  | OtherError string

type_synonym 'a res = "exc + 'a"

fun exc_name :: "exc \<Rightarrow> string" where
  "exc_name (DW e) = error_name e"
| "exc_name (ValueError _) = ''ValueError''"
| "exc_name AssertionError = ''AssertionError''"
| "exc_name KeyError = ''KeyError''"
| "exc_name TimeoutError = ''TimeoutError''"
| "exc_name ConnectionError = ''ConnectionError''"
| "exc_name ValidationError = ''ValidationError''"
| "exc_name GraphBubbleUp = ''GraphBubbleUp''"
| "exc_name (StatusError _) = ''APIStatusError''"
| "exc_name (OtherError n) = n"

abbreviation raise_dw :: "dw_error \<Rightarrow> 'a res" where
  "raise_dw e \<equiv> Inl (DW e)"

subsection \<open>HTTP statuses\<close>

fun status_for :: "error_code \<Rightarrow> int" where
  "status_for VALIDATION_FAILED = 422"
| "status_for NOT_FOUND = 404"
| "status_for CONFLICT = 409"
| "status_for UNAUTHENTICATED = 401"
| "status_for PERMISSION_DENIED = 403"
| "status_for ENTITLEMENT_DENIED = 403"
| "status_for APPROVAL_REQUIRED = 409"
| "status_for TENANT_CONTEXT_MISSING = 401"
| "status_for IDEMPOTENCY_CONFLICT = 409"
| "status_for RATE_LIMITED = 429"
| "status_for PAYLOAD_TOO_LARGE = 413"
| "status_for UNSUPPORTED_MEDIA_TYPE = 415"
| "status_for TIMEOUT = 504"
| "status_for UPSTREAM_UNAVAILABLE = 503"
| "status_for INTERNAL = 500"

text \<open>
  The response an exception becomes: its status, its code, and whether the
  \<^verbatim>\<open>WWW-Authenticate: Bearer\<close> header is attached (\<^verbatim>\<open>handle_dw_error\<close> for the taxonomy,
  \<^verbatim>\<open>handle_unexpected\<close> for everything else).
\<close>

record error_reply =
  er_status :: int
  er_code :: error_code
  er_www_authenticate :: bool

definition handle_dw_error :: "dw_error \<Rightarrow> error_reply" where
  "handle_dw_error e =
     (let status = status_for (code_of e)
      in \<lparr>er_status = status, er_code = code_of e, er_www_authenticate = (status = 401)\<rparr>)"

definition handle_unexpected :: error_reply where
  "handle_unexpected = \<lparr>er_status = 500, er_code = INTERNAL, er_www_authenticate = False\<rparr>"

definition reply_for :: "exc \<Rightarrow> error_reply" where
  "reply_for x = (case x of DW e \<Rightarrow> handle_dw_error e | _ \<Rightarrow> handle_unexpected)"

subsection \<open>Lemmas\<close>

lemma domain_code: "is_domain e \<Longrightarrow> code_of e = VALIDATION_FAILED"
  by (cases e) auto

lemma conflict_code: "is_conflict e \<Longrightarrow> code_of e = CONFLICT"
  by (cases e) auto

lemma infrastructure_code: "is_infrastructure e \<Longrightarrow> code_of e = UPSTREAM_UNAVAILABLE"
  by (cases e) auto

lemma status_bearer: "status_for c = 401 \<longleftrightarrow> c = UNAUTHENTICATED \<or> c = TENANT_CONTEXT_MISSING"
  by (cases c) auto

lemma status_server_error: "500 \<le> status_for c \<longleftrightarrow> c \<in> {TIMEOUT, UPSTREAM_UNAVAILABLE, INTERNAL}"
  by (cases c) auto

lemma error_code_server:
  "code_of e \<in> {TIMEOUT, UPSTREAM_UNAVAILABLE, INTERNAL} \<longleftrightarrow> is_infrastructure e \<or> (\<exists>m. e = BaseDWError m)"
  by (cases e) auto

end
