(* ===== verification/Circuit.thy ===== *)
theory Circuit
  imports Errors
begin

text \<open>
  The circuit breaker of \<^verbatim>\<open>dw_kernel/resilience.py\<close>: a state record, the three operations a
  caller performs on it, and runs of operations. Instants are microseconds, so
  \<^verbatim>\<open>reset_timeout_seconds\<close> is held in microseconds too. A reading of the injected clock is an
  argument of the operation that reads it.
\<close>

datatype circuit_state = Closed | Open | HalfOpen

record breaker =
  failure_threshold :: int
  reset_timeout :: int
  cb_state :: circuit_state
  consecutive_failures :: int
  opened_at :: "instant option"

definition new_breaker :: "int \<Rightarrow> int \<Rightarrow> breaker" where
  "new_breaker threshold timeout =
     \<lparr>failure_threshold = threshold, reset_timeout = timeout, cb_state = Closed,
      consecutive_failures = 0, opened_at = None\<rparr>"

definition trip :: "breaker \<Rightarrow> instant \<Rightarrow> breaker" where
  "trip b now = b\<lparr>cb_state := Open, opened_at := Some now, consecutive_failures := 0\<rparr>"

definition before_call :: "breaker \<Rightarrow> instant \<Rightarrow> breaker res" where
  "before_call b now =
     (case cb_state b of
        Closed \<Rightarrow> Inr b
      | Open \<Rightarrow>
          (case opened_at b of
             None \<Rightarrow> Inl AssertionError
           | Some t \<Rightarrow>
               (if now - t < reset_timeout b
                then raise_dw (CircuitOpenError ''circuit breaker is open'')
                else Inr (b\<lparr>cb_state := HalfOpen\<rparr>)))
      | HalfOpen \<Rightarrow> Inr b)"

definition record_success :: "breaker \<Rightarrow> breaker" where
  "record_success b = b\<lparr>cb_state := Closed, consecutive_failures := 0, opened_at := None\<rparr>"

definition record_failure :: "breaker \<Rightarrow> instant \<Rightarrow> breaker" where
  "record_failure b now =
     (if cb_state b = HalfOpen then trip b now
      else let n = consecutive_failures b + 1;
               b' = b\<lparr>consecutive_failures := n\<rparr>
           in if n \<ge> failure_threshold b then trip b' now else b')"

text \<open>
  A caller's history: a call that is attempted (the breaker answers or refuses), and the reports
  of success and failure. A refused call leaves the breaker as it was.
\<close>

datatype breaker_op = Call instant | Success | Failure instant

fun breaker_step :: "breaker \<Rightarrow> breaker_op \<Rightarrow> breaker" where
  "breaker_step b (Call now) = (case before_call b now of Inl _ \<Rightarrow> b | Inr b' \<Rightarrow> b')"
| "breaker_step b Success = record_success b"
| "breaker_step b (Failure now) = record_failure b now"

fun breaker_run :: "breaker \<Rightarrow> breaker_op list \<Rightarrow> breaker" where
  "breaker_run b [] = b"
| "breaker_run b (x # xs) = breaker_run (breaker_step b x) xs"

text \<open>
  The invariant: an open or half-open breaker remembers when it was opened (so the assertion in
  \<^verbatim>\<open>before_call\<close> never fires), a closed one remembers nothing, and the count of failures stays
  between zero and the threshold.
\<close>

definition breaker_inv :: "breaker \<Rightarrow> bool" where
  "breaker_inv b \<longleftrightarrow>
     (cb_state b = Closed \<longleftrightarrow> opened_at b = None) \<and>
     0 \<le> consecutive_failures b \<and> consecutive_failures b < failure_threshold b"

lemmas breaker_defs = before_call_def record_success_def record_failure_def trip_def

lemma breaker_inv_new: "1 \<le> threshold \<Longrightarrow> breaker_inv (new_breaker threshold timeout)"
  by (simp add: breaker_inv_def new_breaker_def)

lemma breaker_step_inv: "breaker_inv b \<Longrightarrow> breaker_inv (breaker_step b x)"
  by (cases x)
    (auto simp: breaker_inv_def breaker_defs Let_def split: circuit_state.splits option.splits)

lemma breaker_run_inv: "breaker_inv b \<Longrightarrow> breaker_inv (breaker_run b xs)"
  by (induction xs arbitrary: b) (auto intro: breaker_step_inv)

lemma breaker_run_append: "breaker_run b (xs @ ys) = breaker_run (breaker_run b xs) ys"
  by (induction xs arbitrary: b) auto

lemma breaker_step_frame:
  "failure_threshold (breaker_step b x) = failure_threshold b"
  "reset_timeout (breaker_step b x) = reset_timeout b"
  by (cases x; auto simp: breaker_defs Let_def split: circuit_state.splits option.splits)+

lemma breaker_run_frame [simp]:
  "failure_threshold (breaker_run b xs) = failure_threshold b"
  "reset_timeout (breaker_run b xs) = reset_timeout b"
  by (induction xs arbitrary: b) (auto simp: breaker_step_frame)

text \<open>Consecutive failures reported to a closed breaker are counted one by one.\<close>

lemma failures_count:
  assumes "cb_state b = Closed" "consecutive_failures b + int (length ts) < failure_threshold b"
  shows "breaker_run b (map Failure ts) =
           b\<lparr>consecutive_failures := consecutive_failures b + int (length ts)\<rparr>"
  using assms
proof (induction ts arbitrary: b)
  case (Cons t ts)
  have step: "record_failure b t = b\<lparr>consecutive_failures := consecutive_failures b + 1\<rparr>"
    using Cons.prems by (simp add: record_failure_def Let_def)
  show ?case using Cons.prems by (simp add: step Cons.IH)
qed simp

lemma fresh_breaker_opens:
  assumes "length ts + 1 = nat k" "1 \<le> k"
  shows "breaker_run (new_breaker k d) (map Failure (ts @ [t])) =
           \<lparr>failure_threshold = k, reset_timeout = d, cb_state = Open, consecutive_failures = 0,
            opened_at = Some t\<rparr>"
proof -
  have "breaker_run (new_breaker k d) (map Failure ts) =
          (new_breaker k d)\<lparr>consecutive_failures := int (length ts)\<rparr>"
    using assms by (subst failures_count) (auto simp: new_breaker_def)
  moreover have "int (length ts) + 1 = k" using assms by simp
  ultimately show ?thesis
    by (simp add: breaker_run_append new_breaker_def record_failure_def trip_def Let_def)
qed

text \<open>In the half-open state every call is admitted and admits nothing else: the state stays.\<close>

lemma half_open_calls:
  "cb_state b = HalfOpen \<Longrightarrow> breaker_run b (map Call ts) = b \<and> before_call b now = Inr b"
  by (induction ts arbitrary: b) (auto simp: before_call_def)

subsection \<open>Properties\<close>

text \<open>
  A fresh breaker with threshold \<open>k\<close> that is told of \<open>k\<close> failures in a row is open from
  the last of them; until the reset timeout has passed every call is refused with
  \<open>CircuitOpenError\<close> and changes nothing, and the first call after it is let through half-open.
  A failure of that trial opens the breaker again from the moment of the failure, whatever the
  threshold is, and a success closes it with a clean count.
\<close>

theorem breaker_lifecycle:
  assumes "length ts + 1 = nat k" "1 \<le> k" "b = breaker_run (new_breaker k d) (map Failure (ts @ [t]))"
  shows "cb_state b = Open \<and>
         (\<forall>now. now - t < d \<longrightarrow> before_call b now = raise_dw (CircuitOpenError ''circuit breaker is open'')) \<and>
         (\<forall>now. d \<le> now - t \<longrightarrow>
            (\<exists>h. before_call b now = Inr h \<and> cb_state h = HalfOpen \<and>
                 record_success h = new_breaker k d \<and>
                 (\<forall>later. cb_state (record_failure h later) = Open \<and>
                          opened_at (record_failure h later) = Some later)))"
  unfolding assms(3) fresh_breaker_opens [OF assms(1,2)]
  by (simp add: before_call_def record_success_def new_breaker_def record_failure_def trip_def)

theorem breaker_lifecycle_witness:
  "cb_state (breaker_run (new_breaker 3 (seconds 30)) (map Failure [1, 2, 9])) = Open \<and>
   before_call (breaker_run (new_breaker 3 (seconds 30)) (map Failure [1, 2, 9])) 10 =
     raise_dw (CircuitOpenError ''circuit breaker is open'')"
  using breaker_lifecycle [of "[1, 2]" 3 _ "seconds 30" 9, OF _ _ refl] by simp

text \<open>
  From a fresh breaker, no sequence of calls and reports reaches a state in which the
  assertion of \<open>before_call\<close> fails: a call is either admitted or refused with
  \<open>CircuitOpenError\<close>, and the failure count never reaches the threshold while the breaker is
  not open.
\<close>

theorem breaker_never_asserts:
  assumes "1 \<le> k"
  shows "before_call (breaker_run (new_breaker k d) ops) now \<noteq> Inl AssertionError \<and>
         consecutive_failures (breaker_run (new_breaker k d) ops) < k"
proof -
  have "breaker_inv (breaker_run (new_breaker k d) ops)"
    using assms by (intro breaker_run_inv breaker_inv_new)
  then show ?thesis
    by (auto simp: breaker_inv_def before_call_def new_breaker_def split: circuit_state.splits option.splits)
qed

theorem breaker_never_asserts_witness:
  "before_call (breaker_run (new_breaker 1 5) [Failure 0, Call 9, Failure 10]) 11 \<noteq> Inl AssertionError"
  by (rule conjunct1 [OF breaker_never_asserts]) simp

text \<open>
  The half-open state does not limit itself to one trial call: once a call has been admitted
  after the timeout, any number of further calls is admitted as long as no outcome has been
  reported, although the class promises one.
\<close>

theorem half_open_admits_any_number_of_calls:
  assumes "cb_state b = Open" "opened_at b = Some t" "reset_timeout b \<le> now - t"
  shows "\<exists>h. before_call b now = Inr h \<and>
           (\<forall>calls later. before_call (breaker_run h (map Call calls)) later = Inr h)"
proof (intro exI conjI)
  show "before_call b now = Inr (b\<lparr>cb_state := HalfOpen\<rparr>)"
    using assms by (simp add: before_call_def)
  show "\<forall>calls later. before_call (breaker_run (b\<lparr>cb_state := HalfOpen\<rparr>) (map Call calls)) later =
          Inr (b\<lparr>cb_state := HalfOpen\<rparr>)"
    by (simp add: half_open_calls)
qed

theorem half_open_admits_any_number_of_calls_witness:
  "\<exists>h. before_call (trip (new_breaker 5 30) 0) 40 = Inr h \<and>
     before_call (breaker_run h (map Call [41, 42, 43])) 44 = Inr h"
proof -
  have "cb_state (trip (new_breaker 5 30) 0) = Open" "opened_at (trip (new_breaker 5 30) 0) = Some 0"
    "reset_timeout (trip (new_breaker 5 30) 0) \<le> 40 - 0"
    by (simp_all add: trip_def new_breaker_def)
  from half_open_admits_any_number_of_calls [OF this] show ?thesis by blast
qed

end
