(* ===== verification/Overlay.thy ===== *)
theory Overlay
  imports Errors "HOL-Library.AList"
begin

text \<open>
  The two-layer lookup of \<^verbatim>\<open>dw_kernel/overlay.py\<close> (a tenant's own version of an artifact, else the
  platform's) and the toolset registry of \<^verbatim>\<open>dw_agent_runtime/toolsets.py\<close> built on it. A Python
  dict is an association list: \<open>map_of\<close> reads it, \<open>AList.update\<close> writes it (an existing key keeps
  its place, a new one goes to the end), and iterating it yields the entries in that order. The
  contract the registries rely on is the locale \<open>layered_lookup\<close>, interpreted on the overlay.
\<close>

type_synonym ('k, 'v) dict = "('k \<times> 'v) list"

record ('k, 'v) overlay =
  ov_platform :: "('k, 'v) dict"
  ov_tenants :: "(uuid, ('k, 'v) dict) dict"

definition empty_overlay :: "('k, 'v) overlay" where
  "empty_overlay = \<lparr>ov_platform = [], ov_tenants = []\<rparr>"

text \<open>
  \<^verbatim>\<open>_layer\<close> reads a layer and, for a tenant seen for the first time, inserts an empty one
  (\<^verbatim>\<open>setdefault\<close>), so reading a layer returns the overlay as well.
\<close>

definition ov_layer :: "('k, 'v) overlay \<Rightarrow> uuid option \<Rightarrow> ('k, 'v) dict \<times> ('k, 'v) overlay" where
  "ov_layer ov tid =
     (case tid of
        None \<Rightarrow> (ov_platform ov, ov)
      | Some t \<Rightarrow>
          (case map_of (ov_tenants ov) t of
             Some d \<Rightarrow> (d, ov)
           | None \<Rightarrow> ([], ov\<lparr>ov_tenants := AList.update t [] (ov_tenants ov)\<rparr>)))"

definition ov_existing :: "('k, 'v) overlay \<Rightarrow> 'k \<Rightarrow> uuid option \<Rightarrow> 'v option \<times> ('k, 'v) overlay" where
  "ov_existing ov k tid = (let (d, ov') = ov_layer ov tid in (map_of d k, ov'))"

definition ov_put :: "('k, 'v) overlay \<Rightarrow> 'k \<Rightarrow> 'v \<Rightarrow> uuid option \<Rightarrow> ('k, 'v) overlay" where
  "ov_put ov k v tid =
     (let (d, ov') = ov_layer ov tid; d' = AList.update k v d
      in case tid of
           None \<Rightarrow> ov'\<lparr>ov_platform := d'\<rparr>
         | Some t \<Rightarrow> ov'\<lparr>ov_tenants := AList.update t d' (ov_tenants ov')\<rparr>)"

definition ov_get :: "('k, 'v) overlay \<Rightarrow> 'k \<Rightarrow> uuid option \<Rightarrow> 'v option" where
  "ov_get ov k tid =
     (case tid of
        None \<Rightarrow> map_of (ov_platform ov) k
      | Some t \<Rightarrow>
          (case map_of (case map_of (ov_tenants ov) t of None \<Rightarrow> [] | Some d \<Rightarrow> d) k of
             Some own \<Rightarrow> Some own
           | None \<Rightarrow> map_of (ov_platform ov) k))"

definition ov_platform_values :: "('k, 'v) overlay \<Rightarrow> 'v list" where
  "ov_platform_values ov = map snd (ov_platform ov)"

subsection \<open>The toolset registry\<close>

record tool_pin =
  pin_name :: string
  pin_version :: string

record toolset =
  ts_schema_version :: string
  ts_id :: string
  ts_version :: string
  ts_tools :: "tool_pin list"

record loaded_toolset =
  lt_toolset :: toolset
  lt_checksum :: string
  lt_source_path :: string

fun split_on :: "char \<Rightarrow> string \<Rightarrow> string list" where
  "split_on c [] = [[]]"
| "split_on c (x # xs) =
     (if x = c then [] # split_on c xs
      else case split_on c xs of [] \<Rightarrow> [[x]] | w # ws \<Rightarrow> (x # w) # ws)"

definition ascii_digit :: "char \<Rightarrow> bool" where
  "ascii_digit c = (48 \<le> (of_char c :: nat) \<and> (of_char c :: nat) \<le> 57)"

text \<open>\<^verbatim>\<open>_SEMVER_PATTERN = r"^\d+\.\d+\.\d+$"\<close>\<close>

definition is_semver :: "string \<Rightarrow> bool" where
  "is_semver v =
     (let ws = split_on (CHR ''.'') v
      in length ws = 3 \<and> (\<forall>w \<in> set ws. w \<noteq> [] \<and> list_all ascii_digit w))"

text \<open>\<^verbatim>\<open>Toolset.model_validate\<close>: the declared patterns, a non-empty list of tools, and
  \<^verbatim>\<open>one_version_per_name\<close>.\<close>

definition toolset_names :: "toolset \<Rightarrow> string list" where
  "toolset_names t = map pin_name (ts_tools t)"

definition one_version_per_name :: "toolset \<Rightarrow> bool" where
  "one_version_per_name t =
     (\<forall>n \<in> set (toolset_names t). \<not> count_list (toolset_names t) n > 1)"

definition toolset_valid :: "toolset \<Rightarrow> bool" where
  "toolset_valid t \<longleftrightarrow>
     ts_schema_version t = ''1.0'' \<and> is_semver (ts_version t) \<and> ts_tools t \<noteq> [] \<and>
     (\<forall>p \<in> set (ts_tools t). is_semver (pin_version p)) \<and> one_version_per_name t"

definition toolset_pins :: "toolset \<Rightarrow> (string \<times> string) list" where
  "toolset_pins t = map (\<lambda>p. (pin_name p, pin_version p)) (ts_tools t)"

type_synonym toolset_registry = "(string \<times> string, loaded_toolset) overlay"

definition toolset_register ::
  "toolset_registry \<Rightarrow> loaded_toolset \<Rightarrow> uuid option \<Rightarrow> toolset_registry res" where
  "toolset_register reg loaded tid =
     (let key = (ts_id (lt_toolset loaded), ts_version (lt_toolset loaded));
          (existing, reg') = ov_existing reg key tid
      in case existing of
           Some _ \<Rightarrow> raise_dw (ConfigError ''toolset already registered'')
         | None \<Rightarrow> Inr (ov_put reg' key loaded tid))"

text \<open>
  A file is its path and its bytes; \<open>parse\<close> stands for the YAML reader (\<open>None\<close> is a
  \<^verbatim>\<open>YAMLError\<close> or a structural validation error), \<open>digest\<close> for SHA-256.
\<close>

definition toolset_load_file ::
  "('raw \<Rightarrow> toolset option) \<Rightarrow> ('raw \<Rightarrow> string) \<Rightarrow> toolset_registry \<Rightarrow> string \<times> 'raw \<Rightarrow> uuid option
     \<Rightarrow> (toolset_registry \<times> loaded_toolset) res" where
  "toolset_load_file parse digest reg file tid =
     (case parse (snd file) of
        None \<Rightarrow> raise_dw (ConfigError ''toolset invalid'')
      | Some t \<Rightarrow>
          (if \<not> toolset_valid t then raise_dw (ConfigError ''toolset invalid'')
           else let loaded = \<lparr>lt_toolset = t, lt_checksum = digest (snd file), lt_source_path = fst file\<rparr>
                in case toolset_register reg loaded tid of
                     Inl e \<Rightarrow> Inl e
                   | Inr reg' \<Rightarrow> Inr (reg', loaded)))"

text \<open>\<^verbatim>\<open>load_directory\<close> loads the files in path order; the list given here is that sorted listing.\<close>

fun toolset_load_directory ::
  "('raw \<Rightarrow> toolset option) \<Rightarrow> ('raw \<Rightarrow> string) \<Rightarrow> toolset_registry \<Rightarrow> (string \<times> 'raw) list \<Rightarrow> uuid option
     \<Rightarrow> (toolset_registry \<times> loaded_toolset list) res" where
  "toolset_load_directory parse digest reg [] tid = Inr (reg, [])"
| "toolset_load_directory parse digest reg (f # fs) tid =
     (case toolset_load_file parse digest reg f tid of
        Inl e \<Rightarrow> Inl e
      | Inr (reg', loaded) \<Rightarrow>
          (case toolset_load_directory parse digest reg' fs tid of
             Inl e \<Rightarrow> Inl e
           | Inr (reg'', rest) \<Rightarrow> Inr (reg'', loaded # rest)))"

definition toolset_resolve ::
  "toolset_registry \<Rightarrow> string \<Rightarrow> string \<Rightarrow> uuid option \<Rightarrow> toolset res" where
  "toolset_resolve reg tsid v tid =
     (case ov_get reg (tsid, v) tid of
        None \<Rightarrow> raise_dw (NotFoundError ''toolset not registered'')
      | Some loaded \<Rightarrow> Inr (lt_toolset loaded))"

subsection \<open>The contract of a layered lookup\<close>

text \<open>
  \<open>own ov k tid\<close> is the value layer \<open>tid\<close> itself holds for \<open>k\<close>. The client of an overlay needs
  two laws: a lookup is the tenant's own value, else the platform's; and a \<open>put\<close> changes exactly
  one key of one layer.
\<close>

locale layered_lookup =
  fixes own :: "'o \<Rightarrow> 'k \<Rightarrow> uuid option \<Rightarrow> 'v option"
    and look :: "'o \<Rightarrow> 'k \<Rightarrow> uuid option \<Rightarrow> 'v option"
    and put :: "'o \<Rightarrow> 'k \<Rightarrow> 'v \<Rightarrow> uuid option \<Rightarrow> 'o"
  assumes look_eq: "look ov k tid = (case own ov k tid of Some v \<Rightarrow> Some v | None \<Rightarrow> own ov k None)"
    and own_put: "own (put ov k v tid) k' tid' = (if k' = k \<and> tid' = tid then Some v else own ov k' tid')"
begin

lemma look_cong: "own ov k tid = own ov' k tid \<Longrightarrow> own ov k None = own ov' k None \<Longrightarrow> look ov k tid = look ov' k tid"
  by (simp add: look_eq split: option.splits)

lemma look_put_same: "look (put ov k v tid) k tid = Some v"
  by (simp add: look_eq own_put)

lemma look_put_isolated: "t \<noteq> t' \<Longrightarrow> look (put ov k v (Some t)) k' (Some t') = look ov k' (Some t')"
  by (simp add: look_eq own_put split: option.splits)

lemma look_put_platform_kept: "look (put ov k v (Some t)) k' None = look ov k' None"
  by (simp add: look_eq own_put split: option.splits)

lemma look_put_default:
  "look (put ov k v None) k (Some t) = (case own ov k (Some t) of Some w \<Rightarrow> Some w | None \<Rightarrow> Some v)"
  by (simp add: look_eq own_put split: option.splits)

lemma look_put_other_key: "k' \<noteq> k \<Longrightarrow> look (put ov k v tid) k' tid' = look ov k' tid'"
  by (simp add: look_eq own_put split: option.splits)

end

lemma map_of_update_at: "map_of (AList.update k v d) k' = (if k' = k then Some v else map_of d k')"
  by (simp add: update_conv)

definition ov_own :: "('k, 'v) overlay \<Rightarrow> 'k \<Rightarrow> uuid option \<Rightarrow> 'v option" where
  "ov_own ov k tid = fst (ov_existing ov k tid)"

lemma ov_own_layers:
  "ov_own ov k None = map_of (ov_platform ov) k"
  "ov_own ov k (Some t) = map_of (case map_of (ov_tenants ov) t of None \<Rightarrow> [] | Some d \<Rightarrow> d) k"
  by (auto simp: ov_own_def ov_existing_def ov_layer_def split: option.splits)

lemma ov_own_after_read: "ov_own (snd (ov_existing ov k tid)) k' tid' = ov_own ov k' tid'"
  by (cases tid')
    (auto simp: ov_own_layers ov_existing_def ov_layer_def map_of_update_at split: option.splits)

interpretation tenant_overlay: layered_lookup ov_own ov_get ov_put
proof
  show "ov_get ov k tid = (case ov_own ov k tid of None \<Rightarrow> ov_own ov k None | Some v \<Rightarrow> Some v)"
    for ov :: "('a, 'b) overlay" and k tid
    by (cases tid) (auto simp: ov_get_def ov_own_layers split: option.splits)
  show "ov_own (ov_put ov k v tid) k' tid' = (if k' = k \<and> tid' = tid then Some v else ov_own ov k' tid')"
    for ov :: "('a, 'b) overlay" and k v tid k' tid'
    by (cases tid; cases tid')
      (auto simp: ov_put_def ov_layer_def ov_own_layers map_of_update_at Let_def split: option.splits)
qed

subsection \<open>The registry\<close>

abbreviation toolset_key :: "loaded_toolset \<Rightarrow> string \<times> string" where
  "toolset_key l \<equiv> (ts_id (lt_toolset l), ts_version (lt_toolset l))"

lemma toolset_register_eq:
  "toolset_register reg loaded tid =
     (case ov_own reg (toolset_key loaded) tid of
        Some _ \<Rightarrow> raise_dw (ConfigError ''toolset already registered'')
      | None \<Rightarrow> Inr (ov_put (snd (ov_existing reg (toolset_key loaded) tid)) (toolset_key loaded) loaded tid))"
  by (auto simp: toolset_register_def ov_own_def Let_def split: prod.splits option.splits)

lemma toolset_register_ok:
  assumes "toolset_register reg loaded tid = Inr reg'"
  shows "ov_own reg (toolset_key loaded) tid = None"
    and "ov_own reg' k tid' =
           (if k = toolset_key loaded \<and> tid' = tid then Some loaded else ov_own reg k tid')"
  using assms
  by (auto simp: toolset_register_eq tenant_overlay.own_put ov_own_after_read split: option.splits)

lemma toolset_register_dup:
  "ov_own reg (toolset_key loaded) tid \<noteq> None \<Longrightarrow>
     toolset_register reg loaded tid = raise_dw (ConfigError ''toolset already registered'')"
  by (auto simp: toolset_register_eq)

lemma one_version_distinct: "one_version_per_name t \<longleftrightarrow> distinct (toolset_names t)"
proof -
  have "distinct xs \<longleftrightarrow> (\<forall>x \<in> set xs. \<not> count_list xs x > 1)" for xs :: "string list"
  proof (induction xs)
    case (Cons x xs)
    have "x \<in> set xs \<longleftrightarrow> 0 < count_list xs x" using count_list_0_iff [of xs x] by auto
    moreover have "y \<in> set xs" if "count_list xs y > 1" for y
      using that count_list_0_iff [of xs y] by auto
    ultimately show ?case using Cons by (auto split: if_splits)
  qed simp
  then show ?thesis by (simp add: one_version_per_name_def)
qed

definition registry_valid :: "toolset_registry \<Rightarrow> bool" where
  "registry_valid reg \<longleftrightarrow> (\<forall>k tid l. ov_own reg k tid = Some l \<longrightarrow> toolset_valid (lt_toolset l))"

lemma registry_valid_empty: "registry_valid empty_overlay"
  unfolding registry_valid_def
proof (intro allI)
  show "ov_own empty_overlay k tid = Some l \<longrightarrow> toolset_valid (lt_toolset l)" for k tid l
    by (cases tid) (simp_all add: empty_overlay_def ov_own_layers)
qed

lemma toolset_load_file_valid:
  assumes "toolset_load_file parse digest reg f tid = Inr (reg', loaded)" "registry_valid reg"
  shows "registry_valid reg'" "toolset_valid (lt_toolset loaded)"
proof -
  from assms(1) have valid: "toolset_valid (lt_toolset loaded)" and reg: "toolset_register reg loaded tid = Inr reg'"
    by (auto simp: toolset_load_file_def Let_def split: option.splits if_splits sum.splits)
  show "toolset_valid (lt_toolset loaded)" by (rule valid)
  show "registry_valid reg'"
    using assms(2) valid by (auto simp: registry_valid_def toolset_register_ok(2) [OF reg] split: if_splits)
qed

lemma toolset_load_directory_valid:
  "toolset_load_directory parse digest reg fs tid = Inr (reg', ls) \<Longrightarrow> registry_valid reg \<Longrightarrow>
     registry_valid reg'"
  by (induction fs arbitrary: reg reg' ls)
    (auto split: sum.splits dest!: toolset_load_file_valid(1))

lemma registry_valid_resolve:
  "registry_valid reg \<Longrightarrow> toolset_resolve reg i v tid = Inr t \<Longrightarrow> toolset_valid t"
  by (auto simp: registry_valid_def toolset_resolve_def tenant_overlay.look_eq split: option.splits)

subsection \<open>Properties\<close>

text \<open>
  Registering a toolset for a tenant and resolving it gives that toolset back to that tenant,
  and nothing else changes for anyone: what the platform and every other tenant resolve, under
  any id and version, is what they resolved before. Registering the same id and version twice in
  one layer is refused.
\<close>

theorem toolset_override_isolated:
  assumes "toolset_register reg loaded (Some t) = Inr reg'"
  shows "toolset_resolve reg' (ts_id (lt_toolset loaded)) (ts_version (lt_toolset loaded)) (Some t)
           = Inr (lt_toolset loaded)
       \<and> (\<forall>i v. toolset_resolve reg' i v None = toolset_resolve reg i v None)
       \<and> (\<forall>i v t'. t' \<noteq> t \<longrightarrow> toolset_resolve reg' i v (Some t') = toolset_resolve reg i v (Some t'))
       \<and> toolset_register reg' loaded (Some t) = raise_dw (ConfigError ''toolset already registered'')"
proof -
  note ok = toolset_register_ok(2) [OF assms]
  have same: "toolset_resolve reg' i v tid = toolset_resolve reg i v tid" if "tid \<noteq> Some t" for i v tid
  proof -
    have "ov_get reg' (i, v) tid = ov_get reg (i, v) tid"
      using that by (intro tenant_overlay.look_cong) (simp_all add: ok)
    then show ?thesis by (simp add: toolset_resolve_def)
  qed
  moreover have "ov_get reg' (toolset_key loaded) (Some t) = Some loaded"
    by (simp add: tenant_overlay.look_eq ok)
  moreover have "toolset_register reg' loaded (Some t) = raise_dw (ConfigError ''toolset already registered'')"
    by (rule toolset_register_dup) (simp add: ok)
  ultimately show ?thesis by (simp add: toolset_resolve_def)
qed

definition sample_toolset :: "string \<Rightarrow> loaded_toolset" where
  "sample_toolset tool =
     \<lparr>lt_toolset = \<lparr>ts_schema_version = ''1.0'', ts_id = ''crm'', ts_version = ''1.0.0'',
        ts_tools = [\<lparr>pin_name = tool, pin_version = ''1.0.0''\<rparr>]\<rparr>,
      lt_checksum = ''c'', lt_source_path = ''crm.yaml''\<rparr>"

definition sample_registry :: toolset_registry where
  "sample_registry = ov_put empty_overlay (''crm'', ''1.0.0'') (sample_toolset ''task.read'') None"

theorem toolset_override_isolated_witness:
  "\<exists>reg'. toolset_register sample_registry (sample_toolset ''task.write'') (Some 7) = Inr reg' \<and>
     toolset_resolve reg' ''crm'' ''1.0.0'' (Some 7) = Inr (lt_toolset (sample_toolset ''task.write'')) \<and>
     toolset_resolve reg' ''crm'' ''1.0.0'' (Some 8) = Inr (lt_toolset (sample_toolset ''task.read''))"
proof -
  have "\<not> isl (toolset_register sample_registry (sample_toolset ''task.write'') (Some 7))"
    by code_simp
  then obtain reg' where reg': "toolset_register sample_registry (sample_toolset ''task.write'') (Some 7) = Inr reg'"
    by (cases "toolset_register sample_registry (sample_toolset ''task.write'') (Some 7)") auto
  have "toolset_resolve sample_registry ''crm'' ''1.0.0'' (Some 8) = Inr (lt_toolset (sample_toolset ''task.read''))"
    by code_simp
  then show ?thesis
    using reg' toolset_override_isolated [OF reg'] by (auto simp: sample_toolset_def)
qed

text \<open>
  A registry filled from a directory of toolset files only ever hands out valid toolsets, to
  any caller: no tool appears in two versions, so the names of a resolved toolset are distinct.
\<close>

theorem toolset_directory_resolves_valid:
  assumes "toolset_load_directory parse digest empty_overlay files tid = Inr (reg, ls)"
    and "toolset_resolve reg i v tid' = Inr t"
  shows "toolset_valid t \<and> distinct (toolset_names t)"
proof -
  have "toolset_valid t"
    using toolset_load_directory_valid [OF assms(1) registry_valid_empty] assms(2)
    by (rule registry_valid_resolve)
  then show ?thesis by (simp add: toolset_valid_def one_version_distinct)
qed

definition sample_directory :: "(toolset_registry \<times> loaded_toolset list) res" where
  "sample_directory =
     toolset_load_directory (\<lambda>r. Some (lt_toolset (sample_toolset r))) (\<lambda>r. ''c'') empty_overlay
       [(''crm.yaml'', ''task.read'')] None"

theorem toolset_directory_resolves_valid_witness:
  "\<not> isl sample_directory \<and>
     toolset_resolve (fst (projr sample_directory)) ''crm'' ''1.0.0'' (Some 3) =
       Inr (lt_toolset (sample_toolset ''task.read'')) \<and>
     toolset_valid (lt_toolset (sample_toolset ''task.read''))"
proof -
  have ok: "\<not> isl sample_directory" by code_simp
  have res: "toolset_resolve (fst (projr sample_directory)) ''crm'' ''1.0.0'' (Some 3) =
      Inr (lt_toolset (sample_toolset ''task.read''))" by code_simp
  from ok have load: "toolset_load_directory (\<lambda>r. Some (lt_toolset (sample_toolset r))) (\<lambda>r. ''c'') empty_overlay
      [(''crm.yaml'', ''task.read'')] None = Inr (fst (projr sample_directory), snd (projr sample_directory))"
    unfolding sample_directory_def by (simp add: sum.collapse(2))
  from toolset_directory_resolves_valid [OF load res] ok res show ?thesis by simp
qed

end
