(* ===== verification/Access.thy ===== *)
theory Access
  imports Errors Complex_Main
begin

text \<open>
  Who is calling and what they may do: the access context
  (\<^verbatim>\<open>dw_platform/application/access_context.py\<close>), scope authorization and the audience of an
  approval (\<^verbatim>\<open>authorization.py\<close>), plan entitlements (\<^verbatim>\<open>entitlement.py\<close>) and the tenancy entities
  with their construction checks (\<^verbatim>\<open>domain/entities.py\<close>). The autonomy levels of
  \<^verbatim>\<open>dw_kernel/autonomy.py\<close> are a linearly ordered datatype. Python's \<^verbatim>\<open>frozenset\<close> is a \<open>set\<close>, a
  \<^verbatim>\<open>Decimal\<close> is a rational.
\<close>

subsection \<open>Autonomy levels\<close>

datatype autonomy_level = A0 | A1 | A2 | A3 | A4

definition AUTONOMY_LEVELS :: "autonomy_level list" where
  "AUTONOMY_LEVELS = [A0, A1, A2, A3, A4]"

definition NO_TENANT_CEILING :: autonomy_level where
  "NO_TENANT_CEILING = A4"

definition FAIL_CLOSED_LEVEL :: autonomy_level where
  "FAIL_CLOSED_LEVEL = A0"

text \<open>\<^verbatim>\<open>AUTONOMY_LEVELS.index(level)\<close>\<close>

fun level_index :: "autonomy_level \<Rightarrow> nat" where
  "level_index A0 = 0"
| "level_index A1 = 1"
| "level_index A2 = 2"
| "level_index A3 = 3"
| "level_index A4 = 4"

lemma level_index_is_position: "AUTONOMY_LEVELS ! level_index l = l"
  by (cases l) (simp_all add: AUTONOMY_LEVELS_def)

lemma level_index_inj: "level_index a = level_index b \<longleftrightarrow> a = b"
  by (cases a; cases b) auto

instantiation autonomy_level :: linorder
begin

definition less_eq_autonomy_level :: "autonomy_level \<Rightarrow> autonomy_level \<Rightarrow> bool" where
  "less_eq_autonomy_level a b \<longleftrightarrow> level_index a \<le> level_index b"

definition less_autonomy_level :: "autonomy_level \<Rightarrow> autonomy_level \<Rightarrow> bool" where
  "less_autonomy_level a b \<longleftrightarrow> level_index a < level_index b"

instance
  by standard (auto simp: less_eq_autonomy_level_def less_autonomy_level_def level_index_inj)

end

subsection \<open>The access context\<close>

record support_scope =
  ss_grant_id :: uuid
  ss_code :: string
  ss_resource_type :: string
  ss_resource_id :: "uuid option"
  ss_scope_set_key :: string

record access_context =
  ac_tenant_id :: uuid
  ac_workspace_id :: uuid
  ac_principal_id :: uuid
  ac_roles :: "string set"
  ac_groups :: "string set"
  ac_scopes :: "string set"
  ac_clearance :: string
  ac_plan_id :: string
  ac_feature_flags :: "string set"
  ac_record_visibility :: string
  ac_visible_owners :: "uuid set option"
  ac_max_autonomy_level :: autonomy_level
  ac_support :: "support_scope option"

text \<open>The constructor: the defaults of the fields a caller leaves out, then \<^verbatim>\<open>_non_empty\<close>.\<close>

definition access_context_defaults :: "uuid \<Rightarrow> uuid \<Rightarrow> uuid \<Rightarrow> string set \<Rightarrow> string \<Rightarrow> access_context" where
  "access_context_defaults tenant workspace who roles plan =
     \<lparr>ac_tenant_id = tenant, ac_workspace_id = workspace, ac_principal_id = who,
      ac_roles = roles, ac_groups = {}, ac_scopes = {}, ac_clearance = ''internal'',
      ac_plan_id = plan, ac_feature_flags = {}, ac_record_visibility = ''open'',
      ac_visible_owners = None, ac_max_autonomy_level = FAIL_CLOSED_LEVEL, ac_support = None\<rparr>"

definition access_context_check :: "access_context \<Rightarrow> access_context res" where
  "access_context_check c =
     (if sblank (ac_plan_id c) \<or> sblank (ac_clearance c) then Inl ValidationError else Inr c)"

definition has_scope :: "access_context \<Rightarrow> string \<Rightarrow> bool" where
  "has_scope c s \<longleftrightarrow> s \<in> ac_scopes c"

definition has_any_role :: "access_context \<Rightarrow> string list \<Rightarrow> bool" where
  "has_any_role c roles \<longleftrightarrow> (\<exists>r \<in> set roles. r \<in> ac_roles c)"

definition ctx_has_feature :: "access_context \<Rightarrow> string \<Rightarrow> bool" where
  "ctx_has_feature c f \<longleftrightarrow> f \<in> ac_feature_flags c"

subsection \<open>Authorization\<close>

definition PLATFORM_ADMIN_ROLE :: string where
  "PLATFORM_ADMIN_ROLE = ''platform_admin''"

definition APPROVALS_DECIDE :: string where
  "APPROVALS_DECIDE = ''approvals.decide''"

definition holds_stamped_scope :: "access_context \<Rightarrow> string option \<Rightarrow> bool" where
  "holds_stamped_scope c required = (case required of None \<Rightarrow> True | Some s \<Rightarrow> has_scope c s)"

definition permission_denied :: dw_error where
  "permission_denied = PermissionDeniedError ''action not permitted''"

text \<open>\<^verbatim>\<open>ScopeAuthorizationService\<close> is its \<^verbatim>\<open>admin_role\<close>.\<close>

definition is_allowed :: "string \<Rightarrow> access_context \<Rightarrow> string \<Rightarrow> bool" where
  "is_allowed admin_role c action =
     (if admin_role \<in> ac_roles c then True else action \<in> ac_scopes c)"

definition require_scope :: "string \<Rightarrow> access_context \<Rightarrow> string \<Rightarrow> unit res" where
  "require_scope admin_role c action =
     (if is_allowed admin_role c action then Inr () else raise_dw permission_denied)"

text \<open>\<^verbatim>\<open>ApprovalAudience\<close>: the caller, and whether \<open>is_allowed\<close> grants them \<open>APPROVALS_DECIDE\<close>.\<close>

record approval_audience =
  aud_context :: access_context
  aud_holds_decide :: bool

definition audience_of :: "access_context \<Rightarrow> string \<Rightarrow> approval_audience" where
  "audience_of c admin_role = \<lparr>aud_context = c, aud_holds_decide = is_allowed admin_role c APPROVALS_DECIDE\<rparr>"

text \<open>The two questions are asked of a request by its stamp and its requester.\<close>

definition may_decide :: "approval_audience \<Rightarrow> string option \<Rightarrow> bool" where
  "may_decide a required \<longleftrightarrow> aud_holds_decide a \<and> holds_stamped_scope (aud_context a) required"

definition may_see :: "approval_audience \<Rightarrow> string option \<Rightarrow> uuid \<Rightarrow> bool" where
  "may_see a required requested_by \<longleftrightarrow>
     required = None \<or> requested_by = ac_principal_id (aud_context a) \<or> may_decide a required"

text \<open>The repository's WHERE clause for the same question (\<^verbatim>\<open>repositories.visible_to\<close>).\<close>

definition visible_to :: "approval_audience \<Rightarrow> string option \<Rightarrow> uuid \<Rightarrow> bool" where
  "visible_to a required requested_by \<longleftrightarrow>
     (let decidable = (if aud_holds_decide a
                       then (case required of None \<Rightarrow> False | Some s \<Rightarrow> s \<in> ac_scopes (aud_context a))
                       else False)
      in required = None \<or> requested_by = ac_principal_id (aud_context a) \<or> decidable)"

subsection \<open>Plans and entitlements\<close>

record plan =
  plan_id :: string
  plan_name :: string
  plan_features :: "string set"
  plan_quotas :: "(string \<times> int) list"
  plan_spend_usd_per_day :: "rat option"

definition make_plan :: "plan \<Rightarrow> plan res" where
  "make_plan p =
     (if sblank (plan_id p) then Inl (ValueError ''plan_id must not be blank'')
      else if \<exists>q \<in> set (plan_quotas p). snd q < 0 then Inl (ValueError ''quota must be >= 0'')
      else case plan_spend_usd_per_day p of
             Some d \<Rightarrow> if d < 0 then Inl (ValueError ''spend_usd_per_day must be >= 0'') else Inr p
           | None \<Rightarrow> Inr p)"

definition DEFAULT_PLANS :: "(string \<times> plan) list" where
  "DEFAULT_PLANS =
     [(''basic'',
        \<lparr>plan_id = ''basic'', plan_name = ''Basic'', plan_features = {''knowledge_search''},
         plan_quotas = [(''runs_per_day'', 20)], plan_spend_usd_per_day = None\<rparr>),
      (''professional'',
        \<lparr>plan_id = ''professional'', plan_name = ''Professional'', plan_features = {''knowledge_search''},
         plan_quotas = [(''runs_per_day'', 200)], plan_spend_usd_per_day = None\<rparr>),
      (''enterprise'',
        \<lparr>plan_id = ''enterprise'', plan_name = ''Enterprise'',
         plan_features = {''knowledge_search'', ''audit_export''},
         plan_quotas = [(''runs_per_day'', 2000)], plan_spend_usd_per_day = None\<rparr>)]"

type_synonym plans = "(string \<times> plan) list"

definition plan_has_feature :: "plans \<Rightarrow> access_context \<Rightarrow> string \<Rightarrow> bool" where
  "plan_has_feature plans c feature =
     (if ctx_has_feature c feature then True
      else case map_of plans (ac_plan_id c) of None \<Rightarrow> False | Some p \<Rightarrow> feature \<in> plan_features p)"

definition runs_per_day :: "plans \<Rightarrow> string \<Rightarrow> int option" where
  "runs_per_day plans pid =
     (case map_of plans pid of None \<Rightarrow> Some 0 | Some p \<Rightarrow> map_of (plan_quotas p) ''runs_per_day'')"

definition spend_usd_per_day :: "plans \<Rightarrow> string \<Rightarrow> rat option" where
  "spend_usd_per_day plans pid =
     (case map_of plans pid of None \<Rightarrow> Some 0 | Some p \<Rightarrow> plan_spend_usd_per_day p)"

definition require_feature :: "plans \<Rightarrow> access_context \<Rightarrow> string \<Rightarrow> unit res" where
  "require_feature plans c feature =
     (if plan_has_feature plans c feature then Inr ()
      else raise_dw (EntitlementDeniedError ''plan does not include this capability''))"

record entitlement =
  ent_tenant_id :: uuid
  ent_plan_id :: string
  ent_feature_overrides :: "string set"

definition effective_features :: "entitlement \<Rightarrow> plan \<Rightarrow> string set res" where
  "effective_features e p =
     (if plan_id p \<noteq> ent_plan_id e then Inl (ValueError ''plan does not match entitlement'')
      else Inr (plan_features p \<union> ent_feature_overrides e))"

subsection \<open>Tenancy entities\<close>

definition lower_or_digit :: "char \<Rightarrow> bool" where
  "lower_or_digit c =
     (let n = (of_char c :: nat) in (97 \<le> n \<and> n \<le> 122) \<or> (48 \<le> n \<and> n \<le> 57))"

text \<open>\<^verbatim>\<open>_SLUG_PATTERN = ^[a-z0-9][a-z0-9-]{1,62}[a-z0-9]$\<close>, matched whole\<close>

definition is_slug :: "string \<Rightarrow> bool" where
  "is_slug s \<longleftrightarrow>
     3 \<le> length s \<and> length s \<le> 64 \<and> lower_or_digit (hd s) \<and> lower_or_digit (last s) \<and>
     list_all (\<lambda>c. lower_or_digit c \<or> c = CHR ''-'') (butlast (tl s))"

text \<open>The role key pattern \<^verbatim>\<open>[a-z][a-z0-9_]{1,62}\<close>, matched whole\<close>

definition is_role_key :: "string \<Rightarrow> bool" where
  "is_role_key s \<longleftrightarrow>
     2 \<le> length s \<and> length s \<le> 63 \<and> (let n = (of_char (hd s) :: nat) in 97 \<le> n \<and> n \<le> 122) \<and>
     list_all (\<lambda>c. lower_or_digit c \<or> c = CHR ''_'') (tl s)"

definition check_tenant :: "string \<Rightarrow> string \<Rightarrow> unit res" where
  "check_tenant slug name =
     (if \<not> is_slug slug then Inl (ValueError ''tenant slug must match the slug pattern'')
      else if sblank name then Inl (ValueError ''tenant name must not be blank'') else Inr ())"

definition check_workspace :: "string \<Rightarrow> string \<Rightarrow> unit res" where
  "check_workspace slug name =
     (if \<not> is_slug slug then Inl (ValueError ''workspace slug must match the slug pattern'')
      else if sblank name then Inl (ValueError ''workspace name must not be blank'') else Inr ())"

definition check_user :: "string \<Rightarrow> string \<Rightarrow> unit res" where
  "check_user subject display_name =
     (if sblank subject then Inl (ValueError ''user subject must not be blank'')
      else if sblank display_name then Inl (ValueError ''user display_name must not be blank'')
      else Inr ())"

record role =
  role_key :: string
  role_name :: string
  role_scopes :: "string set"

definition make_role :: "role \<Rightarrow> role res" where
  "make_role r =
     (if is_role_key (role_key r) then Inr r else Inl (ValueError ''role key must be snake_case''))"

record membership =
  mem_id :: uuid
  mem_tenant_id :: uuid
  mem_workspace_id :: uuid
  mem_user_id :: uuid
  mem_role_keys :: "string set"
  mem_clearance :: string

definition make_membership :: "membership \<Rightarrow> membership res" where
  "make_membership m =
     (if mem_role_keys m = {} then Inl (ValueError ''membership requires at least one role'') else Inr m)"

subsection \<open>Lemmas\<close>

lemma is_allowed_iff: "is_allowed r c a \<longleftrightarrow> r \<in> ac_roles c \<or> a \<in> ac_scopes c"
  by (simp add: is_allowed_def)

lemma require_scope_ok [simp]: "require_scope r c a = Inr () \<longleftrightarrow> is_allowed r c a"
  by (simp add: require_scope_def)

lemma may_decide_may_see: "may_decide a s \<Longrightarrow> may_see a s u"
  by (simp add: may_see_def)

lemma audience_simps [simp]:
  "aud_context (audience_of c r) = c"
  "aud_holds_decide (audience_of c r) = is_allowed r c APPROVALS_DECIDE"
  by (simp_all add: audience_of_def)

lemma visible_to_eq_may_see: "visible_to = may_see"
  by (intro ext)
    (auto simp: visible_to_def may_see_def may_decide_def holds_stamped_scope_def has_scope_def
      split: option.splits)

lemma default_plans_valid: "\<forall>(k, p) \<in> set DEFAULT_PLANS. make_plan p = Inr p \<and> plan_id p = k"
  by (auto simp: DEFAULT_PLANS_def make_plan_def strip_simps sspace_def py_isspace_def)

lemma unknown_plan_spends_nothing:
  "map_of plans pid = None \<Longrightarrow> runs_per_day plans pid = Some 0 \<and> spend_usd_per_day plans pid = Some 0"
  by (simp add: runs_per_day_def spend_usd_per_day_def)

subsection \<open>Properties\<close>

text \<open>
  The SQL filter of the approval repository and \<open>ApprovalAudience.may_see\<close> are the same rule,
  for every caller, stamp and requester; and it hides exactly the stamped requests of others that
  the caller may not decide. In particular the platform-admin role alone never reveals a stamped
  request: a caller outside the stamp's scope sees only their own.
\<close>

theorem approval_visibility_agrees:
  "visible_to (audience_of c r) required who = may_see (audience_of c r) required who \<and>
   (\<not> visible_to (audience_of c r) required who \<longleftrightarrow>
      (\<exists>s. required = Some s \<and> who \<noteq> ac_principal_id c \<and>
           \<not> (s \<in> ac_scopes c \<and> is_allowed r c APPROVALS_DECIDE)))"
  by (auto simp: visible_to_eq_may_see may_see_def may_decide_def holds_stamped_scope_def has_scope_def
      split: option.splits)

text \<open>
  Authorization and entitlement are separate answers: neither the roles nor the scopes of a
  caller change what their plan includes, and neither the plan nor the feature flags change what
  they may do. A plan the catalogue does not know grants no feature beyond the tenant's own
  flags, no run and no spend.
\<close>

theorem entitlement_independent_of_authorization:
  "plan_has_feature plans (c\<lparr>ac_roles := roles, ac_scopes := scopes\<rparr>) f = plan_has_feature plans c f \<and>
   is_allowed r (c\<lparr>ac_plan_id := p, ac_feature_flags := flags\<rparr>) action = is_allowed r c action \<and>
   (map_of plans (ac_plan_id c) = None \<longrightarrow>
      (require_feature plans c f = Inr () \<longleftrightarrow> f \<in> ac_feature_flags c) \<and>
      runs_per_day plans (ac_plan_id c) = Some 0 \<and> spend_usd_per_day plans (ac_plan_id c) = Some 0)"
  by (auto simp: plan_has_feature_def ctx_has_feature_def is_allowed_def require_feature_def
      unknown_plan_spends_nothing split: option.splits)

definition sample_context :: access_context where
  "sample_context = (access_context_defaults 1 2 3 {''seller''} ''trial'')\<lparr>ac_scopes := {''leads.read''}\<rparr>"

theorem entitlement_independent_of_authorization_witness:
  "map_of DEFAULT_PLANS (ac_plan_id sample_context) = None \<and>
   require_feature DEFAULT_PLANS sample_context ''knowledge_search'' \<noteq> Inr () \<and>
   runs_per_day DEFAULT_PLANS (ac_plan_id sample_context) = Some 0"
proof -
  have unknown: "map_of DEFAULT_PLANS (ac_plan_id sample_context) = None"
    by (simp add: DEFAULT_PLANS_def sample_context_def access_context_defaults_def)
  have "''knowledge_search'' \<notin> ac_feature_flags sample_context"
    by (simp add: sample_context_def access_context_defaults_def)
  with unknown show ?thesis
    using entitlement_independent_of_authorization [where plans = DEFAULT_PLANS and c = sample_context] by blast
qed

end
