(* ===== verification/Autonomy.thy ===== *)
theory Autonomy
  imports Access Overlay
begin

text \<open>
  The runtime contracts of \<^verbatim>\<open>dw_agent_runtime/contracts.py\<close> (tool, worker and run descriptions
  with their validators), the tool registry of \<^verbatim>\<open>tools.py\<close>, and the approval decision of
  \<^verbatim>\<open>autonomy.py\<close>: whether a tool call waits for a person.
\<close>

subsection \<open>Contracts\<close>

datatype side_effect_level = Effect_none | Effect_internal | Effect_external | Effect_critical
datatype approval_policy = Policy_never | Policy_conditional | Policy_always

record tool_definition =
  td_name :: string
  td_version :: string
  td_description :: string
  td_input_schema_ref :: string
  td_output_schema_ref :: string
  td_required_scopes :: "string set"
  td_side_effect_level :: side_effect_level
  td_approval_policy :: approval_policy
  td_timeout_seconds :: int
  td_max_retries :: int
  td_idempotent :: bool
  td_data_classification :: "string set"

record worker_definition =
  wd_worker_id :: string
  wd_worker_version :: string
  wd_domain :: string
  wd_graph_version :: string
  wd_prompt_bundle_version :: string
  wd_toolset_version :: "string option"
  wd_policy_version :: string
  wd_memory_policy_version :: string
  wd_default_model_profile :: string
  wd_supported_channels :: "string set"
  wd_autonomy_level :: autonomy_level
  wd_recursion_limit :: int
  wd_agent_prompt_id :: "string option"
  wd_agent_prompt_version :: "string option"

record run_context =
  rc_run_id :: uuid
  rc_thread_id :: "uuid option"
  rc_tenant_id :: uuid
  rc_workspace_id :: uuid
  rc_actor_id :: uuid
  rc_worker_id :: string
  rc_worker_version :: string
  rc_channel :: string
  rc_plan_id :: string
  rc_roles :: "string set"
  rc_scopes :: "string set"
  rc_clearance :: string
  rc_record_visibility :: string
  rc_visible_owners :: "uuid set option"
  rc_trace_id :: string
  rc_locale :: string
  rc_subject_ref :: "string option"
  rc_autonomy_ceiling :: autonomy_level
  rc_autonomy_level :: "autonomy_level option"
  rc_approval_policy_version :: "string option"

definition never_is_honest_for :: "side_effect_level set" where
  "never_is_honest_for = {Effect_none, Effect_internal}"

definition approval_policy_disagrees_with_side_effect :: "approval_policy \<Rightarrow> side_effect_level \<Rightarrow> bool" where
  "approval_policy_disagrees_with_side_effect p s \<longleftrightarrow> p = Policy_never \<and> s \<notin> never_is_honest_for"

text \<open>\<^verbatim>\<open>_SLUG_PATTERN = r"^[a-z][a-z0-9_]*$"\<close>\<close>

definition is_domain_slug :: "string \<Rightarrow> bool" where
  "is_domain_slug s =
     (case s of [] \<Rightarrow> False
      | c # cs \<Rightarrow> (let n = (of_char c :: nat) in 97 \<le> n \<and> n \<le> 122) \<and>
                 list_all (\<lambda>c. lower_or_digit c \<or> c = CHR ''_'') cs)"

definition tool_definition_valid :: "tool_definition \<Rightarrow> bool" where
  "tool_definition_valid d \<longleftrightarrow>
     is_semver (td_version d) \<and> 0 < td_timeout_seconds d \<and> td_timeout_seconds d \<le> 600 \<and>
     0 \<le> td_max_retries d \<and> td_max_retries d \<le> 10 \<and>
     CHR ''.'' \<in> set (td_name d) \<and> \<not> startswith (td_name d) ''.'' \<and> \<not> endswith (td_name d) ''.'' \<and>
     \<not> approval_policy_disagrees_with_side_effect (td_approval_policy d) (td_side_effect_level d)"

definition opt_semver :: "string option \<Rightarrow> bool" where
  "opt_semver v = (case v of None \<Rightarrow> True | Some s \<Rightarrow> is_semver s)"

definition worker_definition_valid :: "worker_definition \<Rightarrow> bool" where
  "worker_definition_valid w \<longleftrightarrow>
     is_semver (wd_worker_version w) \<and> is_domain_slug (wd_domain w) \<and> is_semver (wd_graph_version w) \<and>
     is_semver (wd_prompt_bundle_version w) \<and> opt_semver (wd_toolset_version w) \<and>
     is_semver (wd_policy_version w) \<and> is_semver (wd_memory_policy_version w) \<and>
     0 < wd_recursion_limit w \<and> wd_recursion_limit w \<le> 500 \<and> opt_semver (wd_agent_prompt_version w) \<and>
     (wd_agent_prompt_id w = None) = (wd_agent_prompt_version w = None) \<and>
     \<not> sblank (wd_worker_id w) \<and> \<not> sblank (wd_default_model_profile w)"

definition always_requires_approval :: "tool_definition \<Rightarrow> bool" where
  "always_requires_approval d \<longleftrightarrow>
     td_approval_policy d = Policy_always \<or> td_side_effect_level d = Effect_critical"

text \<open>\<^verbatim>\<open>access_context_from_run\<close>: the fields a run does not carry take the context's defaults.\<close>

definition access_context_from_run :: "run_context \<Rightarrow> access_context" where
  "access_context_from_run r =
     (access_context_defaults (rc_tenant_id r) (rc_workspace_id r) (rc_actor_id r) (rc_roles r) (rc_plan_id r))
     \<lparr>ac_scopes := rc_scopes r, ac_clearance := rc_clearance r,
      ac_record_visibility := rc_record_visibility r, ac_visible_owners := rc_visible_owners r,
      ac_max_autonomy_level := rc_autonomy_ceiling r\<rparr>"

subsection \<open>The tool registry\<close>

text \<open>
  A registered tool: its definition, its two schemas as validators (\<open>None\<close> is a
  \<^verbatim>\<open>ValidationError\<close>) and its handler. \<open>'j\<close> is the type of JSON payloads, \<open>'w\<close> the world the
  handler acts on.
\<close>

record ('j, 'w) registered_tool =
  rt_definition :: tool_definition
  rt_input_model :: "'j \<Rightarrow> 'j option"
  rt_output_model :: "'j \<Rightarrow> 'j option"
  rt_handler :: "'j \<Rightarrow> run_context \<Rightarrow> 'w \<Rightarrow> 'j res \<times> 'w"

type_synonym ('j, 'w) tool_registry = "(string \<times> string, ('j, 'w) registered_tool) dict"

definition tool_key :: "('j, 'w) registered_tool \<Rightarrow> string \<times> string" where
  "tool_key t = (td_name (rt_definition t), td_version (rt_definition t))"

definition tool_register ::
  "('j, 'w) tool_registry \<Rightarrow> ('j, 'w) registered_tool \<Rightarrow> ('j, 'w) tool_registry res" where
  "tool_register reg t =
     (if tool_key t \<in> fst ` set reg then raise_dw (ConfigError ''tool already registered'')
      else Inr (AList.update (tool_key t) t reg))"

definition tool_resolve ::
  "('j, 'w) tool_registry \<Rightarrow> string \<Rightarrow> string \<Rightarrow> ('j, 'w) registered_tool res" where
  "tool_resolve reg name version =
     (case map_of reg (name, version) of
        None \<Rightarrow> raise_dw (NotFoundError ''tool version not registered'')
      | Some t \<Rightarrow> Inr t)"

definition all_definitions :: "('j, 'w) tool_registry \<Rightarrow> tool_definition list" where
  "all_definitions reg = map (rt_definition \<circ> snd) reg"

fun definitions_for ::
  "('j, 'w) tool_registry \<Rightarrow> (string \<times> string) list \<Rightarrow> tool_definition list res" where
  "definitions_for reg [] = Inr []"
| "definitions_for reg ((name, version) # pins) =
     (case tool_resolve reg name version of
        Inl e \<Rightarrow> Inl e
      | Inr t \<Rightarrow>
          (case definitions_for reg pins of
             Inl e \<Rightarrow> Inl e
           | Inr ds \<Rightarrow> Inr (rt_definition t # ds)))"

subsection \<open>The approval decision\<close>

definition AUTONOMY_POLICY_VERSION :: string where
  "AUTONOMY_POLICY_VERSION = ''1.0.0''"

text \<open>The ladder's rungs: \<open>external_idempotent\<close> is a rung of its own below \<open>external\<close>.\<close>

datatype rung = Rung_none | Rung_internal | Rung_external_idempotent | Rung_external | Rung_critical

fun RUNG :: "rung \<Rightarrow> int" where
  "RUNG Rung_none = 0"
| "RUNG Rung_internal = 1"
| "RUNG Rung_external_idempotent = 2"
| "RUNG Rung_external = 3"
| "RUNG Rung_critical = 4"

fun REACH :: "autonomy_level \<Rightarrow> int" where
  "REACH A0 = -1"
| "REACH A1 = RUNG Rung_none"
| "REACH A2 = RUNG Rung_internal"
| "REACH A3 = RUNG Rung_external_idempotent"
| "REACH A4 = RUNG Rung_external"

definition lower_autonomy :: "autonomy_level \<Rightarrow> autonomy_level \<Rightarrow> autonomy_level" where
  "lower_autonomy first second = (if level_index first \<le> level_index second then first else second)"

fun effect_rung :: "side_effect_level \<Rightarrow> rung" where
  "effect_rung Effect_none = Rung_none"
| "effect_rung Effect_internal = Rung_internal"
| "effect_rung Effect_external = Rung_external"
| "effect_rung Effect_critical = Rung_critical"

definition rung_of :: "tool_definition \<Rightarrow> int" where
  "rung_of d =
     (if td_side_effect_level d = Effect_external \<and> td_idempotent d then RUNG Rung_external_idempotent
      else RUNG (effect_rung (td_side_effect_level d)))"

definition requires_approval :: "tool_definition \<Rightarrow> autonomy_level option \<Rightarrow> bool" where
  "requires_approval d autonomy =
     (if td_approval_policy d = Policy_always \<or> td_side_effect_level d = Effect_critical then True
      else case autonomy of None \<Rightarrow> True | Some l \<Rightarrow> rung_of d > REACH l)"

definition policy_decide :: "string \<Rightarrow> tool_definition \<Rightarrow> run_context \<Rightarrow> bool" where
  "policy_decide policy_version d r =
     (case rc_approval_policy_version r of
        Some stamped \<Rightarrow>
          (if stamped \<noteq> policy_version then True else requires_approval d (rc_autonomy_level r))
      | None \<Rightarrow> requires_approval d (rc_autonomy_level r))"

subsection \<open>Lemmas\<close>

lemma lower_autonomy_min: "lower_autonomy = min"
  by (intro ext) (simp add: lower_autonomy_def min_def less_eq_autonomy_level_def)

lemma REACH_mono: "l \<le> l' \<Longrightarrow> REACH l \<le> REACH l'"
  by (cases l; cases l') (auto simp: less_eq_autonomy_level_def)

lemma REACH_below_critical: "REACH l < RUNG Rung_critical"
  by (cases l) auto

lemma always_floor: "always_requires_approval d \<Longrightarrow> requires_approval d a"
  by (auto simp: always_requires_approval_def requires_approval_def)

lemma requires_approval_antimono:
  "requires_approval d (Some l') \<Longrightarrow> l \<le> l' \<Longrightarrow> requires_approval d (Some l)"
  using REACH_mono [of l l'] by (auto simp: requires_approval_def split: if_splits)

lemma tool_register_ok:
  "tool_register reg t = Inr reg' \<Longrightarrow>
     map_of reg' k = (if k = tool_key t then Some t else map_of reg k) \<and> map_of reg (tool_key t) = None"
  by (auto simp: tool_register_def map_of_update_at map_of_eq_None_iff split: if_splits)

lemma definitions_for_names:
  "definitions_for reg pins = Inr ds \<Longrightarrow> \<forall>(k, t) \<in> set reg. tool_key t = k \<Longrightarrow>
     map (\<lambda>d. (td_name d, td_version d)) ds = pins"
proof (induction pins arbitrary: ds)
  case (Cons p pins)
  obtain n v where p: "p = (n, v)" by (cases p)
  from Cons.prems(1) obtain t ds' where t: "map_of reg (n, v) = Some t"
    and ds: "ds = rt_definition t # ds'" "definitions_for reg pins = Inr ds'"
    by (auto simp: p tool_resolve_def split: option.splits sum.splits)
  from map_of_SomeD [OF t] Cons.prems(2) have "tool_key t = (n, v)" by auto
  with ds Cons show ?case by (simp add: p tool_key_def)
qed simp

subsection \<open>Properties\<close>

text \<open>The product table of \<^verbatim>\<open>autonomy.py\<close>, cell by cell: \<open>True\<close> is "ask".\<close>

fun approval_table :: "side_effect_level \<Rightarrow> bool \<Rightarrow> autonomy_level \<Rightarrow> bool" where
  "approval_table Effect_none i l = (l = A0)"
| "approval_table Effect_internal i l = (l = A0 \<or> l = A1)"
| "approval_table Effect_external i l = (l = A0 \<or> l = A1 \<or> l = A2 \<or> l = A3 \<and> \<not> i)"
| "approval_table Effect_critical i l = True"

text \<open>
  C25: The ladder of rungs computes exactly the documented table: for every tool whose author did
  not declare \<open>always\<close> and every resolved level, a call waits for a person iff the cell of its side
  effect (and idempotence) and the run's level says "ask"; \<open>always\<close> and \<open>critical\<close> ask at every
  level; and a run whose level was never resolved, or that is stamped with another policy
  version, asks for everything.
\<close>

theorem approval_ladder_is_the_table:
  "requires_approval d (Some l) =
     (td_approval_policy d = Policy_always \<or> approval_table (td_side_effect_level d) (td_idempotent d) l) \<and>
   requires_approval d None \<and>
   (policy_decide v d r \<longleftrightarrow>
      (\<exists>stamped. rc_approval_policy_version r = Some stamped \<and> stamped \<noteq> v) \<or>
      requires_approval d (rc_autonomy_level r))"
proof -
  have "requires_approval d (Some l) =
     (td_approval_policy d = Policy_always \<or> approval_table (td_side_effect_level d) (td_idempotent d) l)"
    by (cases "td_side_effect_level d"; cases l) (auto simp: requires_approval_def rung_of_def)
  moreover have "requires_approval d None" by (simp add: requires_approval_def)
  ultimately show ?thesis by (auto simp: policy_decide_def split: option.splits)
qed

text \<open>
  A tenant's ceiling only ever adds questions: a run at the lower of the worker's level and
  the ceiling asks about everything the worker would ask about at its own level, and about
  everything a worker at the ceiling would; the lower level is one of the two and not above
  either; and no level at all runs a critical tool unasked.
\<close>

theorem ceiling_only_restricts:
  "lower_autonomy w c \<in> {w, c} \<and> lower_autonomy w c \<le> w \<and> lower_autonomy w c \<le> c \<and>
   (requires_approval d (Some w) \<or> requires_approval d (Some c) \<longleftrightarrow>
      requires_approval d (Some (lower_autonomy w c))) \<and>
   (td_side_effect_level d = Effect_critical \<longrightarrow> policy_decide v d r)"
proof -
  have "requires_approval d (Some w) \<or> requires_approval d (Some c) \<longleftrightarrow>
      requires_approval d (Some (min w c))"
    using requires_approval_antimono [of d w "min w c"] requires_approval_antimono [of d c "min w c"]
    by (auto simp: min_def split: if_splits)
  moreover have "td_side_effect_level d = Effect_critical \<longrightarrow> policy_decide v d r"
    by (auto simp: policy_decide_def requires_approval_def split: option.splits)
  ultimately show ?thesis by (auto simp: lower_autonomy_min min_def)
qed

definition sample_tool_definition :: tool_definition where
  "sample_tool_definition =
     \<lparr>td_name = ''email.send'', td_version = ''1.0.0'', td_description = ''send'',
      td_input_schema_ref = ''in'', td_output_schema_ref = ''out'', td_required_scopes = {''email.send''},
      td_side_effect_level = Effect_critical, td_approval_policy = Policy_conditional,
      td_timeout_seconds = 30, td_max_retries = 2, td_idempotent = True, td_data_classification = {}\<rparr>"

definition sample_run_context :: run_context where
  "sample_run_context =
     \<lparr>rc_run_id = 10, rc_thread_id = None, rc_tenant_id = 1, rc_workspace_id = 2, rc_actor_id = 3,
      rc_worker_id = ''w'', rc_worker_version = ''1.0.0'', rc_channel = ''web'', rc_plan_id = ''basic'',
      rc_roles = {}, rc_scopes = {''email.send''}, rc_clearance = ''internal'',
      rc_record_visibility = ''open'', rc_visible_owners = None, rc_trace_id = ''t'',
      rc_locale = ''vi-VN'', rc_subject_ref = None, rc_autonomy_ceiling = A4,
      rc_autonomy_level = Some A4, rc_approval_policy_version = Some ''1.0.0''\<rparr>"

theorem ceiling_only_restricts_witness:
  "td_side_effect_level sample_tool_definition = Effect_critical \<and>
   policy_decide AUTONOMY_POLICY_VERSION sample_tool_definition sample_run_context \<and>
   lower_autonomy A4 A1 \<le> A1"
  using ceiling_only_restricts [of A4 A1 sample_tool_definition AUTONOMY_POLICY_VERSION sample_run_context]
  by (simp add: sample_tool_definition_def)

text \<open>
  A tool that passes validation with \<open>approval_policy = never\<close> reaches nothing outside: its
  side effect is none or internal, so from level A2 on it indeed never asks, and below it the
  tenant's ceiling still does.
\<close>

theorem never_is_an_honest_claim:
  assumes "tool_definition_valid d" "td_approval_policy d = Policy_never"
  shows "td_side_effect_level d \<in> {Effect_none, Effect_internal} \<and>
         (A2 \<le> l \<longrightarrow> \<not> requires_approval d (Some l)) \<and> requires_approval d (Some A0)"
  using assms
  by (cases l; cases "td_side_effect_level d")
    (auto simp: tool_definition_valid_def approval_policy_disagrees_with_side_effect_def
      never_is_honest_for_def requires_approval_def rung_of_def less_eq_autonomy_level_def)

theorem never_is_an_honest_claim_witness:
  "tool_definition_valid (sample_tool_definition\<lparr>td_approval_policy := Policy_never, td_side_effect_level := Effect_internal\<rparr>) \<and>
   \<not> requires_approval (sample_tool_definition\<lparr>td_approval_policy := Policy_never, td_side_effect_level := Effect_internal\<rparr>) (Some A3)"
proof -
  let ?d = "sample_tool_definition\<lparr>td_approval_policy := Policy_never, td_side_effect_level := Effect_internal\<rparr>"
  have v: "tool_definition_valid ?d"
    by (simp add: tool_definition_valid_def sample_tool_definition_def is_semver_def ascii_digit_def
        startswith_def endswith_def approval_policy_disagrees_with_side_effect_def never_is_honest_for_def)
  moreover have "A2 \<le> A3" by (simp add: less_eq_autonomy_level_def)
  ultimately show ?thesis using never_is_an_honest_claim [OF v, of A3] by simp
qed

end
