(* ===== verification/Idempotency.thy ===== *)
theory Idempotency
  imports Access
begin

text \<open>
  Replay protection for HTTP requests: the service of \<^verbatim>\<open>dw_platform/application/idempotency.py\<close>, its
  SQL store (\<^verbatim>\<open>adapters/persistence/idempotency_store.py\<close>) and the request dependency of
  \<^verbatim>\<open>dw_api/dependencies/idempotency.py\<close>. The port the service is given is a record of the four
  store operations, each one atomic (each commits its own transaction); what a store promises is
  the locale \<open>idempotency_store\<close>, interpreted on the model of the SQL store. The last part is a
  transition system of concurrent requests whose steps are single store operations. \<open>'j\<close> is the
  type of JSON bodies; SHA-256 is a parameter.
\<close>

subsection \<open>Fingerprints, responses, rows\<close>

record fingerprint =
  fp_method :: string
  fp_path :: string
  fp_workspace_id :: uuid
  fp_body_hash :: string

text \<open>\<^verbatim>\<open>str.upper\<close> on a method name, which is ASCII.\<close>

definition ascii_upper :: "string \<Rightarrow> string" where
  "ascii_upper s =
     map (\<lambda>c. if 97 \<le> (of_char c :: nat) \<and> (of_char c :: nat) \<le> 122 then char_of (of_char c - 32 :: nat) else c) s"

definition fingerprint_of :: "('b \<Rightarrow> string) \<Rightarrow> string \<Rightarrow> string \<Rightarrow> uuid \<Rightarrow> 'b \<Rightarrow> fingerprint" where
  "fingerprint_of sha256 method path workspace body =
     \<lparr>fp_method = ascii_upper method, fp_path = path, fp_workspace_id = workspace, fp_body_hash = sha256 body\<rparr>"

record 'j stored_response =
  sr_status_code :: int
  sr_body :: "'j option"

record 'j reserved_key =
  rk_fingerprint :: fingerprint
  rk_response :: "'j stored_response option"

definition STALE_RESERVATION :: int where
  "STALE_RESERVATION = minutes 5"

subsection \<open>The port and the service\<close>

type_synonym store_key = "uuid \<times> string"

record ('s, 'j) store_port =
  port_reserve :: "'s \<Rightarrow> instant \<Rightarrow> store_key \<Rightarrow> fingerprint \<Rightarrow> 'j reserved_key option \<times> 's"
  port_take_over :: "'s \<Rightarrow> instant \<Rightarrow> store_key \<Rightarrow> instant \<Rightarrow> bool \<times> 's"
  port_complete :: "'s \<Rightarrow> instant \<Rightarrow> store_key \<Rightarrow> 'j stored_response \<Rightarrow> 's"
  port_release :: "'s \<Rightarrow> store_key \<Rightarrow> 's"

text \<open>
  \<^verbatim>\<open>HttpIdempotency.claim\<close>: \<open>Inr None\<close> means the caller owns the key, \<open>Inr (Some r)\<close> that \<open>r\<close> is
  to be returned instead of running the handler. \<open>db\<close> is the database's clock, \<open>now\<close> the
  service's.
\<close>

definition claim ::
  "('s, 'j) store_port \<Rightarrow> 's \<Rightarrow> instant \<Rightarrow> instant \<Rightarrow> store_key \<Rightarrow> fingerprint
     \<Rightarrow> 'j stored_response option res \<times> 's" where
  "claim port st db now k fp =
     (let (existing, st') = port_reserve port st db k fp
      in case existing of
           None \<Rightarrow> (Inr None, st')
         | Some e \<Rightarrow>
             (if rk_fingerprint e \<noteq> fp
              then (raise_dw (IdempotencyConflictError ''idempotency key already used for a different request''), st')
              else case rk_response e of
                     Some r \<Rightarrow> (Inr (Some r), st')
                   | None \<Rightarrow>
                       (let (won, st'') = port_take_over port st' db k (now - STALE_RESERVATION)
                        in if won then (Inr None, st'')
                           else (raise_dw (ConflictError ''a request with this idempotency key is still in progress''), st''))))"

subsection \<open>The SQL store\<close>

record 'j key_row =
  kr_workspace_id :: uuid
  kr_request_method :: string
  kr_request_path :: string
  kr_body_hash :: string
  kr_response_status :: "int option"
  kr_response_body :: "'j option"
  kr_created_at :: instant
  kr_completed_at :: "instant option"

type_synonym 'j key_table = "store_key \<Rightarrow> 'j key_row option"

definition row_fingerprint :: "'j key_row \<Rightarrow> fingerprint" where
  "row_fingerprint r =
     \<lparr>fp_method = kr_request_method r, fp_path = kr_request_path r,
      fp_workspace_id = kr_workspace_id r, fp_body_hash = kr_body_hash r\<rparr>"

definition row_response :: "'j key_row \<Rightarrow> 'j stored_response option" where
  "row_response r =
     (case kr_response_status r of
        Some s \<Rightarrow> Some \<lparr>sr_status_code = s, sr_body = kr_response_body r\<rparr>
      | None \<Rightarrow> None)"

definition sql_reserve ::
  "'j key_table \<Rightarrow> instant \<Rightarrow> store_key \<Rightarrow> fingerprint \<Rightarrow> 'j reserved_key option \<times> 'j key_table" where
  "sql_reserve tab db k fp =
     (case tab k of
        None \<Rightarrow>
          (None, tab(k \<mapsto> \<lparr>kr_workspace_id = fp_workspace_id fp, kr_request_method = fp_method fp,
             kr_request_path = fp_path fp, kr_body_hash = fp_body_hash fp, kr_response_status = None,
             kr_response_body = None, kr_created_at = db, kr_completed_at = None\<rparr>))
      | Some row \<Rightarrow>
          (Some \<lparr>rk_fingerprint = row_fingerprint row, rk_response = row_response row\<rparr>, tab))"

definition sql_take_over :: "'j key_table \<Rightarrow> instant \<Rightarrow> store_key \<Rightarrow> instant \<Rightarrow> bool \<times> 'j key_table" where
  "sql_take_over tab db k older_than =
     (case tab k of
        None \<Rightarrow> (False, tab)
      | Some row \<Rightarrow>
          (if kr_completed_at row = None \<and> kr_created_at row \<le> older_than
           then (True, tab(k \<mapsto> row\<lparr>kr_created_at := db\<rparr>)) else (False, tab)))"

definition sql_complete ::
  "'j key_table \<Rightarrow> instant \<Rightarrow> store_key \<Rightarrow> 'j stored_response \<Rightarrow> 'j key_table" where
  "sql_complete tab db k resp =
     (case tab k of
        None \<Rightarrow> tab
      | Some row \<Rightarrow>
          (if kr_completed_at row = None
           then tab(k \<mapsto> row\<lparr>kr_response_status := Some (sr_status_code resp),
                              kr_response_body := sr_body resp, kr_completed_at := Some db\<rparr>)
           else tab))"

definition sql_release :: "'j key_table \<Rightarrow> store_key \<Rightarrow> 'j key_table" where
  "sql_release tab k =
     (case tab k of
        None \<Rightarrow> tab
      | Some row \<Rightarrow> (if kr_completed_at row = None then tab(k := None) else tab))"

definition sql_port :: "('j key_table, 'j) store_port" where
  "sql_port = \<lparr>port_reserve = sql_reserve, port_take_over = sql_take_over,
               port_complete = sql_complete, port_release = sql_release\<rparr>"

text \<open>A row has a response exactly when it is completed: the store writes both or neither.\<close>

definition table_ok :: "'j key_table \<Rightarrow> bool" where
  "table_ok tab \<longleftrightarrow> (\<forall>k row. tab k = Some row \<longrightarrow> (kr_response_status row = None \<longleftrightarrow> kr_completed_at row = None))"

subsection \<open>The request dependency\<close>

definition MAX_KEY_LENGTH :: nat where
  "MAX_KEY_LENGTH = 255"

text \<open>\<^verbatim>\<open>_key\<close>: the header, stripped; blank is no key, too long is refused.\<close>

definition header_key :: "string option \<Rightarrow> string option res" where
  "header_key h =
     (let key = sstrip (case h of None \<Rightarrow> [] | Some s \<Rightarrow> s)
      in if length key > MAX_KEY_LENGTH
         then raise_dw (DomainError ''Idempotency-Key must be at most 255 characters'')
         else Inr (if key = [] then None else Some key))"

text \<open>\<^verbatim>\<open>_target\<close>: the path, with the query string when there is one.\<close>

definition request_target :: "string \<Rightarrow> string \<Rightarrow> string" where
  "request_target path query = (if query = [] then path else path @ ''?'' @ query)"

record 'j operation =
  op_configured :: bool
  op_key :: "store_key option"
  op_claimed :: bool
  op_recorded :: bool

datatype 'j claim_result = Claimed "'j operation" | ReplayedResponse "'j stored_response" | ClaimRaised exc

definition op_claim ::
  "('s, 'j) store_port \<Rightarrow> 's \<Rightarrow> instant \<Rightarrow> instant \<Rightarrow> 'j operation \<Rightarrow> fingerprint \<Rightarrow> 'j claim_result \<times> 's" where
  "op_claim port st db now op fp =
     (if \<not> op_configured op then (Claimed op, st)
      else case op_key op of
             None \<Rightarrow> (Claimed op, st)
           | Some k \<Rightarrow>
               (case claim port st db now k fp of
                  (Inl e, st') \<Rightarrow> (ClaimRaised e, st')
                | (Inr (Some r), st') \<Rightarrow> (ReplayedResponse r, st')
                | (Inr None, st') \<Rightarrow> (Claimed (op\<lparr>op_claimed := True\<rparr>), st')))"

definition op_store ::
  "('s, 'j) store_port \<Rightarrow> 's \<Rightarrow> instant \<Rightarrow> 'j operation \<Rightarrow> 'j stored_response \<Rightarrow> ('j operation \<times> 's) res" where
  "op_store port st db op resp =
     (if \<not> op_claimed op then Inr (op, st)
      else case op_key op of
             None \<Rightarrow> Inl AssertionError
           | Some k \<Rightarrow> Inr (op\<lparr>op_recorded := True\<rparr>, port_complete port st db k resp))"

definition abandon_unless_recorded :: "('s, 'j) store_port \<Rightarrow> 's \<Rightarrow> 'j operation \<Rightarrow> 's res" where
  "abandon_unless_recorded port st op =
     (if \<not> op_claimed op \<or> op_recorded op then Inr st
      else case op_key op of
             None \<Rightarrow> Inl AssertionError
           | Some k \<Rightarrow> Inr (port_release port st k))"

text \<open>
  A route's handler: it acts on the world, may hand a response to \<^verbatim>\<open>record\<close> (or
  \<^verbatim>\<open>record_no_content\<close>, a 204 with no body), and returns or raises.
\<close>

record ('w, 'j) handler_run =
  hr_world :: 'w
  hr_recorded :: "'j stored_response option"
  hr_raised :: "exc option"

datatype 'j reply = Ran "exc option" | Replayed "'j stored_response" | Refused exc

text \<open>
  \<^verbatim>\<open>get_idempotent_operation\<close> around a handler: claim, run the handler, and in the \<^verbatim>\<open>finally\<close>
  clause abandon the key unless a response was recorded. \<open>configured\<close> is whether the container
  has an idempotency service at all.
\<close>

definition idempotent_request ::
  "('s, 'j) store_port \<Rightarrow> bool \<Rightarrow> instant \<Rightarrow> instant \<Rightarrow> uuid \<Rightarrow> string option \<Rightarrow> fingerprint
     \<Rightarrow> ('w \<Rightarrow> ('w, 'j) handler_run) \<Rightarrow> 's \<Rightarrow> 'w \<Rightarrow> 'j reply \<times> 's \<times> 'w" where
  "idempotent_request port configured db now tenant header fp handler st w =
     (case header_key header of
        Inl e \<Rightarrow> (Refused e, st, w)
      | Inr key \<Rightarrow>
          (let op = \<lparr>op_configured = configured, op_key = map_option (\<lambda>k. (tenant, k)) key,
                     op_claimed = False, op_recorded = False\<rparr>
           in case op_claim port st db now op fp of
                (ClaimRaised e, st') \<Rightarrow> (Refused e, st', w)
              | (ReplayedResponse r, st') \<Rightarrow> (Replayed r, st', w)
              | (Claimed op', st') \<Rightarrow>
                  (let run = handler w
                   in case (case hr_recorded run of
                              None \<Rightarrow> Inr (op', st')
                            | Some resp \<Rightarrow> op_store port st' db op' resp) of
                        Inl e \<Rightarrow> (Ran (Some e), st', hr_world run)
                      | Inr (op'', st'') \<Rightarrow>
                          (case abandon_unless_recorded port st'' op'' of
                             Inl e \<Rightarrow> (Ran (Some e), st'', hr_world run)
                           | Inr st''' \<Rightarrow> (Ran (hr_raised run), st''', hr_world run)))))"

subsection \<open>What a store promises\<close>

text \<open>
  \<open>view st k\<close> is what the store knows of a key: nothing, or the fingerprint it was spent on and
  the response if there is one. \<open>ok\<close> is the store's own invariant.
\<close>

locale idempotency_store =
  fixes port :: "('s, 'j) store_port"
    and view :: "'s \<Rightarrow> store_key \<Rightarrow> (fingerprint \<times> 'j stored_response option) option"
    and ok :: "'s \<Rightarrow> bool"
  assumes reserve_new:
      "ok st \<Longrightarrow> view st k = None \<Longrightarrow>
         \<exists>st'. port_reserve port st db k fp = (None, st') \<and> ok st' \<and> view st' = (view st)(k \<mapsto> (fp, None))"
    and reserve_held:
      "ok st \<Longrightarrow> view st k = Some (f, r) \<Longrightarrow>
         port_reserve port st db k fp = (Some \<lparr>rk_fingerprint = f, rk_response = r\<rparr>, st)"
    and take_over_view:
      "ok st \<Longrightarrow> port_take_over port st db k older = (won, st') \<Longrightarrow>
         ok st' \<and> view st' = view st \<and> (won \<longrightarrow> (\<exists>f. view st k = Some (f, None)))"
    and complete_open:
      "ok st \<Longrightarrow> view st k = Some (f, None) \<Longrightarrow>
         ok (port_complete port st db k resp) \<and>
         view (port_complete port st db k resp) = (view st)(k \<mapsto> (f, Some resp))"
    and complete_kept:
      "ok st \<Longrightarrow> \<nexists>f. view st k = Some (f, None) \<Longrightarrow> port_complete port st db k resp = st"
    and release_open:
      "ok st \<Longrightarrow> view st k = Some (f, None) \<Longrightarrow>
         ok (port_release port st k) \<and> view (port_release port st k) = (view st)(k := None)"
    and release_kept:
      "ok st \<Longrightarrow> \<nexists>f. view st k = Some (f, None) \<Longrightarrow> port_release port st k = st"
begin

lemma claim_fresh:
  assumes "ok st" "view st k = None"
  shows "\<exists>st'. claim port st db now k fp = (Inr None, st') \<and> ok st' \<and> view st' = (view st)(k \<mapsto> (fp, None))"
  using reserve_new [OF assms, of db fp] by (auto simp: claim_def)

lemma claim_replays:
  "ok st \<Longrightarrow> view st k = Some (fp, Some r) \<Longrightarrow> claim port st db now k fp = (Inr (Some r), st)"
  by (simp add: claim_def reserve_held)

lemma claim_conflicts:
  "ok st \<Longrightarrow> view st k = Some (f, r) \<Longrightarrow> f \<noteq> fp \<Longrightarrow>
     claim port st db now k fp =
       (raise_dw (IdempotencyConflictError ''idempotency key already used for a different request''), st)"
  by (simp add: claim_def reserve_held)

lemma claim_keeps_view:
  assumes "ok st" "view st k = Some (f, r)" "claim port st db now k fp = (res, st')"
  shows "ok st' \<and> view st' = view st"
  using assms take_over_view [OF assms(1)]
  by (auto simp: claim_def reserve_held split: option.splits prod.splits if_splits)

lemma request_first:
  assumes st: "ok st" "view st (t, key) = None" and hdr: "header_key h = Inr (Some key)"
    and run: "hr_recorded (handler w) = Some resp"
  shows "\<exists>st'. idempotent_request port True db now t h fp handler st w =
                 (Ran (hr_raised (handler w)), st', hr_world (handler w)) \<and>
               ok st' \<and> view st' = (view st)((t, key) \<mapsto> (fp, Some resp))"
proof -
  obtain st1 where st1: "claim port st db now (t, key) fp = (Inr None, st1)" "ok st1"
    "view st1 = (view st)((t, key) \<mapsto> (fp, None))"
    using claim_fresh [OF st] by blast
  have "view st1 (t, key) = Some (fp, None)" by (simp add: st1(3))
  from complete_open [OF st1(2) this] st1 show ?thesis
    by (auto simp: idempotent_request_def hdr op_claim_def run op_store_def abandon_unless_recorded_def Let_def)
qed

lemma request_first_unrecorded:
  assumes st: "ok st" "view st (t, key) = None" and hdr: "header_key h = Inr (Some key)"
    and run: "hr_recorded (handler w) = None"
  shows "\<exists>st'. idempotent_request port True db now t h fp handler st w =
                 (Ran (hr_raised (handler w)), st', hr_world (handler w)) \<and>
               ok st' \<and> view st' = view st"
proof -
  obtain st1 where st1: "claim port st db now (t, key) fp = (Inr None, st1)" "ok st1"
    "view st1 = (view st)((t, key) \<mapsto> (fp, None))"
    using claim_fresh [OF st] by blast
  have open1: "view st1 (t, key) = Some (fp, None)" by (simp add: st1(3))
  have "(view st)((t, key) := None) = view st" using st(2) by auto
  with release_open [OF st1(2) open1] st1 show ?thesis
    by (auto simp: idempotent_request_def hdr op_claim_def run op_store_def abandon_unless_recorded_def Let_def)
qed

lemma request_replayed:
  assumes "ok st" "view st (t, key) = Some (fp, Some resp)" "header_key h = Inr (Some key)"
  shows "idempotent_request port True db now t h fp handler st w = (Replayed resp, st, w)"
  using assms by (simp add: idempotent_request_def op_claim_def claim_replays)

lemma request_conflicting:
  assumes "ok st" "view st (t, key) = Some (f, r)" "f \<noteq> fp" "header_key h = Inr (Some key)"
  shows "idempotent_request port True db now t h fp handler st w =
           (Refused (DW (IdempotencyConflictError ''idempotency key already used for a different request'')), st, w)"
  using assms by (simp add: idempotent_request_def op_claim_def claim_conflicts)

end

definition sql_view :: "'j key_table \<Rightarrow> store_key \<Rightarrow> (fingerprint \<times> 'j stored_response option) option" where
  "sql_view tab k = map_option (\<lambda>row. (row_fingerprint row, row_response row)) (tab k)"

lemmas sql_defs = sql_reserve_def sql_take_over_def sql_complete_def sql_release_def

lemma sql_view_upd: "sql_view (tab(k \<mapsto> row)) = (sql_view tab)(k \<mapsto> (row_fingerprint row, row_response row))"
  by (auto simp: sql_view_def)

lemma sql_view_del: "sql_view (tab(k := None)) = (sql_view tab)(k := None)"
  by (auto simp: sql_view_def)

lemma table_okD:
  "table_ok tab \<Longrightarrow> tab k = Some row \<Longrightarrow> kr_response_status row = None \<longleftrightarrow> kr_completed_at row = None"
  unfolding table_ok_def by blast

lemma sql_open_row:
  assumes "table_ok tab"
  shows "sql_view tab k = Some (f, None) \<longleftrightarrow>
     (\<exists>row. tab k = Some row \<and> row_fingerprint row = f \<and> kr_completed_at row = None)"
  using table_okD [OF assms, of k]
  by (cases "tab k") (auto simp: sql_view_def row_response_def split: option.splits)

lemma table_ok_upd:
  "table_ok tab \<Longrightarrow> (kr_response_status row = None \<longleftrightarrow> kr_completed_at row = None) \<Longrightarrow> table_ok (tab(k \<mapsto> row))"
  by (simp add: table_ok_def)

lemma row_created_irrelevant [simp]:
  "row_fingerprint (row\<lparr>kr_created_at := db\<rparr>) = row_fingerprint row"
  "row_response (row\<lparr>kr_created_at := db\<rparr>) = row_response row"
  by (auto simp: row_fingerprint_def row_response_def split: option.splits)

lemma row_completed [simp]:
  "row_fingerprint (row\<lparr>kr_response_status := a, kr_response_body := b, kr_completed_at := c\<rparr>) = row_fingerprint row"
  "row_response (row\<lparr>kr_response_status := Some (sr_status_code resp), kr_response_body := sr_body resp, kr_completed_at := c\<rparr>) = Some resp"
  by (simp_all add: row_fingerprint_def row_response_def)

lemma table_ok_del: "table_ok tab \<Longrightarrow> table_ok (tab(k := None))"
  by (simp add: table_ok_def)

lemma table_ok_empty: "table_ok Map.empty"
  by (simp add: table_ok_def)

interpretation sql_store: idempotency_store sql_port sql_view table_ok
proof
  fix tab :: "'j key_table" and k db fp f r older won tab' resp
  assume ok: "table_ok tab"
  show "\<exists>st'. port_reserve sql_port tab db k fp = (None, st') \<and> table_ok st' \<and>
          sql_view st' = (sql_view tab)(k \<mapsto> (fp, None))" if "sql_view tab k = None"
    using that ok
    by (auto simp: sql_port_def sql_reserve_def sql_view_def table_ok_def row_fingerprint_def row_response_def)
  show "port_reserve sql_port tab db k fp = (Some \<lparr>rk_fingerprint = f, rk_response = r\<rparr>, tab)"
    if "sql_view tab k = Some (f, r)"
    using that by (auto simp: sql_port_def sql_reserve_def sql_view_def)
  show "table_ok tab' \<and> sql_view tab' = sql_view tab \<and> (won \<longrightarrow> (\<exists>f. sql_view tab k = Some (f, None)))"
    if "port_take_over sql_port tab db k older = (won, tab')"
  proof -
    have same: "sql_view (tab(k \<mapsto> row\<lparr>kr_created_at := db\<rparr>)) = sql_view tab" if "tab k = Some row" for row
      using that by (auto simp: sql_view_def row_fingerprint_def row_response_def fun_eq_iff split: option.splits)
    from that ok same show ?thesis
      by (auto simp: sql_port_def sql_take_over_def sql_open_row table_ok_def
          split: option.splits if_splits)
  qed
  show "table_ok (port_complete sql_port tab db k resp) \<and>
        sql_view (port_complete sql_port tab db k resp) = (sql_view tab)(k \<mapsto> (f, Some resp))"
    if "sql_view tab k = Some (f, None)"
    using that ok by (auto simp: sql_open_row sql_port_def sql_complete_def sql_view_upd intro!: table_ok_upd)
  show "port_complete sql_port tab db k resp = tab" if "\<nexists>f. sql_view tab k = Some (f, None)"
    using that ok by (auto simp: sql_open_row sql_port_def sql_complete_def split: option.splits)
  show "table_ok (port_release sql_port tab k) \<and>
        sql_view (port_release sql_port tab k) = (sql_view tab)(k := None)"
    if "sql_view tab k = Some (f, None)"
    using that ok by (auto simp: sql_open_row sql_port_def sql_release_def sql_view_del table_ok_del)
  show "port_release sql_port tab k = tab" if "\<nexists>f. sql_view tab k = Some (f, None)"
    using that ok by (auto simp: sql_open_row sql_port_def sql_release_def split: option.splits)
qed

subsection \<open>Concurrent requests\<close>

text \<open>
  Requests are numbered; \<open>rq r\<close> is the key and the fingerprint of request \<open>r\<close>. A request is idle,
  has found an in-flight reservation of the same request (\<open>Contending\<close>), is running its handler,
  or has ended: its response recorded, a stored one answered, refused, or abandoned after a
  failure. Each rule is one store transaction; the clocks are arbitrary.
\<close>

datatype 'j pc =
    Idle | Contending | Running
  | RecordedPc "'j stored_response" | AnsweredPc "'j stored_response" | RefusedPc | AbandonedPc

record 'j system =
  sys_table :: "'j key_table"
  sys_pc :: "nat \<Rightarrow> 'j pc"

datatype event = Reserve nat | Take_over nat | Give_up nat | Record nat | Abandon nat

type_synonym requests = "nat \<Rightarrow> store_key \<times> fingerprint"

definition sys_init :: "'j system" where
  "sys_init = \<lparr>sys_table = Map.empty, sys_pc = (\<lambda>_. Idle)\<rparr>"

definition moved :: "'j system \<Rightarrow> 'j key_table \<Rightarrow> nat \<Rightarrow> 'j pc \<Rightarrow> 'j system" where
  "moved s tab r pc = s\<lparr>sys_table := tab, sys_pc := (sys_pc s)(r := pc)\<rparr>"

inductive sys_step :: "requests \<Rightarrow> 'j system \<Rightarrow> event \<Rightarrow> 'j system \<Rightarrow> bool" for rq where
  reserve_won:
    "sys_pc s r = Idle \<Longrightarrow> sql_reserve (sys_table s) db (fst (rq r)) (snd (rq r)) = (None, tab) \<Longrightarrow>
       sys_step rq s (Reserve r) (moved s tab r Running)"
| reserve_other:
    "sys_pc s r = Idle \<Longrightarrow> sql_reserve (sys_table s) db (fst (rq r)) (snd (rq r)) = (Some e, tab) \<Longrightarrow>
       rk_fingerprint e \<noteq> snd (rq r) \<Longrightarrow> sys_step rq s (Reserve r) (moved s tab r RefusedPc)"
| reserve_stored:
    "sys_pc s r = Idle \<Longrightarrow> sql_reserve (sys_table s) db (fst (rq r)) (snd (rq r)) = (Some e, tab) \<Longrightarrow>
       rk_fingerprint e = snd (rq r) \<Longrightarrow> rk_response e = Some resp \<Longrightarrow>
       sys_step rq s (Reserve r) (moved s tab r (AnsweredPc resp))"
| reserve_in_flight:
    "sys_pc s r = Idle \<Longrightarrow> sql_reserve (sys_table s) db (fst (rq r)) (snd (rq r)) = (Some e, tab) \<Longrightarrow>
       rk_fingerprint e = snd (rq r) \<Longrightarrow> rk_response e = None \<Longrightarrow>
       sys_step rq s (Reserve r) (moved s tab r Contending)"
| take_over_won:
    "sys_pc s r = Contending \<Longrightarrow>
       sql_take_over (sys_table s) db (fst (rq r)) (now - STALE_RESERVATION) = (True, tab) \<Longrightarrow>
       sys_step rq s (Take_over r) (moved s tab r Running)"
| take_over_lost:
    "sys_pc s r = Contending \<Longrightarrow>
       sql_take_over (sys_table s) db (fst (rq r)) (now - STALE_RESERVATION) = (False, tab) \<Longrightarrow>
       sys_step rq s (Give_up r) (moved s tab r RefusedPc)"
| record_response:
    "sys_pc s r = Running \<Longrightarrow>
       sys_step rq s (Record r) (moved s (sql_complete (sys_table s) db (fst (rq r)) resp) r (RecordedPc resp))"
| abandon:
    "sys_pc s r = Running \<Longrightarrow>
       sys_step rq s (Abandon r) (moved s (sql_release (sys_table s) (fst (rq r))) r AbandonedPc)"

text \<open>Reachability by steps whose event is allowed; a \<open>Take_over\<close> event is a won take-over.\<close>

inductive sys_reach :: "requests \<Rightarrow> (event \<Rightarrow> bool) \<Rightarrow> 'j system \<Rightarrow> bool" for rq allowed where
  reach_init: "sys_reach rq allowed sys_init"
| reach_step: "sys_reach rq allowed s \<Longrightarrow> sys_step rq s e s' \<Longrightarrow> allowed e \<Longrightarrow> sys_reach rq allowed s'"

fun is_take_over :: "event \<Rightarrow> bool" where
  "is_take_over (Take_over _) = True"
| "is_take_over _ = False"

inductive_cases sys_stepE: "sys_step rq s e s'"

lemma moved_simps [simp]:
  "sys_table (moved s tab r pc) = tab" "sys_pc (moved s tab r pc) = (sys_pc s)(r := pc)"
  by (simp_all add: moved_def)

text \<open>The four store operations, as facts on single keys of the table.\<close>

lemma reserve_table:
  "sql_reserve tab db k fp = (res, tab') \<Longrightarrow>
     (case res of
        None \<Rightarrow> tab k = None \<and> (\<exists>row. tab' = tab(k \<mapsto> row) \<and> row_fingerprint row = fp \<and>
                                   row_response row = None \<and> kr_completed_at row = None \<and>
                                   kr_response_status row = None)
      | Some e \<Rightarrow> tab' = tab \<and> (\<exists>row. tab k = Some row \<and> rk_fingerprint e = row_fingerprint row \<and>
                                     rk_response e = row_response row))"
  by (auto simp: sql_reserve_def row_fingerprint_def row_response_def split: option.splits)

lemma take_over_table:
  "sql_take_over tab db k older = (won, tab') \<Longrightarrow>
     (if won then \<exists>row. tab k = Some row \<and> kr_completed_at row = None \<and> kr_created_at row \<le> older \<and>
                       tab' = tab(k \<mapsto> row\<lparr>kr_created_at := db\<rparr>)
      else tab' = tab)"
  by (auto simp: sql_take_over_def split: option.splits if_splits)

lemma step_table_ok:
  "sys_step rq s e s' \<Longrightarrow> table_ok (sys_table s) \<Longrightarrow> table_ok (sys_table s')"
proof (induction rule: sys_step.induct)
  case (reserve_won s r db tab)
  then show ?case using reserve_table [OF reserve_won(2)] by (auto intro: table_ok_upd)
next
  case (take_over_won s r db now tab)
  then show ?case using take_over_table [OF take_over_won(2)]
    by (auto intro!: table_ok_upd dest: table_okD)
qed (auto dest!: reserve_table take_over_table simp: sql_complete_def sql_release_def
    intro: table_ok_upd table_ok_del split: option.splits)

text \<open>A completed row is never touched again.\<close>

lemma step_keeps_completed:
  assumes "sys_step rq s e s'" "sys_table s k = Some row" "kr_completed_at row \<noteq> None"
  shows "sys_table s' k = Some row"
  using assms
proof (induction rule: sys_step.induct)
  case (reserve_won s r db tab)
  then show ?case using reserve_table [OF reserve_won(2)] by auto
next
  case (take_over_won s r db now tab)
  then show ?case using take_over_table [OF take_over_won(2)] by (auto split: if_splits)
qed (auto dest!: reserve_table take_over_table simp: sql_complete_def sql_release_def split: option.splits)

lemma reach_table_ok: "sys_reach rq allowed s \<Longrightarrow> table_ok (sys_table s)"
  by (induction rule: sys_reach.induct) (auto simp: sys_init_def intro: table_ok_empty step_table_ok)

text \<open>What a request was answered with is what the row of its key holds, for the same request.\<close>

definition answers_stored :: "requests \<Rightarrow> 'j system \<Rightarrow> bool" where
  "answers_stored rq s \<longleftrightarrow>
     (\<forall>r resp. sys_pc s r = AnsweredPc resp \<longrightarrow>
        (\<exists>row. sys_table s (fst (rq r)) = Some row \<and> kr_completed_at row \<noteq> None \<and>
               row_fingerprint row = snd (rq r) \<and> row_response row = Some resp))"

lemma answered_by_step:
  assumes "sys_step rq s e s'" "sys_pc s' r = AnsweredPc resp" "sys_pc s r \<noteq> AnsweredPc resp"
  shows "\<exists>row. sys_table s' (fst (rq r)) = Some row \<and> row_fingerprint row = snd (rq r) \<and> row_response row = Some resp"
  using assms
  by (cases rule: sys_step.cases) (auto dest!: reserve_table split: if_splits)

lemma answers_stored_step:
  assumes "sys_step rq s e s'" "answers_stored rq s" "table_ok (sys_table s')"
  shows "answers_stored rq s'"
  unfolding answers_stored_def
proof (intro allI impI)
  fix r resp
  assume ans: "sys_pc s' r = AnsweredPc resp"
  show "\<exists>row. sys_table s' (fst (rq r)) = Some row \<and> kr_completed_at row \<noteq> None \<and>
          row_fingerprint row = snd (rq r) \<and> row_response row = Some resp"
  proof (cases "sys_pc s r = AnsweredPc resp")
    case True
    with assms(2) show ?thesis
      unfolding answers_stored_def using step_keeps_completed [OF assms(1)] by blast
  next
    case False
    from answered_by_step [OF assms(1) ans False] obtain row where row:
      "sys_table s' (fst (rq r)) = Some row" "row_fingerprint row = snd (rq r)" "row_response row = Some resp"
      by blast
    then have "kr_completed_at row \<noteq> None"
      using table_okD [OF assms(3) row(1)] by (auto simp: row_response_def split: option.splits)
    with row show ?thesis by blast
  qed
qed

lemma reach_answers_stored: "sys_reach rq allowed s \<Longrightarrow> answers_stored rq s"
proof (induction rule: sys_reach.induct)
  case reach_init
  show ?case by (simp add: answers_stored_def sys_init_def)
next
  case (reach_step s e s')
  then show ?case
    using answers_stored_step reach_table_ok sys_reach.reach_step by metis
qed

text \<open>
  The invariant of runs without a won take-over: whoever runs holds an open row made for their
  own request, nobody else runs under that key, and every stored response was recorded by a
  request with the row's key and fingerprint.
\<close>

definition quiet_inv :: "requests \<Rightarrow> 'j system \<Rightarrow> bool" where
  "quiet_inv rq s \<longleftrightarrow>
     (\<forall>r. sys_pc s r = Running \<longrightarrow>
        (\<exists>row. sys_table s (fst (rq r)) = Some row \<and> kr_completed_at row = None \<and> row_fingerprint row = snd (rq r))) \<and>
     (\<forall>r r'. sys_pc s r = Running \<longrightarrow> sys_pc s r' = Running \<longrightarrow> fst (rq r) = fst (rq r') \<longrightarrow> r = r') \<and>
     (\<forall>k row resp. sys_table s k = Some row \<longrightarrow> row_response row = Some resp \<longrightarrow>
        (\<exists>r. sys_pc s r = RecordedPc resp \<and> rq r = (k, row_fingerprint row)))"

lemma quiet_invD:
  assumes "quiet_inv rq s"
  shows "sys_pc s r = Running \<Longrightarrow>
           \<exists>row. sys_table s (fst (rq r)) = Some row \<and> kr_completed_at row = None \<and> row_fingerprint row = snd (rq r)"
    and "sys_pc s r = Running \<Longrightarrow> sys_pc s r' = Running \<Longrightarrow> fst (rq r) = fst (rq r') \<Longrightarrow> r = r'"
    and "sys_table s k = Some row \<Longrightarrow> row_response row = Some resp \<Longrightarrow>
           \<exists>r. sys_pc s r = RecordedPc resp \<and> rq r = (k, row_fingerprint row)"
  using assms unfolding quiet_inv_def by blast+

lemma quiet_invI:
  assumes "\<And>r. sys_pc s r = Running \<Longrightarrow>
             \<exists>row. sys_table s (fst (rq r)) = Some row \<and> kr_completed_at row = None \<and> row_fingerprint row = snd (rq r)"
    and "\<And>r r'. sys_pc s r = Running \<Longrightarrow> sys_pc s r' = Running \<Longrightarrow> fst (rq r) = fst (rq r') \<Longrightarrow> r = r'"
    and "\<And>k row resp. sys_table s k = Some row \<Longrightarrow> row_response row = Some resp \<Longrightarrow>
           \<exists>r. sys_pc s r = RecordedPc resp \<and> rq r = (k, row_fingerprint row)"
  shows "quiet_inv rq s"
  unfolding quiet_inv_def using assms by blast

text \<open>A step that leaves the table and moves no request into or out of running keeps it.\<close>

lemma quiet_inv_idle:
  assumes inv: "quiet_inv rq s" and r: "sys_pc s r \<noteq> Running" "\<forall>resp. sys_pc s r \<noteq> RecordedPc resp" "pc \<noteq> Running"
  shows "quiet_inv rq (moved s (sys_table s) r pc)"
proof (rule quiet_invI)
  fix r1 assume "sys_pc (moved s (sys_table s) r pc) r1 = Running"
  then have "sys_pc s r1 = Running" using r(3) by (simp split: if_splits)
  from quiet_invD(1) [OF inv this] show "\<exists>row. sys_table (moved s (sys_table s) r pc) (fst (rq r1)) = Some row \<and>
      kr_completed_at row = None \<and> row_fingerprint row = snd (rq r1)" by simp
next
  fix r1 r2 assume "sys_pc (moved s (sys_table s) r pc) r1 = Running" "sys_pc (moved s (sys_table s) r pc) r2 = Running"
    "fst (rq r1) = fst (rq r2)"
  then show "r1 = r2" using r(3) quiet_invD(2) [OF inv, of r1 r2] by (simp split: if_splits)
next
  fix k row resp assume "sys_table (moved s (sys_table s) r pc) k = Some row" "row_response row = Some resp"
  then obtain r0 where r0: "sys_pc s r0 = RecordedPc resp" "rq r0 = (k, row_fingerprint row)"
    using quiet_invD(3) [OF inv] by fastforce
  then have "r0 \<noteq> r" using r(2) by auto
  with r0 show "\<exists>r1. sys_pc (moved s (sys_table s) r pc) r1 = RecordedPc resp \<and> rq r1 = (k, row_fingerprint row)"
    by (intro exI [of _ r0]) simp
qed

text \<open>
  A request that owns its key may write the key's row: if only it runs under the key, the
  invariant follows from what holds of the request and of the new row.
\<close>

lemma quiet_inv_owner:
  assumes inv: "quiet_inv rq s" and pc: "\<forall>resp. sys_pc s r \<noteq> RecordedPc resp"
    and others: "\<And>r'. sys_pc s r' = Running \<Longrightarrow> r' \<noteq> r \<Longrightarrow> fst (rq r') \<noteq> fst (rq r)"
    and tab: "\<And>k. k \<noteq> fst (rq r) \<Longrightarrow> tab k = sys_table s k"
    and running: "pc = Running \<Longrightarrow>
      \<exists>row. tab (fst (rq r)) = Some row \<and> kr_completed_at row = None \<and> row_fingerprint row = snd (rq r)"
    and answered: "\<And>row resp. tab (fst (rq r)) = Some row \<Longrightarrow> row_response row = Some resp \<Longrightarrow>
      pc = RecordedPc resp \<and> row_fingerprint row = snd (rq r)"
  shows "quiet_inv rq (moved s tab r pc)"
proof (rule quiet_invI)
  fix r1 assume r1: "sys_pc (moved s tab r pc) r1 = Running"
  show "\<exists>row. sys_table (moved s tab r pc) (fst (rq r1)) = Some row \<and>
      kr_completed_at row = None \<and> row_fingerprint row = snd (rq r1)"
  proof (cases "r1 = r")
    case True then show ?thesis using r1 running by simp
  next
    case False
    then have "sys_pc s r1 = Running" using r1 by simp
    with False show ?thesis using quiet_invD(1) [OF inv] others tab by simp
  qed
next
  fix r1 r2 assume "sys_pc (moved s tab r pc) r1 = Running" "sys_pc (moved s tab r pc) r2 = Running"
    "fst (rq r1) = fst (rq r2)"
  then show "r1 = r2" using quiet_invD(2) [OF inv, of r1 r2] others [of r1] others [of r2]
    by (auto split: if_splits)
next
  fix k row resp assume row: "sys_table (moved s tab r pc) k = Some row" "row_response row = Some resp"
  show "\<exists>r1. sys_pc (moved s tab r pc) r1 = RecordedPc resp \<and> rq r1 = (k, row_fingerprint row)"
  proof (cases "k = fst (rq r)")
    case True
    then have "pc = RecordedPc resp" "snd (rq r) = row_fingerprint row" using answered [of row resp] row by simp_all
    then show ?thesis using True by (intro exI [of _ r]) (metis fun_upd_same moved_simps(2) prod.collapse)
  next
    case False
    then obtain r0 where r0: "sys_pc s r0 = RecordedPc resp" "rq r0 = (k, row_fingerprint row)"
      using quiet_invD(3) [OF inv] row tab by fastforce
    then have "r0 \<noteq> r" using pc by auto
    with r0 show ?thesis by (intro exI [of _ r0]) simp
  qed
qed

lemma quiet_inv_reserve:
  assumes inv: "quiet_inv rq s" and idle: "sys_pc s r = Idle" and none: "sys_table s (fst (rq r)) = None"
    and row: "row_fingerprint row = snd (rq r)" "row_response row = None" "kr_completed_at row = None"
  shows "quiet_inv rq (moved s ((sys_table s)(fst (rq r) \<mapsto> row)) r Running)"
proof (rule quiet_inv_owner [OF inv])
  fix r' assume "sys_pc s r' = Running"
  then show "fst (rq r') \<noteq> fst (rq r)" using quiet_invD(1) [OF inv, of r'] none by auto
qed (use idle row in auto)

lemma quiet_inv_record:
  assumes inv: "quiet_inv rq s" and run: "sys_pc s r = Running"
  shows "quiet_inv rq (moved s (sql_complete (sys_table s) db (fst (rq r)) resp) r (RecordedPc resp))"
proof -
  obtain row where row: "sys_table s (fst (rq r)) = Some row" "kr_completed_at row = None" "row_fingerprint row = snd (rq r)"
    using quiet_invD(1) [OF inv run] by blast
  show ?thesis
  proof (rule quiet_inv_owner [OF inv])
    fix r' assume "sys_pc s r' = Running" "r' \<noteq> r"
    then show "fst (rq r') \<noteq> fst (rq r)" using quiet_invD(2) [OF inv _ run, of r'] by blast
  next
    fix row' resp'
    assume "sql_complete (sys_table s) db (fst (rq r)) resp (fst (rq r)) = Some row'" "row_response row' = Some resp'"
    then show "RecordedPc resp = RecordedPc resp' \<and> row_fingerprint row' = snd (rq r)"
      using row by (auto simp: sql_complete_def row_response_def row_fingerprint_def)
  qed (use run row in \<open>auto simp: sql_complete_def\<close>)
qed

lemma quiet_inv_abandon:
  assumes inv: "quiet_inv rq s" and run: "sys_pc s r = Running"
  shows "quiet_inv rq (moved s (sql_release (sys_table s) (fst (rq r))) r AbandonedPc)"
proof -
  obtain row where row: "sys_table s (fst (rq r)) = Some row" "kr_completed_at row = None"
    using quiet_invD(1) [OF inv run] by blast
  show ?thesis
  proof (rule quiet_inv_owner [OF inv])
    fix r' assume "sys_pc s r' = Running" "r' \<noteq> r"
    then show "fst (rq r') \<noteq> fst (rq r)" using quiet_invD(2) [OF inv _ run, of r'] by blast
  qed (use run row in \<open>auto simp: sql_release_def\<close>)
qed

lemma quiet_inv_step:
  assumes "sys_step rq s e s'" "quiet_inv rq s" "\<not> is_take_over e"
  shows "quiet_inv rq s'"
  using assms
proof (induction rule: sys_step.induct)
  case (reserve_won s r db tab)
  then show ?case using reserve_table [OF reserve_won(2)] by (auto intro: quiet_inv_reserve)
next
  case (record_response s r db resp)
  then show ?case by (simp add: quiet_inv_record)
next
  case (abandon s r)
  then show ?case by (simp add: quiet_inv_abandon)
qed (auto dest!: reserve_table take_over_table intro!: quiet_inv_idle)

lemma reach_quiet_inv: "sys_reach rq (\<lambda>e. \<not> is_take_over e) s \<Longrightarrow> quiet_inv rq s"
proof (induction rule: sys_reach.induct)
  case reach_init
  show ?case by (simp add: sys_init_def quiet_inv_def)
next
  case (reach_step s e s')
  then show ?case by (blast intro: quiet_inv_step)
qed

lemma any_step: "sys_reach rq (\<lambda>_. True) s \<Longrightarrow> sys_step rq s e s' \<Longrightarrow> sys_reach rq (\<lambda>_. True) s'"
  by (erule reach_step) simp_all

subsection \<open>Properties\<close>

text \<open>
  C6: At most once for a retry. On the SQL store, a first request with an unspent key runs its
  handler once and stores the response it recorded; whatever handler a later request with the
  same key brings, if it is the same request it is answered with that response, and if it is a
  different one it is refused with an idempotency conflict; in both cases its handler does not
  run and the store does not change.
\<close>

theorem retry_answered_once:
  assumes "table_ok st" "st (t, key) = None" "header_key h = Inr (Some key)"
    and "hr_recorded (handler w) = Some resp"
  shows "\<exists>st'. idempotent_request sql_port True db now t h fp handler st w =
                 (Ran (hr_raised (handler w)), st', hr_world (handler w)) \<and>
           (\<forall>db' now' (handler' :: 'w \<Rightarrow> ('w, 'j) handler_run) w'.
              idempotent_request sql_port True db' now' t h fp handler' st' w' = (Replayed resp, st', w') \<and>
              (\<forall>fp'. fp' \<noteq> fp \<longrightarrow>
                 idempotent_request sql_port True db' now' t h fp' handler' st' w' =
                   (Refused (DW (IdempotencyConflictError ''idempotency key already used for a different request'')),
                    st', w')))"
proof -
  have view: "sql_view st (t, key) = None" using assms(2) by (simp add: sql_view_def)
  obtain st' where st': "idempotent_request sql_port True db now t h fp handler st w =
      (Ran (hr_raised (handler w)), st', hr_world (handler w))" "table_ok st'"
      "sql_view st' = (sql_view st)((t, key) \<mapsto> (fp, Some resp))"
    using sql_store.request_first [where handler = handler and w = w, OF assms(1) view assms(3,4)] by blast
  have spent: "sql_view st' (t, key) = Some (fp, Some resp)" by (simp add: st'(3))
  note replayed = sql_store.request_replayed [OF st'(2) spent assms(3)]
  note conflicting = sql_store.request_conflicting [OF st'(2) spent not_sym assms(3)]
  show ?thesis by (intro exI [of _ st'] conjI allI impI st'(1) replayed conflicting)
qed

definition sample_fp :: "string \<Rightarrow> fingerprint" where
  "sample_fp body = \<lparr>fp_method = ''POST'', fp_path = ''/api/v1/admin/members'', fp_workspace_id = 2, fp_body_hash = body\<rparr>"

definition sample_handler :: "nat \<Rightarrow> (nat, nat) handler_run" where
  "sample_handler w = \<lparr>hr_world = w + 1, hr_recorded = Some \<lparr>sr_status_code = 201, sr_body = Some w\<rparr>, hr_raised = None\<rparr>"

theorem retry_answered_once_witness:
  "\<exists>st'. idempotent_request sql_port True 0 0 1 (Some ''k-1'') (sample_fp ''a'') sample_handler Map.empty 5 =
            (Ran None, st', 6) \<and>
     idempotent_request sql_port True 9 9 1 (Some ''k-1'') (sample_fp ''a'') sample_handler st' 6 =
       (Replayed \<lparr>sr_status_code = 201, sr_body = Some 5\<rparr>, st', 6)"
proof -
  have key: "header_key (Some ''k-1'') = Inr (Some ''k-1'')"
    by (simp add: header_key_def sstrip_def strip_by_def sspace_def py_isspace_def MAX_KEY_LENGTH_def)
  have rec: "hr_recorded (sample_handler 5) = Some \<lparr>sr_status_code = 201, sr_body = Some 5\<rparr>"
    by (simp add: sample_handler_def)
  obtain st' where "idempotent_request sql_port True 0 0 1 (Some ''k-1'') (sample_fp ''a'') sample_handler Map.empty 5 =
      (Ran (hr_raised (sample_handler 5)), st', hr_world (sample_handler 5))"
    "idempotent_request sql_port True 9 9 1 (Some ''k-1'') (sample_fp ''a'') sample_handler st' 6 =
      (Replayed \<lparr>sr_status_code = 201, sr_body = Some 5\<rparr>, st', 6)"
    using retry_answered_once [where handler = sample_handler and w = 5 and st = Map.empty and t = 1
        and db = 0 and now = 0 and fp = "sample_fp ''a''", OF table_ok_empty refl key rec] by metis
  then show ?thesis by (intro exI [of _ st']) (simp add: sample_handler_def)
qed

text \<open>
  A failure is not a decision. If the handler of the request that owns a fresh key ends
  without recording a response (it raised, or the route forgot), the store is back to what it
  knew before, and the next request with the key runs its own handler.
\<close>

theorem failed_request_releases_key:
  assumes "table_ok st" "st (t, key) = None" "header_key h = Inr (Some key)"
    and "hr_recorded (handler w) = None"
  shows "\<exists>st'. idempotent_request sql_port True db now t h fp handler st w =
                 (Ran (hr_raised (handler w)), st', hr_world (handler w)) \<and>
           sql_view st' = sql_view st \<and>
           (\<forall>db' now' fp' (handler' :: 'w \<Rightarrow> ('w, 'j) handler_run) w'. \<exists>st''.
              idempotent_request sql_port True db' now' t h fp' handler' st' w' =
                (Ran (hr_raised (handler' w')), st'', hr_world (handler' w')))"
proof -
  have view: "sql_view st (t, key) = None" using assms(2) by (simp add: sql_view_def)
  obtain st' where st': "idempotent_request sql_port True db now t h fp handler st w =
      (Ran (hr_raised (handler w)), st', hr_world (handler w))" "table_ok st'" "sql_view st' = sql_view st"
      "sql_view st' (t, key) = None"
    using sql_store.request_first_unrecorded [where handler = handler and w = w, OF assms(1) view assms(3,4)]
      view by metis
  have "\<exists>st''. idempotent_request sql_port True db' now' t h fp' handler' st' w' =
          (Ran (hr_raised (handler' w')), st'', hr_world (handler' w'))"
    for db' now' fp' and handler' :: "'w \<Rightarrow> ('w, 'j) handler_run" and w'
  proof (cases "hr_recorded (handler' w')")
    case None
    from sql_store.request_first_unrecorded [where handler = handler', OF st'(2,4) assms(3) None]
    show ?thesis by blast
  next
    case (Some resp)
    from sql_store.request_first [where handler = handler', OF st'(2,4) assms(3) Some]
    show ?thesis by blast
  qed
  with st' show ?thesis by blast
qed

theorem failed_request_releases_key_witness:
  "\<exists>st'. idempotent_request sql_port True 0 0 1 (Some ''k-1'') (sample_fp ''a'')
       (\<lambda>w. (sample_handler w)\<lparr>hr_recorded := None, hr_raised := Some TimeoutError\<rparr>) Map.empty 5 =
            (Ran (Some TimeoutError), st', 6) \<and> sql_view st' = sql_view (Map.empty :: nat key_table)"
proof -
  have key: "header_key (Some ''k-1'') = Inr (Some ''k-1'')"
    by (simp add: header_key_def sstrip_def strip_by_def sspace_def py_isspace_def MAX_KEY_LENGTH_def)
  let ?h = "\<lambda>w. (sample_handler w)\<lparr>hr_recorded := None, hr_raised := Some TimeoutError\<rparr>"
  have rec: "hr_recorded (?h 5) = None" by simp
  from failed_request_releases_key [where handler = ?h and w = 5 and st = Map.empty and t = 1
      and db = 0 and now = 0 and fp = "sample_fp ''a''", OF table_ok_empty refl key rec]
  show ?thesis by (auto simp: sample_handler_def)
qed

text \<open>
  C19: Whatever requests run concurrently and however their store operations interleave,
  take-overs included: a request answered from the store got the response its key's row holds,
  for its own fingerprint, so two requests answered under one key got the same response; and no
  later step of anyone changes or removes that row.
\<close>

theorem concurrent_answers_agree:
  assumes "sys_reach rq allowed s" "sys_pc s r = AnsweredPc resp"
  shows "\<exists>row. sys_table s (fst (rq r)) = Some row \<and> row_fingerprint row = snd (rq r) \<and>
           row_response row = Some resp \<and>
           (\<forall>r' resp'. sys_pc s r' = AnsweredPc resp' \<longrightarrow> fst (rq r') = fst (rq r) \<longrightarrow>
              resp' = resp \<and> snd (rq r') = snd (rq r)) \<and>
           (\<forall>e s'. sys_step rq s e s' \<longrightarrow> sys_table s' (fst (rq r)) = Some row)"
proof -
  have stored: "\<exists>row. sys_table s (fst (rq r)) = Some row \<and> kr_completed_at row \<noteq> None \<and>
      row_fingerprint row = snd (rq r) \<and> row_response row = Some resp"
    if "sys_pc s r = AnsweredPc resp" for r resp
    using reach_answers_stored [OF assms(1)] that unfolding answers_stored_def by blast
  obtain row where row: "sys_table s (fst (rq r)) = Some row" "kr_completed_at row \<noteq> None"
      "row_fingerprint row = snd (rq r)" "row_response row = Some resp"
    using stored [OF assms(2)] by blast
  show ?thesis
    using row stored step_keeps_completed [OF _ row(1,2)] by force
qed

text \<open>
  C31: As long as no reservation is taken over, one key never has two handlers running at once,
  and every answer from the store was recorded by the handler of the very same request (same
  key, same fingerprint).
\<close>

theorem one_handler_per_key:
  assumes "sys_reach rq (\<lambda>e. \<not> is_take_over e) s"
  shows "(sys_pc s r = Running \<and> sys_pc s r' = Running \<and> fst (rq r) = fst (rq r') \<longrightarrow> r = r') \<and>
         (sys_pc s r = AnsweredPc resp \<longrightarrow> (\<exists>r0. sys_pc s r0 = RecordedPc resp \<and> rq r0 = rq r))"
proof -
  have inv: "quiet_inv rq s" using assms by (rule reach_quiet_inv)
  have "\<exists>r0. sys_pc s r0 = RecordedPc resp \<and> rq r0 = rq r" if ans: "sys_pc s r = AnsweredPc resp"
  proof -
    obtain row where row: "sys_table s (fst (rq r)) = Some row" "row_fingerprint row = snd (rq r)"
        "row_response row = Some resp"
      using reach_answers_stored [OF assms] ans unfolding answers_stored_def by blast
    from quiet_invD(3) [OF inv row(1,3)] row(2) show ?thesis by auto
  qed
  then show ?thesis using quiet_invD(2) [OF inv] by blast
qed

text \<open>
  A quiet run of two copies of one request: the first records its response, the second is
  answered with it.
\<close>

definition two_requests :: requests where
  "two_requests r = ((1, ''k''), sample_fp ''a'')"

definition open_row :: "string \<Rightarrow> instant \<Rightarrow> nat key_row" where
  "open_row body created =
     \<lparr>kr_workspace_id = 2, kr_request_method = ''POST'', kr_request_path = ''/api/v1/admin/members'',
      kr_body_hash = body, kr_response_status = None, kr_response_body = None, kr_created_at = created,
      kr_completed_at = None\<rparr>"

definition first_answer :: "nat stored_response" where
  "first_answer = \<lparr>sr_status_code = 201, sr_body = Some 0\<rparr>"

definition recorded_row :: "nat key_row" where
  "recorded_row = (open_row ''a'' 0)\<lparr>kr_response_status := Some 201, kr_response_body := Some 0,
     kr_completed_at := Some (minutes 1)\<rparr>"

definition answered_pair :: "nat system" where
  "answered_pair = moved (moved (moved sys_init [(1, ''k'') \<mapsto> open_row ''a'' 0] 0 Running)
     [(1, ''k'') \<mapsto> recorded_row] 0 (RecordedPc first_answer))
     [(1, ''k'') \<mapsto> recorded_row] 1 (AnsweredPc first_answer)"

definition four_requests :: requests where
  "four_requests r = ((1, ''k''), sample_fp (if r \<le> 1 then ''a'' else ''b''))"

definition taken_over :: "nat system" where
  "taken_over = \<lparr>sys_table = [(1, ''k'') \<mapsto> open_row ''a'' (minutes 6)],
                 sys_pc = (\<lambda>_. Idle)(0 := Running, 1 := Contending, 1 := Running)\<rparr>"

lemmas scenario_defs = four_requests_def sample_fp_def open_row_def taken_over_def moved_def
  sql_reserve_def sql_take_over_def sql_release_def sql_complete_def STALE_RESERVATION_def
  row_fingerprint_def row_response_def sys_init_def first_answer_def
  two_requests_def answered_pair_def recorded_row_def

lemma answered_pair_reachable: "sys_reach two_requests (\<lambda>e. \<not> is_take_over e) answered_pair"
proof -
  let ?s1 = "moved sys_init [(1, ''k'') \<mapsto> open_row ''a'' 0] 0 Running"
  let ?s2 = "moved ?s1 [(1, ''k'') \<mapsto> recorded_row] 0 (RecordedPc first_answer)"
  have st1: "sys_step two_requests sys_init (Reserve 0) ?s1"
    using sys_step.reserve_won [of sys_init 0 0 two_requests "[(1, ''k'') \<mapsto> open_row ''a'' 0]"]
    by (simp add: scenario_defs)
  have st2: "sys_step two_requests ?s1 (Record 0) ?s2"
    using sys_step.record_response [of ?s1 0 two_requests "minutes 1" first_answer]
    by (simp add: scenario_defs)
  have st3: "sys_step two_requests ?s2 (Reserve 1) answered_pair"
    using sys_step.reserve_stored [of ?s2 1 "minutes 2" two_requests
        "\<lparr>rk_fingerprint = sample_fp ''a'', rk_response = Some first_answer\<rparr>"
        "[(1, ''k'') \<mapsto> recorded_row]" first_answer]
    by (simp add: scenario_defs)
  show ?thesis
    by (rule reach_step [OF reach_step [OF reach_step [OF reach_init st1] st2] st3]) simp_all
qed

theorem concurrent_answers_agree_witness:
  "\<exists>row. sys_table answered_pair (1, ''k'') = Some row \<and> row_response row = Some first_answer"
  using concurrent_answers_agree [OF answered_pair_reachable, of 1 first_answer]
  by (force simp: scenario_defs)

theorem one_handler_per_key_witness:
  "\<exists>r0. sys_pc answered_pair r0 = RecordedPc first_answer \<and> two_requests r0 = two_requests 1"
  using one_handler_per_key [OF answered_pair_reachable, of 1 1 first_answer]
  by (simp add: scenario_defs)

text \<open>
  The reservation carries no owner, so a request whose reservation was taken over still acts on
  the row of its key. In four_requests, requests 0 and 1 are the same, 2 and 3 another.
\<close>

lemma taken_over_reachable: "sys_reach four_requests (\<lambda>_. True) taken_over"
proof -
  let ?s1 = "\<lparr>sys_table = [(1, ''k'') \<mapsto> open_row ''a'' 0], sys_pc = (\<lambda>_. Idle)(0 := Running)\<rparr>"
  let ?s2 = "\<lparr>sys_table = [(1, ''k'') \<mapsto> open_row ''a'' 0], sys_pc = (\<lambda>_. Idle)(0 := Running, 1 := Contending)\<rparr>"
  have st1: "sys_step four_requests sys_init (Reserve 0) ?s1"
    using sys_step.reserve_won [of sys_init 0 0 four_requests "[(1, ''k'') \<mapsto> open_row ''a'' 0]"]
    by (simp add: scenario_defs)
  have st2: "sys_step four_requests ?s1 (Reserve 1) ?s2"
    using sys_step.reserve_in_flight [of ?s1 1 0 four_requests
        "\<lparr>rk_fingerprint = sample_fp ''a'', rk_response = None\<rparr>" "[(1, ''k'') \<mapsto> open_row ''a'' 0]"]
    by (simp add: scenario_defs)
  have st3: "sys_step four_requests ?s2 (Take_over 1) taken_over"
    using sys_step.take_over_won [of ?s2 1 "minutes 6" four_requests "minutes 6" "[(1, ''k'') \<mapsto> open_row ''a'' (minutes 6)]"]
    by (simp add: scenario_defs)
  show ?thesis
    by (rule any_step [OF any_step [OF any_step [OF reach_init st1] st2] st3])
qed

text \<open>
  A request that lost its reservation to a take-over can free the new holder's: there is a
  run in which request 1 took the key over from request 0, request 0 then failed and released
  the key, and request 2 reserved it although request 1 is still running under it.
\<close>

theorem stale_owner_frees_reservation:
  "\<exists>s :: nat system. sys_reach four_requests (\<lambda>_. True) s \<and> sys_pc s 0 = AbandonedPc \<and>
       sys_pc s 1 = Running \<and> sys_pc s 2 = Running \<and> fst (four_requests 1) = fst (four_requests 2) \<and>
       snd (four_requests 1) \<noteq> snd (four_requests 2)"
proof (intro exI conjI)
  let ?s1 = "moved taken_over Map.empty 0 AbandonedPc"
  let ?s2 = "moved ?s1 [(1, ''k'') \<mapsto> open_row ''b'' (minutes 7)] 2 Running"
  have st1: "sys_step four_requests taken_over (Abandon 0) ?s1"
    using sys_step.abandon [of taken_over 0 four_requests] by (simp add: scenario_defs)
  have st2: "sys_step four_requests ?s1 (Reserve 2) ?s2"
    using sys_step.reserve_won [of ?s1 2 "minutes 7" four_requests "[(1, ''k'') \<mapsto> open_row ''b'' (minutes 7)]"]
    by (simp add: scenario_defs)
  show "sys_reach four_requests (\<lambda>_. True) ?s2"
    by (rule any_step [OF any_step [OF taken_over_reachable st1] st2])
qed (simp_all add: scenario_defs)

text \<open>
  A late completion can answer a different request: there is a run in which request 3 is
  answered from the store with a response that only request 0 ever recorded, although the two
  requests differ in their fingerprint; no request with 3's fingerprint recorded anything.
\<close>

theorem late_completion_answers_other_request:
  "\<exists>s :: nat system. sys_reach four_requests (\<lambda>_. True) s \<and> sys_pc s 3 = AnsweredPc first_answer \<and>
       sys_pc s 0 = RecordedPc first_answer \<and> snd (four_requests 0) \<noteq> snd (four_requests 3) \<and>
       {r. \<exists>resp. sys_pc s r = RecordedPc resp} = {0}"
proof (intro exI conjI)
  let ?done = "(open_row ''b'' (minutes 7))\<lparr>kr_response_status := Some 201, kr_response_body := Some 0,
    kr_completed_at := Some (minutes 8)\<rparr>"
  let ?s1 = "moved taken_over Map.empty 1 AbandonedPc"
  let ?s2 = "moved ?s1 [(1, ''k'') \<mapsto> open_row ''b'' (minutes 7)] 2 Running"
  let ?s3 = "moved ?s2 [(1, ''k'') \<mapsto> ?done] 0 (RecordedPc first_answer)"
  let ?s4 = "moved ?s3 [(1, ''k'') \<mapsto> ?done] 3 (AnsweredPc first_answer)"
  have st1: "sys_step four_requests taken_over (Abandon 1) ?s1"
    using sys_step.abandon [of taken_over 1 four_requests] by (simp add: scenario_defs)
  have st2: "sys_step four_requests ?s1 (Reserve 2) ?s2"
    using sys_step.reserve_won [of ?s1 2 "minutes 7" four_requests "[(1, ''k'') \<mapsto> open_row ''b'' (minutes 7)]"]
    by (simp add: scenario_defs)
  have st3: "sys_step four_requests ?s2 (Record 0) ?s3"
    using sys_step.record_response [of ?s2 0 four_requests "minutes 8" first_answer] by (simp add: scenario_defs)
  have st4: "sys_step four_requests ?s3 (Reserve 3) ?s4"
    using sys_step.reserve_stored [of ?s3 3 "minutes 9" four_requests
        "\<lparr>rk_fingerprint = sample_fp ''b'', rk_response = Some first_answer\<rparr>" "[(1, ''k'') \<mapsto> ?done]" first_answer]
    by (simp add: scenario_defs)
  show "sys_reach four_requests (\<lambda>_. True) ?s4"
    by (rule any_step [OF any_step [OF any_step [OF any_step [OF taken_over_reachable st1] st2] st3] st4])
qed (auto simp: scenario_defs split: if_splits)

end
