(* ===== verification/Events.thy ===== *)
theory Events
  imports Errors Complex_Main "HOL-Library.AList"
begin

text \<open>
  The two records every component writes: the audit event of \<^verbatim>\<open>dw_platform/domain/audit.py\<close>
  (with the actor of a background lane) and the transactional outbox event of
  \<^verbatim>\<open>dw_platform/domain/outbox.py\<close>. Their free-form dictionaries are values of \<open>json\<close>: an object is an
  association list in insertion order, \<^verbatim>\<open>str(uuid)\<close> is the constructor \<open>JUuid\<close> (the rendering of
  a UUID is injective and only ever compared), a short code of the program is a \<open>JStr\<close> and
  text written by a person is a \<open>JText\<close> of code points.
\<close>

datatype json =
    JNull
  | JBool bool
  | JInt int
  | JFloat rat
  | JStr string
  | JText ustr
  | JUuid uuid
  | JArr "json list"
  | JObj "(string \<times> json) list"

type_synonym details = "(string \<times> json) list"

text \<open>\<^verbatim>\<open>{**base, **extra}\<close>: a repeated key keeps its place and takes the later value.\<close>

definition dict_merge :: "details \<Rightarrow> details \<Rightarrow> details" where
  "dict_merge base extra = foldl (\<lambda>d kv. AList.update (fst kv) (snd kv) d) base extra"

text \<open>\<^verbatim>\<open>uuid.hex\<close>: the 32 hexadecimal digits of the 128-bit value.\<close>

definition hex_digit :: "nat \<Rightarrow> char" where
  "hex_digit n = ''0123456789abcdef'' ! (n mod 16)"

definition uuid_hex :: "uuid \<Rightarrow> string" where
  "uuid_hex u = map (\<lambda>i. hex_digit (u div 16 ^ (31 - i))) [0..<32]"

text \<open>Decimal digits of a natural number, as \<^verbatim>\<open>str(int)\<close> writes them.\<close>

fun nat_str :: "nat \<Rightarrow> string" where
  "nat_str n = (if n < 10 then [hex_digit n] else nat_str (n div 10) @ [hex_digit (n mod 10)])"

declare nat_str.simps [simp del]

subsection \<open>Audit events\<close>

record audit_event =
  ae_id :: uuid
  ae_tenant_id :: uuid
  ae_workspace_id :: uuid
  ae_actor_id :: uuid
  ae_action :: string
  ae_resource_type :: string
  ae_resource_id :: json
  ae_occurred_at :: instant
  ae_run_id :: "uuid option"
  ae_policy_decision :: "string option"
  ae_trace_id :: "string option"
  ae_details :: details

text \<open>
  \<^verbatim>\<open>AuditEvent.__post_init__\<close>. An \<open>instant\<close> is timezone-aware by construction, so the second
  check has no counterpart.
\<close>

definition make_audit_event :: "audit_event \<Rightarrow> audit_event res" where
  "make_audit_event e =
     (if sblank (ae_action e) then Inl (ValueError ''audit action must not be blank'') else Inr e)"

definition lane_char :: "char \<Rightarrow> bool" where
  "lane_char c \<longleftrightarrow> (let n = (of_char c :: nat) in (97 \<le> n \<and> n \<le> 122) \<or> (48 \<le> n \<and> n \<le> 57) \<or> n = 95)"

definition is_lane_name :: "string \<Rightarrow> bool" where
  "is_lane_name s =
     (case s of [] \<Rightarrow> False
      | c # cs \<Rightarrow> (let n = (of_char c :: nat) in 97 \<le> n \<and> n \<le> 122) \<and> list_all lane_char cs)"

definition system_actor_label :: "string \<Rightarrow> string res" where
  "system_actor_label lane =
     (if is_lane_name lane then Inr (''system:'' @ lane)
      else Inl (ValueError ''lane name must be a worker registry name''))"

text \<open>\<open>uuid5\<close> is the name-based UUID in the fixed namespace (a hash of the standard library).\<close>

definition system_actor :: "(string \<Rightarrow> uuid) \<Rightarrow> string \<Rightarrow> uuid res" where
  "system_actor uuid5 lane =
     (case system_actor_label lane of Inl e \<Rightarrow> Inl e | Inr label \<Rightarrow> Inr (uuid5 label))"

definition lane_audit_event ::
  "(string \<Rightarrow> uuid) \<Rightarrow> string \<Rightarrow> uuid \<Rightarrow> uuid \<Rightarrow> uuid \<Rightarrow> string \<Rightarrow> string \<Rightarrow> json \<Rightarrow> instant \<Rightarrow>
   details option \<Rightarrow> uuid option \<Rightarrow> audit_event res" where
  "lane_audit_event uuid5 lane event_id tenant workspace action rtype rid occurred given run_id =
     (case system_actor uuid5 lane of
        Inl e \<Rightarrow> Inl e
      | Inr actor \<Rightarrow>
        (case system_actor_label lane of
           Inl e \<Rightarrow> Inl e
         | Inr label \<Rightarrow>
             make_audit_event
               \<lparr>ae_id = event_id, ae_tenant_id = tenant, ae_workspace_id = workspace, ae_actor_id = actor,
                ae_action = action, ae_resource_type = rtype, ae_resource_id = rid, ae_occurred_at = occurred,
                ae_run_id = run_id, ae_policy_decision = None, ae_trace_id = None,
                ae_details = AList.update ''actor'' (JStr label) (case given of None \<Rightarrow> [] | Some d \<Rightarrow> d)\<rparr>))"

subsection \<open>Outbox events\<close>

record outbox_event =
  oe_id :: uuid
  oe_tenant_id :: uuid
  oe_workspace_id :: uuid
  oe_event_type :: string
  oe_schema_version :: string
  oe_aggregate_id :: uuid
  oe_occurred_at :: instant
  oe_payload :: details
  oe_correlation_id :: "uuid option"
  oe_causation_id :: "uuid option"
  oe_actor_id :: "uuid option"
  oe_processed_at :: "instant option"
  oe_attempts :: int
  oe_last_error :: "string option"

definition make_outbox_event :: "outbox_event \<Rightarrow> outbox_event res" where
  "make_outbox_event e =
     (if CHR ''.'' \<notin> set (oe_event_type e)
      then Inl (ValueError ''event_type must be namespaced like <context>.<aggregate>.<verb>'')
      else Inr e)"

definition is_processed :: "outbox_event \<Rightarrow> bool" where
  "is_processed e \<longleftrightarrow> oe_processed_at e \<noteq> None"

definition mark_processed :: "outbox_event \<Rightarrow> instant \<Rightarrow> outbox_event" where
  "mark_processed e t = (if oe_processed_at e \<noteq> None then e else e\<lparr>oe_processed_at := Some t\<rparr>)"

definition record_attempt :: "outbox_event \<Rightarrow> outbox_event" where
  "record_attempt e = e\<lparr>oe_attempts := oe_attempts e + 1\<rparr>"

definition oe_record_failure :: "outbox_event \<Rightarrow> string \<Rightarrow> outbox_event" where
  "oe_record_failure e err = e\<lparr>oe_last_error := Some err\<rparr>"

subsection \<open>Facts\<close>

lemma make_audit_event_ok: "\<not> sblank (ae_action e) \<Longrightarrow> make_audit_event e = Inr e"
  by (simp add: make_audit_event_def)

lemma make_outbox_event_ok: "CHR ''.'' \<in> set (oe_event_type e) \<Longrightarrow> make_outbox_event e = Inr e"
  by (simp add: make_outbox_event_def)

lemma dict_merge_append: "dict_merge base (xs @ ys) = dict_merge (dict_merge base xs) ys"
  by (simp add: dict_merge_def)

lemma map_of_dict_merge: "map_of (dict_merge base extra) = map_of base ++ map_of (rev extra)"
proof (induction extra rule: rev_induct)
  case Nil show ?case by (simp add: dict_merge_def)
next
  case (snoc kv xs)
  then show ?case by (cases kv) (auto simp: dict_merge_append dict_merge_def [of _ "[_]"] update_conv' fun_eq_iff map_add_def)
qed

lemma dict_merge_values:
  "(k, v) \<in> set (dict_merge base extra) \<Longrightarrow> (k, v) \<in> set base \<or> (k, v) \<in> set extra"
proof (induction extra rule: rev_induct)
  case Nil then show ?case by (simp add: dict_merge_def)
next
  case (snoc kv xs)
  have upd: "x \<in> set (AList.update a b d) \<Longrightarrow> x = (a, b) \<or> x \<in> set d" for x :: "string \<times> json" and a b d
    by (induction d) (auto split: if_splits)
  from snoc show ?case by (cases kv) (auto simp: dict_merge_append dict_merge_def [of _ "[_]"] dest: upd)
qed

lemma mark_processed_idempotent: "mark_processed (mark_processed e t) t' = mark_processed e t"
  by (simp add: mark_processed_def)

lemma lane_audit_event_actor:
  assumes "lane_audit_event uuid5 lane i t w action rtype rid occ given run_id = Inr e"
  shows "ae_actor_id e = uuid5 (''system:'' @ lane) \<and> map_of (ae_details e) ''actor'' = Some (JStr (''system:'' @ lane))"
  using assms
  by (auto simp: lane_audit_event_def system_actor_def system_actor_label_def make_audit_event_def update_conv'
      split: if_splits)

end
