(* ===== verification/Runs.thy ===== *)
theory Runs
  imports Autonomy Events
begin

text \<open>
  The run store (\<^verbatim>\<open>dw_agent_runtime/adapters/run_store.py\<close>): the rows of \<^verbatim>\<open>platform.worker_runs\<close> in
  insertion order, with the unique index \<^verbatim>\<open>uq_worker_runs_active_thread\<close> (one unfinished run per tenant
  and thread) and row-level security (a statement sees the rows of its tenant) as the database
  enforces them. Every statement of the store is one transaction; the clock of a statement is
  the database's \<^verbatim>\<open>now()\<close>, an argument. What \<^verbatim>\<open>pg_notify\<close> announces is kept as a list.
\<close>

datatype run_status =
  Run_pending | Run_running | Run_waiting_approval | Run_completed | Run_failed | Run_cancelled

definition TERMINAL_STATUSES :: "run_status list" where
  "TERMINAL_STATUSES = [Run_completed, Run_failed, Run_cancelled]"

definition is_active :: "run_status \<Rightarrow> bool" where
  "is_active s \<longleftrightarrow> s \<notin> set TERMINAL_STATUSES"

record run_row =
  rr_id :: uuid
  rr_thread_id :: uuid
  rr_tenant_id :: uuid
  rr_workspace_id :: uuid
  rr_status :: run_status
  rr_worker_id :: string
  rr_worker_version :: string
  rr_graph_version :: string
  rr_prompt_bundle_version :: "string option"
  rr_toolset_version :: "string option"
  rr_policy_version :: "string option"
  rr_memory_policy_version :: "string option"
  rr_autonomy_level :: "autonomy_level option"
  rr_approval_policy_version :: "string option"
  rr_input :: json
  rr_result :: "json option"
  rr_error :: "json option"
  rr_approval_request_id :: "uuid option"
  rr_release_manifest_ref :: "string option"
  rr_requested_by :: uuid
  rr_actor_roles :: "string set"
  rr_actor_scopes :: "string set"
  rr_actor_plan_id :: string
  rr_actor_clearance :: string
  rr_actor_record_visibility :: string
  rr_actor_visible_owners :: "uuid set option"
  rr_trace_id :: string
  rr_subject_ref :: "string option"
  rr_created_at :: instant
  rr_updated_at :: instant

text \<open>\<^verbatim>\<open>_announcement\<close>: identifiers and the status, never the run's input or result.\<close>

record announcement =
  an_tenant :: uuid
  an_worker :: string
  an_run :: uuid
  an_subject :: "string option"
  an_status :: run_status

record run_db =
  db_runs :: "run_row list"
  db_announced :: "announcement list"

definition run_announcement :: "run_context \<Rightarrow> run_status \<Rightarrow> announcement" where
  "run_announcement c s =
     \<lparr>an_tenant = rc_tenant_id c, an_worker = rc_worker_id c, an_run = rc_run_id c,
      an_subject = rc_subject_ref c, an_status = s\<rparr>"

subsection \<open>Claiming a thread\<close>

definition thread_of :: "run_context \<Rightarrow> uuid" where
  "thread_of c = (case rc_thread_id c of Some t \<Rightarrow> t | None \<Rightarrow> rc_run_id c)"

definition new_run_row ::
  "run_context \<Rightarrow> worker_definition \<Rightarrow> json \<Rightarrow> string option \<Rightarrow> instant \<Rightarrow> run_row" where
  "new_run_row c w payload manifest now =
     \<lparr>rr_id = rc_run_id c, rr_thread_id = thread_of c, rr_tenant_id = rc_tenant_id c,
      rr_workspace_id = rc_workspace_id c, rr_status = Run_running, rr_worker_id = rc_worker_id c,
      rr_worker_version = rc_worker_version c, rr_graph_version = wd_graph_version w,
      rr_prompt_bundle_version = Some (wd_prompt_bundle_version w), rr_toolset_version = wd_toolset_version w,
      rr_policy_version = Some (wd_policy_version w),
      rr_memory_policy_version = Some (wd_memory_policy_version w),
      rr_autonomy_level = rc_autonomy_level c, rr_approval_policy_version = rc_approval_policy_version c,
      rr_input = payload, rr_result = None, rr_error = None, rr_approval_request_id = None,
      rr_release_manifest_ref = manifest, rr_requested_by = rc_actor_id c, rr_actor_roles = rc_roles c,
      rr_actor_scopes = rc_scopes c, rr_actor_plan_id = rc_plan_id c, rr_actor_clearance = rc_clearance c,
      rr_actor_record_visibility = rc_record_visibility c, rr_actor_visible_owners = rc_visible_owners c,
      rr_trace_id = rc_trace_id c, rr_subject_ref = rc_subject_ref c, rr_created_at = now, rr_updated_at = now\<rparr>"

datatype integrity_error = Primary_key | Active_thread_index

text \<open>What the constraints refuse: a second row with the id, a second unfinished run on the thread.\<close>

definition holds_thread :: "uuid \<Rightarrow> uuid \<Rightarrow> run_row \<Rightarrow> bool" where
  "holds_thread tenant thread r \<longleftrightarrow>
     rr_tenant_id r = tenant \<and> rr_thread_id r = thread \<and> is_active (rr_status r)"

definition run_insert ::
  "run_db \<Rightarrow> instant \<Rightarrow> run_context \<Rightarrow> worker_definition \<Rightarrow> json \<Rightarrow> string option \<Rightarrow> integrity_error + run_db" where
  "run_insert db now c w payload manifest =
     (if \<exists>r \<in> set (db_runs db). rr_id r = rc_run_id c then Inl Primary_key
      else if \<exists>r \<in> set (db_runs db). holds_thread (rc_tenant_id c) (thread_of c) r then Inl Active_thread_index
      else Inr \<lparr>db_runs = db_runs db @ [new_run_row c w payload manifest now],
                db_announced = db_announced db @ [run_announcement c Run_running]\<rparr>)"

definition waiting_approval_for_thread :: "run_db \<Rightarrow> uuid \<Rightarrow> uuid \<Rightarrow> uuid option" where
  "waiting_approval_for_thread db tenant thread =
     (case List.find (\<lambda>r. rr_tenant_id r = tenant \<and> rr_thread_id r = thread \<and>
                          rr_status r = Run_waiting_approval) (db_runs db) of
        None \<Rightarrow> None
      | Some r \<Rightarrow> rr_approval_request_id r)"

definition stale_error :: json where
  "stale_error = JObj [(''type'', JStr ''StaleRun''),
     (''message'', JStr ''tien trinh chay run nay da bien mat; run duoc don de mo lai hoi thoai'')]"

definition is_stale_run :: "int \<Rightarrow> instant \<Rightarrow> uuid \<Rightarrow> uuid \<Rightarrow> run_row \<Rightarrow> bool" where
  "is_stale_run stale_after now tenant thread r \<longleftrightarrow>
     rr_tenant_id r = tenant \<and> rr_thread_id r = thread \<and> rr_status r = Run_running \<and>
     rr_updated_at r < now - seconds stale_after"

definition reaped :: "instant \<Rightarrow> run_row \<Rightarrow> run_row" where
  "reaped now r = r\<lparr>rr_status := Run_failed, rr_updated_at := now, rr_error := Some stale_error\<rparr>"

definition reap_stale_thread :: "int \<Rightarrow> run_db \<Rightarrow> instant \<Rightarrow> uuid \<Rightarrow> uuid \<Rightarrow> bool \<times> run_db" where
  "reap_stale_thread stale_after db now tenant thread =
     (\<exists>r \<in> set (db_runs db). is_stale_run stale_after now tenant thread r,
      db\<lparr>db_runs := map (\<lambda>r. if is_stale_run stale_after now tenant thread r
                             then reaped now r else r) (db_runs db)\<rparr>)"

text \<open>
  \<^verbatim>\<open>create\<close>, its up to four transactions one after the other (their clock readings are the
  arguments). An integrity error of the second insert, or one of another constraint, is raised
  as it is.
\<close>

abbreviation integrity_raised :: exc where
  "integrity_raised \<equiv> OtherError ''IntegrityError''"

definition run_create ::
  "int \<Rightarrow> run_db \<Rightarrow> instant \<Rightarrow> instant \<Rightarrow> instant \<Rightarrow> run_context \<Rightarrow> worker_definition \<Rightarrow> json \<Rightarrow>
   string option \<Rightarrow> unit res \<times> run_db" where
  "run_create stale_after db now1 now2 now3 c w payload manifest =
     (case run_insert db now1 c w payload manifest of
        Inr db' \<Rightarrow> (Inr (), db')
      | Inl Primary_key \<Rightarrow> (Inl integrity_raised, db)
      | Inl Active_thread_index \<Rightarrow>
        (case waiting_approval_for_thread db (rc_tenant_id c) (thread_of c) of
           Some _ \<Rightarrow> (raise_dw (ConflictError ''this conversation is waiting for an approval decision''), db)
         | None \<Rightarrow>
           (case reap_stale_thread stale_after db now2 (rc_tenant_id c) (thread_of c) of
              (True, db') \<Rightarrow>
                (case run_insert db' now3 c w payload manifest of
                   Inr db'' \<Rightarrow> (Inr (), db'')
                 | Inl _ \<Rightarrow> (Inl integrity_raised, db'))
            | (False, db') \<Rightarrow>
                (raise_dw (ConflictError ''this conversation already has a turn in flight''), db'))))"

subsection \<open>Reading and moving a run\<close>

definition thread_belongs_to :: "run_db \<Rightarrow> uuid \<Rightarrow> uuid \<Rightarrow> uuid \<Rightarrow> bool" where
  "thread_belongs_to db tenant workspace thread \<longleftrightarrow>
     (\<exists>r \<in> set (db_runs db). rr_tenant_id r = tenant \<and> rr_thread_id r = thread \<and> rr_workspace_id r = workspace)"

definition started_since :: "run_db \<Rightarrow> uuid \<Rightarrow> instant \<Rightarrow> nat" where
  "started_since db tenant since =
     length (filter (\<lambda>r. rr_tenant_id r = tenant \<and> since \<le> rr_created_at r) (db_runs db))"

definition active_since :: "run_db \<Rightarrow> uuid \<Rightarrow> string \<Rightarrow> string \<Rightarrow> instant option" where
  "active_since db tenant worker subject =
     (case map rr_created_at (filter (\<lambda>r. rr_tenant_id r = tenant \<and> rr_worker_id r = worker \<and>
             rr_subject_ref r = Some subject \<and> is_active (rr_status r)) (db_runs db)) of
        [] \<Rightarrow> None
      | t # ts \<Rightarrow> Some (foldl min t ts))"

definition run_get :: "run_db \<Rightarrow> run_context \<Rightarrow> uuid \<Rightarrow> run_row res" where
  "run_get db c run_id =
     (case List.find (\<lambda>r. rr_tenant_id r = rc_tenant_id c \<and> rr_id r = run_id \<and>
                          rr_workspace_id r = rc_workspace_id c) (db_runs db) of
        None \<Rightarrow> raise_dw (NotFoundError ''run not found'')
      | Some r \<Rightarrow> Inr r)"

definition opt_set :: "'a option \<Rightarrow> 'a option \<Rightarrow> 'a option" where
  "opt_set new old = (case new of Some x \<Rightarrow> Some x | None \<Rightarrow> old)"

definition set_status_row ::
  "instant \<Rightarrow> run_status \<Rightarrow> json option \<Rightarrow> json option \<Rightarrow> uuid option \<Rightarrow> run_row \<Rightarrow> run_row" where
  "set_status_row now s result err approval r =
     r\<lparr>rr_status := s, rr_updated_at := now, rr_result := opt_set result (rr_result r),
       rr_error := opt_set err (rr_error r), rr_approval_request_id := opt_set approval (rr_approval_request_id r)\<rparr>"


subsection \<open>The store's invariant\<close>

definition rows_ok :: "run_row list \<Rightarrow> bool" where
  "rows_ok rs \<longleftrightarrow> distinct (map rr_id rs) \<and>
     (\<forall>r \<in> set rs. \<forall>r' \<in> set rs.
        is_active (rr_status r) \<and> holds_thread (rr_tenant_id r) (rr_thread_id r) r' \<longrightarrow> r = r')"

abbreviation runs_ok :: "run_db \<Rightarrow> bool" where
  "runs_ok db \<equiv> rows_ok (db_runs db)"

lemma rows_okI:
  assumes "distinct (map rr_id rs)"
    and "\<And>r r'. r \<in> set rs \<Longrightarrow> r' \<in> set rs \<Longrightarrow> is_active (rr_status r) \<Longrightarrow>
           holds_thread (rr_tenant_id r) (rr_thread_id r) r' \<Longrightarrow> r = r'"
  shows "rows_ok rs"
  using assms unfolding rows_ok_def by blast

lemma rows_ok_thread:
  assumes "rows_ok rs" "r \<in> set rs" "r' \<in> set rs" "holds_thread t th r" "holds_thread t th r'"
  shows "r = r'"
  using assms unfolding rows_ok_def holds_thread_def by metis

lemma rows_ok_id:
  assumes "rows_ok rs" "r \<in> set rs" "r' \<in> set rs" "rr_id r = rr_id r'"
  shows "r = r'"
  using assms unfolding rows_ok_def distinct_map inj_on_def by blast

definition empty_runs :: run_db where
  "empty_runs = \<lparr>db_runs = [], db_announced = []\<rparr>"

lemma runs_ok_empty: "runs_ok empty_runs"
  by (simp add: rows_ok_def empty_runs_def)

lemma is_active_running [simp]: "is_active Run_running"
  by (simp add: is_active_def TERMINAL_STATUSES_def)

lemma is_active_failed [simp]: "\<not> is_active Run_failed"
  by (simp add: is_active_def TERMINAL_STATUSES_def)

lemma new_run_row_simps [simp]:
  "rr_id (new_run_row c w p m now) = rc_run_id c"
  "rr_thread_id (new_run_row c w p m now) = thread_of c"
  "rr_tenant_id (new_run_row c w p m now) = rc_tenant_id c"
  "rr_workspace_id (new_run_row c w p m now) = rc_workspace_id c"
  "rr_status (new_run_row c w p m now) = Run_running"
  by (simp_all add: new_run_row_def)

lemma run_insert_ok:
  assumes ok: "runs_ok db" and ins: "run_insert db now c w p m = Inr db'"
  shows "runs_ok db' \<and> db_runs db' = db_runs db @ [new_run_row c w p m now]"
proof -
  have new: "\<forall>r \<in> set (db_runs db). rr_id r \<noteq> rc_run_id c"
    "\<forall>r \<in> set (db_runs db). \<not> holds_thread (rc_tenant_id c) (thread_of c) r"
    and rows: "db_runs db' = db_runs db @ [new_run_row c w p m now]"
    using ins by (auto simp: run_insert_def split: if_splits)
  have "rows_ok (db_runs db @ [new_run_row c w p m now])"
  proof (rule rows_okI)
    show "distinct (map rr_id (db_runs db @ [new_run_row c w p m now]))"
      using ok new(1) by (auto simp: rows_ok_def)
  next
    fix r r'
    assume "r \<in> set (db_runs db @ [new_run_row c w p m now])" "r' \<in> set (db_runs db @ [new_run_row c w p m now])"
      "is_active (rr_status r)" "holds_thread (rr_tenant_id r) (rr_thread_id r) r'"
    then show "r = r'" using ok new(2) by (auto simp: holds_thread_def rows_ok_def)
  qed
  then show ?thesis using rows by simp
qed

text \<open>An update that keeps ids and threads and activates nothing keeps the invariant.\<close>

lemma rows_ok_map:
  assumes ok: "rows_ok rs"
    and same: "\<And>r. r \<in> set rs \<Longrightarrow> rr_id (f r) = rr_id r \<and> rr_tenant_id (f r) = rr_tenant_id r \<and> rr_thread_id (f r) = rr_thread_id r"
    and act: "\<And>r. r \<in> set rs \<Longrightarrow> is_active (rr_status (f r)) \<Longrightarrow> is_active (rr_status r)"
  shows "rows_ok (map f rs)"
proof (rule rows_okI)
  have "map rr_id (map f rs) = map rr_id rs" using same by simp
  then show "distinct (map rr_id (map f rs))" using ok by (simp add: rows_ok_def del: map_map)
next
  fix r r' assume r: "r \<in> set (map f rs)" "r' \<in> set (map f rs)" and a: "is_active (rr_status r)"
    "holds_thread (rr_tenant_id r) (rr_thread_id r) r'"
  then obtain x y where xy: "x \<in> set rs" "y \<in> set rs" "r = f x" "r' = f y" by auto
  then have "holds_thread (rr_tenant_id x) (rr_thread_id x) x" "holds_thread (rr_tenant_id x) (rr_thread_id x) y"
    using a same act by (auto simp: holds_thread_def)
  then show "r = r'" using rows_ok_thread [OF ok xy(1,2)] xy by blast
qed

lemma reap_ok: "runs_ok db \<Longrightarrow> runs_ok (snd (reap_stale_thread k db now t th))"
  unfolding reap_stale_thread_def snd_conv
  by (simp, rule rows_ok_map) (auto simp: is_stale_run_def reaped_def split: if_splits)

lemma run_create_ok:
  assumes "runs_ok db"
  shows "runs_ok (snd (run_create k db now1 now2 now3 c w p m))"
proof -
  obtain b db1 where reap: "reap_stale_thread k db now2 (rc_tenant_id c) (thread_of c) = (b, db1)" by fastforce
  then have "runs_ok db1" using reap_ok [OF assms, of k now2 "rc_tenant_id c" "thread_of c"] by simp
  then have again: "runs_ok db2" if "run_insert db1 now3 c w p m = Inr db2" for db2
    using run_insert_ok that by blast
  have first: "runs_ok db2" if "run_insert db now1 c w p m = Inr db2" for db2
    using run_insert_ok [OF assms that] by blast
  show ?thesis
    unfolding run_create_def reap prod.case
    by (simp add: assms \<open>runs_ok db1\<close> first again split: sum.split integrity_error.split option.split bool.split)
qed

lemma set_status_row_simps [simp]:
  "rr_id (set_status_row now s res er ap r) = rr_id r"
  "rr_tenant_id (set_status_row now s res er ap r) = rr_tenant_id r"
  "rr_thread_id (set_status_row now s res er ap r) = rr_thread_id r"
  "rr_workspace_id (set_status_row now s res er ap r) = rr_workspace_id r"
  "rr_status (set_status_row now s res er ap r) = s"
  by (simp_all add: set_status_row_def)



text \<open>What the claim path finds when one unfinished run \<open>r\<close> holds the thread.\<close>

lemma waiting_of_holder:
  assumes ok: "runs_ok db" and r: "r \<in> set (db_runs db)" "holds_thread t th r"
  shows "waiting_approval_for_thread db t th =
           (if rr_status r = Run_waiting_approval then rr_approval_request_id r else None)"
proof -
  let ?P = "\<lambda>x. rr_tenant_id x = t \<and> rr_thread_id x = th \<and> rr_status x = Run_waiting_approval"
  have only: "x = r" if "x \<in> set (db_runs db)" "?P x" for x
    by (rule rows_ok_thread [OF ok that(1) r(1) _ r(2)])
      (use that in \<open>simp add: holds_thread_def is_active_def TERMINAL_STATUSES_def\<close>)
  show ?thesis
  proof (cases "List.find ?P (db_runs db)")
    case None
    then have "\<not> ?P r" using r(1) unfolding find_None_iff by blast
    then have "rr_status r \<noteq> Run_waiting_approval" using r(2) by (simp add: holds_thread_def)
    with None show ?thesis by (simp add: waiting_approval_for_thread_def)
  next
    case (Some x)
    then have "x \<in> set (db_runs db)" "?P x" unfolding find_Some_iff by auto
    with only [of x] Some show ?thesis by (simp add: waiting_approval_for_thread_def)
  qed
qed

lemma reap_of_holder:
  assumes ok: "runs_ok db" and r: "r \<in> set (db_runs db)" "holds_thread t th r"
  shows "reap_stale_thread k db now t th =
           (if rr_status r = Run_running \<and> rr_updated_at r < now - seconds k
            then (True, db\<lparr>db_runs := map (\<lambda>x. if x = r then reaped now x else x) (db_runs db)\<rparr>)
            else (False, db))"
proof -
  have stale: "is_stale_run k now t th x \<longleftrightarrow> x = r \<and> rr_status r = Run_running \<and> rr_updated_at r < now - seconds k"
    if x: "x \<in> set (db_runs db)" for x
  proof -
    have "x = r" if "is_stale_run k now t th x"
      by (rule rows_ok_thread [OF ok x r(1) _ r(2)])
        (use that in \<open>simp add: holds_thread_def is_stale_run_def\<close>)
    then show ?thesis using r(2) by (auto simp: is_stale_run_def holds_thread_def)
  qed
  have ex: "(\<exists>x \<in> set (db_runs db). is_stale_run k now t th x) \<longleftrightarrow>
      rr_status r = Run_running \<and> rr_updated_at r < now - seconds k"
    using stale r(1) by blast
  show ?thesis
  proof (cases "rr_status r = Run_running \<and> rr_updated_at r < now - seconds k")
    case True
    then have "map (\<lambda>x. if is_stale_run k now t th x then reaped now x else x) (db_runs db) =
        map (\<lambda>x. if x = r then reaped now x else x) (db_runs db)"
      using stale by (intro map_cong) auto
    with True ex show ?thesis by (simp add: reap_stale_thread_def)
  next
    case False
    then have "map (\<lambda>x. if is_stale_run k now t th x then reaped now x else x) (db_runs db) = db_runs db"
      using stale by (intro map_idI) auto
    then show ?thesis unfolding if_not_P [OF False] reap_stale_thread_def ex using False by simp
  qed
qed

lemma run_insert_fresh:
  assumes "\<forall>r \<in> set (db_runs db). rr_id r \<noteq> rc_run_id c"
  shows "run_insert db now c w p m =
           (if \<exists>r \<in> set (db_runs db). holds_thread (rc_tenant_id c) (thread_of c) r then Inl Active_thread_index
            else Inr \<lparr>db_runs = db_runs db @ [new_run_row c w p m now],
                      db_announced = db_announced db @ [run_announcement c Run_running]\<rparr>)"
  using assms by (auto simp: run_insert_def)

lemma run_insert_after_reap:
  assumes ok: "runs_ok db" and fresh: "\<forall>r \<in> set (db_runs db). rr_id r \<noteq> rc_run_id c"
    and r: "r \<in> set (db_runs db)" "holds_thread (rc_tenant_id c) (thread_of c) r"
  shows "run_insert (db\<lparr>db_runs := map (\<lambda>x. if x = r then reaped now x else x) (db_runs db)\<rparr>) now' c w p m =
           Inr \<lparr>db_runs = map (\<lambda>x. if x = r then reaped now x else x) (db_runs db) @ [new_run_row c w p m now'],
                db_announced = db_announced db @ [run_announcement c Run_running]\<rparr>"
proof -
  let ?db = "db\<lparr>db_runs := map (\<lambda>x. if x = r then reaped now x else x) (db_runs db)\<rparr>"
  have "\<not> holds_thread (rc_tenant_id c) (thread_of c) x" if "x \<in> set (db_runs db)" "x \<noteq> r" for x
    using rows_ok_thread [OF ok that(1) r(1) _ r(2)] that(2) by blast
  then have "\<not> (\<exists>x \<in> set (db_runs ?db). holds_thread (rc_tenant_id c) (thread_of c) x)"
    by (auto simp: holds_thread_def reaped_def)
  moreover have "\<forall>x \<in> set (db_runs ?db). rr_id x \<noteq> rc_run_id c"
    using fresh by (auto simp: reaped_def)
  ultimately show ?thesis by (simp add: run_insert_fresh)
qed

subsection \<open>Properties\<close>


definition sample_worker_definition :: worker_definition where
  "sample_worker_definition =
     \<lparr>wd_worker_id = ''assistant'', wd_worker_version = ''1.0.0'', wd_domain = ''sales'',
      wd_graph_version = ''1.0.0'', wd_prompt_bundle_version = ''1.0.0'', wd_toolset_version = None,
      wd_policy_version = ''1.0.0'', wd_memory_policy_version = ''1.0.0'',
      wd_default_model_profile = ''fast'', wd_supported_channels = {''web''},
      wd_autonomy_level = FAIL_CLOSED_LEVEL, wd_recursion_limit = 25, wd_agent_prompt_id = None,
      wd_agent_prompt_version = None\<rparr>"

definition one_run :: run_db where
  "one_run = \<lparr>db_runs = [new_run_row sample_run_context sample_worker_definition JNull None 0], db_announced = []\<rparr>"

lemma one_run_ok: "runs_ok one_run"
  by (simp add: one_run_def rows_ok_def)


text \<open>
  What claiming a thread does, in every case. A free thread is claimed by a running row that
  carries the requester's authority. A thread parked on an approval refuses the turn and nothing
  changes, however long it has been waiting. A thread whose run is running refuses the turn,
  unless the run has been silent longer than the limit: then that run alone is settled as failed
  and the thread is claimed. Any other unfinished run refuses the turn.
\<close>

theorem thread_claim_outcomes:
  assumes "runs_ok db" "\<forall>r \<in> set (db_runs db). rr_id r \<noteq> rc_run_id c"
  shows "((\<forall>r \<in> set (db_runs db). \<not> holds_thread (rc_tenant_id c) (thread_of c) r) \<longrightarrow>
           run_create k db now1 now2 now3 c w payload manifest =
             (Inr (), \<lparr>db_runs = db_runs db @ [new_run_row c w payload manifest now1],
                       db_announced = db_announced db @ [run_announcement c Run_running]\<rparr>)) \<and>
         (\<forall>r \<in> set (db_runs db). holds_thread (rc_tenant_id c) (thread_of c) r \<longrightarrow>
           run_create k db now1 now2 now3 c w payload manifest =
             (if rr_status r = Run_waiting_approval \<and> rr_approval_request_id r \<noteq> None
              then (raise_dw (ConflictError ''this conversation is waiting for an approval decision''), db)
              else if rr_status r = Run_running \<and> rr_updated_at r < now2 - seconds k
              then (Inr (), \<lparr>db_runs = map (\<lambda>x. if x = r then reaped now2 x else x) (db_runs db)
                                          @ [new_run_row c w payload manifest now3],
                             db_announced = db_announced db @ [run_announcement c Run_running]\<rparr>)
              else (raise_dw (ConflictError ''this conversation already has a turn in flight''), db)))"
proof (intro conjI impI ballI)
  assume "\<forall>r \<in> set (db_runs db). \<not> holds_thread (rc_tenant_id c) (thread_of c) r"
  then show "run_create k db now1 now2 now3 c w payload manifest =
      (Inr (), \<lparr>db_runs = db_runs db @ [new_run_row c w payload manifest now1],
                db_announced = db_announced db @ [run_announcement c Run_running]\<rparr>)"
    by (simp add: run_create_def run_insert_fresh [OF assms(2)])
next
  fix r assume r: "r \<in> set (db_runs db)" "holds_thread (rc_tenant_id c) (thread_of c) r"
  then have held: "run_insert db now1 c w payload manifest = Inl Active_thread_index"
    by (auto simp: run_insert_fresh [OF assms(2)])
  note found = waiting_of_holder [OF assms(1) r] reap_of_holder [OF assms(1) r] run_insert_after_reap [OF assms r]
  show "run_create k db now1 now2 now3 c w payload manifest =
      (if rr_status r = Run_waiting_approval \<and> rr_approval_request_id r \<noteq> None
       then (raise_dw (ConflictError ''this conversation is waiting for an approval decision''), db)
       else if rr_status r = Run_running \<and> rr_updated_at r < now2 - seconds k
       then (Inr (), \<lparr>db_runs = map (\<lambda>x. if x = r then reaped now2 x else x) (db_runs db)
                                   @ [new_run_row c w payload manifest now3],
                      db_announced = db_announced db @ [run_announcement c Run_running]\<rparr>)
       else (raise_dw (ConflictError ''this conversation already has a turn in flight''), db))"
    unfolding run_create_def held found(1,2)
    by (cases "rr_approval_request_id r"; cases "rr_status r = Run_running \<and> rr_updated_at r < now2 - seconds k")
      (auto simp: found(3))
qed

theorem thread_claim_outcomes_witness:
  "run_create 300 one_run (minutes 1) (minutes 1) (minutes 1)
     (sample_run_context\<lparr>rc_run_id := 77, rc_thread_id := Some (thread_of sample_run_context)\<rparr>)
     sample_worker_definition JNull None =
     (raise_dw (ConflictError ''this conversation already has a turn in flight''), one_run)"
proof -
  let ?c = "sample_run_context\<lparr>rc_run_id := 77, rc_thread_id := Some (thread_of sample_run_context)\<rparr>"
  let ?r = "new_run_row sample_run_context sample_worker_definition JNull None 0"
  have fresh: "\<forall>r \<in> set (db_runs one_run). rr_id r \<noteq> rc_run_id ?c"
    by (simp add: one_run_def sample_run_context_def)
  have r: "?r \<in> set (db_runs one_run)" by (simp add: one_run_def)
  have th: "holds_thread (rc_tenant_id ?c) (thread_of ?c) ?r" by (simp add: holds_thread_def thread_of_def)
  have "rr_updated_at ?r = 0" by (simp add: new_run_row_def)
  then show ?thesis
    using bspec [OF conjunct2 [OF thread_claim_outcomes [where c = ?c and k = 300, OF one_run_ok fresh]] r] th
    by simp
qed

text \<open>
  A run is read back with exactly the authority it was started with: after a claim succeeded,
  a read in the run's tenant and workspace returns a row with the requester, plan, roles, scopes,
  clearance, owner limits and autonomy stamp of the context that started it, pinned to the
  worker's versions; from any other workspace or tenant the run does not exist.
\<close>

theorem started_run_reads_back:
  assumes "runs_ok db" "run_create k db now1 now2 now3 c w payload manifest = (Inr (), db')"
  shows "(\<exists>row. run_get db' c (rc_run_id c) = Inr row \<and> rr_status row = Run_running \<and>
            rr_thread_id row = thread_of c \<and> rr_requested_by row = rc_actor_id c \<and>
            rr_actor_plan_id row = rc_plan_id c \<and> rr_actor_roles row = rc_roles c \<and>
            rr_actor_scopes row = rc_scopes c \<and> rr_actor_clearance row = rc_clearance c \<and>
            rr_actor_record_visibility row = rc_record_visibility c \<and>
            rr_actor_visible_owners row = rc_visible_owners c \<and>
            rr_autonomy_level row = rc_autonomy_level c \<and>
            rr_approval_policy_version row = rc_approval_policy_version c \<and>
            rr_graph_version row = wd_graph_version w \<and> rr_policy_version row = Some (wd_policy_version w)) \<and>
         (\<forall>c'. \<not> (rc_tenant_id c' = rc_tenant_id c \<and> rc_workspace_id c' = rc_workspace_id c) \<longrightarrow>
            run_get db' c' (rc_run_id c) = raise_dw (NotFoundError ''run not found''))"
proof -
  have ok: "runs_ok db'" using run_create_ok [OF assms(1), of k now1 now2 now3 c w payload manifest] assms(2) by simp
  have "new_run_row c w payload manifest now1 \<in> set (db_runs db') \<or> new_run_row c w payload manifest now3 \<in> set (db_runs db')"
    using assms(2) by (auto simp: run_create_def run_insert_def split: if_splits sum.splits integrity_error.splits option.splits prod.splits bool.splits)
  then obtain now where row: "new_run_row c w payload manifest now \<in> set (db_runs db')" by blast
  let ?r = "new_run_row c w payload manifest now"
  have only: "x = ?r" if "x \<in> set (db_runs db')" "rr_id x = rc_run_id c" for x
    using rows_ok_id [OF ok that(1) row] that(2) by simp
  have "List.find (\<lambda>r. rr_tenant_id r = rc_tenant_id c \<and> rr_id r = rc_run_id c \<and>
      rr_workspace_id r = rc_workspace_id c) (db_runs db') = Some ?r"
    by (rule find_unique [OF row]) (use only in auto)
  then have "run_get db' c (rc_run_id c) = Inr ?r" by (simp add: run_get_def)
  moreover have "run_get db' c' (rc_run_id c) = raise_dw (NotFoundError ''run not found'')"
    if other: "\<not> (rc_tenant_id c' = rc_tenant_id c \<and> rc_workspace_id c' = rc_workspace_id c)" for c'
  proof -
    have "List.find (\<lambda>r. rr_tenant_id r = rc_tenant_id c' \<and> rr_id r = rc_run_id c \<and>
        rr_workspace_id r = rc_workspace_id c') (db_runs db') = None"
      unfolding find_None_iff using only other by force
    then show ?thesis by (simp add: run_get_def)
  qed
  ultimately show ?thesis by (simp add: new_run_row_def)
qed

theorem started_run_reads_back_witness:
  "\<exists>row. run_get one_run sample_run_context (rc_run_id sample_run_context) = Inr row \<and>
         rr_actor_scopes row = rc_scopes sample_run_context"
proof -
  let ?db = "\<lparr>db_runs = db_runs one_run, db_announced = [run_announcement sample_run_context Run_running]\<rparr>"
  have "run_create 300 empty_runs 0 0 0 sample_run_context sample_worker_definition JNull None = (Inr (), ?db)"
    by (simp add: run_create_def run_insert_def empty_runs_def one_run_def)
  from started_run_reads_back [OF runs_ok_empty this]
  show ?thesis by (auto simp: run_get_def)
qed

end
