(* ===== verification/Approval.thy ===== *)
theory Approval
  imports Runs
begin

text \<open>
  The approval aggregate (\<^verbatim>\<open>dw_platform/domain/approval.py\<close>), its repository
  (\<^verbatim>\<open>adapters/persistence/repositories.py\<close>) and the service that decides a request and resumes the
  run that waits for it (\<^verbatim>\<open>dw_agent_runtime/approval_flow.py\<close>). A unit of work is a transaction on
  \<open>platform_db\<close>: row-level security shows it the rows of the caller's tenant, an exception
  discards its writes, and \<^verbatim>\<open>commit\<close> publishes them. Collisions of generated UUIDs are not modelled: the
  tables other than the requests are append-only lists. \<open>'c\<close> is the state of the decision-code
  ledger, which the service itself never touches.
\<close>

subsection \<open>The aggregate\<close>

datatype approval_status = Approval_pending | Approval_approved | Approval_rejected | Approval_cancelled
datatype decision_outcome = Outcome_approved | Outcome_rejected

record approval_decision =
  ad_id :: uuid
  ad_request_id :: uuid
  ad_tenant_id :: uuid
  ad_workspace_id :: uuid
  ad_decided_by :: uuid
  ad_outcome :: decision_outcome
  ad_comment :: ustr
  ad_decided_at :: instant
  ad_channel :: string

record approval_request =
  ar_id :: uuid
  ar_tenant_id :: uuid
  ar_workspace_id :: uuid
  ar_approval_type :: string
  ar_requested_by :: uuid
  ar_reason :: ustr
  ar_payload :: json
  ar_run_id :: "uuid option"
  ar_required_scope :: "string option"
  ar_status :: approval_status
  ar_created_at :: "instant option"
  ar_decided_at :: "instant option"
  ar_version :: int

fun outcome_value :: "decision_outcome \<Rightarrow> string" where
  "outcome_value Outcome_approved = ''approved''"
| "outcome_value Outcome_rejected = ''rejected''"

definition decided_event_type :: "string \<Rightarrow> string" where
  "decided_event_type approval_type = approval_type @ ''.decided''"

definition require_pending :: "approval_request \<Rightarrow> unit res" where
  "require_pending r =
     (if ar_status r \<noteq> Approval_pending then raise_dw (ConflictError ''approval request already decided'') else Inr ())"

text \<open>The two halves of \<^verbatim>\<open>ApprovalRequest.decide\<close>: the record it returns and the request it leaves.\<close>

definition decision_of ::
  "approval_request \<Rightarrow> uuid \<Rightarrow> uuid \<Rightarrow> decision_outcome \<Rightarrow> instant \<Rightarrow> ustr \<Rightarrow> string \<Rightarrow> approval_decision" where
  "decision_of r decision_id decided_by outcome decided_at comment channel =
     \<lparr>ad_id = decision_id, ad_request_id = ar_id r, ad_tenant_id = ar_tenant_id r,
      ad_workspace_id = ar_workspace_id r, ad_decided_by = decided_by, ad_outcome = outcome,
      ad_comment = comment, ad_decided_at = decided_at, ad_channel = channel\<rparr>"

definition outcome_status :: "decision_outcome \<Rightarrow> approval_status" where
  "outcome_status outcome = (if outcome = Outcome_approved then Approval_approved else Approval_rejected)"

definition decided_request :: "approval_request \<Rightarrow> decision_outcome \<Rightarrow> instant \<Rightarrow> approval_request" where
  "decided_request r outcome decided_at =
     r\<lparr>ar_status := outcome_status outcome, ar_decided_at := Some decided_at, ar_version := ar_version r + 1\<rparr>"

definition decide_request ::
  "approval_request \<Rightarrow> uuid \<Rightarrow> uuid \<Rightarrow> decision_outcome \<Rightarrow> instant \<Rightarrow> ustr \<Rightarrow> string \<Rightarrow>
   (approval_decision \<times> approval_request) res" where
  "decide_request r decision_id decided_by outcome decided_at comment channel =
     (case require_pending r of
        Inl e \<Rightarrow> Inl e
      | Inr _ \<Rightarrow> Inr (decision_of r decision_id decided_by outcome decided_at comment channel,
                       decided_request r outcome decided_at))"

definition cancel_request :: "approval_request \<Rightarrow> approval_request res" where
  "cancel_request r =
     (case require_pending r of
        Inl e \<Rightarrow> Inl e
      | Inr _ \<Rightarrow> Inr (r\<lparr>ar_status := Approval_cancelled, ar_version := ar_version r + 1\<rparr>))"

subsection \<open>The unit of work and the repository\<close>

record 'c platform_db =
  pd_approvals :: "approval_request list"
  pd_decisions :: "approval_decision list"
  pd_outbox :: "outbox_event list"
  pd_audit :: "audit_event list"
  pd_codes :: 'c

text \<open>\<^verbatim>\<open>SqlApprovalRepository.add\<close>; the row's \<^verbatim>\<open>created_at\<close> is the column's default, the database clock.\<close>

definition approvals_add :: "'c platform_db \<Rightarrow> instant \<Rightarrow> approval_request \<Rightarrow> 'c platform_db" where
  "approvals_add db now r =
     db\<lparr>pd_approvals := pd_approvals db @ [r\<lparr>ar_created_at := Some now, ar_decided_at := None\<rparr>]\<rparr>"

definition approvals_get ::
  "'c platform_db \<Rightarrow> uuid \<Rightarrow> uuid \<Rightarrow> uuid \<Rightarrow> approval_audience \<Rightarrow> approval_request option" where
  "approvals_get db tenant request_id workspace_id audience =
     List.find (\<lambda>r. ar_tenant_id r = tenant \<and> ar_id r = request_id \<and> ar_workspace_id r = workspace_id \<and>
                    visible_to audience (ar_required_scope r) (ar_requested_by r)) (pd_approvals db)"

definition save_hits :: "uuid \<Rightarrow> approval_request \<Rightarrow> approval_request \<Rightarrow> bool" where
  "save_hits tenant r row \<longleftrightarrow>
     ar_tenant_id row = tenant \<and> ar_id row = ar_id r \<and> ar_version row = ar_version r - 1"

definition saved_row :: "approval_request \<Rightarrow> approval_request \<Rightarrow> approval_request" where
  "saved_row r row = row\<lparr>ar_status := ar_status r, ar_decided_at := ar_decided_at r, ar_version := ar_version r\<rparr>"

definition approvals_save :: "'c platform_db \<Rightarrow> uuid \<Rightarrow> approval_request \<Rightarrow> 'c platform_db res" where
  "approvals_save db tenant r =
     (if length (filter (save_hits tenant r) (pd_approvals db)) \<noteq> 1
      then raise_dw (ConflictError ''approval request was modified concurrently'')
      else Inr (db\<lparr>pd_approvals := map (\<lambda>row. if save_hits tenant r row then saved_row r row else row) (pd_approvals db)\<rparr>))"

definition approvals_add_decision :: "'c platform_db \<Rightarrow> approval_decision \<Rightarrow> 'c platform_db" where
  "approvals_add_decision db d = db\<lparr>pd_decisions := pd_decisions db @ [d]\<rparr>"

definition outbox_add :: "'c platform_db \<Rightarrow> outbox_event \<Rightarrow> 'c platform_db" where
  "outbox_add db e = db\<lparr>pd_outbox := pd_outbox db @ [e]\<rparr>"

definition audit_append :: "'c platform_db \<Rightarrow> audit_event \<Rightarrow> 'c platform_db" where
  "audit_append db e = db\<lparr>pd_audit := pd_audit db @ [e]\<rparr>"

subsection \<open>The decision service\<close>

text \<open>
  \<^verbatim>\<open>ApproveAndResumeService\<close>: its configuration (the admin role of the authorization service, the
  strict prefixes, the guards by type, what graphs the runner hosts) and the draws of
  \<^verbatim>\<open>id_generator\<close>, one per record that is built (0 the decision, 1 the outbox event, 2 the audit event).
\<close>

record approval_config =
  cfg_admin_role :: string
  cfg_strict_prefixes :: "string list"
  cfg_guards :: "string \<Rightarrow> (approval_request \<Rightarrow> access_context \<Rightarrow> unit res) option"
  cfg_hosts :: "string \<Rightarrow> string \<Rightarrow> string \<Rightarrow> bool"

definition is_strict :: "approval_config \<Rightarrow> string \<Rightarrow> bool" where
  "is_strict cfg approval_type \<longleftrightarrow> list_ex (startswith approval_type) (cfg_strict_prefixes cfg)"

definition enforce_strict_rules :: "approval_request \<Rightarrow> ustr \<Rightarrow> access_context \<Rightarrow> unit res" where
  "enforce_strict_rules r comment c =
     (if ar_requested_by r = ac_principal_id c
      then raise_dw (ConflictError ''separation of duties: requester cannot approve their own request'')
      else if ublank comment then raise_dw (ConflictError ''this approval type requires a review comment'')
      else Inr ())"

definition run_context_for :: "access_context \<Rightarrow> uuid \<Rightarrow> run_context" where
  "run_context_for c run_id =
     \<lparr>rc_run_id = run_id, rc_thread_id = None, rc_tenant_id = ac_tenant_id c,
      rc_workspace_id = ac_workspace_id c, rc_actor_id = ac_principal_id c, rc_worker_id = ''unknown'',
      rc_worker_version = ''0.0.0'', rc_channel = ''web'', rc_plan_id = ac_plan_id c, rc_roles = ac_roles c,
      rc_scopes = ac_scopes c, rc_clearance = ac_clearance c, rc_record_visibility = ''open'',
      rc_visible_owners = None, rc_trace_id = ''lookup-'' @ take 12 (uuid_hex run_id), rc_locale = ''vi-VN'',
      rc_subject_ref = None, rc_autonomy_ceiling = FAIL_CLOSED_LEVEL, rc_autonomy_level = None,
      rc_approval_policy_version = None\<rparr>"

definition resumable_run :: "approval_config \<Rightarrow> run_db \<Rightarrow> access_context \<Rightarrow> approval_request \<Rightarrow> run_row option res" where
  "resumable_run cfg runs c r =
     (case ar_run_id r of
        None \<Rightarrow> Inr None
      | Some run_id \<Rightarrow>
        (case run_get runs (run_context_for c run_id) run_id of
           Inl e \<Rightarrow> Inl e
         | Inr rec \<Rightarrow>
             if rr_status rec \<noteq> Run_waiting_approval
             then raise_dw (ConflictError ''run is not waiting for approval'')
             else if \<not> cfg_hosts cfg (rr_worker_id rec) (rr_worker_version rec) (rr_graph_version rec)
             then raise_dw (ConflictError ''this service does not run the graph that owns the approval'')
             else Inr (Some rec)))"

text \<open>Everything \<^verbatim>\<open>decide\<close> checks before it writes (up to the admission), on what it read.\<close>

definition may_proceed ::
  "approval_config \<Rightarrow> access_context \<Rightarrow> bool \<Rightarrow> ustr \<Rightarrow> approval_request \<Rightarrow> unit res" where
  "may_proceed cfg c approve comment r =
     (let scope_checks =
        (if approve \<or> ar_requested_by r \<noteq> ac_principal_id c
         then (case require_scope (cfg_admin_role cfg) c APPROVALS_DECIDE of
                 Inl e \<Rightarrow> Inl e
               | Inr _ \<Rightarrow> if holds_stamped_scope c (ar_required_scope r) then Inr () else raise_dw permission_denied)
         else Inr ())
      in case scope_checks of
           Inl e \<Rightarrow> Inl e
         | Inr _ \<Rightarrow>
           (case (if is_strict cfg (ar_approval_type r) then enforce_strict_rules r comment c else Inr ()) of
              Inl e \<Rightarrow> Inl e
            | Inr _ \<Rightarrow>
              (case cfg_guards cfg (ar_approval_type r) of None \<Rightarrow> Inr () | Some guard \<Rightarrow> guard r c)))"

definition decide_reads ::
  "approval_config \<Rightarrow> run_db \<Rightarrow> 'c platform_db \<Rightarrow> uuid \<Rightarrow> bool \<Rightarrow> ustr \<Rightarrow> access_context \<Rightarrow>
   (approval_request \<times> run_row option) res" where
  "decide_reads cfg runs db approval_id approve comment c =
     (case approvals_get db (ac_tenant_id c) approval_id (ac_workspace_id c) (audience_of c (cfg_admin_role cfg)) of
        None \<Rightarrow> raise_dw (NotFoundError ''approval request not found'')
      | Some r \<Rightarrow>
        (case may_proceed cfg c approve comment r of
           Inl e \<Rightarrow> Inl e
         | Inr _ \<Rightarrow>
           (case resumable_run cfg runs c r of Inl e \<Rightarrow> Inl e | Inr rec \<Rightarrow> Inr (r, rec))))"

definition decided_event :: "uuid \<Rightarrow> approval_request \<Rightarrow> approval_decision \<Rightarrow> outbox_event res" where
  "decided_event event_id r d =
     make_outbox_event
       \<lparr>oe_id = event_id, oe_tenant_id = ar_tenant_id r, oe_workspace_id = ar_workspace_id r,
        oe_event_type = decided_event_type (ar_approval_type r), oe_schema_version = ''1.0'',
        oe_aggregate_id = ar_id r, oe_occurred_at = ad_decided_at d,
        oe_payload = [(''approval_id'', JUuid (ar_id r)), (''decision_id'', JUuid (ad_id d)),
                      (''outcome'', JStr (outcome_value (ad_outcome d))), (''decided_by'', JUuid (ad_decided_by d))],
        oe_correlation_id = None, oe_causation_id = None, oe_actor_id = Some (ad_decided_by d),
        oe_processed_at = None, oe_attempts = 0, oe_last_error = None\<rparr>"

definition DECIDED_ACTION :: string where "DECIDED_ACTION = ''approval.decided''"
definition CHANNEL_DECIDED_ACTION :: string where "CHANNEL_DECIDED_ACTION = ''approval.channel_decided''"

definition decision_audit ::
  "string \<Rightarrow> details \<Rightarrow> uuid \<Rightarrow> approval_request \<Rightarrow> approval_decision \<Rightarrow> audit_event res" where
  "decision_audit action given event_id r d =
     make_audit_event
       \<lparr>ae_id = event_id, ae_tenant_id = ar_tenant_id r, ae_workspace_id = ar_workspace_id r,
        ae_actor_id = ad_decided_by d, ae_action = action, ae_resource_type = ''approval_request'',
        ae_resource_id = JUuid (ar_id r), ae_occurred_at = ad_decided_at d, ae_run_id = ar_run_id r,
        ae_policy_decision = None, ae_trace_id = None, ae_details = given\<rparr>"

definition decided_audit :: "uuid \<Rightarrow> approval_request \<Rightarrow> approval_decision \<Rightarrow> audit_event res" where
  "decided_audit event_id r d =
     decision_audit DECIDED_ACTION
       [(''approval_type'', JStr (ar_approval_type r)), (''outcome'', JStr (outcome_value (ad_outcome d))),
        (''decision_id'', JUuid (ad_id d)),
        (''withdrawn'', JBool (ad_outcome d = Outcome_rejected \<and> ad_decided_by d = ar_requested_by r))]
       event_id r d"

definition admitted_audit :: "details \<Rightarrow> uuid \<Rightarrow> approval_request \<Rightarrow> approval_decision \<Rightarrow> audit_event res" where
  "admitted_audit admitted event_id r d =
     decision_audit CHANNEL_DECIDED_ACTION
       (dict_merge admitted
          [(''channel'', JStr (ad_channel d)), (''decision_id'', JUuid (ad_id d)),
           (''outcome'', JStr (outcome_value (ad_outcome d))), (''approval_type'', JStr (ar_approval_type r))])
       event_id r d"

definition outcome_of :: "bool \<Rightarrow> decision_outcome" where
  "outcome_of approve = (if approve then Outcome_approved else Outcome_rejected)"

text \<open>
  The writes, on the database as it is when they run: another transaction may have committed
  since the reads.
\<close>

definition decide_writes ::
  "(nat \<Rightarrow> uuid) \<Rightarrow> instant \<Rightarrow> 'c platform_db \<Rightarrow> access_context \<Rightarrow> bool \<Rightarrow> ustr \<Rightarrow> string \<Rightarrow>
   approval_request \<Rightarrow> details option \<Rightarrow> (approval_request \<times> 'c platform_db) res" where
  "decide_writes new_uuid now db c approve comment channel r admitted =
     (case decide_request r (new_uuid 0) (ac_principal_id c) (outcome_of approve) now comment channel of
        Inl e \<Rightarrow> Inl e
      | Inr (d, r') \<Rightarrow>
        (case approvals_save db (ac_tenant_id c) r' of
           Inl e \<Rightarrow> Inl e
         | Inr db1 \<Rightarrow>
           (let db2 = approvals_add_decision db1 d in
            case (if ar_run_id r' = None
                  then (case decided_event (new_uuid 1) r' d of Inl e \<Rightarrow> Inl e | Inr ev \<Rightarrow> Inr (outbox_add db2 ev))
                  else Inr db2) of
              Inl e \<Rightarrow> Inl e
            | Inr db3 \<Rightarrow>
              (case (case admitted of None \<Rightarrow> decided_audit (new_uuid 2) r' d
                     | Some a \<Rightarrow> admitted_audit a (new_uuid 2) r' d) of
                 Inl e \<Rightarrow> Inl e
               | Inr ev \<Rightarrow> Inr (r', audit_append db3 ev)))))"

text \<open>What the runner is handed: the run's own authority, and who decided.\<close>

record resume_call =
  rs_context :: run_context
  rs_run_id :: uuid
  rs_payload :: details

definition resume_context :: "access_context \<Rightarrow> string \<Rightarrow> uuid \<Rightarrow> run_row \<Rightarrow> run_context" where
  "resume_context c channel run_id rec =
     \<lparr>rc_run_id = run_id, rc_thread_id = Some (rr_thread_id rec), rc_tenant_id = ac_tenant_id c,
      rc_workspace_id = rr_workspace_id rec, rc_actor_id = rr_requested_by rec, rc_worker_id = rr_worker_id rec,
      rc_worker_version = rr_worker_version rec, rc_channel = channel, rc_plan_id = rr_actor_plan_id rec,
      rc_roles = rr_actor_roles rec, rc_scopes = rr_actor_scopes rec, rc_clearance = rr_actor_clearance rec,
      rc_record_visibility = rr_actor_record_visibility rec, rc_visible_owners = rr_actor_visible_owners rec,
      rc_trace_id = ''resume-'' @ take 12 (uuid_hex run_id), rc_locale = ''vi-VN'', rc_subject_ref = None,
      rc_autonomy_ceiling = (case rr_autonomy_level rec of Some l \<Rightarrow> l | None \<Rightarrow> FAIL_CLOSED_LEVEL),
      rc_autonomy_level = rr_autonomy_level rec,
      rc_approval_policy_version = rr_approval_policy_version rec\<rparr>"

definition resume_payload :: "access_context \<Rightarrow> bool \<Rightarrow> ustr \<Rightarrow> string list option \<Rightarrow> details" where
  "resume_payload c approve comment action_ids =
     [(''approved'', JBool approve), (''comment'', JText comment), (''decided_by'', JUuid (ac_principal_id c))]
     @ (case action_ids of None \<Rightarrow> [] | Some ids \<Rightarrow> [(''approved_action_ids'', JArr (map JStr ids))])"

text \<open>
  \<^verbatim>\<open>decide\<close>. The admission may change the unit of work's state and runs after every check and
  before any write. The result is the decided request or the exception, the database afterwards
  (unchanged when the unit of work was rolled back), and the resume handed to the runner; a
  runner that raises does so after the commit.
\<close>

type_synonym 'c admission =
  "'c platform_db \<Rightarrow> approval_request \<Rightarrow> access_context \<Rightarrow> (details \<times> 'c platform_db) res"

definition resume_of ::
  "(resume_call \<Rightarrow> exc option) \<Rightarrow> access_context \<Rightarrow> bool \<Rightarrow> ustr \<Rightarrow> string \<Rightarrow> string list option \<Rightarrow>
   approval_request \<Rightarrow> run_row option \<Rightarrow> approval_request res \<times> resume_call option" where
  "resume_of runner c approve comment channel action_ids r record =
     (case (record, ar_run_id r) of
        (Some rec, Some run_id) \<Rightarrow>
          if \<not> is_semver (rr_worker_version rec) then (Inl ValidationError, None)
          else (let call = \<lparr>rs_context = resume_context c channel run_id rec, rs_run_id = run_id,
                            rs_payload = resume_payload c approve comment action_ids\<rparr>
                in (case runner call of None \<Rightarrow> Inr r | Some e \<Rightarrow> Inl e, Some call))
      | _ \<Rightarrow> (Inr r, None))"

definition decide ::
  "approval_config \<Rightarrow> (nat \<Rightarrow> uuid) \<Rightarrow> instant \<Rightarrow> (resume_call \<Rightarrow> exc option) \<Rightarrow> run_db \<Rightarrow> 'c platform_db \<Rightarrow>
   uuid \<Rightarrow> bool \<Rightarrow> ustr \<Rightarrow> access_context \<Rightarrow> string list option \<Rightarrow> string \<Rightarrow> 'c admission option \<Rightarrow>
   approval_request res \<times> 'c platform_db \<times> resume_call option" where
  "decide cfg new_uuid now runner runs db approval_id approve comment c action_ids channel admission =
     (case decide_reads cfg runs db approval_id approve comment c of
        Inl e \<Rightarrow> (Inl e, db, None)
      | Inr (r, rec) \<Rightarrow>
        (case (case admission of None \<Rightarrow> Inr (None, db)
               | Some admit \<Rightarrow> (case admit db r c of Inl e \<Rightarrow> Inl e | Inr (a, db') \<Rightarrow> Inr (Some a, db'))) of
           Inl e \<Rightarrow> (Inl e, db, None)
         | Inr (admitted, db1) \<Rightarrow>
           (case decide_writes new_uuid now db1 c approve comment channel r admitted of
              Inl e \<Rightarrow> (Inl e, db, None)
            | Inr (r', db2) \<Rightarrow>
              (case resume_of runner c approve comment channel action_ids r' rec of
                 (res, call) \<Rightarrow> (res, db2, call)))))"

subsection \<open>What a decision writes\<close>

lemma decision_of_simps [simp]:
  "ad_id (decision_of r i who out now cm ch) = i" "ad_request_id (decision_of r i who out now cm ch) = ar_id r"
  "ad_decided_by (decision_of r i who out now cm ch) = who" "ad_outcome (decision_of r i who out now cm ch) = out"
  "ad_decided_at (decision_of r i who out now cm ch) = now" "ad_comment (decision_of r i who out now cm ch) = cm"
  "ad_channel (decision_of r i who out now cm ch) = ch" "ad_tenant_id (decision_of r i who out now cm ch) = ar_tenant_id r"
  "ad_workspace_id (decision_of r i who out now cm ch) = ar_workspace_id r"
  by (simp_all add: decision_of_def)

lemma decided_request_simps [simp]:
  "ar_id (decided_request r out now) = ar_id r" "ar_tenant_id (decided_request r out now) = ar_tenant_id r"
  "ar_workspace_id (decided_request r out now) = ar_workspace_id r"
  "ar_approval_type (decided_request r out now) = ar_approval_type r"
  "ar_requested_by (decided_request r out now) = ar_requested_by r"
  "ar_run_id (decided_request r out now) = ar_run_id r"
  "ar_required_scope (decided_request r out now) = ar_required_scope r"
  "ar_status (decided_request r out now) = outcome_status out"
  "ar_decided_at (decided_request r out now) = Some now"
  "ar_version (decided_request r out now) = ar_version r + 1"
  by (simp_all add: decided_request_def)

lemma decide_request_eq:
  "decide_request r i who out now cm ch =
     (if ar_status r = Approval_pending then Inr (decision_of r i who out now cm ch, decided_request r out now)
      else raise_dw (ConflictError ''approval request already decided''))"
  by (simp add: decide_request_def require_pending_def)

lemma decided_event_ok: "\<exists>e. decided_event i r d = Inr e"
  unfolding decided_event_def by (subst make_outbox_event_ok) (auto simp: decided_event_type_def)


lemma DECIDED_ACTION_not_blank [simp]: "\<not> sblank DECIDED_ACTION"
  by (simp add: blank_simps DECIDED_ACTION_def)

lemma CHANNEL_DECIDED_ACTION_not_blank [simp]: "\<not> sblank CHANNEL_DECIDED_ACTION"
  by (simp add: blank_simps CHANNEL_DECIDED_ACTION_def)

lemma decided_audit_ok: "\<exists>e. decided_audit i r d = Inr e"
  by (simp add: decided_audit_def decision_audit_def make_audit_event_def)

lemma admitted_audit_ok: "\<exists>e. admitted_audit a i r d = Inr e"
  by (simp add: admitted_audit_def decision_audit_def make_audit_event_def)

definition audit_of :: "details option \<Rightarrow> uuid \<Rightarrow> approval_request \<Rightarrow> approval_decision \<Rightarrow> audit_event res" where
  "audit_of admitted i r d =
     (case admitted of None \<Rightarrow> decided_audit i r d | Some a \<Rightarrow> admitted_audit a i r d)"

lemma audit_of_ok: "\<exists>e. audit_of admitted i r d = Inr e"
  by (cases admitted) (simp_all add: audit_of_def decided_audit_ok admitted_audit_ok)


text \<open>The writes in one equation: they succeed as a whole or raise, and never half-write.\<close>

definition save_finds_one :: "'c platform_db \<Rightarrow> uuid \<Rightarrow> approval_request \<Rightarrow> bool" where
  "save_finds_one db tenant r \<longleftrightarrow> length (filter (save_hits tenant r) (pd_approvals db)) = 1"

definition saved_rows :: "uuid \<Rightarrow> approval_request \<Rightarrow> approval_request list \<Rightarrow> approval_request list" where
  "saved_rows tenant r rows = map (\<lambda>row. if save_hits tenant r row then saved_row r row else row) rows"

lemma approvals_save_eq:
  "approvals_save db tenant r =
     (if save_finds_one db tenant r then Inr (db\<lparr>pd_approvals := saved_rows tenant r (pd_approvals db)\<rparr>)
      else raise_dw (ConflictError ''approval request was modified concurrently''))"
  by (simp add: approvals_save_def save_finds_one_def saved_rows_def)

lemma decide_writes_eq:
  assumes r'_def: "r' = decided_request r (outcome_of approve) now"
    and d_def: "d = decision_of r (new_uuid 0) (ac_principal_id c) (outcome_of approve) now comment channel"
    and ev: "audit_of admitted (new_uuid 2) r' d = Inr ev" and oe: "decided_event (new_uuid 1) r' d = Inr oe"
  shows "decide_writes new_uuid now db c approve comment channel r admitted =
     (if ar_status r \<noteq> Approval_pending then raise_dw (ConflictError ''approval request already decided'')
      else if \<not> save_finds_one db (ac_tenant_id c) r'
      then raise_dw (ConflictError ''approval request was modified concurrently'')
      else Inr (r', db\<lparr>pd_approvals := saved_rows (ac_tenant_id c) r' (pd_approvals db),
                       pd_decisions := pd_decisions db @ [d],
                       pd_outbox := pd_outbox db @ (if ar_run_id r = None then [oe] else []),
                       pd_audit := pd_audit db @ [ev]\<rparr>))"
proof -
  have run: "ar_run_id r' = ar_run_id r" by (simp add: r'_def)
  note steps = decide_request_eq approvals_save_eq approvals_add_decision_def outbox_add_def audit_append_def
  show ?thesis
    unfolding decide_writes_def steps audit_of_def [symmetric] Let_def r'_def [symmetric] d_def [symmetric]
    by (cases "ar_status r = Approval_pending"; cases "save_finds_one db (ac_tenant_id c) r'"; cases "ar_run_id r")
      (simp_all add: r'_def [symmetric] d_def [symmetric] ev oe run del: One_nat_def)
qed

lemma decide_writes_Inr:
  assumes "decide_writes new_uuid now db c approve comment channel r admitted = Inr (r', db')"
  obtains d ev oe where
    "ar_status r = Approval_pending" "r' = decided_request r (outcome_of approve) now"
    "d = decision_of r (new_uuid 0) (ac_principal_id c) (outcome_of approve) now comment channel"
    "save_finds_one db (ac_tenant_id c) r'" "audit_of admitted (new_uuid 2) r' d = Inr ev"
    "decided_event (new_uuid 1) r' d = Inr oe"
    "db' = db\<lparr>pd_approvals := saved_rows (ac_tenant_id c) r' (pd_approvals db), pd_decisions := pd_decisions db @ [d],
              pd_outbox := pd_outbox db @ (if ar_run_id r = None then [oe] else []), pd_audit := pd_audit db @ [ev]\<rparr>"
proof -
  let ?r' = "decided_request r (outcome_of approve) now"
  let ?d = "decision_of r (new_uuid 0) (ac_principal_id c) (outcome_of approve) now comment channel"
  obtain oe where oe: "decided_event (new_uuid 1) ?r' ?d = Inr oe" using decided_event_ok by blast
  obtain ev where ev: "audit_of admitted (new_uuid 2) ?r' ?d = Inr ev" using audit_of_ok by blast
  have pend: "ar_status r = Approval_pending" "save_finds_one db (ac_tenant_id c) ?r'" and r': "r' = ?r'"
    and db': "db' = db\<lparr>pd_approvals := saved_rows (ac_tenant_id c) ?r' (pd_approvals db),
              pd_decisions := pd_decisions db @ [?d],
              pd_outbox := pd_outbox db @ (if ar_run_id r = None then [oe] else []), pd_audit := pd_audit db @ [ev]\<rparr>"
    using assms unfolding decide_writes_eq [where db = db, OF refl refl ev oe] by (auto split: if_splits)
  show ?thesis
    by (rule that [OF pend(1) r' refl, unfolded r', OF pend(2) ev oe db'])
qed

lemma decide_reads_Inr:
  assumes "decide_reads cfg runs db aid approve comment c = Inr (r, rec)"
  shows "r \<in> set (pd_approvals db)" "ar_tenant_id r = ac_tenant_id c" "ar_id r = aid"
    "ar_workspace_id r = ac_workspace_id c"
    "visible_to (audience_of c (cfg_admin_role cfg)) (ar_required_scope r) (ar_requested_by r)"
    "may_proceed cfg c approve comment r = Inr ()" "resumable_run cfg runs c r = Inr rec"
proof -
  have g: "approvals_get db (ac_tenant_id c) aid (ac_workspace_id c) (audience_of c (cfg_admin_role cfg)) = Some r"
    and m: "may_proceed cfg c approve comment r = Inr ()" "resumable_run cfg runs c r = Inr rec"
    using assms unfolding decide_reads_def by (simp_all split: option.splits sum.splits)
  then show "may_proceed cfg c approve comment r = Inr ()" "resumable_run cfg runs c r = Inr rec" by blast+
  show "r \<in> set (pd_approvals db)" "ar_tenant_id r = ac_tenant_id c" "ar_id r = aid"
    "ar_workspace_id r = ac_workspace_id c"
    "visible_to (audience_of c (cfg_admin_role cfg)) (ar_required_scope r) (ar_requested_by r)"
    using g unfolding approvals_get_def find_Some_iff by auto
qed

subsection \<open>Concurrent deciders\<close>

text \<open>
  Any number of decisions run at once. Each reads the request and passes its checks in one step
  and writes in a later one, on the database as it is by then; the database serialises the
  writes of one row, so a write step is atomic. New requests are raised in between. A caller's
  copy of the request stays in memory between its two steps.
\<close>

record attempt =
  at_request :: approval_request
  at_context :: access_context
  at_approve :: bool
  at_comment :: ustr

type_synonym 'c board = "'c platform_db \<times> (nat \<Rightarrow> attempt option)"

inductive decider_step :: "approval_config \<Rightarrow> 'c board \<Rightarrow> 'c board \<Rightarrow> bool" for cfg where
  reads: "decide_reads cfg runs db aid approve comment c = Inr (r, rec) \<Longrightarrow>
     decider_step cfg (db, pend)
       (db, pend(a := Some \<lparr>at_request = r, at_context = c, at_approve = approve, at_comment = comment\<rparr>))"
| commits: "pend a = Some t \<Longrightarrow>
     decide_writes new_uuid now db (at_context t) (at_approve t) (at_comment t) channel (at_request t) admitted =
       Inr (r', db') \<Longrightarrow>
     decider_step cfg (db, pend) (db', pend(a := None))"
| refused: "decider_step cfg (db, pend) (db, pend(a := None))"
| raised: "ar_id r \<notin> ar_id ` set (pd_approvals db) \<Longrightarrow> ar_status r = Approval_pending \<Longrightarrow>
     decider_step cfg (db, pend) (approvals_add db now r, pend)"

definition no_approvals :: "'c \<Rightarrow> 'c platform_db" where
  "no_approvals codes = \<lparr>pd_approvals = [], pd_decisions = [], pd_outbox = [], pd_audit = [], pd_codes = codes\<rparr>"

inductive decider_reach :: "approval_config \<Rightarrow> 'c board \<Rightarrow> bool" for cfg where
  start: "decider_reach cfg (no_approvals codes, \<lambda>_. None)"
| more: "decider_reach cfg s \<Longrightarrow> decider_step cfg s s' \<Longrightarrow> decider_reach cfg s'"

definition decisions_for :: "'c platform_db \<Rightarrow> uuid \<Rightarrow> approval_decision list" where
  "decisions_for db aid = filter (\<lambda>d. ad_request_id d = aid) (pd_decisions db)"

text \<open>A request and its decisions agree: none while it is pending or cancelled, else exactly one.\<close>

fun decisions_agree :: "approval_status \<Rightarrow> approval_decision list \<Rightarrow> bool" where
  "decisions_agree Approval_approved ds = (map ad_outcome ds = [Outcome_approved])"
| "decisions_agree Approval_rejected ds = (map ad_outcome ds = [Outcome_rejected])"
| "decisions_agree _ ds = (ds = [])"

lemma decisions_agree_one: "ad_outcome d = out \<Longrightarrow> decisions_agree (outcome_status out) [d]"
  by (cases out) (simp_all add: outcome_status_def)

definition db_agrees :: "'c platform_db \<Rightarrow> bool" where
  "db_agrees db \<longleftrightarrow> distinct (map ar_id (pd_approvals db)) \<and>
     (\<forall>row \<in> set (pd_approvals db). decisions_agree (ar_status row) (decisions_for db (ar_id row))) \<and>
     ad_request_id ` set (pd_decisions db) \<subseteq> ar_id ` set (pd_approvals db)"

text \<open>A copy in memory is an older version of its row, or the row itself.\<close>

definition copy_of_row :: "'c platform_db \<Rightarrow> approval_request \<Rightarrow> bool" where
  "copy_of_row db r \<longleftrightarrow>
     (\<exists>row \<in> set (pd_approvals db). ar_id row = ar_id r \<and>
        (ar_version r < ar_version row \<or> row = r))"

lemma db_agrees_unique:
  assumes "db_agrees db" "r \<in> set (pd_approvals db)" "r' \<in> set (pd_approvals db)" "ar_id r = ar_id r'"
  shows "r = r'"
  using assms unfolding db_agrees_def distinct_map inj_on_def by blast

lemma save_hits_copy:
  assumes agree: "db_agrees db" and copy: "copy_of_row db r"
    and row: "row \<in> set (pd_approvals db)" "save_hits t (decided_request r out now) row"
  shows "row = r"
proof -
  obtain x where x: "x \<in> set (pd_approvals db)" "ar_id x = ar_id r" "ar_version r < ar_version x \<or> x = r"
    using copy unfolding copy_of_row_def by blast
  have "row = x" using db_agrees_unique [OF agree row(1) x(1)] row(2) x(2) by (simp add: save_hits_def)
  with row(2) x(3) show ?thesis by (auto simp: save_hits_def)
qed

lemma saved_row_self: "saved_row (decided_request r out now) r = decided_request r out now"
  by (simp add: saved_row_def decided_request_def)

text \<open>A write that gets through replaces the caller's own copy, and only that row.\<close>

lemma saved_rows_copy:
  assumes agree: "db_agrees db" and copy: "copy_of_row db r"
    and one: "save_finds_one db t (decided_request r out now)"
  shows "r \<in> set (pd_approvals db)"
    and "saved_rows t (decided_request r out now) (pd_approvals db) =
           map (\<lambda>row. if row = r then decided_request r out now else row) (pd_approvals db)"
proof -
  let ?hit = "save_hits t (decided_request r out now)"
  have "filter ?hit (pd_approvals db) \<noteq> []" using one unfolding save_finds_one_def by auto
  then obtain row where row: "row \<in> set (pd_approvals db)" "?hit row"
    by (metis filter_empty_conv)
  then have "row = r" using save_hits_copy [OF agree copy] by blast
  with row show r: "r \<in> set (pd_approvals db)" by simp
  have "?hit x \<longleftrightarrow> x = r" if "x \<in> set (pd_approvals db)" for x
    using save_hits_copy [OF agree copy that] row \<open>row = r\<close> by blast
  then show "saved_rows t (decided_request r out now) (pd_approvals db) =
      map (\<lambda>row. if row = r then decided_request r out now else row) (pd_approvals db)"
    unfolding saved_rows_def by (intro map_cong) (auto simp: saved_row_self)
qed

lemma commit_effect:
  assumes agree: "db_agrees db" and copy: "copy_of_row db r"
    and w: "decide_writes new_uuid now db c approve comment channel r admitted = Inr (r', db')"
  shows "r \<in> set (pd_approvals db)" "ar_status r = Approval_pending"
    "r' = decided_request r (outcome_of approve) now"
    "pd_approvals db' = map (\<lambda>row. if row = r then r' else row) (pd_approvals db)"
    "pd_decisions db' = pd_decisions db @
       [decision_of r (new_uuid 0) (ac_principal_id c) (outcome_of approve) now comment channel]"
proof -
  obtain d ev oe where
    1: "ar_status r = Approval_pending" "r' = decided_request r (outcome_of approve) now"
    "d = decision_of r (new_uuid 0) (ac_principal_id c) (outcome_of approve) now comment channel"
    "save_finds_one db (ac_tenant_id c) r'"
    and db': "db' = db\<lparr>pd_approvals := saved_rows (ac_tenant_id c) r' (pd_approvals db), pd_decisions := pd_decisions db @ [d],
      pd_outbox := pd_outbox db @ (if ar_run_id r = None then [oe] else []), pd_audit := pd_audit db @ [ev]\<rparr>"
    using w by (rule decide_writes_Inr)
  then show "ar_status r = Approval_pending" "r' = decided_request r (outcome_of approve) now"
    "pd_decisions db' = pd_decisions db @
       [decision_of r (new_uuid 0) (ac_principal_id c) (outcome_of approve) now comment channel]" by simp_all
  note rows = saved_rows_copy [OF agree copy 1(4) [unfolded 1(2)]]
  show "r \<in> set (pd_approvals db)" by (rule rows(1))
  show "pd_approvals db' = map (\<lambda>row. if row = r then r' else row) (pd_approvals db)"
    using rows(2) 1(2) db' by simp
qed

lemma commit_agrees:
  assumes agree: "db_agrees db" and copy: "copy_of_row db r"
    and w: "decide_writes new_uuid now db c approve comment channel r admitted = Inr (r', db')"
  shows "db_agrees db'" and "copy_of_row db x \<Longrightarrow> copy_of_row db' x"
proof -
  note eff = commit_effect [OF assms]
  let ?f = "\<lambda>row. if row = r then r' else row"
  have ids: "map ar_id (pd_approvals db') = map ar_id (pd_approvals db)"
    unfolding eff(4) using eff(3) by simp
  have none: "decisions_for db (ar_id r) = []"
    using agree eff(1,2) unfolding db_agrees_def by force
  have "decisions_agree (ar_status (?f row)) (decisions_for db' (ar_id (?f row)))"
    if row: "row \<in> set (pd_approvals db)" for row
  proof (cases "row = r")
    case True
    then show ?thesis using none eff(3,5)
      by (simp add: decisions_for_def decisions_agree_one)
  next
    case False
    then have "ar_id row \<noteq> ar_id r" using db_agrees_unique [OF agree row eff(1)] by blast
    then have "decisions_for db' (ar_id row) = decisions_for db (ar_id row)"
      by (simp add: decisions_for_def eff(5))
    then show ?thesis using False agree row unfolding db_agrees_def by simp
  qed
  moreover have "ad_request_id ` set (pd_decisions db') \<subseteq> ar_id ` set (pd_approvals db')"
  proof -
    have "ar_id ` set (pd_approvals db') = ar_id ` set (pd_approvals db)"
      using arg_cong [OF ids, of set] by simp
    then show ?thesis using agree eff(1) unfolding db_agrees_def eff(5) by auto
  qed
  moreover have "distinct (map ar_id (pd_approvals db'))" using agree ids unfolding db_agrees_def by metis
  moreover have "\<forall>row \<in> set (pd_approvals db'). decisions_agree (ar_status row) (decisions_for db' (ar_id row))"
    using calculation(1) unfolding eff(4) set_map by blast
  ultimately show "db_agrees db'" unfolding db_agrees_def by blast
  assume "copy_of_row db x"
  then obtain row where row: "row \<in> set (pd_approvals db)" "ar_id row = ar_id x" "ar_version x < ar_version row \<or> row = x"
    unfolding copy_of_row_def by blast
  have "?f row \<in> set (pd_approvals db')" using row(1) unfolding eff(4) by simp
  moreover have "ar_id (?f row) = ar_id x" "ar_version x < ar_version (?f row) \<or> ?f row = x"
    using row eff(3) by auto
  ultimately show "copy_of_row db' x" unfolding copy_of_row_def by blast
qed

fun board_ok :: "'c board \<Rightarrow> bool" where
  "board_ok (db, pend) \<longleftrightarrow> db_agrees db \<and> (\<forall>a t. pend a = Some t \<longrightarrow> copy_of_row db (at_request t))"

lemma add_agrees:
  assumes agree: "db_agrees db" and new: "ar_id r \<notin> ar_id ` set (pd_approvals db)" "ar_status r = Approval_pending"
  shows "db_agrees (approvals_add db now r)" and "copy_of_row db x \<Longrightarrow> copy_of_row (approvals_add db now r) x"
proof -
  have none: "decisions_for db (ar_id r) = []"
    using agree new(1) unfolding db_agrees_def decisions_for_def filter_empty_conv by (metis imageI subsetD)
  have same: "decisions_for (approvals_add db now r) i = decisions_for db i" for i
    by (simp add: decisions_for_def approvals_add_def)
  let ?new = "r\<lparr>ar_created_at := Some now, ar_decided_at := None\<rparr>"
  have rows: "pd_approvals (approvals_add db now r) = pd_approvals db @ [?new]"
    and decs: "pd_decisions (approvals_add db now r) = pd_decisions db"
    by (simp_all add: approvals_add_def)
  have "distinct (map ar_id (pd_approvals db @ [?new]))"
    using agree new(1) unfolding db_agrees_def by simp
  moreover have "\<forall>row \<in> set (pd_approvals db @ [?new]). decisions_agree (ar_status row) (decisions_for db (ar_id row))"
    using agree new(2) none unfolding db_agrees_def by simp
  moreover have "ad_request_id ` set (pd_decisions db) \<subseteq> ar_id ` set (pd_approvals db @ [?new])"
    using agree unfolding db_agrees_def by auto
  ultimately show "db_agrees (approvals_add db now r)"
    unfolding db_agrees_def same rows decs by blast
  show "copy_of_row db x \<Longrightarrow> copy_of_row (approvals_add db now r) x"
    unfolding copy_of_row_def approvals_add_def by auto
qed

lemma decider_step_ok: "decider_step cfg s s' \<Longrightarrow> board_ok s \<Longrightarrow> board_ok s'"
proof (induction rule: decider_step.induct)
  case (reads runs db aid approve comment c r rec pend a)
  have "copy_of_row db r" using decide_reads_Inr(1) [OF reads.hyps] unfolding copy_of_row_def by blast
  with reads.prems show ?case by auto
next
  case (commits pend a t new_uuid now db channel admitted r' db')
  have "db_agrees db" "copy_of_row db (at_request t)" using commits by auto
  from commit_agrees [OF this commits.hyps(2)] commits.prems show ?case by auto
next
  case (refused db pend a)
  then show ?case by auto
next
  case (raised r db pend now)
  from raised.prems add_agrees [OF _ raised.hyps] show ?case by auto
qed

lemma decider_reach_ok: "decider_reach cfg s \<Longrightarrow> board_ok s"
proof (induction rule: decider_reach.induct)
  case (start codes)
  show ?case by (simp add: no_approvals_def db_agrees_def)
next
  case (more s s')
  then show ?case by (blast intro: decider_step_ok)
qed

text \<open>A request that left \<open>pending\<close> is final.\<close>

lemma decider_step_final:
  assumes "decider_step cfg s s'" "board_ok s" "row \<in> set (pd_approvals (fst s))" "ar_status row \<noteq> Approval_pending"
  shows "row \<in> set (pd_approvals (fst s')) \<and> decisions_for (fst s') (ar_id row) = decisions_for (fst s) (ar_id row)"
  using assms
proof (induction rule: decider_step.induct)
  case (commits pend a t new_uuid now db channel admitted r' db')
  have ok: "db_agrees db" "copy_of_row db (at_request t)" using commits by auto
  note eff = commit_effect [OF ok commits.hyps(2)]
  have "row \<noteq> at_request t" using eff(2) commits.prems(3) by auto
  moreover have "ar_id row \<noteq> ar_id (at_request t)"
    using db_agrees_unique [OF ok(1) _ eff(1)] commits.prems(2) calculation by auto
  ultimately show ?case using commits.prems(2) by (auto simp: eff(4,5) decisions_for_def)
qed (auto simp: approvals_add_def decisions_for_def)

subsection \<open>The service as a whole\<close>

definition admitted_by ::
  "'c admission option \<Rightarrow> 'c platform_db \<Rightarrow> approval_request \<Rightarrow> access_context \<Rightarrow> (details option \<times> 'c platform_db) res" where
  "admitted_by admission db r c =
     (case admission of None \<Rightarrow> Inr (None, db)
      | Some admit \<Rightarrow> (case admit db r c of Inl e \<Rightarrow> Inl e | Inr (a, db') \<Rightarrow> Inr (Some a, db')))"

lemma admitted_by_None [simp]: "admitted_by None db r c = Inr (None, db)"
  by (simp add: admitted_by_def)

text \<open>A decision is refused before anything is written, or it is committed and then resumed.\<close>

lemma decide_cases:
  assumes "decide cfg new_uuid now runner runs db aid approve comment c action_ids channel admission = (res, db', call)"
  obtains (refused) e where "res = Inl e" "db' = db" "call = None"
  | (committed) r rec a db1 r' where "decide_reads cfg runs db aid approve comment c = Inr (r, rec)"
      "admitted_by admission db r c = Inr (a, db1)"
      "decide_writes new_uuid now db1 c approve comment channel r a = Inr (r', db')"
      "resume_of runner c approve comment channel action_ids r' rec = (res, call)"
proof -
  note unfolded = assms [unfolded decide_def admitted_by_def [symmetric]]
  show thesis
  proof (cases "decide_reads cfg runs db aid approve comment c")
    case (Inl e) then show ?thesis using unfolded refused [of e] by simp
  next
    case (Inr p)
    obtain r rec where rd: "decide_reads cfg runs db aid approve comment c = Inr (r, rec)" using Inr by (cases p) auto
    show ?thesis
    proof (cases "admitted_by admission db r c")
      case (Inl e) then show ?thesis using unfolded rd refused [of e] by simp
    next
      case (Inr q)
      obtain a db1 where ad: "admitted_by admission db r c = Inr (a, db1)" using Inr by (cases q) auto
      show ?thesis
      proof (cases "decide_writes new_uuid now db1 c approve comment channel r a")
        case (Inl e) then show ?thesis using unfolded rd ad refused [of e] by simp
      next
        case (Inr w)
        obtain r' db2 where w: "decide_writes new_uuid now db1 c approve comment channel r a = Inr (r', db2)"
          using Inr by (cases w) auto
        obtain rs cl where rs: "resume_of runner c approve comment channel action_ids r' rec = (rs, cl)" by fastforce
        have "(rs, db2, cl) = (res, db', call)" using unfolded by (simp add: rd ad w rs)
        then show ?thesis using committed [OF rd ad] w rs by simp
      qed
    qed
  qed
qed

lemma may_proceed_Inr:
  assumes "may_proceed cfg c approve comment r = Inr ()"
  shows "approve \<or> ar_requested_by r \<noteq> ac_principal_id c \<Longrightarrow>
           is_allowed (cfg_admin_role cfg) c APPROVALS_DECIDE \<and> holds_stamped_scope c (ar_required_scope r)"
    and "is_strict cfg (ar_approval_type r) \<Longrightarrow> ar_requested_by r \<noteq> ac_principal_id c \<and> \<not> ublank comment"
    and "cfg_guards cfg (ar_approval_type r) = Some guard \<Longrightarrow> guard r c = Inr ()"
  using assms
  by (simp_all add: may_proceed_def Let_def require_scope_def enforce_strict_rules_def
      split: sum.splits if_splits option.splits)

lemma resumable_run_Some:
  assumes "resumable_run cfg runs c r = Inr (Some rec)"
  shows "rec \<in> set (db_runs runs)" "ar_run_id r = Some (rr_id rec)" "rr_tenant_id rec = ac_tenant_id c"
    "rr_workspace_id rec = ac_workspace_id c" "rr_status rec = Run_waiting_approval"
    "cfg_hosts cfg (rr_worker_id rec) (rr_worker_version rec) (rr_graph_version rec)"
proof -
  obtain run_id where run: "ar_run_id r = Some run_id" "run_get runs (run_context_for c run_id) run_id = Inr rec"
    "rr_status rec = Run_waiting_approval" "cfg_hosts cfg (rr_worker_id rec) (rr_worker_version rec) (rr_graph_version rec)"
    using assms unfolding resumable_run_def by (simp split: option.splits sum.splits if_splits)
  then show "rr_status rec = Run_waiting_approval"
    "cfg_hosts cfg (rr_worker_id rec) (rr_worker_version rec) (rr_graph_version rec)" by blast+
  have "List.find (\<lambda>r. rr_tenant_id r = ac_tenant_id c \<and> rr_id r = run_id \<and> rr_workspace_id r = ac_workspace_id c)
      (db_runs runs) = Some rec"
    using run(2) unfolding run_get_def run_context_for_def by (simp split: option.splits)
  then show "rec \<in> set (db_runs runs)" "ar_run_id r = Some (rr_id rec)" "rr_tenant_id rec = ac_tenant_id c"
    "rr_workspace_id rec = ac_workspace_id c" using run(1) unfolding find_Some_iff by auto
qed

subsection \<open>Properties\<close>

text \<open>
  C7: A request is decided exactly once, whoever decides concurrently. In every state reachable
  by requests being raised and deciders reading and writing in any order, a pending request has
  no decision and a decided one exactly one, with its outcome; and once a request has been
  decided, no later step of anyone changes its row or its decision.
\<close>

theorem decided_exactly_once:
  assumes "decider_reach cfg (db, pend)" "row \<in> set (pd_approvals db)"
  shows "(ar_status row = Approval_pending \<longrightarrow> decisions_for db (ar_id row) = []) \<and>
         (ar_status row = Approval_approved \<longrightarrow> map ad_outcome (decisions_for db (ar_id row)) = [Outcome_approved]) \<and>
         (ar_status row = Approval_rejected \<longrightarrow> map ad_outcome (decisions_for db (ar_id row)) = [Outcome_rejected]) \<and>
         (\<forall>s'. decider_step cfg (db, pend) s' \<longrightarrow> ar_status row \<noteq> Approval_pending \<longrightarrow>
            row \<in> set (pd_approvals (fst s')) \<and> decisions_for (fst s') (ar_id row) = decisions_for db (ar_id row))"
proof -
  have ok: "board_ok (db, pend)" using assms(1) by (rule decider_reach_ok)
  then have "decisions_agree (ar_status row) (decisions_for db (ar_id row))"
    using assms(2) by (simp add: db_agrees_def)
  then show ?thesis using decider_step_final [OF _ ok] assms(2) by auto
qed


text \<open>
  C11: Who may decide. Whenever a decision changes the database (with or without an admission),
  the caller saw the request in their workspace; unless they were taking back their own request
  they hold \<^verbatim>\<open>approvals.decide\<close> and the scope stamped on the request; a type with a strict prefix
  was decided by someone else than the requester, with a non-blank comment; and the guard
  registered for the type agreed.
\<close>

theorem decision_authority:
  assumes "decide cfg new_uuid now runner runs db aid approve comment c action_ids channel admission = (res, db', call)"
    and "db' \<noteq> db"
  shows "\<exists>r \<in> set (pd_approvals db). ar_id r = aid \<and> ar_workspace_id r = ac_workspace_id c \<and>
           (approve \<or> ar_requested_by r \<noteq> ac_principal_id c \<longrightarrow>
              is_allowed (cfg_admin_role cfg) c APPROVALS_DECIDE \<and> holds_stamped_scope c (ar_required_scope r)) \<and>
           (is_strict cfg (ar_approval_type r) \<longrightarrow> ar_requested_by r \<noteq> ac_principal_id c \<and> \<not> ublank comment) \<and>
           (\<forall>guard. cfg_guards cfg (ar_approval_type r) = Some guard \<longrightarrow> guard r c = Inr ())"
  using assms(1)
proof (cases rule: decide_cases)
  case (refused e) then show ?thesis using assms(2) by simp
next
  case (committed r rec a db1 r')
  note rd = decide_reads_Inr [OF committed(1)]
  show ?thesis using rd(1,3,4) may_proceed_Inr [OF rd(6)] by blast
qed

text \<open>
  A resumed run acts with the authority it was started with, never with the approver's.
  Whatever is handed to the runner, there is a run of the caller's tenant and workspace waiting
  for approval, hosted by this service, whose row supplies the actor, plan, roles, scopes,
  clearance, owner limits and autonomy stamp of the resumed context; the approver appears only
  as \<^verbatim>\<open>decided_by\<close> in the payload; and the decision was committed before.
\<close>

theorem resumed_with_run_authority:
  assumes "decide cfg new_uuid now runner runs db aid approve comment c action_ids channel admission = (res, db', Some k)"
  shows "\<exists>rec \<in> set (db_runs runs). rs_run_id k = rr_id rec \<and> rr_status rec = Run_waiting_approval \<and>
           rr_tenant_id rec = ac_tenant_id c \<and> rr_workspace_id rec = ac_workspace_id c \<and>
           cfg_hosts cfg (rr_worker_id rec) (rr_worker_version rec) (rr_graph_version rec) \<and>
           rc_actor_id (rs_context k) = rr_requested_by rec \<and> rc_plan_id (rs_context k) = rr_actor_plan_id rec \<and>
           rc_roles (rs_context k) = rr_actor_roles rec \<and> rc_scopes (rs_context k) = rr_actor_scopes rec \<and>
           rc_clearance (rs_context k) = rr_actor_clearance rec \<and>
           rc_visible_owners (rs_context k) = rr_actor_visible_owners rec \<and>
           rc_autonomy_level (rs_context k) = rr_autonomy_level rec \<and>
           rc_workspace_id (rs_context k) = rr_workspace_id rec \<and>
           map_of (rs_payload k) ''decided_by'' = Some (JUuid (ac_principal_id c)) \<and>
           map_of (rs_payload k) ''approved'' = Some (JBool approve) \<and>
           (\<exists>d. d \<in> set (pd_decisions db') \<and> ad_request_id d = aid \<and> ad_outcome d = outcome_of approve)"
  using assms
proof (cases rule: decide_cases)
  case (committed r rec a db1 r')
  obtain d ev oe where w: "r' = decided_request r (outcome_of approve) now"
    "d = decision_of r (new_uuid 0) (ac_principal_id c) (outcome_of approve) now comment channel"
    and db': "db' = db1\<lparr>pd_approvals := saved_rows (ac_tenant_id c) r' (pd_approvals db1), pd_decisions := pd_decisions db1 @ [d],
      pd_outbox := pd_outbox db1 @ (if ar_run_id r = None then [oe] else []), pd_audit := pd_audit db1 @ [ev]\<rparr>"
    using committed(3) by (rule decide_writes_Inr)
  obtain rw run_id where rw: "rec = Some rw" "ar_run_id r' = Some run_id"
    "k = \<lparr>rs_context = resume_context c channel run_id rw, rs_run_id = run_id,
         rs_payload = resume_payload c approve comment action_ids\<rparr>"
    using committed(4) unfolding resume_of_def by (auto simp: Let_def split: option.splits if_splits)
  note rd = decide_reads_Inr [OF committed(1)]
  note res = resumable_run_Some [OF rd(7) [unfolded rw(1)]]
  have id: "run_id = rr_id rw" using res(2) rw(2) w(1) by simp
  have made: "\<exists>d. d \<in> set (pd_decisions db') \<and> ad_request_id d = aid \<and> ad_outcome d = outcome_of approve"
    by (intro exI [of _ d]) (simp add: db' w(2) rd(3))
  show ?thesis
    by (rule bexI [OF _ res(1)]) (use res(3-6) made in \<open>simp add: rw(3) id resume_context_def resume_payload_def\<close>)
qed simp

lemma decide_reads_comment:
  assumes "ublank comment = ublank comment'"
  shows "decide_reads cfg runs db aid approve comment c = decide_reads cfg runs db aid approve comment' c"
proof -
  have strict: "enforce_strict_rules r comment c = enforce_strict_rules r comment' c" for r
    using assms by (simp add: enforce_strict_rules_def)
  have may: "may_proceed cfg c approve comment r = may_proceed cfg c approve comment' r" for r
    unfolding may_proceed_def strict ..
  show ?thesis unfolding decide_reads_def may ..
qed

lemma events_ignore_comment:
  "audit_of a i r (decision_of q j who out now comment ch) = audit_of a i r (decision_of q j who out now comment' ch)"
  "decided_event i r (decision_of q j who out now comment ch) = decided_event i r (decision_of q j who out now comment' ch)"
  by (simp_all add: audit_of_def decided_audit_def admitted_audit_def decision_audit_def decided_event_def split: option.split)

lemma decide_writes_comment:
  assumes "decide_writes new_uuid now db c approve comment channel r a = Inr (r', db')"
  shows "\<exists>db''. decide_writes new_uuid now db c approve comment' channel r a = Inr (r', db'') \<and>
           pd_audit db'' = pd_audit db' \<and> pd_outbox db'' = pd_outbox db' \<and> pd_approvals db'' = pd_approvals db'"
proof -
  obtain d ev oe where w: "ar_status r = Approval_pending" "r' = decided_request r (outcome_of approve) now"
    "d = decision_of r (new_uuid 0) (ac_principal_id c) (outcome_of approve) now comment channel"
    "save_finds_one db (ac_tenant_id c) r'"
    "audit_of a (new_uuid 2) r' d = Inr ev" "decided_event (new_uuid 1) r' d = Inr oe"
    and db': "db' = db\<lparr>pd_approvals := saved_rows (ac_tenant_id c) r' (pd_approvals db), pd_decisions := pd_decisions db @ [d],
      pd_outbox := pd_outbox db @ (if ar_run_id r = None then [oe] else []), pd_audit := pd_audit db @ [ev]\<rparr>"
    using assms by (rule decide_writes_Inr)
  let ?d = "decision_of r (new_uuid 0) (ac_principal_id c) (outcome_of approve) now comment' channel"
  have "audit_of a (new_uuid 2) r' ?d = Inr ev" "decided_event (new_uuid 1) r' ?d = Inr oe"
    using w(5,6) unfolding w(3) events_ignore_comment [where comment = comment and comment' = comment'] by blast+
  from decide_writes_eq [OF w(2) refl this, where db = db] w(1,4) db' show ?thesis by simp
qed

text \<open>
  What a person writes stays with the decision. Two decisions that differ only in a non-blank
  comment (or only in a blank one) write the same audit events, the same outbox events and the
  same request rows: neither the audit log nor the outbox depends on the comment.
\<close>

theorem comment_stays_private:
  assumes "ublank comment = ublank comment'"
    and "decide cfg new_uuid now runner runs db aid approve comment c action_ids channel None = (res1, db1, call1)"
    and "decide cfg new_uuid now runner runs db aid approve comment' c action_ids channel None = (res2, db2, call2)"
  shows "pd_audit db1 = pd_audit db2 \<and> pd_outbox db1 = pd_outbox db2 \<and> pd_approvals db1 = pd_approvals db2"
proof -
  have one_way: "pd_audit dbx = pd_audit dby \<and> pd_outbox dbx = pd_outbox dby \<and> pd_approvals dbx = pd_approvals dby"
    if eq: "ublank u = ublank v"
      and x: "decide cfg new_uuid now runner runs db aid approve u c action_ids channel None = (rx, dbx, kx)"
      and y: "decide cfg new_uuid now runner runs db aid approve v c action_ids channel None = (ry, dby, ky)"
      and moved: "dbx \<noteq> db" for u v rx dbx kx ry dby ky
    using x
  proof (cases rule: decide_cases)
    case (committed r rec a db0 r')
    have a: "a = None" "db0 = db" using committed(2) by simp_all
    obtain db'' where w: "decide_writes new_uuid now db c approve v channel r None = Inr (r', db'')"
      "pd_audit db'' = pd_audit dbx" "pd_outbox db'' = pd_outbox dbx" "pd_approvals db'' = pd_approvals dbx"
      using decide_writes_comment [OF committed(3) [unfolded a], of v] by blast
    have rd: "decide_reads cfg runs db aid approve v c = Inr (r, rec)"
      using committed(1) decide_reads_comment [OF eq] by metis
    have "dby = db''" using y by (simp add: decide_def rd w(1) split: prod.splits)
    then show ?thesis using w by simp
  qed (use moved in simp)
  show ?thesis
  proof (cases "db1 = db")
    case False then show ?thesis using one_way [OF assms] by blast
  next
    case True then show ?thesis
      using one_way [OF assms(1) [symmetric] assms(3,2)] by (cases "db2 = db") auto
  qed
qed

lemma approvals_get_own:
  assumes "db_agrees db" "r \<in> set (pd_approvals db)" "ar_requested_by r = ac_principal_id c"
  shows "approvals_get db (ar_tenant_id r) (ar_id r) (ar_workspace_id r) (audience_of c role) = Some r"
proof -
  let ?P = "\<lambda>x. ar_tenant_id x = ar_tenant_id r \<and> ar_id x = ar_id r \<and> ar_workspace_id x = ar_workspace_id r \<and>
                 visible_to (audience_of c role) (ar_required_scope x) (ar_requested_by x)"
  have own: "?P r" using assms(3) by (simp add: visible_to_eq_may_see may_see_def audience_of_def)
  have "List.find ?P (pd_approvals db) = Some r"
    by (rule find_unique [where P = ?P, OF assms(2) own]) (auto intro: db_agrees_unique [OF assms(1) _ assms(2)])
  then show ?thesis by (simp add: approvals_get_def)
qed

lemma save_finds_own:
  assumes "db_agrees db" "r \<in> set (pd_approvals db)"
  shows "save_finds_one db (ar_tenant_id r) (decided_request r out now)"
proof -
  have "save_hits (ar_tenant_id r) (decided_request r out now) x \<longleftrightarrow> x = r" if "x \<in> set (pd_approvals db)" for x
    using db_agrees_unique [OF assms(1) that assms(2)] by (auto simp: save_hits_def)
  then have "filter (save_hits (ar_tenant_id r) (decided_request r out now)) (pd_approvals db) =
      filter (\<lambda>x. x = r) (pd_approvals db)" by (rule filter_cong [OF refl])
  moreover have "distinct (pd_approvals db)" using assms(1) by (simp add: db_agrees_def distinct_map)
  then have "filter (\<lambda>x. x = r) (pd_approvals db) = [r]"
    using assms(2) by (simp add: filter_eq_distinct)
  ultimately show ?thesis by (simp add: save_finds_one_def)
qed

text \<open>
  Nobody is stuck with their own request. Whatever scopes the requester has, rejecting their
  own pending request of a type that is not strict and has no guard, and that no run waits for,
  succeeds and leaves it rejected.
\<close>

theorem requester_may_withdraw:
  assumes "db_agrees db" "r \<in> set (pd_approvals db)" "ar_status r = Approval_pending" "ar_run_id r = None"
    and "ar_requested_by r = ac_principal_id c" "ar_tenant_id r = ac_tenant_id c" "ar_workspace_id r = ac_workspace_id c"
    and "\<not> is_strict cfg (ar_approval_type r)" "cfg_guards cfg (ar_approval_type r) = None"
  shows "\<exists>r' db'. decide cfg new_uuid now runner runs db (ar_id r) False comment c action_ids channel None =
             (Inr r', db', None) \<and> ar_status r' = Approval_rejected \<and> r' \<in> set (pd_approvals db') \<and>
           map ad_decided_by (decisions_for db' (ar_id r)) = [ac_principal_id c]"
proof -
  let ?r' = "decided_request r (outcome_of False) now"
  let ?d = "decision_of r (new_uuid 0) (ac_principal_id c) (outcome_of False) now comment channel"
  have get: "approvals_get db (ac_tenant_id c) (ar_id r) (ac_workspace_id c) (audience_of c (cfg_admin_role cfg)) = Some r"
    using approvals_get_own [OF assms(1,2,5)] assms(6,7) by metis
  have reads: "decide_reads cfg runs db (ar_id r) False comment c = Inr (r, None)"
    by (simp add: decide_reads_def get may_proceed_def resumable_run_def assms(4,5,8,9))
  obtain oe where oe: "decided_event (new_uuid 1) ?r' ?d = Inr oe" using decided_event_ok by blast
  obtain ev where ev: "audit_of None (new_uuid 2) ?r' ?d = Inr ev" using audit_of_ok by blast
  have one: "save_finds_one db (ac_tenant_id c) ?r'" using save_finds_own [OF assms(1,2)] assms(6) by metis
  obtain db' where w: "decide_writes new_uuid now db c False comment channel r None = Inr (?r', db')"
    using decide_writes_eq [OF refl refl ev oe, where db = db] assms(3) one by simp
  have "copy_of_row db r" using assms(2) unfolding copy_of_row_def by blast
  note eff = commit_effect [OF assms(1) this w]
  have "decisions_for db (ar_id r) = []" using assms(1-3) unfolding db_agrees_def by force
  then have decs: "map ad_decided_by (decisions_for db' (ar_id r)) = [ac_principal_id c]"
    unfolding decisions_for_def eff(5) by simp
  have "?r' \<in> set (pd_approvals db')" unfolding eff(4) using assms(2) by simp
  moreover have "decide cfg new_uuid now runner runs db (ar_id r) False comment c action_ids channel None = (Inr ?r', db', None)"
    by (simp add: decide_def reads w resume_of_def)
  ultimately show ?thesis using decs
    by (intro exI [of _ ?r'] exI [of _ db']) (simp add: outcome_of_def outcome_status_def)
qed

subsection \<open>Concrete runs\<close>

definition sample_approval :: "uuid option \<Rightarrow> approval_request" where
  "sample_approval run_id =
     \<lparr>ar_id = 40, ar_tenant_id = 1, ar_workspace_id = 2, ar_approval_type = ''memory.review'',
      ar_requested_by = 7, ar_reason = [], ar_payload = JNull, ar_run_id = run_id, ar_required_scope = Some ''memory.approve'',
      ar_status = Approval_pending, ar_created_at = Some 0, ar_decided_at = None, ar_version = 1\<rparr>"

definition sample_approvals :: "uuid option \<Rightarrow> unit platform_db" where
  "sample_approvals run_id =
     \<lparr>pd_approvals = [sample_approval run_id], pd_decisions = [], pd_outbox = [], pd_audit = [], pd_codes = ()\<rparr>"

definition sample_cfg :: "string list \<Rightarrow> approval_config" where
  "sample_cfg prefixes =
     \<lparr>cfg_admin_role = PLATFORM_ADMIN_ROLE, cfg_strict_prefixes = prefixes, cfg_guards = (\<lambda>_. None),
      cfg_hosts = (\<lambda>_ _ _. True)\<rparr>"

definition sample_decider :: access_context where
  "sample_decider = (access_context_defaults 1 2 3 {''manager''} ''pro'')
     \<lparr>ac_scopes := {''approvals.decide'', ''memory.approve''}\<rparr>"

definition sample_waiting_run :: run_row where
  "sample_waiting_run =
     (new_run_row (sample_run_context\<lparr>rc_run_id := 50, rc_tenant_id := 1, rc_workspace_id := 2, rc_actor_id := 7,
        rc_worker_version := ''1.0.0'', rc_scopes := {''leads.read''}\<rparr>) sample_worker_definition JNull None 0)
     \<lparr>rr_status := Run_waiting_approval, rr_approval_request_id := Some 40\<rparr>"

definition sample_runs :: run_db where
  "sample_runs = \<lparr>db_runs = [sample_waiting_run], db_announced = []\<rparr>"

abbreviation sample_decide ::
  "uuid option \<Rightarrow> ustr \<Rightarrow> approval_request res \<times> unit platform_db \<times> resume_call option" where
  "sample_decide run_id comment \<equiv>
     decide (sample_cfg [''memory.'']) (\<lambda>i. 100 + i) 9 (\<lambda>_. None) sample_runs (sample_approvals run_id) 40 True comment
       sample_decider None ''web'' None"

lemmas sample_defs = sample_approval_def sample_approvals_def sample_cfg_def sample_decider_def sample_runs_def
  sample_waiting_run_def new_run_row_def sample_run_context_def access_context_defaults_def

lemma sample_strict: "is_strict (sample_cfg [''memory.'']) ''memory.review''"
  by (simp add: is_strict_def sample_cfg_def startswith_def)

lemma sample_comment: "\<not> ublank [111, 107]"
  by (simp add: blank_simps)

text \<open>Deciding the sample request: the run-less one commits, the other resumes its run.\<close>

lemma sample_decide_reads:
  assumes "run_id = None \<or> run_id = Some 50"
  shows "decide_reads (sample_cfg [''memory.'']) sample_runs (sample_approvals run_id) 40 True [111, 107] sample_decider =
     Inr (sample_approval run_id, map_option (\<lambda>_. sample_waiting_run) run_id)"
proof -
  have get: "approvals_get (sample_approvals run_id) (ac_tenant_id sample_decider) 40 (ac_workspace_id sample_decider)
      (audience_of sample_decider (cfg_admin_role (sample_cfg [''memory.'']))) = Some (sample_approval run_id)"
    by (simp add: approvals_get_def sample_defs visible_to_eq_may_see may_see_def audience_of_def may_decide_def
        is_allowed_def holds_stamped_scope_def has_scope_def APPROVALS_DECIDE_def)
  have may: "may_proceed (sample_cfg [''memory.'']) sample_decider True [111, 107] (sample_approval run_id) = Inr ()"
    using sample_comment
    by (simp add: may_proceed_def require_scope_def is_allowed_def holds_stamped_scope_def has_scope_def
        enforce_strict_rules_def APPROVALS_DECIDE_def sample_defs)
  have run: "resumable_run (sample_cfg [''memory.'']) sample_runs sample_decider (sample_approval run_id) =
      Inr (map_option (\<lambda>_. sample_waiting_run) run_id)"
    using assms by (auto simp: resumable_run_def run_get_def run_context_for_def sample_defs)
  show ?thesis by (simp add: decide_reads_def get may run)
qed

lemma sample_agrees: "db_agrees (sample_approvals run_id)"
  by (simp add: db_agrees_def sample_approvals_def sample_approval_def decisions_for_def)

lemma sample_decide_writes:
  "\<exists>db'. decide_writes (\<lambda>i. 100 + i) 9 (sample_approvals run_id) sample_decider True [111, 107] ''web''
           (sample_approval run_id) None = Inr (decided_request (sample_approval run_id) (outcome_of True) 9, db') \<and>
         db' \<noteq> sample_approvals run_id"
proof -
  let ?r' = "decided_request (sample_approval run_id) (outcome_of True) 9"
  let ?d = "decision_of (sample_approval run_id) ((\<lambda>i. 100 + i) 0) (ac_principal_id sample_decider) (outcome_of True) 9 [111, 107] ''web''"
  obtain oe where oe: "decided_event ((\<lambda>i. 100 + i) 1) ?r' ?d = Inr oe" using decided_event_ok by blast
  obtain ev where ev: "audit_of None ((\<lambda>i. 100 + i) 2) ?r' ?d = Inr ev" using audit_of_ok by blast
  have "save_finds_one (sample_approvals run_id) (ac_tenant_id sample_decider) ?r'"
    using save_finds_own [OF sample_agrees [of run_id], of "sample_approval run_id"] by (simp add: sample_defs)
  moreover have "ar_status (sample_approval run_id) = Approval_pending" by (simp add: sample_approval_def)
  moreover have "x\<lparr>pd_approvals := a, pd_decisions := pd_decisions x @ [d], pd_outbox := b, pd_audit := e\<rparr> \<noteq> x"
    for x :: "unit platform_db" and a d b e
    by (metis append_self_conv not_Cons_self2 platform_db.select_convs(2) platform_db.surjective
        platform_db.update_convs(1,2,3,4))
  ultimately show ?thesis using decide_writes_eq [OF refl refl ev oe, where db = "sample_approvals run_id"] by simp
qed

lemma sample_decide_runless:
  "\<exists>r' db'. sample_decide None [111, 107] = (Inr r', db', None) \<and> db' \<noteq> sample_approvals None"
  using sample_decide_reads [of None] sample_decide_writes [of None]
  by (auto simp: decide_def resume_of_def)

lemma sample_semver: "is_semver ''1.0.0''"
  by code_simp

lemma sample_decide_resumes: "\<exists>r' db' k. sample_decide (Some 50) [111, 107] = (Inr r', db', Some k)"
  using sample_decide_reads [of "Some 50"] sample_decide_writes [of "Some 50"] sample_semver
  by (auto simp: decide_def resume_of_def Let_def sample_approval_def [of "Some 50"] sample_waiting_run_def
      new_run_row_def decided_request_def)


theorem decision_authority_witness:
  "\<exists>r \<in> set (pd_approvals (sample_approvals None)). is_strict (sample_cfg [''memory.'']) (ar_approval_type r) \<and>
     ar_requested_by r \<noteq> ac_principal_id sample_decider \<and> snd (snd (sample_decide None [111, 107])) = None"
proof -
  obtain r' db' where d: "sample_decide None [111, 107] = (Inr r', db', None)" and m: "db' \<noteq> sample_approvals None"
    using sample_decide_runless by blast
  have "ar_approval_type r = ''memory.review''" if "r \<in> set (pd_approvals (sample_approvals None))" for r
    using that by (simp add: sample_approvals_def sample_approval_def)
  with decision_authority [OF d m] sample_strict d show ?thesis by (metis snd_conv)
qed

theorem resumed_with_run_authority_witness:
  "\<exists>k. snd (snd (sample_decide (Some 50) [111, 107])) = Some k \<and> rc_actor_id (rs_context k) = 7 \<and>
       rc_scopes (rs_context k) = {''leads.read''}"
proof -
  obtain r' db' k where d: "sample_decide (Some 50) [111, 107] = (Inr r', db', Some k)" using sample_decide_resumes by blast
  from resumed_with_run_authority [OF d]
  have "rc_actor_id (rs_context k) = rr_requested_by sample_waiting_run"
    "rc_scopes (rs_context k) = rr_actor_scopes sample_waiting_run" by (auto simp: sample_runs_def)
  then have "rc_actor_id (rs_context k) = 7" "rc_scopes (rs_context k) = {''leads.read''}"
    by (simp_all add: sample_waiting_run_def new_run_row_def)
  with d show ?thesis by (metis snd_conv)
qed

theorem comment_stays_private_witness:
  "\<exists>x db1 y db2 k. sample_decide None [111, 107] = (Inr x, db1, None) \<and> sample_decide None [110, 111] = (y, db2, k) \<and>
     pd_audit db1 = pd_audit db2"
proof -
  obtain r' db' where d: "sample_decide None [111, 107] = (Inr r', db', None)" using sample_decide_runless by blast
  obtain y db2 k where e: "sample_decide None [110, 111] = (y, db2, k)" by (metis prod_cases3)
  have b: "ublank [111, 107] = ublank [110, 111]" by (simp add: blank_simps)
  with comment_stays_private [OF b d e] d e show ?thesis by blast
qed

theorem requester_may_withdraw_witness:
  "\<exists>r' db'. decide (sample_cfg []) (\<lambda>i. i) 9 (\<lambda>_. None) sample_runs (sample_approvals None) 40 False []
       (access_context_defaults 1 2 7 {''sales''} ''pro'') None ''web'' None = (Inr r', db', None) \<and>
     ar_status r' = Approval_rejected"
proof -
  have "sample_approval None \<in> set (pd_approvals (sample_approvals None))" by (simp add: sample_approvals_def)
  from requester_may_withdraw [where cfg = "sample_cfg []" and c = "access_context_defaults 1 2 7 {''sales''} ''pro''"
      and runs = sample_runs and runner = "\<lambda>_. None" and new_uuid = "\<lambda>i. i" and now = 9 and comment = "[]" and channel = "''web''"
      and action_ids = None, OF sample_agrees this]
  show ?thesis by (auto simp: sample_defs is_strict_def)
qed

theorem decided_exactly_once_witness:
  "\<exists>db pend row. decider_reach (sample_cfg []) (db, pend) \<and> row \<in> set (pd_approvals db) \<and>
     ar_status row = Approval_pending \<and> decisions_for (db :: unit platform_db) (ar_id row) = []"
proof -
  let ?db = "approvals_add (no_approvals ()) 0 (sample_approval None)"
  let ?row = "(sample_approval None)\<lparr>ar_created_at := Some 0, ar_decided_at := None\<rparr>"
  have "decider_step (sample_cfg []) (no_approvals (), \<lambda>_. None) (?db, \<lambda>_. None)"
    by (rule raised) (simp_all add: no_approvals_def sample_approval_def)
  then have r: "decider_reach (sample_cfg []) (?db, \<lambda>_. None)" by (rule more [OF start])
  have row: "?row \<in> set (pd_approvals ?db)" by (simp add: approvals_add_def)
  have "ar_status ?row = Approval_pending" by (simp add: sample_approval_def)
  with decided_exactly_once [OF r row] r row show ?thesis by blast
qed

end
