(* ===== verification/Hierarchy.thy ===== *)
theory Hierarchy
  imports Access Events
begin

text \<open>
  The reporting hierarchy: \<^verbatim>\<open>dw_platform/application/hierarchy.py\<close> and its SQL repository
  \<^verbatim>\<open>hierarchy_repo.py\<close>. The rows of \<^verbatim>\<open>platform.memberships\<close> carry each member's manager; the recursive
  query that rolls records up to a leader is the evaluation loop of \<^verbatim>\<open>WITH RECURSIVE ... UNION\<close> (a working
  table that is joined again until it brings nothing new), which ends on every table, cyclic
  ones included.
\<close>

record member_row =
  mr_id :: uuid
  mr_tenant_id :: uuid
  mr_workspace_id :: uuid
  mr_user_id :: uuid
  mr_role_keys :: "string list"
  mr_permission_set_keys :: "string list"
  mr_clearance :: string
  mr_manager_user_id :: "uuid option"

definition in_scope :: "uuid \<Rightarrow> uuid \<Rightarrow> member_row \<Rightarrow> bool" where
  "in_scope tenant ws m \<longleftrightarrow> mr_tenant_id m = tenant \<and> mr_workspace_id m = ws"

subsection \<open>The recursive query\<close>

text \<open>The rows joined to the working table that are not in the result yet, without duplicates.\<close>

definition cte_new :: "member_row list \<Rightarrow> uuid list \<Rightarrow> uuid list \<Rightarrow> uuid list" where
  "cte_new rows found working =
     remdups (filter (\<lambda>u. u \<notin> set found)
       (map mr_user_id (filter (\<lambda>m. \<exists>b \<in> set working. mr_manager_user_id m = Some b) rows)))"

lemma cte_new_users: "set (cte_new rows found working) \<subseteq> mr_user_id ` set rows - set found"
  by (auto simp: cte_new_def)

function cte_loop :: "member_row list \<Rightarrow> uuid list \<Rightarrow> uuid list \<Rightarrow> uuid list" where
  "cte_loop rows found working =
     (case cte_new rows found working of
        [] \<Rightarrow> found
      | new # rest \<Rightarrow> cte_loop rows (found @ (new # rest)) (new # rest))"
  by pat_completeness auto

termination
proof (relation "measure (\<lambda>(rows, found, working). card (mr_user_id ` set rows - set found))")
  fix rows :: "member_row list" and found working :: "uuid list" and new rest
  assume "cte_new rows found working = new # rest"
  then have "set (new # rest) \<subseteq> mr_user_id ` set rows - set found" using cte_new_users by metis
  then have "mr_user_id ` set rows - set (found @ new # rest) \<subset> mr_user_id ` set rows - set found" by auto
  then show "((rows, found @ new # rest, new # rest), (rows, found, working)) \<in>
      measure (\<lambda>(rows, found, working). card (mr_user_id ` set rows - set found))"
    by (simp add: psubset_card_mono)
qed simp

declare cte_loop.simps [simp del]

definition subtree_query :: "member_row list \<Rightarrow> uuid \<Rightarrow> uuid \<Rightarrow> uuid \<Rightarrow> uuid list" where
  "subtree_query rows tenant ws boss =
     (let scoped = filter (in_scope tenant ws) rows;
          start = remdups (map mr_user_id (filter (\<lambda>m. mr_user_id m = boss) scoped))
      in cte_loop scoped start start)"

subsection \<open>Repository and service\<close>

record hierarchy_db =
  hd_members :: "member_row list"
  hd_audit :: "audit_event list"

definition is_member :: "hierarchy_db \<Rightarrow> access_context \<Rightarrow> uuid \<Rightarrow> bool" where
  "is_member db c user \<longleftrightarrow>
     (\<exists>m \<in> set (hd_members db). in_scope (ac_tenant_id c) (ac_workspace_id c) m \<and> mr_user_id m = user)"

definition subtree_user_ids :: "hierarchy_db \<Rightarrow> access_context \<Rightarrow> uuid \<Rightarrow> uuid set" where
  "subtree_user_ids db c boss = set (subtree_query (hd_members db) (ac_tenant_id c) (ac_workspace_id c) boss)"

definition repo_set_manager ::
  "hierarchy_db \<Rightarrow> access_context \<Rightarrow> uuid \<Rightarrow> uuid option \<Rightarrow> audit_event \<Rightarrow> bool \<times> hierarchy_db" where
  "repo_set_manager db c user manager audit =
     (if \<not> is_member db c user then (False, db)
      else (True, \<lparr>hd_members = map (\<lambda>m. if in_scope (ac_tenant_id c) (ac_workspace_id c) m \<and> mr_user_id m = user
                                        then m\<lparr>mr_manager_user_id := manager\<rparr> else m) (hd_members db),
                   hd_audit = hd_audit db @ [audit]\<rparr>))"

text \<open>\<^verbatim>\<open>list_members\<close>: the workspace's rows in the order of the joined display names.\<close>

definition list_members :: "hierarchy_db \<Rightarrow> (uuid \<Rightarrow> ustr) \<Rightarrow> (ustr \<Rightarrow> int) \<Rightarrow> access_context \<Rightarrow> member_row list" where
  "list_members db display_name collate c =
     sort_by (\<lambda>m. collate (display_name (mr_user_id m)))
       (filter (in_scope (ac_tenant_id c) (ac_workspace_id c)) (hd_members db))"

definition MEMBERS_READ :: string where "MEMBERS_READ = ''platform.members.read''"
definition MEMBERS_WRITE :: string where "MEMBERS_WRITE = ''platform.members.write''"

definition get_tree ::
  "string \<Rightarrow> hierarchy_db \<Rightarrow> (uuid \<Rightarrow> ustr) \<Rightarrow> (ustr \<Rightarrow> int) \<Rightarrow> access_context \<Rightarrow> member_row list res" where
  "get_tree admin_role db display_name collate c =
     (case require_scope admin_role c MEMBERS_READ of
        Inl e \<Rightarrow> Inl e
      | Inr _ \<Rightarrow> Inr (list_members db display_name collate c))"

text \<open>The reads of \<^verbatim>\<open>set_manager\<close>, each a transaction of its own, and the event it then writes.\<close>

definition set_manager_checks :: "string \<Rightarrow> hierarchy_db \<Rightarrow> access_context \<Rightarrow> uuid \<Rightarrow> uuid option \<Rightarrow> unit res" where
  "set_manager_checks admin_role db c user manager =
     (case require_scope admin_role c MEMBERS_WRITE of
        Inl e \<Rightarrow> Inl e
      | Inr _ \<Rightarrow>
        (case manager of
           None \<Rightarrow> Inr ()
         | Some b \<Rightarrow>
             if b = user then raise_dw (DomainError ''a member cannot report to themselves'')
             else if \<not> is_member db c b then raise_dw (NotFoundError ''no such manager in this workspace'')
             else if b \<in> subtree_user_ids db c user
             then raise_dw (DomainError ''that would create a cycle - the manager reports to this member'')
             else Inr ()))"

definition set_manager_event :: "uuid \<Rightarrow> instant \<Rightarrow> access_context \<Rightarrow> uuid \<Rightarrow> uuid option \<Rightarrow> audit_event" where
  "set_manager_event event_id now c user manager =
     \<lparr>ae_id = event_id, ae_tenant_id = ac_tenant_id c, ae_workspace_id = ac_workspace_id c,
      ae_actor_id = ac_principal_id c, ae_action = ''platform.hierarchy.set_manager'',
      ae_resource_type = ''membership'', ae_resource_id = JUuid user, ae_occurred_at = now, ae_run_id = None,
      ae_policy_decision = None, ae_trace_id = None,
      ae_details = [(''manager_user_id'', case manager of None \<Rightarrow> JNull | Some b \<Rightarrow> JUuid b)]\<rparr>"

definition set_manager ::
  "string \<Rightarrow> uuid \<Rightarrow> instant \<Rightarrow> hierarchy_db \<Rightarrow> access_context \<Rightarrow> uuid \<Rightarrow> uuid option \<Rightarrow> unit res \<times> hierarchy_db" where
  "set_manager admin_role event_id now db c user manager =
     (case set_manager_checks admin_role db c user manager of
        Inl e \<Rightarrow> (Inl e, db)
      | Inr _ \<Rightarrow>
        (case make_audit_event (set_manager_event event_id now c user manager) of
           Inl e \<Rightarrow> (Inl e, db)
         | Inr audit \<Rightarrow>
           (case repo_set_manager db c user manager audit of
              (False, db') \<Rightarrow> (raise_dw (NotFoundError ''no such member in this workspace''), db')
            | (True, db') \<Rightarrow> (Inr (), db'))))"

definition visible_owner_ids :: "hierarchy_db \<Rightarrow> access_context \<Rightarrow> uuid set" where
  "visible_owner_ids db c = subtree_user_ids db c (ac_principal_id c)"

subsection \<open>The reporting relation\<close>

definition reports_to :: "member_row list \<Rightarrow> uuid \<Rightarrow> uuid \<Rightarrow> (uuid \<times> uuid) set" where
  "reports_to rows tenant ws =
     {(a, b). \<exists>m \<in> set rows. in_scope tenant ws m \<and> mr_user_id m = a \<and> mr_manager_user_id m = Some b}"

abbreviation edges :: "member_row list \<Rightarrow> (uuid \<times> uuid) set" where
  "edges rows \<equiv> {(a, b). \<exists>m \<in> set rows. mr_user_id m = a \<and> mr_manager_user_id m = Some b}"

lemma cte_new_iff:
  "u \<in> set (cte_new rows found working) \<longleftrightarrow> u \<notin> set found \<and> (\<exists>b \<in> set working. (u, b) \<in> edges rows)"
  by (auto simp: cte_new_def)

lemma cte_loop_sound:
  assumes "set working \<subseteq> set found"
    and "\<forall>u \<in> set found. (u, boss) \<in> (edges rows)\<^sup>*"
  shows "\<forall>u \<in> set (cte_loop rows found working). (u, boss) \<in> (edges rows)\<^sup>*"
  using assms
proof (induction rows found working rule: cte_loop.induct)
  case (1 rows found working)
  show ?case
  proof (cases "cte_new rows found working")
    case Nil then show ?thesis using 1(3) by (simp add: cte_loop.simps)
  next
    case (Cons new rest)
    have "(u, boss) \<in> (edges rows)\<^sup>*" if "u \<in> set (new # rest)" for u
    proof -
      have "u \<in> set (cte_new rows found working)" using that unfolding Cons .
      then obtain b where "b \<in> set working" "(u, b) \<in> edges rows" unfolding cte_new_iff by blast
      then show ?thesis using 1(2,3) by (meson converse_rtrancl_into_rtrancl subsetD)
    qed
    then show ?thesis using 1(1) [OF Cons] 1(3) Cons
      by (subst cte_loop.simps) auto
  qed
qed

text \<open>The result is closed: whoever reports to a member found before the working table was found.\<close>

lemma cte_loop_complete:
  assumes "set working \<subseteq> set found"
    and "\<forall>b \<in> set found - set working. \<forall>u. (u, b) \<in> edges rows \<longrightarrow> u \<in> set found"
  shows "set found \<subseteq> set (cte_loop rows found working) \<and>
         (\<forall>b \<in> set (cte_loop rows found working). \<forall>u. (u, b) \<in> edges rows \<longrightarrow> u \<in> set (cte_loop rows found working))"
  using assms
proof (induction rows found working rule: cte_loop.induct)
  case (1 rows found working)
  show ?case
  proof (cases "cte_new rows found working")
    case Nil
    have closed: "u \<in> set found" if "b \<in> set found" "(u, b) \<in> edges rows" for u b
      using 1(3) that cte_new_iff [of u rows found working] Nil by (cases "b \<in> set working") auto
    show ?thesis using closed Nil by (subst (1 2 3) cte_loop.simps) auto
  next
    case (Cons new rest)
    have "u \<in> set (found @ new # rest)" if "b \<in> set found" "(u, b) \<in> edges rows" for u b
      using 1(3) that cte_new_iff [of u rows found working] Cons by (cases "b \<in> set working") auto
    then have "\<forall>b \<in> set (found @ new # rest) - set (new # rest). \<forall>u. (u, b) \<in> edges rows \<longrightarrow> u \<in> set (found @ new # rest)"
      by auto
    moreover have "set (new # rest) \<subseteq> set (found @ new # rest)" by auto
    ultimately have ih: "set (found @ new # rest) \<subseteq> set (cte_loop rows (found @ new # rest) (new # rest)) \<and>
       (\<forall>b \<in> set (cte_loop rows (found @ new # rest) (new # rest)). \<forall>u. (u, b) \<in> edges rows \<longrightarrow>
          u \<in> set (cte_loop rows (found @ new # rest) (new # rest)))" using 1(1) [OF Cons] by blast
    have step: "cte_loop rows found working = cte_loop rows (found @ new # rest) (new # rest)"
      by (subst cte_loop.simps) (simp add: Cons)
    show ?thesis unfolding step using ih by auto
  qed
qed

lemma edges_scoped: "edges (filter (in_scope t w) rows) = reports_to rows t w"
  by (auto simp: reports_to_def)

lemma subtree_query_exact:
  "set (subtree_query rows t w boss) =
     (if \<exists>m \<in> set rows. in_scope t w m \<and> mr_user_id m = boss
      then {u. (u, boss) \<in> (reports_to rows t w)\<^sup>*} else {})"
proof -
  let ?sc = "filter (in_scope t w) rows"
  let ?start = "remdups (map mr_user_id (filter (\<lambda>m. mr_user_id m = boss) ?sc))"
  have q: "subtree_query rows t w boss = cte_loop ?sc ?start ?start" by (simp add: subtree_query_def Let_def)
  show ?thesis
  proof (cases "\<exists>m \<in> set rows. in_scope t w m \<and> mr_user_id m = boss")
    case False
    then have "?start = []" by (auto simp: filter_empty_conv)
    then have "cte_loop ?sc ?start ?start = []" by (simp add: cte_loop.simps cte_new_def)
    then have "subtree_query rows t w boss = []" using q by simp
    then show ?thesis unfolding if_not_P [OF False] by simp
  next
    case True
    then have start: "set ?start = {boss}" by auto
    have sound: "\<forall>u \<in> set (cte_loop ?sc ?start ?start). (u, boss) \<in> (edges ?sc)\<^sup>*"
      by (rule cte_loop_sound) (use start in auto)
    note complete = cte_loop_complete [of ?start ?start ?sc]
    have "u \<in> set (cte_loop ?sc ?start ?start)" if "(u, boss) \<in> (edges ?sc)\<^sup>*" for u
      using that
    proof (induction rule: converse_rtrancl_induct)
      case base show ?case using complete start by auto
    next
      case (step y z) then show ?case using complete by auto
    qed
    with sound True q show ?thesis unfolding edges_scoped by auto
  qed
qed

subsection \<open>Assigning a manager\<close>

definition assigned :: "access_context \<Rightarrow> uuid \<Rightarrow> uuid option \<Rightarrow> member_row list \<Rightarrow> member_row list" where
  "assigned c user manager rows =
     map (\<lambda>m. if in_scope (ac_tenant_id c) (ac_workspace_id c) m \<and> mr_user_id m = user
             then m\<lparr>mr_manager_user_id := manager\<rparr> else m) rows"

lemma set_manager_event_ok: "make_audit_event (set_manager_event i now c user manager) = Inr (set_manager_event i now c user manager)"
proof -
  have "\<not> sblank ''platform.hierarchy.set_manager''" by (simp add: blank_simps)
  then show ?thesis by (simp add: make_audit_event_def set_manager_event_def)
qed

lemma set_manager_eq:
  "set_manager role i now db c user manager =
     (case set_manager_checks role db c user manager of
        Inl e \<Rightarrow> (Inl e, db)
      | Inr _ \<Rightarrow> if is_member db c user
                then (Inr (), \<lparr>hd_members = assigned c user manager (hd_members db),
                               hd_audit = hd_audit db @ [set_manager_event i now c user manager]\<rparr>)
                else (raise_dw (NotFoundError ''no such member in this workspace''), db))"
  by (simp add: set_manager_def set_manager_event_ok repo_set_manager_def assigned_def split: sum.split)

text \<open>Other workspaces keep their relation; in this one the user's edges are replaced.\<close>

lemma reports_to_assigned_other:
  assumes "(t, w) \<noteq> (ac_tenant_id c, ac_workspace_id c)"
  shows "reports_to (assigned c user manager rows) t w = reports_to rows t w"
  using assms unfolding reports_to_def assigned_def in_scope_def by (auto split: if_splits)

lemma reports_to_assigned:
  "reports_to (assigned c user manager rows) (ac_tenant_id c) (ac_workspace_id c) \<subseteq>
     (case manager of None \<Rightarrow> {} | Some b \<Rightarrow> {(user, b)}) \<union> reports_to rows (ac_tenant_id c) (ac_workspace_id c)"
  unfolding reports_to_def assigned_def by (auto simp: in_scope_def split: if_splits)

definition no_cycles :: "hierarchy_db \<Rightarrow> bool" where
  "no_cycles db \<longleftrightarrow> (\<forall>t w. acyclic (reports_to (hd_members db) t w))"

lemma assigned_acyclic:
  assumes ac: "acyclic (reports_to rows (ac_tenant_id c) (ac_workspace_id c))"
    and safe: "\<And>b. manager = Some b \<Longrightarrow> (b, user) \<notin> (reports_to rows (ac_tenant_id c) (ac_workspace_id c))\<^sup>*"
  shows "acyclic (reports_to (assigned c user manager rows) (ac_tenant_id c) (ac_workspace_id c))"
proof (cases manager)
  case None
  then show ?thesis using acyclic_subset [OF ac] reports_to_assigned [of c user manager rows] by simp
next
  case (Some b)
  let ?R = "reports_to rows (ac_tenant_id c) (ac_workspace_id c)"
  have "acyclic (insert (user, b) ?R)" using ac safe [OF Some] by (simp add: acyclic_insert)
  then show ?thesis using reports_to_assigned [of c user manager rows] Some by (auto intro: acyclic_subset)
qed

subsection \<open>Properties\<close>


text \<open>
  Assigning managers one after the other never makes a cycle. If no workspace has a cycle of
  managers, then after \<^verbatim>\<open>set_manager\<close> none has one, whatever the command; a refused command
  changes nothing; and an accepted one changes that member's manager alone and appends one audit
  event naming the caller.
\<close>

theorem set_manager_keeps_tree:
  assumes "no_cycles db" "set_manager role i now db c user manager = (res, db')"
  shows "no_cycles db' \<and>
         (\<forall>e. res = Inl e \<longrightarrow> db' = db) \<and>
         (res = Inr () \<longrightarrow> hd_members db' = assigned c user manager (hd_members db) \<and>
            is_allowed role c MEMBERS_WRITE \<and>
            (\<exists>ev. hd_audit db' = hd_audit db @ [ev] \<and> ae_actor_id ev = ac_principal_id c \<and> ae_resource_id ev = JUuid user))"
proof (cases "set_manager_checks role db c user manager")
  case (Inl e)
  then have "res = Inl e" "db' = db" using assms(2) by (simp_all add: set_manager_eq)
  then show ?thesis using assms(1) by simp
next
  case (Inr u)
  have allowed: "is_allowed role c MEMBERS_WRITE"
    using Inr by (auto simp: set_manager_checks_def require_scope_def split: if_splits)
  show ?thesis
  proof (cases "is_member db c user")
    case False
    then have "res = raise_dw (NotFoundError ''no such member in this workspace'')" "db' = db"
      using assms(2) Inr by (simp_all add: set_manager_eq)
    then show ?thesis using assms(1) by simp
  next
    case True
    then have res: "res = Inr ()"
      and db': "db' = \<lparr>hd_members = assigned c user manager (hd_members db),
                      hd_audit = hd_audit db @ [set_manager_event i now c user manager]\<rparr>"
      using assms(2) Inr by (simp_all add: set_manager_eq)
    let ?R = "reports_to (hd_members db) (ac_tenant_id c) (ac_workspace_id c)"
    have "(b, user) \<notin> ?R\<^sup>*" if "manager = Some b" for b
      using Inr that True
      by (simp add: set_manager_checks_def subtree_user_ids_def subtree_query_exact is_member_def split: if_splits sum.splits)
    then have "acyclic (reports_to (hd_members db') (ac_tenant_id c) (ac_workspace_id c))"
      using assigned_acyclic assms(1) unfolding db' no_cycles_def by simp
    moreover have "acyclic (reports_to (hd_members db') t w)" if "(t, w) \<noteq> (ac_tenant_id c, ac_workspace_id c)" for t w
      using reports_to_assigned_other [OF that] assms(1) unfolding db' no_cycles_def by simp
    ultimately have "no_cycles db'" unfolding no_cycles_def by (metis prod.inject)
    then show ?thesis using res allowed db' by (simp add: set_manager_event_def)
  qed
qed

definition sample_member :: "uuid \<Rightarrow> uuid option \<Rightarrow> member_row" where
  "sample_member user manager =
     \<lparr>mr_id = 100 + user, mr_tenant_id = 1, mr_workspace_id = 2, mr_user_id = user, mr_role_keys = [''sales''],
      mr_permission_set_keys = [], mr_clearance = ''internal'', mr_manager_user_id = manager\<rparr>"

definition sample_org :: hierarchy_db where
  "sample_org = \<lparr>hd_members = [sample_member 10 None, sample_member 11 None, sample_member 12 (Some 11)], hd_audit = []\<rparr>"

definition org_admin :: access_context where
  "org_admin = (access_context_defaults 1 2 3 {''org_admin''} ''pro'')\<lparr>ac_scopes := {''platform.members.write''}\<rparr>"

lemma sample_org_no_cycles: "no_cycles sample_org"
proof -
  have "reports_to (hd_members sample_org) t w \<subseteq> {(12, 11)}" for t w
    by (auto simp: reports_to_def sample_org_def sample_member_def)
  moreover have "acyclic {(12 :: uuid, 11 :: uuid)}" by (simp add: acyclic_insert wf_acyclic)
  ultimately show ?thesis unfolding no_cycles_def by (meson acyclic_subset)
qed

theorem set_manager_keeps_tree_witness:
  "no_cycles (snd (set_manager PLATFORM_ADMIN_ROLE 0 0 sample_org org_admin 11 (Some 10)))"
  using set_manager_keeps_tree [OF sample_org_no_cycles, where role = PLATFORM_ADMIN_ROLE and i = 0 and now = 0
      and c = org_admin and user = 11 and manager = "Some 10"]
  by (metis prod.collapse)

text \<open>
  The check and the update are separate transactions, so two assignments at once can make a
  cycle: both commands pass their checks on the same table, and applying both updates leaves two
  members reporting to each other.
\<close>

theorem concurrent_assignments_make_cycle:
  "no_cycles sample_org \<and>
   set_manager_checks PLATFORM_ADMIN_ROLE sample_org org_admin 10 (Some 11) = Inr () \<and>
   set_manager_checks PLATFORM_ADMIN_ROLE sample_org org_admin 11 (Some 10) = Inr () \<and>
   \<not> no_cycles (snd (repo_set_manager
        (snd (repo_set_manager sample_org org_admin 10 (Some 11) (set_manager_event 0 0 org_admin 10 (Some 11))))
        org_admin 11 (Some 10) (set_manager_event 1 1 org_admin 11 (Some 10))))"
proof (intro conjI)
  show "no_cycles sample_org" by (rule sample_org_no_cycles)
  show "set_manager_checks PLATFORM_ADMIN_ROLE sample_org org_admin 10 (Some 11) = Inr ()" by code_simp
  show "set_manager_checks PLATFORM_ADMIN_ROLE sample_org org_admin 11 (Some 10) = Inr ()" by code_simp
  let ?db = "snd (repo_set_manager
        (snd (repo_set_manager sample_org org_admin 10 (Some 11) (set_manager_event 0 0 org_admin 10 (Some 11))))
        org_admin 11 (Some 10) (set_manager_event 1 1 org_admin 11 (Some 10)))"
  have "(10, 11) \<in> reports_to (hd_members ?db) 1 2" "(11, 10) \<in> reports_to (hd_members ?db) 1 2"
    by (simp_all add: reports_to_def repo_set_manager_def is_member_def sample_org_def sample_member_def in_scope_def
        org_admin_def access_context_defaults_def)
  then have "(10, 10) \<in> (reports_to (hd_members ?db) 1 2)\<^sup>+" by (meson trancl.simps)
  then show "\<not> no_cycles ?db" unfolding no_cycles_def acyclic_def by blast
qed

end
