(* ===== verification/Membership.thy ===== *)
theory Membership
  imports Hierarchy
begin

text \<open>
  How an access context comes to be: the membership lookup of
  \<^verbatim>\<open>adapters/persistence/membership_lookup.py\<close>, the factory of \<^verbatim>\<open>application/identity.py\<close> for a verified
  token and the linked-chat door of \<^verbatim>\<open>application/channel_access.py\<close>. The tables of the identity plane
  are lists of rows; the transaction's settings make row-level security show the rows of the
  requested tenant, which the WHERE clauses ask for anyway.
\<close>

record tenant_row =
  tr_id :: uuid
  tr_status :: string
  tr_record_visibility :: string
  tr_max_autonomy_level :: autonomy_level

record entitlement_row =
  er_tenant_id :: uuid
  er_plan_id :: string
  er_feature_overrides :: "string list"

record identity_row =
  ir_user_id :: uuid
  ir_issuer :: string
  ir_subject :: string
  ir_provider :: string

record identity_db =
  id_members :: "member_row list"
  id_tenants :: "tenant_row list"
  id_roles :: "(string \<times> string list) list"
  id_permission_sets :: "(string \<times> string list) list"
  id_entitlements :: "entitlement_row list"
  id_plans :: "(string \<times> string list) list"
  id_users :: "(uuid \<times> string) list"
  id_external :: "identity_row list"

definition CHANNEL_LINK_PROVIDERS :: "string list" where
  "CHANNEL_LINK_PROVIDERS = [''zalo'']"

definition RECORDS_ALL_READ :: string where
  "RECORDS_ALL_READ = ''crm.records.all.read''"

record membership_access =
  ma_tenant_id :: uuid
  ma_workspace_id :: uuid
  ma_principal_id :: uuid
  ma_roles :: "string set"
  ma_scopes :: "string set"
  ma_groups :: "string set"
  ma_clearance :: string
  ma_plan_id :: string
  ma_feature_flags :: "string set"
  ma_record_visibility :: string
  ma_visible_owners :: "uuid set option"
  ma_max_autonomy_level :: autonomy_level

definition effective_scopes :: "identity_db \<Rightarrow> string set \<Rightarrow> string set \<Rightarrow> string set" where
  "effective_scopes db role_keys set_keys =
     (\<Union>(k, scopes) \<in> set (id_roles db). if k \<in> role_keys then set scopes else {}) \<union>
     (\<Union>(k, scopes) \<in> set (id_permission_sets db). if k \<in> set_keys then set scopes else {})"

text \<open>The membership joined with its tenant; the first row the database returns.\<close>

definition membership_of ::
  "identity_db \<Rightarrow> (uuid \<Rightarrow> bool) \<Rightarrow> uuid \<Rightarrow> uuid \<Rightarrow> (member_row \<times> tenant_row) option" where
  "membership_of db user_clause tenant ws =
     List.find (\<lambda>(m, t). user_clause (mr_user_id m) \<and> in_scope tenant ws m \<and> tr_id t = mr_tenant_id m)
       (List.product (id_members db) (id_tenants db))"

definition entitlement_of :: "identity_db \<Rightarrow> uuid \<Rightarrow> (entitlement_row \<times> string list) option" where
  "entitlement_of db tenant =
     map_option (\<lambda>(e, p). (e, snd p))
       (List.find (\<lambda>(e, p). er_tenant_id e = tenant \<and> er_plan_id e = fst p)
          (List.product (id_entitlements db) (id_plans db)))"

definition access_in ::
  "identity_db \<Rightarrow> (uuid \<Rightarrow> bool) \<Rightarrow> uuid \<Rightarrow> uuid \<Rightarrow> string set option \<Rightarrow> membership_access option" where
  "access_in db user_clause tenant ws cap =
     (case membership_of db user_clause tenant ws of
        None \<Rightarrow> None
      | Some (m, t) \<Rightarrow>
        if tr_status t \<noteq> ''active'' then None
        else
          (let full = effective_scopes db (set (mr_role_keys m)) (set (mr_permission_set_keys m));
               scopes = (case cap of None \<Rightarrow> full | Some cl \<Rightarrow> full \<inter> cl);
               roles = (case cap of None \<Rightarrow> set (mr_role_keys m) | Some _ \<Rightarrow> {})
           in case entitlement_of db tenant of
                None \<Rightarrow> None
              | Some (e, features) \<Rightarrow>
                (let sees_everything = (RECORDS_ALL_READ \<in> scopes \<or> PLATFORM_ADMIN_ROLE \<in> roles);
                     owners = (if tr_record_visibility t = ''restricted'' \<and> \<not> sees_everything
                               then Some (set (subtree_query (id_members db) tenant ws (mr_user_id m))) else None)
                 in Some \<lparr>ma_tenant_id = tenant, ma_workspace_id = ws, ma_principal_id = mr_user_id m,
                          ma_roles = roles, ma_scopes = scopes, ma_groups = {}, ma_clearance = mr_clearance m,
                          ma_plan_id = er_plan_id e,
                          ma_feature_flags = set features \<union> set (er_feature_overrides e),
                          ma_record_visibility = tr_record_visibility t, ma_visible_owners = owners,
                          ma_max_autonomy_level = tr_max_autonomy_level t\<rparr>)))"

text \<open>A verified token names a user by \<^verbatim>\<open>users.subject\<close> or by an identity that is not a linked chat.\<close>

definition candidate_user :: "identity_db \<Rightarrow> string \<Rightarrow> string \<Rightarrow> uuid \<Rightarrow> bool" where
  "candidate_user db subject issuer u \<longleftrightarrow>
     (\<exists>(i, s) \<in> set (id_users db). s = subject \<and> i = u) \<or>
     (\<exists>x \<in> set (id_external db). ir_issuer x = issuer \<and> ir_subject x = subject \<and>
        ir_provider x \<notin> set CHANNEL_LINK_PROVIDERS \<and> ir_user_id x = u)"

definition find_access :: "identity_db \<Rightarrow> string \<Rightarrow> string \<Rightarrow> uuid \<Rightarrow> uuid \<Rightarrow> membership_access option" where
  "find_access db subject issuer tenant ws = access_in db (candidate_user db subject issuer) tenant ws None"

definition find_linked_access :: "identity_db \<Rightarrow> uuid \<Rightarrow> uuid \<Rightarrow> uuid \<Rightarrow> string set \<Rightarrow> membership_access option" where
  "find_linked_access db user tenant ws cap = access_in db (\<lambda>u. u = user) tenant ws (Some cap)"

definition context_from :: "membership_access \<Rightarrow> access_context res" where
  "context_from a =
     access_context_check
       \<lparr>ac_tenant_id = ma_tenant_id a, ac_workspace_id = ma_workspace_id a, ac_principal_id = ma_principal_id a,
        ac_roles = ma_roles a, ac_groups = ma_groups a, ac_scopes = ma_scopes a, ac_clearance = ma_clearance a,
        ac_plan_id = ma_plan_id a, ac_feature_flags = ma_feature_flags a,
        ac_record_visibility = ma_record_visibility a, ac_visible_owners = ma_visible_owners a,
        ac_max_autonomy_level = ma_max_autonomy_level a, ac_support = None\<rparr>"

text \<open>\<^verbatim>\<open>DbAccessContextFactory.build\<close>\<close>

definition build_context ::
  "identity_db \<Rightarrow> string \<Rightarrow> string \<Rightarrow> uuid option \<Rightarrow> uuid option \<Rightarrow> access_context res" where
  "build_context db subject issuer tenant ws =
     (case (tenant, ws) of
        (Some t, Some w) \<Rightarrow>
          (case find_access db subject issuer t w of
             None \<Rightarrow> raise_dw (PermissionDeniedError ''no membership for the requested tenant/workspace'')
           | Some a \<Rightarrow> context_from a)
      | _ \<Rightarrow> raise_dw (TenantContextMissingError ''X-Tenant-Id and X-Workspace-Id headers are required''))"

text \<open>\<^verbatim>\<open>LinkedUserAccess.access_for\<close>\<close>

definition access_for :: "identity_db \<Rightarrow> uuid \<Rightarrow> uuid \<Rightarrow> uuid \<Rightarrow> string set \<Rightarrow> access_context option res" where
  "access_for db user tenant ws cap =
     (case find_linked_access db user tenant ws cap of
        None \<Rightarrow> Inr None
      | Some a \<Rightarrow> (case context_from a of Inl e \<Rightarrow> Inl e | Inr c \<Rightarrow> Inr (Some c)))"

subsection \<open>What a linked chat may do\<close>

text \<open>
  The port a chat command gets its context from: the person asked for, in the workspace asked
  for, within the cap, with no role.
\<close>

locale linked_access =
  fixes access :: "uuid \<Rightarrow> uuid \<Rightarrow> uuid \<Rightarrow> string set \<Rightarrow> access_context option res"
  assumes access_scope: "access user tenant ws cap = Inr (Some c) \<Longrightarrow>
      ac_tenant_id c = tenant \<and> ac_workspace_id c = ws \<and> ac_principal_id c = user"
    and access_ceiling: "access user tenant ws cap = Inr (Some c) \<Longrightarrow> ac_scopes c \<subseteq> cap"
    and access_no_role: "access user tenant ws cap = Inr (Some c) \<Longrightarrow> ac_roles c = {}"
begin

lemma linked_is_allowed:
  "access user tenant ws cap = Inr (Some c) \<Longrightarrow> is_allowed role c action \<longleftrightarrow> action \<in> ac_scopes c"
  using access_no_role by (simp add: is_allowed_def)

lemma linked_is_allowed_ceiling:
  "access user tenant ws cap = Inr (Some c) \<Longrightarrow> is_allowed role c action \<Longrightarrow> action \<in> cap"
  using linked_is_allowed access_ceiling by blast

end

lemma access_in_Some:
  assumes "access_in db user_clause tenant ws cap = Some a"
  shows "ma_tenant_id a = tenant" "ma_workspace_id a = ws" "user_clause (ma_principal_id a)"
    "case cap of None \<Rightarrow> True | Some cl \<Rightarrow> ma_scopes a \<subseteq> cl \<and> ma_roles a = {}"
    "\<exists>m \<in> set (id_members db). \<exists>t \<in> set (id_tenants db). in_scope tenant ws m \<and> mr_user_id m = ma_principal_id a \<and>
       tr_id t = tenant \<and> tr_status t = ''active'' \<and>
       ma_scopes a \<subseteq> effective_scopes db (set (mr_role_keys m)) (set (mr_permission_set_keys m)) \<and>
       (cap = None \<longrightarrow> ma_scopes a = effective_scopes db (set (mr_role_keys m)) (set (mr_permission_set_keys m)) \<and>
          ma_roles a = set (mr_role_keys m)) \<and>
       ma_visible_owners a =
         (if tr_record_visibility t = ''restricted'' \<and> RECORDS_ALL_READ \<notin> ma_scopes a \<and> PLATFORM_ADMIN_ROLE \<notin> ma_roles a
          then Some (set (subtree_query (id_members db) tenant ws (ma_principal_id a))) else None)"
proof -
  obtain m t where mt: "membership_of db user_clause tenant ws = Some (m, t)" "tr_status t = ''active''"
    using assms by (auto simp: access_in_def split: option.splits if_splits)
  obtain e fs where e: "entitlement_of db tenant = Some (e, fs)"
    using assms mt by (auto simp: access_in_def Let_def split: option.splits)
  have mem: "m \<in> set (id_members db)" "t \<in> set (id_tenants db)" "user_clause (mr_user_id m)" "in_scope tenant ws m"
    "tr_id t = tenant"
    using find_SomeD [OF mt(1) [unfolded membership_of_def]] by (auto simp: in_scope_def)
  note a = assms [unfolded access_in_def mt(1) option.case prod.case e Let_def]
  show "ma_tenant_id a = tenant" "ma_workspace_id a = ws" "user_clause (ma_principal_id a)"
    "case cap of None \<Rightarrow> True | Some cl \<Rightarrow> ma_scopes a \<subseteq> cl \<and> ma_roles a = {}"
    using a mt(2) mem(3) by (auto split: option.splits)
  show "\<exists>m \<in> set (id_members db). \<exists>t \<in> set (id_tenants db). in_scope tenant ws m \<and> mr_user_id m = ma_principal_id a \<and>
       tr_id t = tenant \<and> tr_status t = ''active'' \<and>
       ma_scopes a \<subseteq> effective_scopes db (set (mr_role_keys m)) (set (mr_permission_set_keys m)) \<and>
       (cap = None \<longrightarrow> ma_scopes a = effective_scopes db (set (mr_role_keys m)) (set (mr_permission_set_keys m)) \<and>
          ma_roles a = set (mr_role_keys m)) \<and>
       ma_visible_owners a =
         (if tr_record_visibility t = ''restricted'' \<and> RECORDS_ALL_READ \<notin> ma_scopes a \<and> PLATFORM_ADMIN_ROLE \<notin> ma_roles a
          then Some (set (subtree_query (id_members db) tenant ws (ma_principal_id a))) else None)"
    by (rule bexI [OF _ mem(1)], rule bexI [OF _ mem(2)]) (use a mt(2) mem(4,5) in \<open>auto split: option.splits\<close>)
qed

lemma context_from_Inr:
  assumes "context_from a = Inr c"
  shows "ac_tenant_id c = ma_tenant_id a" "ac_workspace_id c = ma_workspace_id a" "ac_principal_id c = ma_principal_id a"
    "ac_roles c = ma_roles a" "ac_scopes c = ma_scopes a" "ac_visible_owners c = ma_visible_owners a"
    "ac_record_visibility c = ma_record_visibility a"
  using assms by (auto simp: context_from_def access_context_check_def split: if_splits)

lemma access_for_Some:
  assumes "access_for db user tenant ws cap = Inr (Some c)"
  obtains a where "find_linked_access db user tenant ws cap = Some a" "context_from a = Inr c"
  using assms by (auto simp: access_for_def split: option.splits sum.splits)

interpretation sql_linked: linked_access "access_for db" for db
proof
  fix user tenant ws cap c
  assume "access_for db user tenant ws cap = Inr (Some c)"
  then obtain a where a: "access_in db (\<lambda>u. u = user) tenant ws (Some cap) = Some a" "context_from a = Inr c"
    by (rule access_for_Some) (simp add: find_linked_access_def)
  note m = access_in_Some [OF a(1)] and k = context_from_Inr [OF a(2)]
  show "ac_tenant_id c = tenant \<and> ac_workspace_id c = ws \<and> ac_principal_id c = user" using m k by simp
  show "ac_scopes c \<subseteq> cap" "ac_roles c = {}" using m k by simp_all
qed

subsection \<open>Properties\<close>

text \<open>
  A linked chat never gains rights. A context built for a chat is the linked person's own, in
  the workspace asked for, of an active tenant they are a member of; its scopes lie within both
  the cap and what their membership grants; it carries no role, so not even a platform
  administrator is allowed an action outside the cap.
\<close>

theorem linked_chat_is_capped:
  assumes "access_for db user tenant ws cap = Inr (Some c)"
  shows "ac_tenant_id c = tenant \<and> ac_workspace_id c = ws \<and> ac_principal_id c = user \<and> ac_scopes c \<subseteq> cap \<and>
         (\<forall>role action. is_allowed role c action \<longrightarrow> action \<in> cap) \<and>
         (\<exists>m \<in> set (id_members db). \<exists>t \<in> set (id_tenants db). in_scope tenant ws m \<and> mr_user_id m = user \<and>
            tr_id t = tenant \<and> tr_status t = ''active'' \<and>
            ac_scopes c \<subseteq> effective_scopes db (set (mr_role_keys m)) (set (mr_permission_set_keys m)))"
proof -
  obtain a where a: "access_in db (\<lambda>u. u = user) tenant ws (Some cap) = Some a" "context_from a = Inr c"
    using assms by (rule access_for_Some) (simp add: find_linked_access_def)
  note m = access_in_Some [OF a(1)] and k = context_from_Inr [OF a(2)]
  have "\<exists>m \<in> set (id_members db). \<exists>t \<in> set (id_tenants db). in_scope tenant ws m \<and> mr_user_id m = user \<and>
      tr_id t = tenant \<and> tr_status t = ''active'' \<and>
      ac_scopes c \<subseteq> effective_scopes db (set (mr_role_keys m)) (set (mr_permission_set_keys m))"
    using m(3,5) k(5) by auto
  then show ?thesis
    using sql_linked.access_scope [OF assms] sql_linked.access_ceiling [OF assms]
      sql_linked.linked_is_allowed_ceiling [OF assms] by blast
qed

text \<open>
  Signing in grants exactly the membership. A context built from a verified token exists only
  for a member of an active tenant whose identity is not a linked chat; it carries exactly the
  roles and the role and permission-set scopes of the membership; and in a restricted tenant a
  caller without the see-everything scope or the admin role is limited to the owners in their
  own reporting subtree, all others have no owner limit.
\<close>

theorem sign_in_grants_membership:
  assumes "build_context db subject issuer (Some tenant) (Some ws) = Inr c"
  shows "candidate_user db subject issuer (ac_principal_id c) \<and> ac_tenant_id c = tenant \<and> ac_workspace_id c = ws \<and>
         (\<exists>m \<in> set (id_members db). \<exists>t \<in> set (id_tenants db). in_scope tenant ws m \<and> mr_user_id m = ac_principal_id c \<and>
            tr_id t = tenant \<and> tr_status t = ''active'' \<and> ac_roles c = set (mr_role_keys m) \<and>
            ac_scopes c = effective_scopes db (set (mr_role_keys m)) (set (mr_permission_set_keys m)) \<and>
            ac_visible_owners c =
              (if tr_record_visibility t = ''restricted'' \<and> \<not> is_allowed PLATFORM_ADMIN_ROLE c RECORDS_ALL_READ
               then Some {u. (u, ac_principal_id c) \<in> (reports_to (id_members db) tenant ws)\<^sup>*} else None))"
proof -
  obtain a where a: "access_in db (candidate_user db subject issuer) tenant ws None = Some a" "context_from a = Inr c"
    using assms by (auto simp: build_context_def find_access_def split: option.splits)
  note m = access_in_Some [OF a(1)] and k = context_from_Inr [OF a(2)]
  obtain x t where x: "x \<in> set (id_members db)" "t \<in> set (id_tenants db)" "in_scope tenant ws x"
    "mr_user_id x = ma_principal_id a" "tr_id t = tenant" "tr_status t = ''active''"
    "ma_scopes a = effective_scopes db (set (mr_role_keys x)) (set (mr_permission_set_keys x))"
    "ma_roles a = set (mr_role_keys x)"
    "ma_visible_owners a =
       (if tr_record_visibility t = ''restricted'' \<and> RECORDS_ALL_READ \<notin> ma_scopes a \<and> PLATFORM_ADMIN_ROLE \<notin> ma_roles a
        then Some (set (subtree_query (id_members db) tenant ws (ma_principal_id a))) else None)"
    using m(5) by auto
  have sub: "set (subtree_query (id_members db) tenant ws (ma_principal_id a)) =
      {u. (u, ma_principal_id a) \<in> (reports_to (id_members db) tenant ws)\<^sup>*}"
    using x(1,3,4) by (auto simp: subtree_query_exact)
  show ?thesis
    using m(1-3) k x sub by (auto simp: is_allowed_def intro!: bexI [of _ x] bexI [of _ t])
qed

definition sample_identity :: identity_db where
  "sample_identity =
     \<lparr>id_members = [(sample_member 11 None)\<lparr>mr_role_keys := [''platform_admin'', ''manager'']\<rparr>, sample_member 12 (Some 11)],
      id_tenants = [\<lparr>tr_id = 1, tr_status = ''active'', tr_record_visibility = ''restricted'',
                     tr_max_autonomy_level = FAIL_CLOSED_LEVEL\<rparr>],
      id_roles = [(''manager'', [''approvals.decide'', ''leads.read'']), (''sales'', [''leads.read''])],
      id_permission_sets = [], id_entitlements = [\<lparr>er_tenant_id = 1, er_plan_id = ''pro'', er_feature_overrides = []\<rparr>],
      id_plans = [(''pro'', [''knowledge_search''])], id_users = [(12, ''sub-12'')], id_external = []\<rparr>"

lemma sample_access_for:
  "\<exists>c. access_for sample_identity 11 1 2 {''approvals.decide''} = Inr (Some c)"
proof -
  have "\<not> sblank ''pro''" "\<not> sblank ''internal''" by (simp_all add: blank_simps)
  then show ?thesis
    by (simp add: access_for_def find_linked_access_def access_in_def membership_of_def sample_identity_def sample_member_def
        in_scope_def entitlement_of_def context_from_def access_context_check_def Let_def)
qed

theorem linked_chat_is_capped_witness:
  "\<exists>c. access_for sample_identity 11 1 2 {''approvals.decide''} = Inr (Some c) \<and> ac_principal_id c = 11 \<and>
       ac_scopes c \<subseteq> {''approvals.decide''} \<and> \<not> is_allowed PLATFORM_ADMIN_ROLE c ''leads.read''"
proof -
  obtain c where c: "access_for sample_identity 11 1 2 {''approvals.decide''} = Inr (Some c)"
    using sample_access_for by blast
  from linked_chat_is_capped [OF c] have "ac_principal_id c = 11" "ac_scopes c \<subseteq> {''approvals.decide''}"
    "is_allowed PLATFORM_ADMIN_ROLE c ''leads.read'' \<longrightarrow> ''leads.read'' \<in> {''approvals.decide''}" by blast+
  with c show ?thesis by auto
qed

lemma sample_sign_in: "\<exists>c. build_context sample_identity ''sub-12'' ''iss'' (Some 1) (Some 2) = Inr c"
proof -
  have "\<not> sblank ''pro''" "\<not> sblank ''internal''" by (simp_all add: blank_simps)
  then show ?thesis
    by (simp add: build_context_def find_access_def access_in_def membership_of_def sample_identity_def sample_member_def
        candidate_user_def in_scope_def entitlement_of_def context_from_def access_context_check_def Let_def)
qed

theorem sign_in_grants_membership_witness:
  "\<exists>c. build_context sample_identity ''sub-12'' ''iss'' (Some 1) (Some 2) = Inr c \<and> ac_tenant_id c = 1 \<and>
       ac_principal_id c = 12"
proof -
  obtain c where c: "build_context sample_identity ''sub-12'' ''iss'' (Some 1) (Some 2) = Inr c"
    using sample_sign_in by blast
  from sign_in_grants_membership [OF c] have "candidate_user sample_identity ''sub-12'' ''iss'' (ac_principal_id c)"
    "ac_tenant_id c = 1" by blast+
  then show ?thesis using c by (auto simp: candidate_user_def sample_identity_def)
qed

end
