(* ===== verification/Codes.thy ===== *)
theory Codes
  imports Approval Membership
begin

text \<open>
  Deciding in a chat after a view on the portal (ADR 0007): the single-use codes of
  \<^verbatim>\<open>dw_platform/application/approval_codes.py\<close> and their SQL store, the portal's view service and the code
  admission of \<^verbatim>\<open>dw_agent_runtime/approval_codes.py\<close>, and the chat's decision service of
  \<^verbatim>\<open>channel_decisions.py\<close>. The keyed hash of a code is a parameter (a number per approval, person
  and digits), as are the Unicode normalisation and the subject-version ports. The code ledger
  is the component \<open>pd_codes\<close> of the platform database, so that consuming a code is part of the
  decision's transaction.
\<close>

subsection \<open>Codes and receipts\<close>

definition CODE_DIGITS :: nat where "CODE_DIGITS = 6"
definition CODE_TTL :: int where "CODE_TTL = minutes 10"
definition MAX_WRONG_TRIES :: int where "MAX_WRONG_TRIES = 5"
definition MAX_COMMENT_LENGTH :: nat where "MAX_COMMENT_LENGTH = 2000"

text \<open>\<^verbatim>\<open>new_code\<close>, from the number the system's generator drew below \<open>10 ^ 6\<close>.\<close>

definition new_code :: "nat \<Rightarrow> ustr" where
  "new_code n = map (\<lambda>i. 48 + n div 10 ^ (CODE_DIGITS - 1 - i) mod 10) [0..<CODE_DIGITS]"

type_synonym code_key = "uuid \<Rightarrow> uuid \<Rightarrow> ustr \<Rightarrow> nat"

definition code_matches :: "code_key \<Rightarrow> nat \<Rightarrow> uuid \<Rightarrow> uuid \<Rightarrow> ustr \<Rightarrow> bool" where
  "code_matches key stored approval user code \<longleftrightarrow> stored = key approval user code"

type_synonym version_port = "access_context \<Rightarrow> approval_request \<Rightarrow> string option"
type_synonym subject_versions = "(string \<times> version_port) list"

definition subjects_register :: "subject_versions \<Rightarrow> string \<Rightarrow> version_port \<Rightarrow> subject_versions res" where
  "subjects_register reg prefix port =
     (if sblank prefix then Inl (ValueError ''a subject version port needs a type prefix'')
      else if prefix \<in> fst ` set reg then Inl (ValueError ''a subject version port is already registered'')
      else Inr (reg @ [(prefix, port)]))"

text \<open>\<^verbatim>\<open>max(found, key=len)\<close>: the first of the longest.\<close>

fun longest_prefix :: "string list \<Rightarrow> string option" where
  "longest_prefix [] = None"
| "longest_prefix (p # ps) =
     (case longest_prefix ps of None \<Rightarrow> Some p
      | Some q \<Rightarrow> if length p < length q then Some q else Some p)"

definition for_type :: "subject_versions \<Rightarrow> string \<Rightarrow> version_port option" where
  "for_type reg approval_type =
     (case longest_prefix (filter (startswith approval_type) (map fst reg)) of
        None \<Rightarrow> None
      | Some p \<Rightarrow> map_of reg p)"

record view_receipt =
  vr_id :: uuid
  vr_tenant_id :: uuid
  vr_workspace_id :: uuid
  vr_approval_id :: uuid
  vr_user_id :: uuid
  vr_approval_version :: int
  vr_subject_version :: "string option"

record new_decision_code =
  nc_id :: uuid
  nc_code_hash :: nat
  nc_comment :: ustr
  nc_expires_at :: instant

datatype code_state = Code_open | Code_used | Code_expired | Code_locked | Code_reissued

record code_row =
  cr_id :: uuid
  cr_tenant_id :: uuid
  cr_workspace_id :: uuid
  cr_approval_id :: uuid
  cr_user_id :: uuid
  cr_receipt_id :: uuid
  cr_code_hash :: nat
  cr_comment :: ustr
  cr_failed_attempts :: int
  cr_expires_at :: instant
  cr_used_at :: "instant option"
  cr_revoked_at :: "instant option"
  cr_revoked_reason :: "code_state option"
  cr_created_at :: instant

record code_db =
  cd_receipts :: "view_receipt list"
  cd_codes :: "code_row list"

definition is_open :: "code_row \<Rightarrow> bool" where
  "is_open r \<longleftrightarrow> cr_used_at r = None \<and> cr_revoked_at r = None"

definition state_of :: "instant \<Rightarrow> code_row \<Rightarrow> code_state" where
  "state_of now r =
     (if cr_used_at r \<noteq> None then Code_used
      else if cr_revoked_reason r = Some Code_locked then Code_locked
      else if cr_revoked_reason r = Some Code_reissued then Code_reissued
      else if cr_expires_at r \<le> now then Code_expired
      else Code_open)"

subsection \<open>The SQL store\<close>

definition code_key_of :: "code_row \<Rightarrow> uuid \<times> uuid \<times> uuid" where
  "code_key_of r = (cr_tenant_id r, cr_approval_id r, cr_user_id r)"

definition revoke_reissued :: "instant \<Rightarrow> view_receipt \<Rightarrow> code_row \<Rightarrow> code_row" where
  "revoke_reissued now v r =
     (if code_key_of r = (vr_tenant_id v, vr_approval_id v, vr_user_id v) \<and> cr_workspace_id r = vr_workspace_id v \<and> is_open r
      then r\<lparr>cr_revoked_at := Some now, cr_revoked_reason := Some Code_reissued\<rparr> else r)"

definition new_code_row :: "instant \<Rightarrow> view_receipt \<Rightarrow> new_decision_code \<Rightarrow> code_row" where
  "new_code_row now v n =
     \<lparr>cr_id = nc_id n, cr_tenant_id = vr_tenant_id v, cr_workspace_id = vr_workspace_id v,
      cr_approval_id = vr_approval_id v, cr_user_id = vr_user_id v, cr_receipt_id = vr_id v,
      cr_code_hash = nc_code_hash n, cr_comment = nc_comment n, cr_failed_attempts = 0,
      cr_expires_at = nc_expires_at n, cr_used_at = None, cr_revoked_at = None, cr_revoked_reason = None,
      cr_created_at = now\<rparr>"

text \<open>
  \<^verbatim>\<open>record_view\<close>: one transaction. The unique index admits one open code per tenant, approval and
  person and the primary key one row per id; row-level security lets the update reach the rows
  of the receipt's workspace.
\<close>

definition record_view :: "code_db \<Rightarrow> instant \<Rightarrow> view_receipt \<Rightarrow> new_decision_code option \<Rightarrow> code_db res" where
  "record_view db now v code =
     (case code of
        None \<Rightarrow> Inr (db\<lparr>cd_receipts := cd_receipts db @ [v]\<rparr>)
      | Some n \<Rightarrow>
        (let codes = map (revoke_reissued now v) (cd_codes db) in
         if \<exists>r \<in> set codes. cr_id r = nc_id n then Inl integrity_raised
         else if \<exists>r \<in> set codes. code_key_of r = (vr_tenant_id v, vr_approval_id v, vr_user_id v) \<and> is_open r
         then raise_dw (ConflictError ''another code was issued for this approval at the same moment; ask again'')
         else Inr \<lparr>cd_receipts = cd_receipts db @ [v], cd_codes = codes @ [new_code_row now v n]\<rparr>))"

definition open_codes :: "code_db \<Rightarrow> instant \<Rightarrow> uuid \<Rightarrow> code_row list" where
  "open_codes db now user =
     filter (\<lambda>r. cr_user_id r = user \<and> is_open r \<and> now < cr_expires_at r) (cd_codes db)"

definition codes_of :: "code_db \<Rightarrow> instant \<Rightarrow> uuid \<Rightarrow> code_row list" where
  "codes_of db now user =
     sort_by (\<lambda>r. - cr_created_at r) (sort_by (\<lambda>r. int (cr_id r))
       (filter (\<lambda>r. cr_user_id r = user \<and> now - days 1 < cr_created_at r) (cd_codes db)))"

definition wrong_try :: "instant \<Rightarrow> code_row \<Rightarrow> code_row" where
  "wrong_try now r =
     (let reaches = (MAX_WRONG_TRIES \<le> cr_failed_attempts r + 1) in
      r\<lparr>cr_failed_attempts := cr_failed_attempts r + 1,
        cr_revoked_at := (if reaches then Some now else None),
        cr_revoked_reason := (if reaches then Some Code_locked else None)\<rparr>)"

definition record_wrong_try :: "code_db \<Rightarrow> instant \<Rightarrow> uuid \<Rightarrow> nat \<times> code_db" where
  "record_wrong_try db now user =
     (let hit = (\<lambda>r. cr_user_id r = user \<and> is_open r \<and> now < cr_expires_at r) in
      (length (filter (\<lambda>r. hit r \<and> cr_revoked_reason (wrong_try now r) = Some Code_locked) (cd_codes db)),
       db\<lparr>cd_codes := map (\<lambda>r. if hit r then wrong_try now r else r) (cd_codes db)\<rparr>))"

record last_decision =
  ld_decided_at :: instant
  ld_channel :: string

record coded_approval =
  ca_request :: approval_request
  ca_receipt_approval_version :: int
  ca_receipt_subject_version :: "string option"
  ca_last_decision :: "last_decision option"

definition coded_approval_of :: "code_db platform_db \<Rightarrow> code_row \<Rightarrow> coded_approval option" where
  "coded_approval_of db code =
     (case (List.find (\<lambda>r. ar_tenant_id r = cr_tenant_id code \<and> ar_id r = cr_approval_id code \<and>
                           ar_workspace_id r = cr_workspace_id code) (pd_approvals db),
            List.find (\<lambda>v. vr_tenant_id v = cr_tenant_id code \<and> vr_workspace_id v = cr_workspace_id code \<and>
                           vr_id v = cr_receipt_id code \<and> vr_user_id v = cr_user_id code \<and>
                           vr_approval_id v = cr_approval_id code) (cd_receipts (pd_codes db))) of
        (Some r, Some v) \<Rightarrow>
          Some \<lparr>ca_request = r, ca_receipt_approval_version = vr_approval_version v,
                ca_receipt_subject_version = vr_subject_version v,
                ca_last_decision =
                  (case sort_by (\<lambda>d. - ad_decided_at d)
                      (filter (\<lambda>d. ad_tenant_id d = cr_tenant_id code \<and> ad_request_id d = cr_approval_id code) (pd_decisions db)) of
                     [] \<Rightarrow> None
                   | d # _ \<Rightarrow> Some \<lparr>ld_decided_at = ad_decided_at d, ld_channel = ad_channel d\<rparr>)\<rparr>
      | _ \<Rightarrow> None)"

text \<open>\<^verbatim>\<open>SqlDecisionCodeLedger.consume\<close>: one conditional UPDATE under the decision's tenant and workspace.\<close>

definition consumable :: "instant \<Rightarrow> access_context \<Rightarrow> uuid \<Rightarrow> uuid \<Rightarrow> code_row \<Rightarrow> bool" where
  "consumable now c code_id user r \<longleftrightarrow>
     cr_tenant_id r = ac_tenant_id c \<and> cr_workspace_id r = ac_workspace_id c \<and>
     cr_id r = code_id \<and> cr_user_id r = user \<and> is_open r \<and> now < cr_expires_at r"

definition consume :: "code_db \<Rightarrow> instant \<Rightarrow> access_context \<Rightarrow> uuid \<Rightarrow> uuid \<Rightarrow> bool \<times> code_db" where
  "consume db now c code_id user =
     (length (filter (consumable now c code_id user) (cd_codes db)) = 1,
      db\<lparr>cd_codes := map (\<lambda>r. if consumable now c code_id user r then r\<lparr>cr_used_at := Some now\<rparr> else r) (cd_codes db)\<rparr>)"


subsection \<open>The portal: viewing and issuing a code\<close>

datatype code_unavailable =
  NOT_PENDING | CANNOT_DECIDE | IS_REQUESTER | WEB_ONLY | NOT_LINKED | NEEDS_COMMENT | CHANNEL_OFF

record issued_code =
  ic_code :: ustr
  ic_expires_at :: instant

record view_outcome =
  vo_viewed_at :: instant
  vo_requires_comment :: bool
  vo_issued :: "issued_code option"
  vo_unavailable :: "code_unavailable option"

text \<open>
  The services' collaborators: the approval service's configuration, the code key (\<open>None\<close>: no
  key in this deployment), the subject-version ports, who has a linked chat, the id generator by
  use and the name of a chat in the audit trail.
\<close>

record code_env =
  ce_cfg :: approval_config
  ce_key :: "code_key option"
  ce_subjects :: subject_versions
  ce_linked_chat :: "uuid \<Rightarrow> string option"
  ce_new_uuid :: "nat \<Rightarrow> uuid"
  ce_chat_reference :: "string \<Rightarrow> string \<Rightarrow> string"

definition subject_version_of :: "code_env \<Rightarrow> access_context \<Rightarrow> approval_request \<Rightarrow> string option" where
  "subject_version_of env c r =
     (case for_type (ce_subjects env) (ar_approval_type r) of None \<Rightarrow> None | Some port \<Rightarrow> port c r)"

definition visible_request :: "code_env \<Rightarrow> 'c platform_db \<Rightarrow> uuid \<Rightarrow> access_context \<Rightarrow> approval_request res" where
  "visible_request env db aid c =
     (case require_scope (cfg_admin_role (ce_cfg env)) c ''approvals.read'' of
        Inl e \<Rightarrow> Inl e
      | Inr _ \<Rightarrow>
        (case approvals_get db (ac_tenant_id c) aid (ac_workspace_id c) (audience_of c (cfg_admin_role (ce_cfg env))) of
           None \<Rightarrow> raise_dw (NotFoundError ''approval request not found'')
         | Some r \<Rightarrow> Inr r))"

definition unavailable_reason ::
  "code_env \<Rightarrow> approval_request \<Rightarrow> access_context \<Rightarrow> string option \<Rightarrow> bool \<Rightarrow> code_unavailable option" where
  "unavailable_reason env r c subject_version missing_comment =
     (if ar_status r \<noteq> Approval_pending then Some NOT_PENDING
      else if \<not> may_decide (audience_of c (cfg_admin_role (ce_cfg env))) (ar_required_scope r) then Some CANNOT_DECIDE
      else if ar_requested_by r = ac_principal_id c then Some IS_REQUESTER
      else if subject_version = None then Some WEB_ONLY
      else if ce_key env = None then Some CHANNEL_OFF
      else if ce_linked_chat env (ac_principal_id c) = None then Some NOT_LINKED
      else if missing_comment then Some NEEDS_COMMENT
      else None)"

text \<open>\<^verbatim>\<open>_fresh_code\<close>: up to eight draws (the numbers given), around the person's open codes.\<close>

definition DRAWS :: nat where "DRAWS = 8"

fun fresh_code :: "code_key \<Rightarrow> uuid \<Rightarrow> code_row list \<Rightarrow> nat list \<Rightarrow> ustr res" where
  "fresh_code key user taken [] = raise_dw (ConflictError ''could not draw a free code; ask again'')"
| "fresh_code key user taken (n # ns) =
     (if list_ex (\<lambda>t. code_matches key (cr_code_hash t) (cr_approval_id t) user (new_code n)) taken
      then fresh_code key user taken ns else Inr (new_code n))"

text \<open>
  \<^verbatim>\<open>ApprovalViewService.view\<close>; \<open>now\<close> is the service's clock and \<open>db_now\<close> the database's, \<open>draws\<close> the
  numbers the generator gives.
\<close>

definition view_approval ::
  "code_env \<Rightarrow> nat list \<Rightarrow> instant \<Rightarrow> instant \<Rightarrow> code_db platform_db \<Rightarrow> uuid \<Rightarrow> access_context \<Rightarrow> ustr \<Rightarrow> bool \<Rightarrow>
   view_outcome res \<times> code_db platform_db" where
  "view_approval env draws now db_now db aid c comment issue_code =
     (if MAX_COMMENT_LENGTH < length comment then (raise_dw (DomainError ''the comment is too long''), db)
      else case visible_request env db aid c of
        Inl e \<Rightarrow> (Inl e, db)
      | Inr r \<Rightarrow>
        (let subject = subject_version_of env c r;
             receipt = \<lparr>vr_id = ce_new_uuid env 0, vr_tenant_id = ac_tenant_id c, vr_workspace_id = ac_workspace_id c,
                        vr_approval_id = ar_id r, vr_user_id = ac_principal_id c, vr_approval_version = ar_version r,
                        vr_subject_version = subject\<rparr>;
             requires_comment = is_strict (ce_cfg env) (ar_approval_type r);
             unavailable = unavailable_reason env r c subject (issue_code \<and> requires_comment \<and> ublank comment);
             issue = (case ce_key env of
                        Some key \<Rightarrow>
                          if issue_code \<and> unavailable = None
                          then (case fresh_code key (ac_principal_id c) (open_codes (pd_codes db) db_now (ac_principal_id c))
                                       (take DRAWS draws) of
                                  Inl e \<Rightarrow> Inl e
                                | Inr code \<Rightarrow>
                                    Inr (Some (\<lparr>nc_id = ce_new_uuid env 1,
                                                nc_code_hash = key (ar_id r) (ac_principal_id c) code,
                                                nc_comment = ustrip comment, nc_expires_at = now + CODE_TTL\<rparr>,
                                               \<lparr>ic_code = code, ic_expires_at = now + CODE_TTL\<rparr>)))
                          else Inr None
                      | None \<Rightarrow> Inr None)
         in case issue of
              Inl e \<Rightarrow> (Inl e, db)
            | Inr new \<Rightarrow>
              (case record_view (pd_codes db) db_now receipt (map_option fst new) of
                 Inl e \<Rightarrow> (Inl e, db)
               | Inr codes \<Rightarrow>
                   (Inr \<lparr>vo_viewed_at = now, vo_requires_comment = requires_comment,
                         vo_issued = map_option snd new, vo_unavailable = unavailable\<rparr>,
                    db\<lparr>pd_codes := codes\<rparr>))))"

subsection \<open>The admission of a decision by its code\<close>

definition ADMISSION_STALE :: string where "ADMISSION_STALE = ''approval_changed''"
definition ADMISSION_SPENT :: string where "ADMISSION_SPENT = ''code_spent''"

record code_admission =
  ad_code_id :: uuid
  ad_user_id :: uuid
  ad_receipt_id :: uuid
  ad_approval_version :: int
  ad_subject_version :: string
  ad_message_id :: string
  ad_chat_reference :: string

definition admit :: "instant \<Rightarrow> code_admission \<Rightarrow> code_db admission" where
  "admit db_now a db r c =
     (if ar_version r \<noteq> ad_approval_version a then raise_dw (AdmissionRefusedError ADMISSION_STALE)
      else case consume (pd_codes db) db_now c (ad_code_id a) (ad_user_id a) of
             (False, _) \<Rightarrow> raise_dw (AdmissionRefusedError ADMISSION_SPENT)
           | (True, codes) \<Rightarrow>
               Inr ([(''approval_version'', JInt (ad_approval_version a)),
                     (''subject_version'', JStr (ad_subject_version a)), (''receipt_id'', JUuid (ad_receipt_id a)),
                     (''code_id'', JUuid (ad_code_id a)), (''message_id'', JStr (ad_message_id a)),
                     (''chat_reference'', JStr (ad_chat_reference a))],
                    db\<lparr>pd_codes := codes\<rparr>))"

subsection \<open>The grammar of a chat decision\<close>

datatype parsed =
    Not_a_decision
  | Malformed_approve
  | Malformed_reject
  | Parsed bool ustr ustr

definition is_digit_token :: "ustr \<Rightarrow> bool" where
  "is_digit_token t \<longleftrightarrow> t \<noteq> [] \<and> list_all (\<lambda>c. 48 \<le> c \<and> c \<le> 57) t"

definition is_code :: "ustr \<Rightarrow> bool" where
  "is_code t \<longleftrightarrow> length t = CODE_DIGITS \<and> is_digit_token t"

text \<open>\<^verbatim>\<open>str.split(maxsplit=n)\<close>: words around white space, the remainder kept whole (its end included).\<close>

fun split_words :: "nat \<Rightarrow> ustr \<Rightarrow> ustr list" where
  "split_words 0 s = (case dropWhile py_isspace s of [] \<Rightarrow> [] | c # cs \<Rightarrow> [c # cs])"
| "split_words (Suc k) s =
     (case dropWhile py_isspace s of
        [] \<Rightarrow> []
      | c # cs \<Rightarrow> takeWhile (\<lambda>x. \<not> py_isspace x) (c # cs)
                  # split_words k (dropWhile (\<lambda>x. \<not> py_isspace x) (c # cs)))"

text \<open>
  The Unicode of the standard library: \<open>nfc\<close> the composed form of a text, \<open>fold_word\<close> the word
  without case and accents.
\<close>

definition parse_decision :: "(ustr \<Rightarrow> ustr) \<Rightarrow> (ustr \<Rightarrow> ustr) \<Rightarrow> ustr \<Rightarrow> parsed" where
  "parse_decision nfc fold_word msg =
     (case split_words 2 (ustrip (nfc msg)) of
        [] \<Rightarrow> Not_a_decision
      | head # args \<Rightarrow>
        if fold_word head = ulit ''DUYET''
        then (case args of
                [code] \<Rightarrow> if is_code code then Parsed True code [] else Malformed_approve
              | _ \<Rightarrow> Malformed_approve)
        else if fold_word head = ulit ''KHONG''
        then (case args of
                [] \<Rightarrow> Not_a_decision
              | number # rest \<Rightarrow>
                if \<not> is_digit_token number then Not_a_decision
                else (let reason = (case rest of [t] \<Rightarrow> ustrip t | _ \<Rightarrow> []) in
                      if is_code number \<and> reason \<noteq> [] then Parsed False number reason else Malformed_reject))
        else Not_a_decision)"

subsection \<open>The chat: deciding with a code\<close>

datatype refusal =
    WRONG_CODE | R_EXPIRED | R_USED | R_REISSUED | R_LOCKED | STALE | NO_PERMISSION | R_REQUESTER
  | ALREADY_DECIDED | COMMENT_REQUIRED | NOT_DECIDED | DISABLED

fun refusal_value :: "refusal \<Rightarrow> string" where
  "refusal_value WRONG_CODE = ''wrong_code''"
| "refusal_value R_EXPIRED = ''code_expired''"
| "refusal_value R_USED = ''code_used''"
| "refusal_value R_REISSUED = ''code_reissued''"
| "refusal_value R_LOCKED = ''code_locked''"
| "refusal_value STALE = ''changed_since_view''"
| "refusal_value NO_PERMISSION = ''no_permission''"
| "refusal_value R_REQUESTER = ''requester''"
| "refusal_value ALREADY_DECIDED = ''already_decided''"
| "refusal_value COMMENT_REQUIRED = ''comment_required''"
| "refusal_value NOT_DECIDED = ''not_decided''"
| "refusal_value DISABLED = ''channel_off''"

text \<open>The sentence a chat gets: one per refusal, and what is said of a decided request.\<close>

datatype chat_reply =
    Refusal_sentence refusal
  | Was_cancelled
  | Was_decided "last_decision option"
  | Decision_recorded bool

record channel_outcome =
  co_decided :: bool
  co_reason :: "refusal option"
  co_reply :: chat_reply

record chat_message =
  cm_channel :: string
  cm_message_id :: string
  cm_chat_id :: string

definition already_decided_reply :: "coded_approval \<Rightarrow> chat_reply" where
  "already_decided_reply coded =
     (if ar_status (ca_request coded) = Approval_cancelled then Was_cancelled
      else Was_decided (ca_last_decision coded))"

definition refused_outcome :: "refusal \<Rightarrow> chat_reply option \<Rightarrow> channel_outcome" where
  "refused_outcome reason reply =
     \<lparr>co_decided = False, co_reason = Some reason,
      co_reply = (case reply of Some r \<Rightarrow> r | None \<Rightarrow> Refusal_sentence reason)\<rparr>"

definition REFUSED_ACTION :: string where "REFUSED_ACTION = ''approval.channel_decision_refused''"

definition refusal_event :: "code_env \<Rightarrow> instant \<Rightarrow> refusal \<Rightarrow> code_row \<Rightarrow> chat_message \<Rightarrow> audit_event" where
  "refusal_event env now reason code m =
     \<lparr>ae_id = ce_new_uuid env 3, ae_tenant_id = cr_tenant_id code, ae_workspace_id = cr_workspace_id code,
      ae_actor_id = cr_user_id code, ae_action = REFUSED_ACTION, ae_resource_type = ''approval_request'',
      ae_resource_id = JUuid (cr_approval_id code), ae_occurred_at = now, ae_run_id = None,
      ae_policy_decision = None, ae_trace_id = None,
      ae_details = [(''reason'', JStr (refusal_value reason)), (''channel'', JStr (cm_channel m)),
                    (''code_id'', JUuid (cr_id code)), (''receipt_id'', JUuid (cr_receipt_id code)),
                    (''message_id'', JStr (cm_message_id m)),
                    (''chat_reference'', JStr (ce_chat_reference env (cm_channel m) (cm_chat_id m)))]\<rparr>"

definition refuse ::
  "code_env \<Rightarrow> instant \<Rightarrow> code_db platform_db \<Rightarrow> refusal \<Rightarrow> code_row \<Rightarrow> chat_message \<Rightarrow> chat_reply option \<Rightarrow>
   channel_outcome res \<times> code_db platform_db" where
  "refuse env now db reason code m reply =
     (case make_audit_event (refusal_event env now reason code m) of
        Inl e \<Rightarrow> (Inl e, db)
      | Inr ev \<Rightarrow> (Inr (refused_outcome reason reply), audit_append db ev))"

definition joined :: "ustr \<Rightarrow> ustr \<Rightarrow> ustr" where
  "joined comment reason = (if \<not> ublank comment then comment @ [10] @ reason else reason)"

fun state_refusal :: "code_state \<Rightarrow> refusal option" where
  "state_refusal Code_used = Some R_USED"
| "state_refusal Code_expired = Some R_EXPIRED"
| "state_refusal Code_locked = Some R_LOCKED"
| "state_refusal Code_reissued = Some R_REISSUED"
| "state_refusal Code_open = None"

definition decision_ceiling :: "approval_request \<Rightarrow> string set" where
  "decision_ceiling r =
     {APPROVALS_DECIDE} \<union> (case ar_required_scope r of None \<Rightarrow> {} | Some s \<Rightarrow> if s = [] then {} else {s})"

text \<open>Which of the person's codes the digits name: a refusal with the code it is about, or the code.\<close>

datatype named_code = No_match | Refused_code refusal code_row | Named code_row

definition name_code :: "code_key \<Rightarrow> instant \<Rightarrow> uuid \<Rightarrow> ustr \<Rightarrow> code_row list \<Rightarrow> named_code" where
  "name_code key now user digits codes =
     (let matched = filter (\<lambda>r. code_matches key (cr_code_hash r) (cr_approval_id r) user digits) codes;
          opened = filter (\<lambda>r. state_of now r = Code_open) matched
      in case matched of
           [] \<Rightarrow> No_match
         | m # _ \<Rightarrow>
           (case opened of
              [] \<Rightarrow> (case state_refusal (state_of now m) of Some why \<Rightarrow> Refused_code why m | None \<Rightarrow> Named m)
            | o1 # more_open \<Rightarrow> if more_open = [] then Named o1 else Refused_code STALE o1))"

datatype checked =
    Check_refused refusal "chat_reply option"
  | Check_passed coded_approval access_context string ustr

type_synonym access_port = "uuid \<Rightarrow> uuid \<Rightarrow> uuid \<Rightarrow> string set \<Rightarrow> access_context option res"

definition channel_checks ::
  "code_env \<Rightarrow> access_port \<Rightarrow> code_db platform_db \<Rightarrow> uuid \<Rightarrow> bool \<Rightarrow> ustr \<Rightarrow> code_row \<Rightarrow> checked res" where
  "channel_checks env access db user approve reason code =
     (case coded_approval_of db code of
        None \<Rightarrow> Inr (Check_refused WRONG_CODE None)
      | Some coded \<Rightarrow>
        (let r = ca_request coded in
         if ar_status r \<noteq> Approval_pending
         then Inr (Check_refused ALREADY_DECIDED (Some (already_decided_reply coded)))
         else if ar_requested_by r = user then Inr (Check_refused R_REQUESTER None)
         else if ca_receipt_approval_version coded \<noteq> ar_version r then Inr (Check_refused STALE None)
         else case access user (cr_tenant_id code) (cr_workspace_id code) (decision_ceiling r) of
                Inl e \<Rightarrow> Inl e
              | Inr None \<Rightarrow> Inr (Check_refused NO_PERMISSION None)
              | Inr (Some c) \<Rightarrow>
                (case subject_version_of env c r of
                   None \<Rightarrow> Inr (Check_refused STALE None)
                 | Some current \<Rightarrow>
                   if ca_receipt_subject_version coded \<noteq> Some current then Inr (Check_refused STALE None)
                   else (let comment = (if approve then cr_comment code else joined (cr_comment code) reason) in
                         if is_strict (ce_cfg env) (ar_approval_type r) \<and> ublank comment
                         then Inr (Check_refused COMMENT_REQUIRED None)
                         else Inr (Check_passed coded c current comment)))))"

text \<open>
  The decision itself and what its exceptions become. Others may have committed between the
  checks and the decision's transaction: \<open>drift\<close> is what they did to the database.
\<close>

definition admission_of :: "code_env \<Rightarrow> uuid \<Rightarrow> chat_message \<Rightarrow> code_row \<Rightarrow> coded_approval \<Rightarrow> string \<Rightarrow> code_admission" where
  "admission_of env user m code coded current =
     \<lparr>ad_code_id = cr_id code, ad_user_id = user, ad_receipt_id = cr_receipt_id code,
      ad_approval_version = ca_receipt_approval_version coded, ad_subject_version = current,
      ad_message_id = cm_message_id m, ad_chat_reference = ce_chat_reference env (cm_channel m) (cm_chat_id m)\<rparr>"

definition channel_commit ::
  "code_env \<Rightarrow> (code_db platform_db \<Rightarrow> code_db platform_db) \<Rightarrow> (resume_call \<Rightarrow> exc option) \<Rightarrow> run_db \<Rightarrow> instant \<Rightarrow> instant \<Rightarrow>
   code_db platform_db \<Rightarrow> uuid \<Rightarrow> chat_message \<Rightarrow> bool \<Rightarrow> code_row \<Rightarrow> coded_approval \<Rightarrow> access_context \<Rightarrow> string \<Rightarrow> ustr \<Rightarrow>
   channel_outcome res \<times> code_db platform_db \<times> resume_call option" where
  "channel_commit env drift runner runs now db_now db user m approve code coded c current comment =
     (case decide (ce_cfg env) (ce_new_uuid env) now runner runs (drift db) (ar_id (ca_request coded)) approve comment c
             None (cm_channel m) (Some (admit db_now (admission_of env user m code coded current))) of
        (res, db2, call) \<Rightarrow>
          (let refuse_with = (\<lambda>why reply. case refuse env now db2 why code m reply of (out, db3) \<Rightarrow> (out, db3, call)) in
           case res of
             Inr _ \<Rightarrow> (Inr \<lparr>co_decided = True, co_reason = None, co_reply = Decision_recorded approve\<rparr>, db2, call)
           | Inl (DW (AdmissionRefusedError why)) \<Rightarrow>
               refuse_with (if why = ADMISSION_STALE then STALE else R_USED) None
           | Inl (DW (PermissionDeniedError _)) \<Rightarrow> refuse_with NO_PERMISSION None
           | Inl (DW (NotFoundError _)) \<Rightarrow> refuse_with NO_PERMISSION None
           | Inl (DW (ConflictError _)) \<Rightarrow>
               (case coded_approval_of db2 code of
                  Some again \<Rightarrow>
                    if ar_status (ca_request again) \<noteq> Approval_pending
                    then refuse_with ALREADY_DECIDED (Some (already_decided_reply again))
                    else refuse_with NOT_DECIDED None
                | None \<Rightarrow> refuse_with NOT_DECIDED None)
           | Inl e \<Rightarrow> (Inl e, db2, call)))"

definition channel_decide ::
  "code_env \<Rightarrow> access_port \<Rightarrow> (code_db platform_db \<Rightarrow> code_db platform_db) \<Rightarrow> (resume_call \<Rightarrow> exc option) \<Rightarrow> run_db \<Rightarrow>
   instant \<Rightarrow> instant \<Rightarrow> instant \<Rightarrow> code_db platform_db \<Rightarrow> uuid \<Rightarrow> chat_message \<Rightarrow> bool \<Rightarrow> ustr \<Rightarrow> ustr \<Rightarrow>
   channel_outcome res \<times> code_db platform_db \<times> resume_call option" where
  "channel_decide env access drift runner runs now db_now1 db_now2 db user m approve digits reason =
     (case ce_key env of
        None \<Rightarrow> (Inr (refused_outcome DISABLED None), db, None)
      | Some key \<Rightarrow>
        (case name_code key db_now1 user digits (codes_of (pd_codes db) db_now1 user) of
           No_match \<Rightarrow> (Inr (refused_outcome WRONG_CODE None),
                        db\<lparr>pd_codes := snd (record_wrong_try (pd_codes db) db_now1 user)\<rparr>, None)
         | Refused_code why code \<Rightarrow> (case refuse env now db why code m None of (out, db') \<Rightarrow> (out, db', None))
         | Named code \<Rightarrow>
           (case channel_checks env access db user approve reason code of
              Inl e \<Rightarrow> (Inl e, db, None)
            | Inr (Check_refused why reply) \<Rightarrow> (case refuse env now db why code m reply of (out, db') \<Rightarrow> (out, db', None))
            | Inr (Check_passed coded c current comment) \<Rightarrow>
                channel_commit env drift runner runs now db_now2 db user m approve code coded c current comment)))"

text \<open>\<^verbatim>\<open>ChannelDecisionCommand.handle\<close>: whether the message was this command's, and what is replied.\<close>

datatype command_reply = Hint_approve | Hint_reject | Says chat_reply

definition handle_decision_message ::
  "code_env \<Rightarrow> access_port \<Rightarrow> (code_db platform_db \<Rightarrow> code_db platform_db) \<Rightarrow> (resume_call \<Rightarrow> exc option) \<Rightarrow> run_db \<Rightarrow>
   instant \<Rightarrow> instant \<Rightarrow> instant \<Rightarrow> code_db platform_db \<Rightarrow> (ustr \<Rightarrow> ustr) \<Rightarrow> (ustr \<Rightarrow> ustr) \<Rightarrow> access_context \<Rightarrow>
   chat_message \<Rightarrow> ustr \<Rightarrow> (bool \<times> command_reply option) res \<times> code_db platform_db \<times> resume_call option" where
  "handle_decision_message env access drift runner runs now db_now1 db_now2 db nfc fold_word c m msg =
     (case parse_decision nfc fold_word msg of
        Not_a_decision \<Rightarrow> (Inr (False, None), db, None)
      | Malformed_approve \<Rightarrow> (Inr (True, Some Hint_approve), db, None)
      | Malformed_reject \<Rightarrow> (Inr (True, Some Hint_reject), db, None)
      | Parsed approve digits reason \<Rightarrow>
        (case channel_decide env access drift runner runs now db_now1 db_now2 db (ac_principal_id c) m approve digits reason of
           (Inl e, db', call) \<Rightarrow> (Inl e, db', call)
         | (Inr out, db', call) \<Rightarrow> (Inr (True, Some (Says (co_reply out))), db', call)))"

subsection \<open>The ledger's life\<close>

datatype code_op =
    Op_view instant view_receipt "new_decision_code option"
  | Op_wrong instant uuid
  | Op_consume instant access_context uuid uuid

text \<open>One operation of anyone on the ledger, and the code it consumed.\<close>

fun code_step :: "code_op \<Rightarrow> code_db \<Rightarrow> uuid option \<times> code_db" where
  "code_step (Op_view now v n) db = (None, case record_view db now v n of Inl _ \<Rightarrow> db | Inr db' \<Rightarrow> db')"
| "code_step (Op_wrong now user) db = (None, snd (record_wrong_try db now user))"
| "code_step (Op_consume now c code_id user) db =
     (if fst (consume db now c code_id user) then Some code_id else None, snd (consume db now c code_id user))"

fun code_run :: "code_op list \<Rightarrow> code_db \<Rightarrow> uuid list \<times> code_db" where
  "code_run [] db = ([], db)"
| "code_run (op # ops) db =
     (case code_step op db of (used, db1) \<Rightarrow>
        (case code_run ops db1 of (rest, db2) \<Rightarrow> ((case used of None \<Rightarrow> rest | Some i \<Rightarrow> i # rest), db2)))"

definition ledger_ok :: "code_row list \<Rightarrow> bool" where
  "ledger_ok rows \<longleftrightarrow> distinct (map cr_id rows) \<and>
     (\<forall>r \<in> set rows. \<forall>r' \<in> set rows. is_open r \<and> is_open r' \<and> code_key_of r = code_key_of r' \<longrightarrow> r = r') \<and>
     (\<forall>r \<in> set rows. 0 \<le> cr_failed_attempts r \<and> cr_failed_attempts r \<le> MAX_WRONG_TRIES \<and>
        (cr_failed_attempts r = MAX_WRONG_TRIES \<longrightarrow> cr_revoked_reason r = Some Code_locked) \<and>
        (cr_revoked_at r = None \<longleftrightarrow> cr_revoked_reason r = None))"

text \<open>What an update of a row may do: keep its identity, never reopen it, count wrong tries in range.\<close>

definition row_step :: "code_row \<Rightarrow> code_row \<Rightarrow> bool" where
  "row_step r r' \<longleftrightarrow> cr_id r' = cr_id r \<and> code_key_of r' = code_key_of r \<and> (is_open r' \<longrightarrow> is_open r) \<and>
     (\<not> is_open r \<longrightarrow> r' = r) \<and>
     (0 \<le> cr_failed_attempts r \<and> cr_failed_attempts r \<le> MAX_WRONG_TRIES \<and>
        (cr_failed_attempts r = MAX_WRONG_TRIES \<longrightarrow> cr_revoked_reason r = Some Code_locked) \<and>
        (cr_revoked_at r = None \<longleftrightarrow> cr_revoked_reason r = None) \<longrightarrow>
      0 \<le> cr_failed_attempts r' \<and> cr_failed_attempts r' \<le> MAX_WRONG_TRIES \<and>
        (cr_failed_attempts r' = MAX_WRONG_TRIES \<longrightarrow> cr_revoked_reason r' = Some Code_locked) \<and>
        (cr_revoked_at r' = None \<longleftrightarrow> cr_revoked_reason r' = None))"

lemma row_step_refl: "row_step r r"
  by (simp add: row_step_def)

lemma row_step_revoke: "row_step r (revoke_reissued now v r)"
proof (cases "is_open r")
  case False then show ?thesis by (simp add: revoke_reissued_def row_step_refl)
next
  case True
  then have "cr_revoked_at r = None" by (simp add: is_open_def)
  then show ?thesis
    by (auto simp: row_step_def revoke_reissued_def code_key_of_def is_open_def MAX_WRONG_TRIES_def)
qed

lemma row_step_wrong: "is_open r \<Longrightarrow> row_step r (wrong_try now r)"
  by (auto simp: row_step_def wrong_try_def code_key_of_def is_open_def MAX_WRONG_TRIES_def Let_def)

lemma row_step_used: "is_open r \<Longrightarrow> row_step r (r\<lparr>cr_used_at := Some now\<rparr>)"
  by (auto simp: row_step_def code_key_of_def is_open_def)

lemma ledger_ok_map:
  assumes ok: "ledger_ok rows" and f: "\<And>r. r \<in> set rows \<Longrightarrow> row_step r (f r)"
  shows "ledger_ok (map f rows)"
proof -
  have "map cr_id (map f rows) = map cr_id rows" using f by (simp add: row_step_def)
  then have d: "distinct (map cr_id (map f rows))" using ok by (simp add: ledger_ok_def del: map_map)
  have u: "f x = f y" if xy: "x \<in> set rows" "y \<in> set rows" "is_open (f x)" "is_open (f y)" "code_key_of (f x) = code_key_of (f y)" for x y
  proof -
    have "is_open x" "is_open y" "code_key_of x = code_key_of y"
      using xy f [OF xy(1)] f [OF xy(2)] unfolding row_step_def by metis+
    then show ?thesis using ok xy(1,2) unfolding ledger_ok_def by metis
  qed
  have c: "\<forall>r \<in> set (map f rows). 0 \<le> cr_failed_attempts r \<and> cr_failed_attempts r \<le> MAX_WRONG_TRIES \<and>
        (cr_failed_attempts r = MAX_WRONG_TRIES \<longrightarrow> cr_revoked_reason r = Some Code_locked) \<and>
        (cr_revoked_at r = None \<longleftrightarrow> cr_revoked_reason r = None)"
  proof
    fix r' assume "r' \<in> set (map f rows)"
    then obtain r where r: "r \<in> set rows" "r' = f r" by auto
    from f [OF r(1)] ok r(1) show "0 \<le> cr_failed_attempts r' \<and> cr_failed_attempts r' \<le> MAX_WRONG_TRIES \<and>
        (cr_failed_attempts r' = MAX_WRONG_TRIES \<longrightarrow> cr_revoked_reason r' = Some Code_locked) \<and>
        (cr_revoked_at r' = None \<longleftrightarrow> cr_revoked_reason r' = None)"
      unfolding row_step_def ledger_ok_def r(2) by blast
  qed
  have u': "\<forall>r \<in> set (map f rows). \<forall>r' \<in> set (map f rows). is_open r \<and> is_open r' \<and> code_key_of r = code_key_of r' \<longrightarrow> r = r'"
    using u by auto
  show ?thesis unfolding ledger_ok_def using d u' c by blast
qed

lemma ledger_ok_snoc:
  assumes ok: "ledger_ok rows" and new: "cr_id r \<notin> cr_id ` set rows" "cr_failed_attempts r = 0"
      "cr_revoked_at r = None" "cr_revoked_reason r = None"
    and key: "\<forall>x \<in> set rows. \<not> (code_key_of x = code_key_of r \<and> is_open x)"
  shows "ledger_ok (rows @ [r])"
proof -
  have "distinct (map cr_id (rows @ [r]))" using ok new(1) by (simp add: ledger_ok_def)
  moreover have "x = y" if xy: "x \<in> set (rows @ [r])" "y \<in> set (rows @ [r])" "is_open x" "is_open y" "code_key_of x = code_key_of y" for x y
  proof (cases "x = r \<or> y = r")
    case True
    then show ?thesis using xy key by auto
  next
    case False
    then have "x \<in> set rows" "y \<in> set rows" using xy(1,2) by auto
    then show ?thesis using ok xy(3-5) unfolding ledger_ok_def by metis
  qed
  moreover have "\<forall>x \<in> set (rows @ [r]). 0 \<le> cr_failed_attempts x \<and> cr_failed_attempts x \<le> MAX_WRONG_TRIES \<and>
        (cr_failed_attempts x = MAX_WRONG_TRIES \<longrightarrow> cr_revoked_reason x = Some Code_locked) \<and>
        (cr_revoked_at x = None \<longleftrightarrow> cr_revoked_reason x = None)"
    using ok new unfolding ledger_ok_def by (simp add: MAX_WRONG_TRIES_def)
  ultimately show ?thesis unfolding ledger_ok_def by blast
qed

text \<open>Every operation maps the rows by \<open>row_step\<close> and may append one fresh row.\<close>

definition ledger_move :: "code_row list \<Rightarrow> code_row list \<Rightarrow> bool" where
  "ledger_move rows rows' \<longleftrightarrow>
     (\<exists>f new. rows' = map f rows @ new \<and> (\<forall>r \<in> set rows. row_step r (f r)) \<and>
        (new \<noteq> [] \<longrightarrow> (\<exists>r. new = [r] \<and> cr_id r \<notin> cr_id ` set (map f rows) \<and> cr_failed_attempts r = 0 \<and>
           cr_revoked_at r = None \<and> cr_revoked_reason r = None \<and>
           (\<forall>x \<in> set (map f rows). \<not> (code_key_of x = code_key_of r \<and> is_open x)))))"

lemma ledger_move_mapped:
  assumes "ledger_move rows rows'"
  obtains f new where "rows' = map f rows @ new" "\<forall>r \<in> set rows. row_step r (f r)"
  using assms unfolding ledger_move_def by (elim exE conjE) (rule that)

lemma ledger_move_map: "(\<And>r. r \<in> set rows \<Longrightarrow> row_step r (f r)) \<Longrightarrow> ledger_move rows (map f rows)"
  unfolding ledger_move_def by (intro exI [of _ f] exI [of _ "[]"]) simp

lemma ledger_move_refl: "ledger_move rows rows"
  using ledger_move_map [of rows id] by (simp add: row_step_refl)

lemma ledger_move_snoc:
  assumes "\<And>r. r \<in> set rows \<Longrightarrow> row_step r (f r)" "cr_id r \<notin> cr_id ` set (map f rows)" "cr_failed_attempts r = 0"
    "cr_revoked_at r = None" "cr_revoked_reason r = None" "\<forall>x \<in> set (map f rows). \<not> (code_key_of x = code_key_of r \<and> is_open x)"
  shows "ledger_move rows (map f rows @ [r])"
  unfolding ledger_move_def by (intro exI [of _ f] exI [of _ "[r]"]) (use assms in blast)

lemma code_step_move: "ledger_move (cd_codes db) (cd_codes (snd (code_step op db)))"
proof (cases op)
  case (Op_view now v n)
  show ?thesis
  proof (cases n)
    case None then show ?thesis using Op_view by (simp add: record_view_def ledger_move_refl)
  next
    case (Some k)
    let ?f = "revoke_reissued now v"
    let ?r = "new_code_row now v k"
    show ?thesis
    proof (cases "(\<exists>r \<in> set (map ?f (cd_codes db)). cr_id r = nc_id k) \<or>
        (\<exists>r \<in> set (map ?f (cd_codes db)). code_key_of r = (vr_tenant_id v, vr_approval_id v, vr_user_id v) \<and> is_open r)")
      case True
      then have "cd_codes (snd (code_step op db)) = cd_codes db"
        using Op_view Some by (auto simp: record_view_def Let_def)
      then show ?thesis by (simp add: ledger_move_refl)
    next
      case False
      then have "cd_codes (snd (code_step op db)) = map ?f (cd_codes db) @ [?r]"
        using Op_view Some by (auto simp: record_view_def Let_def)
      moreover have "ledger_move (cd_codes db) (map ?f (cd_codes db) @ [?r])"
        by (rule ledger_move_snoc) (use False row_step_revoke in \<open>auto simp: new_code_row_def code_key_of_def\<close>)
      ultimately show ?thesis by simp
    qed
  qed
next
  case (Op_wrong now user)
  have "cd_codes (snd (code_step op db)) =
      map (\<lambda>r. if cr_user_id r = user \<and> is_open r \<and> now < cr_expires_at r then wrong_try now r else r) (cd_codes db)"
    by (simp add: Op_wrong record_wrong_try_def Let_def)
  moreover have "ledger_move (cd_codes db)
      (map (\<lambda>r. if cr_user_id r = user \<and> is_open r \<and> now < cr_expires_at r then wrong_try now r else r) (cd_codes db))"
    by (rule ledger_move_map) (simp add: row_step_refl row_step_wrong)
  ultimately show ?thesis by simp
next
  case (Op_consume now c code_id user)
  have "cd_codes (snd (code_step op db)) =
      map (\<lambda>r. if consumable now c code_id user r then r\<lparr>cr_used_at := Some now\<rparr> else r) (cd_codes db)"
    by (simp add: Op_consume consume_def)
  moreover have "ledger_move (cd_codes db)
      (map (\<lambda>r. if consumable now c code_id user r then r\<lparr>cr_used_at := Some now\<rparr> else r) (cd_codes db))"
    by (rule ledger_move_map) (simp add: row_step_refl row_step_used consumable_def)
  ultimately show ?thesis by simp
qed

lemma ledger_move_ok:
  assumes "ledger_move rows rows'" "ledger_ok rows"
  shows "ledger_ok rows'"
proof -
  obtain f new where f: "rows' = map f rows @ new" "\<forall>r \<in> set rows. row_step r (f r)"
    and new: "new \<noteq> [] \<longrightarrow> (\<exists>r. new = [r] \<and> cr_id r \<notin> cr_id ` set (map f rows) \<and> cr_failed_attempts r = 0 \<and>
           cr_revoked_at r = None \<and> cr_revoked_reason r = None \<and>
           (\<forall>x \<in> set (map f rows). \<not> (code_key_of x = code_key_of r \<and> is_open x)))"
    using assms(1) unfolding ledger_move_def by blast
  have ok: "ledger_ok (map f rows)" by (rule ledger_ok_map [OF assms(2)]) (use f(2) in blast)
  show ?thesis
  proof (cases "new = []")
    case True then show ?thesis using ok f(1) by simp
  next
    case False then show ?thesis using ledger_ok_snoc [OF ok] f(1) new by blast
  qed
qed

lemma code_step_ok: "ledger_ok (cd_codes db) \<Longrightarrow> ledger_ok (cd_codes (snd (code_step op db)))"
  using ledger_move_ok code_step_move by blast

text \<open>A row that is not open any more stays as it is, and its code is never consumed again.\<close>

lemma code_step_closed:
  assumes "r \<in> set (cd_codes db)" "\<not> is_open r"
  shows "r \<in> set (cd_codes (snd (code_step op db)))"
proof -
  obtain f new where f: "cd_codes (snd (code_step op db)) = map f (cd_codes db) @ new" "\<forall>x \<in> set (cd_codes db). row_step x (f x)"
    using code_step_move [of db op] by (rule ledger_move_mapped)
  have "row_step r (f r)" using f(2) assms(1) by blast
  then have "f r = r" using assms(2) unfolding row_step_def by blast
  moreover have "f r \<in> set (map f (cd_codes db))" using assms(1) by simp
  ultimately show ?thesis unfolding f(1) by simp
qed

lemma consumed_row:
  assumes "fst (code_step op db) = Some i"
  obtains r r' where "r \<in> set (cd_codes db)" "cr_id r = i" "is_open r"
    "r' \<in> set (cd_codes (snd (code_step op db)))" "cr_id r' = i" "\<not> is_open r'"
proof -
  obtain now c user where op: "op = Op_consume now c i user" and hit: "fst (consume db now c i user)"
    using assms by (cases op) (auto split: if_splits)
  then have "filter (consumable now c i user) (cd_codes db) \<noteq> []" by (auto simp: consume_def)
  then obtain r where r: "r \<in> set (cd_codes db)" "consumable now c i user r" by (metis filter_empty_conv)
  have "r\<lparr>cr_used_at := Some now\<rparr> \<in> set (cd_codes (snd (code_step op db)))"
    using r by (force simp: op consume_def)
  with r show ?thesis by (intro that [of r "r\<lparr>cr_used_at := Some now\<rparr>"]) (auto simp: consumable_def is_open_def)
qed

lemma code_run_closed:
  assumes "ledger_ok (cd_codes db)" "r \<in> set (cd_codes db)" "\<not> is_open r"
  shows "cr_id r \<notin> set (fst (code_run ops db))"
  using assms
proof (induction ops arbitrary: db)
  case (Cons op ops)
  obtain u db1 where st: "code_step op db = (u, db1)" by fastforce
  have "cr_id r \<notin> set (fst (code_run ops db1))"
    using Cons.IH [of db1] code_step_ok [OF Cons.prems(1), of op] code_step_closed [OF Cons.prems(2,3), of op] Cons.prems(3) st by simp
  moreover have "u \<noteq> Some (cr_id r)"
  proof
    assume "u = Some (cr_id r)"
    then have "fst (code_step op db) = Some (cr_id r)" using st by simp
    then obtain x where x: "x \<in> set (cd_codes db)" "cr_id x = cr_id r" "is_open x" by (rule consumed_row)
    then have "x = r" using Cons.prems(1,2) unfolding ledger_ok_def distinct_map inj_on_def by blast
    then show False using x(3) Cons.prems(3) by simp
  qed
  ultimately show ?case by (cases u) (auto simp: st split: prod.splits)
qed simp

lemma code_run_once:
  assumes "ledger_ok (cd_codes db)"
  shows "distinct (fst (code_run ops db)) \<and> ledger_ok (cd_codes (snd (code_run ops db)))"
  using assms
proof (induction ops arbitrary: db)
  case (Cons op ops)
  obtain u db1 where st: "code_step op db = (u, db1)" by fastforce
  have ok: "ledger_ok (cd_codes db1)" using code_step_ok [OF Cons.prems, of op] st by simp
  have "i \<notin> set (fst (code_run ops db1))" if "u = Some i" for i
  proof -
    have "fst (code_step op db) = Some i" using st that by simp
    then obtain r' where "r' \<in> set (cd_codes (snd (code_step op db)))" "cr_id r' = i" "\<not> is_open r'" by (rule consumed_row)
    then show ?thesis using code_run_closed [OF ok, of r' ops] st by simp
  qed
  then show ?case using Cons.IH [OF ok] by (cases u) (auto simp: st split: prod.splits)
qed simp

text \<open>Wrong tries, one row at a time.\<close>

definition tried :: "uuid \<Rightarrow> code_row \<Rightarrow> instant \<Rightarrow> code_row" where
  "tried user r now = (if cr_user_id r = user \<and> is_open r \<and> now < cr_expires_at r then wrong_try now r else r)"

definition wrong_tries :: "uuid \<Rightarrow> instant list \<Rightarrow> code_db \<Rightarrow> code_db" where
  "wrong_tries user moments db = foldl (\<lambda>d t. snd (record_wrong_try d t user)) db moments"

lemma wrong_tries_rows: "cd_codes (wrong_tries user moments db) = map (\<lambda>r. foldl (tried user) r moments) (cd_codes db)"
proof (induction moments arbitrary: db)
  case (Cons t ts)
  have "cd_codes (snd (record_wrong_try db t user)) = map (\<lambda>r. tried user r t) (cd_codes db)"
    by (simp add: record_wrong_try_def tried_def Let_def)
  with Cons [of "snd (record_wrong_try db t user)"] show ?case by (simp add: wrong_tries_def)
qed (simp add: wrong_tries_def)

lemma tried_closed: "\<not> is_open r \<Longrightarrow> foldl (tried user) r moments = r"
  by (induction moments) (simp_all add: tried_def)

lemma tried_locks:
  assumes "cr_user_id r = user" "is_open r" "\<forall>t \<in> set moments. t < cr_expires_at r"
    and "0 \<le> cr_failed_attempts r" "cr_failed_attempts r < MAX_WRONG_TRIES"
    and "MAX_WRONG_TRIES \<le> cr_failed_attempts r + int (length moments)"
  shows "\<not> is_open (foldl (tried user) r moments) \<and> cr_revoked_reason (foldl (tried user) r moments) = Some Code_locked"
  using assms
proof (induction moments arbitrary: r)
  case (Cons t ts)
  have step: "tried user r t = wrong_try t r" using Cons.prems by (simp add: tried_def)
  show ?case
  proof (cases "MAX_WRONG_TRIES \<le> cr_failed_attempts r + 1")
    case True
    then have "\<not> is_open (wrong_try t r)" "cr_revoked_reason (wrong_try t r) = Some Code_locked"
      by (simp_all add: wrong_try_def is_open_def)
    then show ?thesis using tried_closed by (simp add: step)
  next
    case False
    then have "is_open (wrong_try t r)" "cr_user_id (wrong_try t r) = user" "cr_expires_at (wrong_try t r) = cr_expires_at r"
      "cr_failed_attempts (wrong_try t r) = cr_failed_attempts r + 1"
      using Cons.prems by (simp_all add: wrong_try_def is_open_def)
    then show ?thesis using Cons.IH [of "wrong_try t r"] Cons.prems False by (simp add: step)
  qed
qed simp

subsection \<open>What a decision in a chat rests on\<close>

lemma codes_of_mem: "r \<in> set (codes_of db now user) \<Longrightarrow> r \<in> set (cd_codes db) \<and> cr_user_id r = user"
  by (simp add: codes_of_def)

lemma state_of_open:
  "state_of now r = Code_open \<longleftrightarrow>
     cr_used_at r = None \<and> cr_revoked_reason r \<noteq> Some Code_locked \<and> cr_revoked_reason r \<noteq> Some Code_reissued \<and>
     now < cr_expires_at r"
  by (auto simp: state_of_def)

lemma state_refusal_None: "state_refusal s = None \<longleftrightarrow> s = Code_open"
  by (cases s) simp_all




lemma admit_Inr:
  assumes "admit now a db r c = Inr (d, db')"
  shows "ar_version r = ad_approval_version a" "fst (consume (pd_codes db) now c (ad_code_id a) (ad_user_id a))"
    "db' = db\<lparr>pd_codes := snd (consume (pd_codes db) now c (ad_code_id a) (ad_user_id a))\<rparr>"
  using assms by (auto simp: admit_def split: if_splits prod.splits bool.splits)


text \<open>A refusal never decides: it only appends its audit event.\<close>

lemma refuse_eq:
  "refuse env now db why code m reply = (Inr (refused_outcome why reply), audit_append db (refusal_event env now why code m))"
proof -
  have "\<not> sblank REFUSED_ACTION" by (simp add: blank_simps REFUSED_ACTION_def)
  then show ?thesis by (simp add: refuse_def make_audit_event_def refusal_event_def)
qed

lemma refused_not_decided [simp]: "\<not> co_decided (refused_outcome why reply)"
  by (simp add: refused_outcome_def)



subsection \<open>Properties\<close>

definition empty_ledger :: code_db where
  "empty_ledger = \<lparr>cd_receipts = [], cd_codes = []\<rparr>"

text \<open>
  C14: A code decides at most once. Starting from an empty ledger, whatever views are recorded,
  wrong digits typed and codes consumed, by anyone and in any order, no code is consumed twice;
  at every point each person has at most one open code per approval, every wrong-try count is
  between 0 and 5, and a code that reached 5 is locked.
\<close>

theorem code_consumed_at_most_once:
  "distinct (fst (code_run ops empty_ledger)) \<and> ledger_ok (cd_codes (snd (code_run ops empty_ledger)))"
  by (rule code_run_once) (simp add: empty_ledger_def ledger_ok_def)

text \<open>
  Guessing is bounded. Five wrong tries of a person, all before a code of theirs expires, lock
  that code, however many tries it had against it before: it is no longer open and its state is
  \<^verbatim>\<open>locked\<close>, so no further digits can name it.
\<close>

theorem five_wrong_tries_lock:
  assumes "ledger_ok (cd_codes db)" "r \<in> set (cd_codes db)" "cr_user_id r = user" "is_open r"
    and "length moments = 5" "\<forall>t \<in> set moments. t < cr_expires_at r"
  shows "\<exists>r' \<in> set (cd_codes (wrong_tries user moments db)). cr_id r' = cr_id r \<and> \<not> is_open r' \<and>
           (\<forall>now. state_of now r' = Code_locked)"
proof -
  have range: "0 \<le> cr_failed_attempts r" "cr_failed_attempts r \<le> MAX_WRONG_TRIES"
    "cr_failed_attempts r = MAX_WRONG_TRIES \<longrightarrow> cr_revoked_reason r = Some Code_locked"
    "cr_revoked_at r = None \<longleftrightarrow> cr_revoked_reason r = None"
    using assms(1,2) unfolding ledger_ok_def by blast+
  have "cr_failed_attempts r < MAX_WRONG_TRIES" using range assms(4) by (auto simp: is_open_def)
  from tried_locks [OF assms(3,4,6) range(1) this]
  have lock: "\<not> is_open (foldl (tried user) r moments)" "cr_revoked_reason (foldl (tried user) r moments) = Some Code_locked"
    using range(1) assms(5) by (simp_all add: MAX_WRONG_TRIES_def)
  have keep: "cr_id (foldl (tried user) x ts) = cr_id x \<and> cr_used_at (foldl (tried user) x ts) = cr_used_at x" for x ts
    by (induction ts arbitrary: x) (simp_all add: tried_def wrong_try_def Let_def)
  have "foldl (tried user) r moments \<in> set (cd_codes (wrong_tries user moments db))"
    using assms(2) unfolding wrong_tries_rows by simp
  moreover have "cr_used_at r = None" using assms(4) by (simp add: is_open_def)
  ultimately show ?thesis
    using lock keep [of r moments] by (intro bexI [of _ "foldl (tried user) r moments"]) (simp_all add: state_of_def)
qed


text \<open>
  A message that names none of the sender's codes reveals and decides nothing: the answer is
  the same sentence whatever was wrong (a typo, a guess, another person's code), no request,
  decision, audit event or outbox event changes, and only the sender's own open codes are
  touched, each by one wrong try.
\<close>

theorem wrong_digits_change_nothing_else:
  assumes "ce_key env = Some key"
    and "\<forall>r \<in> set (cd_codes (pd_codes db)). cr_user_id r = user \<longrightarrow> cr_code_hash r \<noteq> key (cr_approval_id r) user digits"
  shows "\<exists>db'. channel_decide env access drift runner runs now t1 t2 db user m approve digits reason =
             (Inr (refused_outcome WRONG_CODE None), db', None) \<and>
           pd_approvals db' = pd_approvals db \<and> pd_decisions db' = pd_decisions db \<and> pd_outbox db' = pd_outbox db \<and>
           pd_audit db' = pd_audit db \<and>
           cd_codes (pd_codes db') = map (\<lambda>r. tried user r t1) (cd_codes (pd_codes db))"
proof -
  have "filter (\<lambda>r. code_matches key (cr_code_hash r) (cr_approval_id r) user digits) (codes_of (pd_codes db) t1 user) = []"
    using assms(2) codes_of_mem unfolding filter_empty_conv code_matches_def by blast
  then have "name_code key t1 user digits (codes_of (pd_codes db) t1 user) = No_match"
    by (simp add: name_code_def Let_def)
  then show ?thesis
    using assms(1) by (auto simp: channel_decide_def record_wrong_try_def tried_def Let_def)
qed

text \<open>
  After the commit the service can no longer tell a refusal from a failure to resume: when the
  runner refuses the resumed run with a conflict, the decision is already written, but the
  sender is told, and the audit log records, that the decision was refused.
\<close>

theorem committed_decision_reported_refused:
  assumes "channel_commit env drift runner runs now t2 db user m approve code coded c current comment = (Inr out, db', Some k)"
    and "runner k = Some (DW (ConflictError why))"
  shows "\<not> co_decided out \<and>
         (\<exists>d. pd_decisions db' = pd_decisions (drift db) @ [d] \<and> ad_request_id d = ar_id (ca_request coded) \<and>
              ad_decided_by d = ac_principal_id c \<and> ad_outcome d = outcome_of approve) \<and>
         (\<exists>ev. ev \<in> set (pd_audit db') \<and> ae_action ev = REFUSED_ACTION)"
proof -
  let ?a = "admission_of env user m code coded current"
  obtain res db2 cl where d: "decide (ce_cfg env) (ce_new_uuid env) now runner runs (drift db) (ar_id (ca_request coded)) approve comment c
      None (cm_channel m) (Some (admit t2 ?a)) = (res, db2, cl)" by (metis prod_cases3)
  have cl: "cl = Some k"
    using assms(1) unfolding channel_commit_def d prod.case Let_def refuse_eq
    by (auto split: sum.splits exc.splits dw_error.splits option.splits if_splits)
  show ?thesis using d
  proof (cases rule: decide_cases)
    case (committed r rec a db1 r')
    have res: "res = Inl (DW (ConflictError why))"
      using committed(4) assms(2) cl unfolding resume_of_def by (auto simp: Let_def split: option.splits if_splits)
    obtain dt where ad: "admit t2 ?a (drift db) r c = Inr (dt, db1)"
      using committed(2) by (auto simp: admitted_by_def split: sum.splits)
    obtain dd ev oe where w: "dd = decision_of r (ce_new_uuid env 0) (ac_principal_id c) (outcome_of approve) now comment (cm_channel m)"
      and db2: "db2 = db1\<lparr>pd_approvals := saved_rows (ac_tenant_id c) r' (pd_approvals db1), pd_decisions := pd_decisions db1 @ [dd],
        pd_outbox := pd_outbox db1 @ (if ar_run_id r = None then [oe] else []), pd_audit := pd_audit db1 @ [ev]\<rparr>"
      using committed(3) by (rule decide_writes_Inr)
    have decs: "pd_decisions db2 = pd_decisions (drift db) @ [dd]" unfolding db2 admit_Inr(3) [OF ad] by simp
    obtain why2 reply where out: "out = refused_outcome why2 reply" "db' = audit_append db2 (refusal_event env now why2 code m)"
      using assms(1) unfolding channel_commit_def d prod.case Let_def refuse_eq res
      by (auto split: option.splits if_splits)
    have "pd_decisions db' = pd_decisions (drift db) @ [dd]" using decs by (simp add: out(2) audit_append_def)
    moreover have "refusal_event env now why2 code m \<in> set (pd_audit db')" by (simp add: out(2) audit_append_def)
    ultimately show ?thesis
      using decide_reads_Inr(3) [OF committed(1)] by (auto simp: out(1) w refusal_event_def)
  qed (use cl in simp)
qed

subsection \<open>A decision in a chat, concretely\<close>

definition sample_key :: code_key where
  "sample_key approval user digits = approval + user + sum_list digits"

definition sample_digits :: ustr where
  "sample_digits = [48, 48, 52, 55, 49, 49]"

definition sample_code :: code_row where
  "sample_code =
     \<lparr>cr_id = 60, cr_tenant_id = 1, cr_workspace_id = 2, cr_approval_id = 40, cr_user_id = 11, cr_receipt_id = 61,
      cr_code_hash = sample_key 40 11 sample_digits, cr_comment = ulit ''ok'', cr_failed_attempts = 3,
      cr_expires_at = minutes 10, cr_used_at = None, cr_revoked_at = None, cr_revoked_reason = None, cr_created_at = 0\<rparr>"

definition sample_ledger :: code_db where
  "sample_ledger =
     \<lparr>cd_receipts = [\<lparr>vr_id = 61, vr_tenant_id = 1, vr_workspace_id = 2, vr_approval_id = 40, vr_user_id = 11,
                      vr_approval_version = 1, vr_subject_version = Some ''v3''\<rparr>],
      cd_codes = [sample_code]\<rparr>"

definition sample_chat_db :: "uuid option \<Rightarrow> code_db platform_db" where
  "sample_chat_db run_id =
     \<lparr>pd_approvals = [(sample_approval run_id)\<lparr>ar_required_scope := None\<rparr>], pd_decisions = [], pd_outbox = [], pd_audit = [],
      pd_codes = sample_ledger\<rparr>"

definition sample_env :: code_env where
  "sample_env =
     \<lparr>ce_cfg = sample_cfg [''memory.''], ce_key = Some sample_key, ce_subjects = [(''memory.'', \<lambda>_ _. Some ''v3'')],
      ce_linked_chat = (\<lambda>_. Some ''chat''), ce_new_uuid = (\<lambda>i. 100 + i), ce_chat_reference = (\<lambda>a b. a @ b)\<rparr>"

definition sample_message :: chat_message where
  "sample_message = \<lparr>cm_channel = ''zalo'', cm_message_id = ''m1'', cm_chat_id = ''c1''\<rparr>"


definition sample_consumed :: "uuid option \<Rightarrow> code_db platform_db" where
  "sample_consumed run_id = (sample_chat_db run_id)\<lparr>pd_codes := sample_ledger\<lparr>cd_codes := [sample_code\<lparr>cr_used_at := Some 7\<rparr>]\<rparr>\<rparr>"

abbreviation sample_chat_request :: "uuid option \<Rightarrow> approval_request" where
  "sample_chat_request run_id \<equiv> (sample_approval run_id)\<lparr>ar_required_scope := None\<rparr>"

abbreviation sample_coded_approval :: "uuid option \<Rightarrow> coded_approval" where
  "sample_coded_approval run_id \<equiv>
     \<lparr>ca_request = sample_chat_request run_id, ca_receipt_approval_version = 1,
     ca_receipt_subject_version = Some ''v3'', ca_last_decision = None\<rparr>"


lemma sample_chat_access:
  "\<exists>c. access_for sample_identity 11 1 2 {''approvals.decide''} = Inr (Some c) \<and> ''approvals.decide'' \<in> ac_scopes c"
proof -
  have eff: "''approvals.decide'' \<in> effective_scopes sample_identity {''platform_admin'', ''manager''} {}"
    by (simp add: effective_scopes_def sample_identity_def)
  have f: "id_members sample_identity = [(sample_member 11 None)\<lparr>mr_role_keys := [''platform_admin'', ''manager'']\<rparr>, sample_member 12 (Some 11)]"
    "id_tenants sample_identity = [\<lparr>tr_id = 1, tr_status = ''active'', tr_record_visibility = ''restricted'',
                     tr_max_autonomy_level = FAIL_CLOSED_LEVEL\<rparr>]" 
    "entitlement_of sample_identity 1 = Some (\<lparr>er_tenant_id = 1, er_plan_id = ''pro'', er_feature_overrides = []\<rparr>, [''knowledge_search''])"
    by (simp_all add: sample_identity_def entitlement_of_def)
  have "\<not> sblank ''pro''" "\<not> sblank ''internal''" by (simp_all add: blank_simps)
  then show ?thesis using eff
    by (simp add: access_for_def find_linked_access_def access_in_def membership_of_def f sample_member_def
        in_scope_def context_from_def access_context_check_def Let_def del: One_nat_def)
qed




lemma sample_admit:
  assumes "ac_tenant_id c = 1" "ac_workspace_id c = 2"
  shows "\<exists>dt. admit 7 (admission_of sample_env 11 sample_message sample_code (sample_coded_approval run_id) ''v3'')
      (sample_chat_db run_id) (sample_chat_request run_id) c = Inr (dt, sample_consumed run_id)"
  using assms
  by (simp add: admit_def admission_of_def consume_def consumable_def is_open_def sample_chat_db_def sample_ledger_def
     sample_code_def sample_approval_def sample_consumed_def)

lemma sample_chat_reads:
  assumes "access_for sample_identity 11 1 2 {''approvals.decide''} = Inr (Some c)" "''approvals.decide'' \<in> ac_scopes c"
    and "run_id = None \<or> run_id = Some 50"
  shows "decide_reads (ce_cfg sample_env) sample_runs (sample_chat_db run_id) 40 True [111, 107] c =
     Inr (sample_chat_request run_id, map_option (\<lambda>_. sample_waiting_run) run_id)"
proof -
  note scope = sql_linked.access_scope [OF assms(1)] and allowed = sql_linked.linked_is_allowed [OF assms(1)]
  have cfg: "ce_cfg sample_env = sample_cfg [''memory.'']" by (simp add: sample_env_def)
  have get: "approvals_get (sample_chat_db run_id) (ac_tenant_id c) 40 (ac_workspace_id c)
      (audience_of c (cfg_admin_role (sample_cfg [''memory.'']))) = Some (sample_chat_request run_id)"
    using scope assms(2)
    by (simp add: approvals_get_def sample_approval_def sample_chat_db_def visible_to_eq_may_see may_see_def audience_of_def may_decide_def
        allowed holds_stamped_scope_def has_scope_def APPROVALS_DECIDE_def)
  have may: "may_proceed (sample_cfg [''memory.'']) c True [111, 107] (sample_chat_request run_id) = Inr ()"
    using sample_comment scope assms(2)
    by (simp add: may_proceed_def require_scope_def allowed holds_stamped_scope_def has_scope_def
        enforce_strict_rules_def APPROVALS_DECIDE_def sample_approval_def sample_cfg_def)
  have run: "resumable_run (sample_cfg [''memory.'']) sample_runs c (sample_chat_request run_id) =
      Inr (map_option (\<lambda>_. sample_waiting_run) run_id)"
    using assms(3) scope by (auto simp: resumable_run_def run_get_def run_context_for_def sample_defs)
  show ?thesis unfolding cfg by (simp add: decide_reads_def get may run)
qed

lemma sample_chat_writes:
  assumes "ac_tenant_id c = 1" "ac_principal_id c = 11"
  shows "\<exists>db'. decide_writes (ce_new_uuid sample_env) 5 (sample_consumed run_id) c True [111, 107] (cm_channel sample_message)
           (sample_chat_request run_id) (Some dt) = Inr (decided_request (sample_chat_request run_id) (outcome_of True) 5, db')"
proof -
  let ?r' = "decided_request (sample_chat_request run_id) (outcome_of True) 5"
  let ?d = "decision_of (sample_chat_request run_id) (ce_new_uuid sample_env 0) (ac_principal_id c) (outcome_of True) 5 [111, 107] (cm_channel sample_message)"
  obtain oe where oe: "decided_event (ce_new_uuid sample_env 1) ?r' ?d = Inr oe" using decided_event_ok by blast
  obtain ev where ev: "audit_of (Some dt) (ce_new_uuid sample_env 2) ?r' ?d = Inr ev" using audit_of_ok by blast
  have "save_finds_one (sample_consumed run_id) (ac_tenant_id c) ?r'"
    using assms by (simp add: save_finds_one_def sample_consumed_def sample_chat_db_def sample_approval_def save_hits_def decided_request_def)
  moreover have "ar_status (sample_approval run_id) = Approval_pending" by (simp add: sample_approval_def)
  ultimately show ?thesis using decide_writes_eq [OF refl refl ev oe, where db = "sample_consumed run_id"] by simp
qed


theorem five_wrong_tries_lock_witness:
  "\<exists>r' \<in> set (cd_codes (wrong_tries 11 [1, 2, 3, 4, 5] sample_ledger)). cr_id r' = 60 \<and> \<not> is_open r'"
proof -
  have "ledger_ok (cd_codes sample_ledger)"
    by (simp add: ledger_ok_def sample_ledger_def sample_code_def MAX_WRONG_TRIES_def is_open_def)
  from five_wrong_tries_lock [OF this, of sample_code 11 "[1, 2, 3, 4, 5]"] show ?thesis
    by (auto simp: sample_ledger_def sample_code_def is_open_def)
qed


theorem wrong_digits_change_nothing_else_witness:
  "\<exists>db'. channel_decide sample_env (access_for sample_identity) id (\<lambda>_. None) sample_runs 5 6 7 (sample_chat_db None) 11
       sample_message True [49, 50, 51] [] = (Inr (refused_outcome WRONG_CODE None), db', None) \<and> pd_decisions db' = []"
proof -
  have key: "ce_key sample_env = Some sample_key" by (simp add: sample_env_def)
  have "\<forall>r \<in> set (cd_codes (pd_codes (sample_chat_db None))). cr_user_id r = 11 \<longrightarrow>
      cr_code_hash r \<noteq> sample_key (cr_approval_id r) 11 [49, 50, 51]"
    by (simp add: sample_chat_db_def sample_ledger_def sample_code_def sample_key_def sample_digits_def)
  from wrong_digits_change_nothing_else [OF key this, of "access_for sample_identity" id "\<lambda>_. None" sample_runs 5 6 7 sample_message True "[]"]
  show ?thesis by (auto simp: sample_chat_db_def)
qed

lemma sample_commit_resume_fails:
  assumes c: "access_for sample_identity 11 1 2 {''approvals.decide''} = Inr (Some c)" "''approvals.decide'' \<in> ac_scopes c"
  shows "\<exists>out db' k. channel_commit sample_env id (\<lambda>_. Some (DW (ConflictError ''run is not waiting''))) sample_runs 5 7
     (sample_chat_db (Some 50)) 11 sample_message True sample_code (sample_coded_approval (Some 50)) c ''v3'' [111, 107] =
     (Inr out, db', Some k)"
proof -
  note scope = sql_linked.access_scope [OF c(1)]
  obtain dt where ad: "admit 7 (admission_of sample_env 11 sample_message sample_code (sample_coded_approval (Some 50)) ''v3'')
      (sample_chat_db (Some 50)) (sample_chat_request (Some 50)) c = Inr (dt, sample_consumed (Some 50))"
    using sample_admit scope by blast
  obtain db' where w: "decide_writes (ce_new_uuid sample_env) 5 (sample_consumed (Some 50)) c True [111, 107] (cm_channel sample_message)
           (sample_chat_request (Some 50)) (Some dt) = Inr (decided_request (sample_chat_request (Some 50)) (outcome_of True) 5, db')"
    using sample_chat_writes scope by blast
  have k: "ar_id (sample_approval (Some 50)) = 40" "ar_run_id (sample_approval (Some 50)) = Some 50"
    by (simp_all add: sample_approval_def)
  have v: "rr_worker_version sample_waiting_run = ''1.0.0''" by (simp add: sample_waiting_run_def new_run_row_def)
  show ?thesis
    using sample_chat_reads [OF c, of "Some 50"] sample_semver
    by (simp add: k v channel_commit_def decide_def ad w resume_of_def Let_def refuse_eq split: option.split)
qed

theorem committed_decision_reported_refused_witness:
  "\<exists>c out db' k d. channel_commit sample_env id (\<lambda>_. Some (DW (ConflictError ''run is not waiting''))) sample_runs 5 7
     (sample_chat_db (Some 50)) 11 sample_message True sample_code (sample_coded_approval (Some 50)) c ''v3'' [111, 107] =
     (Inr out, db', Some k) \<and> \<not> co_decided out \<and> pd_decisions db' = [d]"
proof -
  obtain c out db' k where s: "channel_commit sample_env id (\<lambda>_. Some (DW (ConflictError ''run is not waiting''))) sample_runs 5 7
     (sample_chat_db (Some 50)) 11 sample_message True sample_code (sample_coded_approval (Some 50)) c ''v3'' [111, 107] =
     (Inr out, db', Some k)" using sample_chat_access sample_commit_resume_fails by blast
  from committed_decision_reported_refused [OF s] have "\<not> co_decided out" "\<exists>d. pd_decisions db' = [d]"
    by (auto simp: sample_chat_db_def)
  with s show ?thesis by blast
qed

end
