(* ===== verification/Redaction.thy ===== *)
theory Redaction
  imports Events
begin

text \<open>
  The redaction of \<^verbatim>\<open>dw_observability/redaction.py\<close>, applied to every payload before it reaches the
  audit log. The two regular expressions are the predicates \<open>is_sensitive_key\<close> and
  \<open>bearer_length\<close>; \<open>is_word\<close> is the character class \<^verbatim>\<open>\w\<close> of Python's \<^verbatim>\<open>re\<close> module
  (a Unicode table) and is a parameter. A Python string that redaction rewrites is a text of code points.
\<close>

definition REDACTED :: string where
  "REDACTED = ''[REDACTED]''"

subsection \<open>Sensitive keys\<close>

text \<open>The alternatives of \<^verbatim>\<open>_SENSITIVE_KEY_PATTERN\<close>, with \<^verbatim>\<open>[_-]?\<close> written out.\<close>

definition sensitive_words :: "string list" where
  "sensitive_words =
     [''password'', ''passwd'', ''secret'', ''token'', ''api_key'', ''api-key'', ''apikey'', ''authorization'',
      ''credential'', ''private_key'', ''private-key'', ''privatekey'', ''client_secret'', ''client-secret'',
      ''clientsecret'', ''access_key'', ''access-key'', ''accesskey'', ''session'']"

definition lower_char :: "char \<Rightarrow> char" where
  "lower_char c = (let n = (of_char c :: nat) in if 65 \<le> n \<and> n \<le> 90 then char_of (n + 32) else c)"

text \<open>\<^verbatim>\<open>(?:$|_)\<close>: the end of the key, the newline that ends it, or an underscore.\<close>

definition key_boundary :: "string \<Rightarrow> bool" where
  "key_boundary rest \<longleftrightarrow> rest = [] \<or> rest = [CHR 0x0A] \<or> hd rest = CHR ''_''"

definition sensitive_at :: "string \<Rightarrow> nat \<Rightarrow> bool" where
  "sensitive_at key i \<longleftrightarrow>
     (i = 0 \<or> key ! (i - 1) = CHR ''_'') \<and>
     list_ex (\<lambda>w. startswith (map lower_char (drop i key)) w \<and> key_boundary (drop (i + length w) key)) sensitive_words"

definition is_sensitive_key :: "string \<Rightarrow> bool" where
  "is_sensitive_key key \<longleftrightarrow> list_ex (sensitive_at key) [0..<length key]"

subsection \<open>Bearer tokens in free text\<close>

definition ascii_lower :: "nat \<Rightarrow> nat" where
  "ascii_lower c = (if 65 \<le> c \<and> c \<le> 90 then c + 32 else c)"

text \<open>
  \<^verbatim>\<open>[A-Za-z0-9._~+/=-]\<close> under \<^verbatim>\<open>IGNORECASE\<close>: the letter ranges also match the four
  code points that fold onto ASCII letters.
\<close>

definition token_char :: "nat \<Rightarrow> bool" where
  "token_char c \<longleftrightarrow>
     (65 \<le> c \<and> c \<le> 90) \<or> (97 \<le> c \<and> c \<le> 122) \<or> (48 \<le> c \<and> c \<le> 57) \<or>
     c \<in> {46, 95, 126, 43, 47, 61, 45} \<or> c \<in> {304, 305, 383, 8490}"

text \<open>
  How many code points the pattern matches at the start of \<open>s\<close>, 0 for no match; \<open>prev\<close> says
  whether the code point before is a word character. The blanks and the token are disjoint
  classes, so the greedy match is the only one.
\<close>

definition bearer_length :: "bool \<Rightarrow> ustr \<Rightarrow> nat" where
  "bearer_length prev s =
     (let blanks = takeWhile py_isspace (drop 6 s);
          tok = takeWhile token_char (drop (6 + length blanks) s)
      in if \<not> prev \<and> map ascii_lower (take 6 s) = ulit ''bearer'' \<and> blanks \<noteq> [] \<and> 8 \<le> length tok
         then 6 + length blanks + length tok else 0)"

definition BEARER_REDACTED :: ustr where
  "BEARER_REDACTED = ulit ''Bearer '' @ ulit REDACTED"

text \<open>\<^verbatim>\<open>re.sub\<close>: after a match the scan goes on behind it, otherwise with the next code point.\<close>

function redact_from :: "(nat \<Rightarrow> bool) \<Rightarrow> bool \<Rightarrow> ustr \<Rightarrow> ustr" where
  "redact_from is_word prev [] = []"
| "redact_from is_word prev (c # cs) =
     (let n = bearer_length prev (c # cs)
      in if 0 < n then BEARER_REDACTED @ redact_from is_word (is_word ((c # cs) ! (n - 1))) (drop n (c # cs))
         else c # redact_from is_word (is_word c) cs)"
  by pat_completeness auto

termination
  by (relation "measure (\<lambda>(is_word, prev, s). length s)") auto

definition redact_text :: "(nat \<Rightarrow> bool) \<Rightarrow> ustr \<Rightarrow> ustr" where
  "redact_text is_word s = redact_from is_word False s"

subsection \<open>Mappings\<close>

text \<open>\<^verbatim>\<open>redact_mapping\<close>: mappings are entered, texts are scanned, everything else is kept.\<close>

fun redact_value :: "(nat \<Rightarrow> bool) \<Rightarrow> json \<Rightarrow> json" and redact_mapping :: "(nat \<Rightarrow> bool) \<Rightarrow> details \<Rightarrow> details" where
  "redact_value w (JObj d) = JObj (redact_mapping w d)"
| "redact_value w (JText t) = JText (redact_text w t)"
| "redact_value w (JStr s) = JText (redact_text w (ulit s))"
| "redact_value w v = v"
| "redact_mapping w [] = []"
| "redact_mapping w ((k, v) # d) =
     (k, if is_sensitive_key k then JStr REDACTED else redact_value w v) # redact_mapping w d"

subsection \<open>What redaction leaves\<close>

text \<open>
  A mapping is clean when every value under a sensitive key, at any depth of nested mappings, is
  the placeholder.
\<close>

fun clean_value :: "json \<Rightarrow> bool" and clean_mapping :: "details \<Rightarrow> bool" where
  "clean_value (JObj d) = clean_mapping d"
| "clean_value v = True"
| "clean_mapping [] = True"
| "clean_mapping ((k, v) # d) = ((if is_sensitive_key k then v = JStr REDACTED else clean_value v) \<and> clean_mapping d)"

lemma redact_clean: "clean_value (redact_value w v)" "clean_mapping (redact_mapping w d)"
  by (induction w v and w d rule: redact_value_redact_mapping.induct) auto

lemma redact_keys: "map fst (redact_mapping w d) = map fst d"
  by (induction d) (auto split: prod.splits)

text \<open>Lists are not entered: a secret in a list of mappings is kept.\<close>

lemma listed_secret_is_kept:
  "redact_mapping w [(''items'', JArr [JObj [(''password'', JText pw)]])] = [(''items'', JArr [JObj [(''password'', JText pw)]])]"
  by (simp add: is_sensitive_key_def sensitive_at_def sensitive_words_def startswith_def lower_char_def key_boundary_def
      upt_rec)

end
