(* ===== verification/Executor.thy ===== *)
theory Executor
  imports Autonomy Redaction "HOL-Library.List_Lexorder" "HOL-Library.Char_ord"
begin

text \<open>
  The pipeline every tool call goes through, \<^verbatim>\<open>ToolExecutor._execute\<close> of
  \<^verbatim>\<open>dw_agent_runtime/executor.py\<close>, on the table of \<^verbatim>\<open>adapters/tool_execution_store.py\<close>: resolve,
  validate, authorise, replay or run with bounded retries, record, audit. A tool's schemas and
  handler are the fields of its registration; the handler acts on a world \<open>'w\<close> of any type and
  returns what \<^verbatim>\<open>asyncio.wait_for\<close> would (\<open>TimeoutError\<close> when the limit passed). The content
  hash is a parameter. The telemetry span around the call has no effect on it and is left out.
\<close>

subsection \<open>The table of executions\<close>

datatype exec_status = Exec_succeeded | Exec_failed

record exec_row =
  xr_id :: uuid
  xr_tenant_id :: uuid
  xr_workspace_id :: uuid
  xr_run_id :: uuid
  xr_tool_name :: string
  xr_tool_version :: string
  xr_status :: exec_status
  xr_idempotency_key :: "string option"
  xr_input_hash :: string
  xr_output_hash :: "string option"
  xr_output :: "details option"
  xr_error :: "string option"
  xr_attempts :: int
  xr_started_at :: instant
  xr_finished_at :: instant

record 'w exec_state =
  xs_rows :: "exec_row list"
  xs_audit :: "audit_event list"
  xs_world :: 'w
  xs_sleeps :: "int list"

definition find_succeeded :: "exec_row list \<Rightarrow> run_context \<Rightarrow> string \<Rightarrow> string \<Rightarrow> exec_row option" where
  "find_succeeded rows rc tool key =
     List.find (\<lambda>r. xr_tenant_id r = rc_tenant_id rc \<and> xr_tool_name r = tool \<and>
                    xr_idempotency_key r = Some key \<and> xr_status r = Exec_succeeded) rows"

definition list_outputs_for_run :: "exec_row list \<Rightarrow> uuid \<Rightarrow> uuid \<Rightarrow> string \<Rightarrow> details list" where
  "list_outputs_for_run rows tenant run_id tool =
     List.map_filter xr_output
       (sort_by xr_started_at
          (filter (\<lambda>r. xr_tenant_id r = tenant \<and> xr_run_id r = run_id \<and> xr_tool_name r = tool \<and>
                       xr_status r = Exec_succeeded) rows))"

text \<open>
  The insert, with the primary key and the unique index \<^verbatim>\<open>uq_tool_executions_idempotency\<close> on the
  succeeded rows of a tenant, tool and key.
\<close>

definition same_success :: "exec_row \<Rightarrow> exec_row \<Rightarrow> bool" where
  "same_success r r' \<longleftrightarrow>
     xr_status r = Exec_succeeded \<and> xr_status r' = Exec_succeeded \<and> xr_idempotency_key r \<noteq> None \<and>
     xr_idempotency_key r = xr_idempotency_key r' \<and> xr_tenant_id r = xr_tenant_id r' \<and> xr_tool_name r = xr_tool_name r'"

definition record_execution :: "exec_row \<Rightarrow> exec_row list \<Rightarrow> exec_row list res" where
  "record_execution r rows =
     (if list_ex (\<lambda>x. xr_id x = xr_id r \<or> same_success x r) rows then Inl (OtherError ''IntegrityError'')
      else Inr (rows @ [r]))"

subsection \<open>The executor\<close>

record exec_env =
  xe_policy_version :: string
  xe_hash :: "details \<Rightarrow> string"
  xe_is_word :: "nat \<Rightarrow> bool"
  xe_base_backoff :: int
  xe_new_uuid :: "nat \<Rightarrow> uuid"
  xe_now :: "nat \<Rightarrow> instant"

type_synonym 'w exec_tool = "(details, 'w) registered_tool"

definition tool_audit_event ::
  "exec_env \<Rightarrow> nat \<Rightarrow> nat \<Rightarrow> run_context \<Rightarrow> string \<Rightarrow> tool_definition \<Rightarrow> string \<Rightarrow> string \<Rightarrow> details \<Rightarrow> audit_event" where
  "tool_audit_event env i t rc action d input_hash decision extra =
     \<lparr>ae_id = xe_new_uuid env i, ae_tenant_id = rc_tenant_id rc, ae_workspace_id = rc_workspace_id rc,
      ae_actor_id = rc_actor_id rc, ae_action = action, ae_resource_type = ''tool'',
      ae_resource_id = JStr (td_name d @ ''@'' @ td_version d), ae_occurred_at = xe_now env t,
      ae_run_id = Some (rc_run_id rc), ae_policy_decision = Some decision, ae_trace_id = Some (rc_trace_id rc),
      ae_details = dict_merge [(''input_hash'', JStr input_hash)] extra\<rparr>"

text \<open>\<^verbatim>\<open>_audit\<close>: one event in a unit of work of its own, under the run's own context.\<close>

definition tool_audit ::
  "exec_env \<Rightarrow> nat \<Rightarrow> nat \<Rightarrow> run_context \<Rightarrow> string \<Rightarrow> tool_definition \<Rightarrow> string \<Rightarrow> string \<Rightarrow> details \<Rightarrow>
   'w exec_state \<Rightarrow> 'w exec_state res" where
  "tool_audit env i t rc action d input_hash decision extra st =
     (case make_audit_event (tool_audit_event env i t rc action d input_hash decision extra) of
        Inl e \<Rightarrow> Inl e
      | Inr ev \<Rightarrow>
        (case access_context_check (access_context_from_run rc) of
           Inl e \<Rightarrow> Inl e
         | Inr _ \<Rightarrow> Inr (st\<lparr>xs_audit := xs_audit st @ [ev]\<rparr>)))"

text \<open>An audit call followed by a raise: the audit's own exception wins.\<close>

definition audit_then_raise :: "'w exec_state res \<Rightarrow> exc \<Rightarrow> 'w exec_state \<Rightarrow> 'a res \<times> 'w exec_state" where
  "audit_then_raise audited e st = (case audited of Inl e' \<Rightarrow> (Inl e', st) | Inr st' \<Rightarrow> (Inl e, st'))"

definition has_key :: "string option \<Rightarrow> bool" where
  "has_key key \<longleftrightarrow> key \<noteq> None \<and> key \<noteq> Some []"

fun side_effect_value :: "side_effect_level \<Rightarrow> string" where
  "side_effect_value Effect_none = ''none''"
| "side_effect_value Effect_internal = ''internal''"
| "side_effect_value Effect_external = ''external''"
| "side_effect_value Effect_critical = ''critical''"

definition autonomy_json :: "autonomy_level option \<Rightarrow> json" where
  "autonomy_json l = (case l of None \<Rightarrow> JNull | Some A0 \<Rightarrow> JStr ''A0'' | Some A1 \<Rightarrow> JStr ''A1''
     | Some A2 \<Rightarrow> JStr ''A2'' | Some A3 \<Rightarrow> JStr ''A3'' | Some A4 \<Rightarrow> JStr ''A4'')"

text \<open>Step 3: scopes, then the approval policy, then the key a side effect needs.\<close>

definition tool_gate ::
  "exec_env \<Rightarrow> tool_definition \<Rightarrow> run_context \<Rightarrow> string option \<Rightarrow> bool \<Rightarrow> string \<Rightarrow> 'w exec_state \<Rightarrow> unit res \<times> 'w exec_state" where
  "tool_gate env d rc key approved input_hash st =
     (let missing = td_required_scopes d - rc_scopes rc in
      if missing \<noteq> {}
      then audit_then_raise
             (tool_audit env 0 0 rc ''tool.denied'' d input_hash ''deny_missing_scope''
                [(''missing_scopes'', JArr (map JStr (sorted_list_of_set missing)))] st)
             (DW (PermissionDeniedError ''run context lacks required tool scopes'')) st
      else if policy_decide (xe_policy_version env) d rc \<and> \<not> approved
      then audit_then_raise
             (tool_audit env 0 0 rc ''tool.approval_required'' d input_hash ''require_approval''
                [(''autonomy_level'', autonomy_json (rc_autonomy_level rc)),
                 (''approval_policy_version'', (case rc_approval_policy_version rc of None \<Rightarrow> JNull | Some v \<Rightarrow> JStr v))] st)
             (DW (ApprovalRequiredError ''tool requires human approval before execution'')) st
      else if td_side_effect_level d \<in> {Effect_external, Effect_critical} \<and> \<not> has_key key
      then (raise_dw (DomainError ''side-effect tools require an idempotency key''), st)
      else (Inr (), st))"

text \<open>Step 5a: \<open>None\<close> when there is nothing to replay.\<close>

definition tool_replay ::
  "exec_env \<Rightarrow> 'w exec_tool \<Rightarrow> run_context \<Rightarrow> string \<Rightarrow> string option \<Rightarrow> string \<Rightarrow> 'w exec_state \<Rightarrow>
   (details res \<times> 'w exec_state) option" where
  "tool_replay env t rc name key input_hash st =
     (if \<not> has_key key then None
      else case find_succeeded (xs_rows st) rc name (the key) of
             None \<Rightarrow> None
           | Some r \<Rightarrow>
               Some (if xr_input_hash r \<noteq> input_hash
                     then (raise_dw (IdempotencyConflictError ''idempotency key reused with a different payload''), st)
                     else case tool_audit env 0 0 rc ''tool.replayed'' (rt_definition t) input_hash ''allow''
                                 [(''idempotency_key'', JStr (the key))] st of
                            Inl e \<Rightarrow> (Inl e, st)
                          | Inr st' \<Rightarrow>
                              (case rt_output_model t (case xr_output r of None \<Rightarrow> [] | Some out \<Rightarrow> out) of
                                 None \<Rightarrow> (Inl ValidationError, st')
                               | Some out \<Rightarrow> (Inr out, st'))))"

text \<open>
  Step 5b: the loop. \<open>left\<close> counts the attempts still allowed, \<open>tried\<close> those made. The result is
  the output, or the last error; \<open>None\<close> is the state before any attempt, which the code asserts
  away.
\<close>

definition retried :: "exc \<Rightarrow> bool" where
  "retried e \<longleftrightarrow> (case e of TimeoutError \<Rightarrow> True | DW d \<Rightarrow> is_infrastructure d | _ \<Rightarrow> False)"

text \<open>What an exception of the handler, or of the output's validation, is kept as.\<close>

definition kept_error :: "exc \<Rightarrow> exc" where
  "kept_error e = (if e = ValidationError then DW (DomainError ''tool output failed schema validation'') else e)"

definition one_attempt :: "'w exec_tool \<Rightarrow> details \<Rightarrow> run_context \<Rightarrow> 'w \<Rightarrow> details res \<times> 'w" where
  "one_attempt t input rc w =
     (case rt_handler t input rc w of
        (Inl e, w') \<Rightarrow> (Inl e, w')
      | (Inr raw, w') \<Rightarrow> (case rt_output_model t raw of None \<Rightarrow> (Inl ValidationError, w') | Some out \<Rightarrow> (Inr out, w')))"

fun run_attempts ::
  "exec_env \<Rightarrow> 'w exec_tool \<Rightarrow> details \<Rightarrow> run_context \<Rightarrow> nat \<Rightarrow> nat \<Rightarrow> details res option \<Rightarrow> 'w exec_state \<Rightarrow>
   details res option \<times> nat \<times> 'w exec_state" where
  "run_attempts env t input rc 0 tried last_seen st = (last_seen, tried, st)"
| "run_attempts env t input rc (Suc left) tried last_seen st =
     (case one_attempt t input rc (xs_world st) of
        (Inr out, w) \<Rightarrow> (Some (Inr out), Suc tried, st\<lparr>xs_world := w\<rparr>)
      | (Inl e, w) \<Rightarrow>
          if retried e
          then (let slept = (if left = 0 then [] else [xe_base_backoff env * 2 ^ tried])
                in run_attempts env t input rc left (Suc tried) (Some (Inl e))
                     (st\<lparr>xs_world := w, xs_sleeps := xs_sleeps st @ slept\<rparr>))
          else (Some (Inl (kept_error e)), Suc tried, st\<lparr>xs_world := w\<rparr>))"

definition attempts_allowed :: "tool_definition \<Rightarrow> nat" where
  "attempts_allowed d = nat (1 + (if td_idempotent d then td_max_retries d else 0))"

definition execution_row ::
  "exec_env \<Rightarrow> run_context \<Rightarrow> string \<Rightarrow> string \<Rightarrow> string option \<Rightarrow> string \<Rightarrow> nat \<Rightarrow> details res \<Rightarrow> exec_row" where
  "execution_row env rc name version key input_hash tried outcome =
     \<lparr>xr_id = xe_new_uuid env 0, xr_tenant_id = rc_tenant_id rc, xr_workspace_id = rc_workspace_id rc,
      xr_run_id = rc_run_id rc, xr_tool_name = name, xr_tool_version = version,
      xr_status = (case outcome of Inl _ \<Rightarrow> Exec_failed | Inr _ \<Rightarrow> Exec_succeeded),
      xr_idempotency_key = key, xr_input_hash = input_hash,
      xr_output_hash = (case outcome of Inl _ \<Rightarrow> None | Inr out \<Rightarrow> Some (xe_hash env out)),
      xr_output = (case outcome of Inl _ \<Rightarrow> None | Inr out \<Rightarrow> Some out),
      xr_error = (case outcome of Inl e \<Rightarrow> Some (exc_name e) | Inr _ \<Rightarrow> None),
      xr_attempts = int tried, xr_started_at = xe_now env 0, xr_finished_at = xe_now env 1\<rparr>"

text \<open>What a failed execution raises: a typed refusal keeps its type, the rest become infrastructure errors.\<close>

definition raised_error :: "exc \<Rightarrow> exc" where
  "raised_error e = (case e of DW d \<Rightarrow> if is_infrastructure d then DW (InfrastructureError ''tool execution failed'') else DW d
                     | _ \<Rightarrow> DW (InfrastructureError ''tool execution failed''))"

text \<open>Steps 6 to 8: record, then audit, then the typed result or the error.\<close>

definition finish_execution ::
  "exec_env \<Rightarrow> tool_definition \<Rightarrow> run_context \<Rightarrow> string \<Rightarrow> string \<Rightarrow> string option \<Rightarrow> details \<Rightarrow> string \<Rightarrow>
   details res option \<Rightarrow> nat \<Rightarrow> 'w exec_state \<Rightarrow> details res \<times> 'w exec_state" where
  "finish_execution env d rc name version key input input_hash ended tried st =
     (case ended of
        None \<Rightarrow> (Inl AssertionError, st)
      | Some outcome \<Rightarrow>
        (case record_execution (execution_row env rc name version key input_hash tried outcome) (xs_rows st) of
           Inl e \<Rightarrow> (Inl e, st)
         | Inr rows \<Rightarrow>
           (let st1 = st\<lparr>xs_rows := rows\<rparr> in
            case outcome of
              Inl e \<Rightarrow>
                audit_then_raise
                  (tool_audit env 1 2 rc ''tool.failed'' d input_hash ''allow''
                     [(''error'', JStr (exc_name e)), (''attempts'', JInt (int tried)),
                      (''input'', JObj (redact_mapping (xe_is_word env) input))] st1)
                  (raised_error e) st1
            | Inr out \<Rightarrow>
                (case tool_audit env 1 2 rc ''tool.executed'' d input_hash ''allow''
                        [(''output_hash'', JStr (xe_hash env out)), (''attempts'', JInt (int tried))] st1 of
                   Inl e \<Rightarrow> (Inl e, st1)
                 | Inr st2 \<Rightarrow> (Inr out, st2)))))"

definition tool_execute ::
  "exec_env \<Rightarrow> (details, 'w) tool_registry \<Rightarrow> string \<Rightarrow> string \<Rightarrow> details \<Rightarrow> run_context \<Rightarrow> string option \<Rightarrow> bool \<Rightarrow>
   'w exec_state \<Rightarrow> details res \<times> 'w exec_state" where
  "tool_execute env reg name version raw rc key approved st =
     (case tool_resolve reg name version of
        Inl e \<Rightarrow> (Inl e, st)
      | Inr t \<Rightarrow>
        (case rt_input_model t raw of
           None \<Rightarrow> (raise_dw (DomainError ''tool input failed schema validation''), st)
         | Some input \<Rightarrow>
           (let input_hash = xe_hash env input in
            case tool_gate env (rt_definition t) rc key approved input_hash st of
              (Inl e, st') \<Rightarrow> (Inl e, st')
            | (Inr _, st') \<Rightarrow>
              (case tool_replay env t rc name key input_hash st' of
                 Some replayed \<Rightarrow> replayed
               | None \<Rightarrow>
                 (case run_attempts env t input rc (attempts_allowed (rt_definition t)) 0 None st' of
                    (ended, tried, st2) \<Rightarrow>
                      finish_execution env (rt_definition t) rc name version key input input_hash ended tried st2)))))"

subsection \<open>What each phase changes\<close>

lemma tool_audit_Inr:
  assumes "tool_audit env i t rc action d h decision extra st = Inr st'"
  shows "st' = st\<lparr>xs_audit := xs_audit st @ [tool_audit_event env i t rc action d h decision extra]\<rparr>"
  using assms by (auto simp: tool_audit_def make_audit_event_def split: sum.splits if_splits)

lemma tool_audit_ok:
  assumes "access_context_check (access_context_from_run rc) = Inr c" "\<not> sblank action"
  shows "tool_audit env i t rc action d h decision extra st =
     Inr (st\<lparr>xs_audit := xs_audit st @ [tool_audit_event env i t rc action d h decision extra]\<rparr>)"
  using assms by (simp add: tool_audit_def make_audit_event_def tool_audit_event_def)

lemma action_names [simp]:
  "\<not> sblank ''tool.replayed''" "\<not> sblank ''tool.executed''" "\<not> sblank ''tool.failed''"
  by (simp_all add: blank_simps)

lemma tool_gate_frame:
  assumes "tool_gate env d rc key approved h st = (r, st')"
  shows "xs_world st' = xs_world st" "xs_rows st' = xs_rows st"
  using assms
  by (auto simp: tool_gate_def audit_then_raise_def Let_def dest!: tool_audit_Inr split: if_splits sum.splits)

lemma tool_gate_passes:
  "tool_gate env d rc key approved h st = (Inr u, st') \<longleftrightarrow>
     st' = st \<and> td_required_scopes d \<subseteq> rc_scopes rc \<and> (policy_decide (xe_policy_version env) d rc \<longrightarrow> approved) \<and>
     (td_side_effect_level d \<in> {Effect_external, Effect_critical} \<longrightarrow> has_key key)"
  by (auto simp: tool_gate_def audit_then_raise_def Let_def split: sum.splits)

lemma tool_replay_frame:
  assumes "tool_replay env t rc name key h st = Some (r, st')"
  shows "xs_world st' = xs_world st" "xs_rows st' = xs_rows st"
  using assms
  by (auto simp: tool_replay_def dest!: tool_audit_Inr split: if_splits sum.splits option.splits)

lemma run_attempts_rows:
  assumes "run_attempts env t input rc n k l st = (ended, tried, st')"
  shows "xs_rows st' = xs_rows st" "xs_audit st' = xs_audit st"
  using assms
  by (induction n arbitrary: k l st) (auto simp: Let_def split: prod.splits sum.splits if_splits)

lemma run_attempts_count:
  assumes "run_attempts env t input rc (Suc n) k l st = (ended, tried, st')"
  shows "k < tried \<and> tried \<le> k + Suc n \<and> ended \<noteq> None \<and>
         xs_sleeps st' = xs_sleeps st @ map (\<lambda>i. xe_base_backoff env * 2 ^ i) [k..<tried - 1]"
  using assms
proof (induction n arbitrary: k l st)
  case 0
  then show ?case by (auto split: prod.splits sum.splits if_splits)
next
  case (Suc n)
  obtain r w where one: "one_attempt t input rc (xs_world st) = (r, w)" by (cases "one_attempt t input rc (xs_world st)")
  show ?case
  proof (cases "\<exists>e. r = Inl e \<and> retried e")
    case True
    then obtain e where e: "r = Inl e" "retried e" by blast
    let ?st = "st\<lparr>xs_world := w, xs_sleeps := xs_sleeps st @ [xe_base_backoff env * 2 ^ k]\<rparr>"
    have "run_attempts env t input rc (Suc n) (Suc k) (Some (Inl e)) ?st = (ended, tried, st')"
      using Suc.prems one e unfolding run_attempts.simps(2) [of _ _ _ _ "Suc n"]
      by (simp add: Let_def del: run_attempts.simps)
    from Suc.IH [OF this] show ?thesis by (auto simp: upt_conv_Cons)
  next
    case False
    with Suc.prems one show ?thesis by (auto split: sum.splits)
  qed
qed

lemma valid_attempts: "tool_definition_valid d \<Longrightarrow> \<exists>n. attempts_allowed d = Suc n"
  by (auto simp: attempts_allowed_def tool_definition_valid_def intro!: exI [of _ "nat (td_max_retries d)"])

subsection \<open>The call as a whole\<close>

lemma tool_execute_cases:
  assumes "tool_execute env reg name version raw rc key approved st = (res, st')"
  obtains (unknown) e where "tool_resolve reg name version = Inl e" "res = Inl e" "st' = st"
  | (bad_input) t where "tool_resolve reg name version = Inr t" "rt_input_model t raw = None" "st' = st"
      "res = raise_dw (DomainError ''tool input failed schema validation'')"
  | (refused) t input e where "tool_resolve reg name version = Inr t" "rt_input_model t raw = Some input"
      "tool_gate env (rt_definition t) rc key approved (xe_hash env input) st = (Inl e, st')" "res = Inl e"
  | (replayed) t input where "tool_resolve reg name version = Inr t" "rt_input_model t raw = Some input"
      "tool_gate env (rt_definition t) rc key approved (xe_hash env input) st = (Inr (), st)"
      "tool_replay env t rc name key (xe_hash env input) st = Some (res, st')"
  | (ran) t input ended tried st2 where "tool_resolve reg name version = Inr t" "rt_input_model t raw = Some input"
      "tool_gate env (rt_definition t) rc key approved (xe_hash env input) st = (Inr (), st)"
      "tool_replay env t rc name key (xe_hash env input) st = None"
      "run_attempts env t input rc (attempts_allowed (rt_definition t)) 0 None st = (ended, tried, st2)"
      "finish_execution env (rt_definition t) rc name version key input (xe_hash env input) ended tried st2 = (res, st')"
proof (cases "tool_resolve reg name version")
  case (Inl e) then show ?thesis using assms unknown by (simp add: tool_execute_def)
next
  case t: (Inr t)
  show ?thesis
  proof (cases "rt_input_model t raw")
    case None then show ?thesis using assms t bad_input by (simp add: tool_execute_def)
  next
    case input: (Some input)
    obtain g stg where gate: "tool_gate env (rt_definition t) rc key approved (xe_hash env input) st = (g, stg)" by fastforce
    show ?thesis
    proof (cases g)
      case (Inl e) then show ?thesis using assms t input gate refused by (simp add: tool_execute_def)
    next
      case (Inr u)
      then have [simp]: "stg = st" using gate tool_gate_passes by metis
      show ?thesis
      proof (cases "tool_replay env t rc name key (xe_hash env input) st")
        case None
        obtain ended tried st2 where "run_attempts env t input rc (attempts_allowed (rt_definition t)) 0 None st = (ended, tried, st2)"
          by (metis prod_cases3)
        then show ?thesis using assms t input gate Inr None ran by (simp add: tool_execute_def)
      next
        case (Some x) then show ?thesis using assms t input gate Inr replayed by (cases x) (simp add: tool_execute_def)
      qed
    qed
  qed
qed

lemma finish_execution_rows:
  assumes "finish_execution env d rc name version key input h ended tried st = (res, st')"
  shows "xs_rows st' = xs_rows st \<or>
     (\<exists>outcome. ended = Some outcome \<and> xs_rows st' = xs_rows st @ [execution_row env rc name version key h tried outcome])"
  using assms
  by (auto simp: finish_execution_def record_execution_def audit_then_raise_def Let_def dest!: tool_audit_Inr
      split: option.splits sum.splits if_splits)

lemma finish_execution_frame:
  assumes "finish_execution env d rc name version key input h ended tried st = (res, st')"
  shows "xs_world st' = xs_world st" "xs_sleeps st' = xs_sleeps st"
  using assms
  by (auto simp: finish_execution_def record_execution_def audit_then_raise_def Let_def dest!: tool_audit_Inr
      split: option.splits sum.splits if_splits)

lemma finish_execution_Inr:
  assumes "finish_execution env d rc name version key input h ended tried st = (Inr out, st')"
  shows "ended = Some (Inr out)" "xs_rows st' = xs_rows st @ [execution_row env rc name version key h tried (Inr out)]"
  using assms
  by (auto simp: finish_execution_def record_execution_def audit_then_raise_def Let_def dest!: tool_audit_Inr
      split: option.splits sum.splits if_splits)

lemma execution_row_simps [simp]:
  "xr_tenant_id (execution_row env rc name version key h tried oc) = rc_tenant_id rc"
  "xr_tool_name (execution_row env rc name version key h tried oc) = name"
  "xr_idempotency_key (execution_row env rc name version key h tried oc) = key"
  "xr_input_hash (execution_row env rc name version key h tried oc) = h"
  "xr_status (execution_row env rc name version key h tried (Inr out)) = Exec_succeeded"
  "xr_status (execution_row env rc name version key h tried (Inl e)) = Exec_failed"
  "xr_output (execution_row env rc name version key h tried (Inr out)) = Some out"
  "xr_attempts (execution_row env rc name version key h tried oc) = int tried"
  "xr_id (execution_row env rc name version key h tried oc) = xe_new_uuid env 0"
  by (simp_all add: execution_row_def)

lemma find_succeeded_append:
  "find_succeeded (rows @ more_rows) rc name k =
     (case find_succeeded rows rc name k of None \<Rightarrow> find_succeeded more_rows rc name k | Some r \<Rightarrow> Some r)"
  by (induction rows) (simp_all add: find_succeeded_def)

lemma find_succeeded_tenant:
  "rc_tenant_id rc' = rc_tenant_id rc \<Longrightarrow> find_succeeded rows rc' = find_succeeded rows rc"
  by (intro ext) (simp add: find_succeeded_def)

lemma tool_replay_None:
  "tool_replay env t rc name key h st = None \<longleftrightarrow> (has_key key \<longrightarrow> find_succeeded (xs_rows st) rc name (the key) = None)"
  by (auto simp: tool_replay_def split: option.splits)

text \<open>A call that returned under a key left, or found, the row a later call replays.\<close>

lemma executed_row:
  assumes "tool_execute env reg name version raw rc key approved st = (Inr out, st1)" "has_key key"
    and t: "tool_resolve reg name version = Inr t" and input: "rt_input_model t raw = Some input"
    and stable: "rt_output_model t out = Some out"
  shows "\<exists>r. find_succeeded (xs_rows st1) rc name (the key) = Some r \<and> xr_input_hash r = xe_hash env input \<and>
             rt_output_model t (case xr_output r of None \<Rightarrow> [] | Some x \<Rightarrow> x) = Some out"
  using assms(1)
proof (cases rule: tool_execute_cases)
  case (replayed t' input')
  then have [simp]: "t' = t" "input' = input" using t input by auto
  from replayed(4) assms(2) show ?thesis
    by (auto simp: tool_replay_def dest!: tool_audit_Inr split: if_splits sum.splits option.splits)
next
  case (ran t' input' ended tried st2)
  then have [simp]: "t' = t" "input' = input" using t input by auto
  have none: "find_succeeded (xs_rows st) rc name (the key) = None" using ran(4) assms(2) by (simp add: tool_replay_None)
  have rows: "xs_rows st1 = xs_rows st @ [execution_row env rc name version key (xe_hash env input) tried (Inr out)]"
    using finish_execution_Inr(2) [OF ran(6)] run_attempts_rows(1) [OF ran(5)] by simp
  have "find_succeeded [execution_row env rc name version key (xe_hash env input) tried (Inr out)] rc name (the key) =
      Some (execution_row env rc name version key (xe_hash env input) tried (Inr out))"
    using assms(2) by (auto simp: find_succeeded_def has_key_def)
  then show ?thesis unfolding rows find_succeeded_append none using stable by simp
qed simp_all

subsection \<open>Properties\<close>

text \<open>
  C1: No tool acts outside the gates. Whenever a call changes the world its tool acts on, or the
  table of executions, the tool is registered under exactly that name and version, the input
  passed its schema, the run holds every scope the tool requires, the approval policy asks for
  nobody or the call was approved, an external or critical tool was given an idempotency key, and
  no earlier success is stored under that key.
\<close>

theorem tool_call_gated:
  assumes "tool_execute env reg name version raw rc key approved st = (res, st')"
    and "xs_world st' \<noteq> xs_world st \<or> xs_rows st' \<noteq> xs_rows st"
  shows "\<exists>t input. map_of reg (name, version) = Some t \<and> rt_input_model t raw = Some input \<and>
           td_required_scopes (rt_definition t) \<subseteq> rc_scopes rc \<and>
           (approved \<or> \<not> policy_decide (xe_policy_version env) (rt_definition t) rc) \<and>
           (td_side_effect_level (rt_definition t) \<in> {Effect_external, Effect_critical} \<longrightarrow> has_key key) \<and>
           (has_key key \<longrightarrow> find_succeeded (xs_rows st) rc name (the key) = None)"
  using assms(1)
proof (cases rule: tool_execute_cases)
  case (ran t input ended tried st2)
  have "map_of reg (name, version) = Some t" using ran(1) by (auto simp: tool_resolve_def split: option.splits)
  then show ?thesis using ran(2,3,4) by (auto simp: tool_gate_passes tool_replay_None)
qed (use assms(2) tool_gate_frame tool_replay_frame in \<open>metis+\<close>)

text \<open>
  C2: A side effect happens once per key. After a call returned an output under an idempotency key,
  every later call of that tool and key in the tenant that passes the gates, whatever was recorded
  in between, leaves the world and the table alone: the same input is answered with the stored
  output, a different one is refused as a conflict. (The stored output is read back through the
  tool's output schema, which must accept what it produced.)
\<close>

theorem replay_runs_nothing:
  assumes "tool_execute env reg name version raw rc key approved st = (Inr out, st1)" "has_key key"
    and "tool_resolve reg name version = Inr t" "rt_input_model t raw = Some input" "rt_output_model t out = Some out"
    and "rc_tenant_id rc' = rc_tenant_id rc" "xe_hash env' = xe_hash env" "xs_rows st2 = xs_rows st1 @ later"
    and "rt_input_model t raw' = Some input'"
    and "fst (tool_gate env' (rt_definition t) rc' key approved' (xe_hash env input') st2) = Inr ()"
    and "access_context_check (access_context_from_run rc') = Inr c"
  shows "\<exists>st3. tool_execute env' reg name version raw' rc' key approved' st2 =
             (if xe_hash env input' = xe_hash env input then Inr out
              else raise_dw (IdempotencyConflictError ''idempotency key reused with a different payload''), st3) \<and>
           xs_world st3 = xs_world st2 \<and> xs_rows st3 = xs_rows st2"
proof -
  obtain r where r: "find_succeeded (xs_rows st1) rc name (the key) = Some r" "xr_input_hash r = xe_hash env input"
      "rt_output_model t (case xr_output r of None \<Rightarrow> [] | Some x \<Rightarrow> x) = Some out"
    using executed_row [OF assms(1-5)] by blast
  have found: "find_succeeded (xs_rows st2) rc' name (the key) = Some r"
    using r(1) find_succeeded_tenant [OF assms(6)] by (simp add: assms(8) find_succeeded_append)
  have gate: "tool_gate env' (rt_definition t) rc' key approved' (xe_hash env input') st2 = (Inr (), st2)"
    using assms(10) tool_gate_passes by (metis prod.collapse)
  show ?thesis
    using assms(2) r(2,3)
    by (auto simp: tool_execute_def assms(3,7,9) gate tool_replay_def found tool_audit_ok [OF assms(11)])
qed

text \<open>
  C3: Every execution leaves exactly one row and one audit event, whatever the handler did:
  returned, refused, timed out, crashed or produced something its schema rejects. The row and the
  event agree with the answer; a typed refusal reaches the caller as it was raised and every other
  failure as an infrastructure error.
\<close>

theorem execution_leaves_trace:
  assumes "tool_execute env reg name version raw rc key approved st = (res, st')"
    and "tool_resolve reg name version = Inr t" "tool_definition_valid (rt_definition t)" "rt_input_model t raw = Some input"
    and "fst (tool_gate env (rt_definition t) rc key approved (xe_hash env input) st) = Inr ()"
    and "has_key key \<longrightarrow> find_succeeded (xs_rows st) rc name (the key) = None" "key \<noteq> Some []"
    and "xe_new_uuid env 0 \<notin> xr_id ` set (xs_rows st)" "access_context_check (access_context_from_run rc) = Inr c"
  shows "\<exists>outcome tried ev. xs_rows st' = xs_rows st @ [execution_row env rc name version key (xe_hash env input) tried outcome] \<and>
           xs_audit st' = xs_audit st @ [ev] \<and> ae_actor_id ev = rc_actor_id rc \<and> ae_run_id ev = Some (rc_run_id rc) \<and>
           ae_action ev = (case outcome of Inl _ \<Rightarrow> ''tool.failed'' | Inr _ \<Rightarrow> ''tool.executed'') \<and>
           res = (case outcome of Inl e \<Rightarrow> Inl (raised_error e) | Inr out \<Rightarrow> Inr out)"
  using assms(1)
proof (cases rule: tool_execute_cases)
  case (ran t' input' ended tried st2)
  then have [simp]: "t' = t" "input' = input" using assms(2,4) by auto
  obtain n where n: "attempts_allowed (rt_definition t) = Suc n" using valid_attempts [OF assms(3)] by blast
  obtain outcome where oc: "ended = Some outcome" using run_attempts_count [OF ran(5) [simplified n \<open>t' = t\<close>]] by blast
  let ?r = "execution_row env rc name version key (xe_hash env input) tried outcome"
  have key: "key = Some k \<Longrightarrow> has_key key" for k using assms(7) by (auto simp: has_key_def)
  have "\<not> same_success x ?r" if "x \<in> set (xs_rows st)" for x
  proof
    assume s: "same_success x ?r"
    then obtain k where k: "key = Some k" by (auto simp: same_success_def)
    then have "find_succeeded (xs_rows st) rc name k = None" using assms(6) key by auto
    then show False using s that k by (auto simp: find_succeeded_def find_None_iff same_success_def)
  qed
  then have rec: "record_execution ?r (xs_rows st2) = Inr (xs_rows st @ [?r])"
    using assms(8) run_attempts_rows(1) [OF ran(5)] by (auto simp: record_execution_def list_ex_iff image_iff)
  show ?thesis
    using ran(6) rec run_attempts_rows(2) [OF ran(5)]
    by (intro exI [of _ outcome] exI [of _ tried])
      (auto simp: finish_execution_def oc Let_def tool_audit_ok [OF assms(9)] audit_then_raise_def tool_audit_event_def
        split: sum.splits)
next
  case (replayed t' input')
  then have False using assms(2,4,6) by (auto simp: tool_replay_def split: if_splits)
  then show ?thesis ..
qed (use assms(2,4,5) in auto)

text \<open>
  C4: Retries are bounded and back off. The attempts a valid tool's execution records are between
  one and one plus its retries, exactly one for a tool that is not idempotent and never more than
  eleven, and between them the executor slept the base delay doubled each time, once less than it
  tried.
\<close>

theorem attempts_bounded:
  assumes "tool_execute env reg name version raw rc key approved st = (res, st')" "xs_rows st' = xs_rows st @ [r]"
    and "tool_resolve reg name version = Inr t" "tool_definition_valid (rt_definition t)"
  shows "1 \<le> xr_attempts r \<and> xr_attempts r \<le> 1 + (if td_idempotent (rt_definition t) then td_max_retries (rt_definition t) else 0) \<and>
         xr_attempts r \<le> 11 \<and>
         xs_sleeps st' = xs_sleeps st @ map (\<lambda>i. xe_base_backoff env * 2 ^ i) [0..<nat (xr_attempts r) - 1]"
proof -
  have grew: "xs_rows st' \<noteq> xs_rows st" using assms(2) by simp
  from assms(1) show ?thesis
  proof (cases rule: tool_execute_cases)
    case (ran t' input' ended tried st2)
    then have [simp]: "t' = t" using assms(3) by auto
    obtain n where n: "attempts_allowed (rt_definition t) = Suc n" using valid_attempts [OF assms(4)] by blast
    note count = run_attempts_count [OF ran(5) [simplified n \<open>t' = t\<close>]]
    have "xr_attempts r = int tried"
      using finish_execution_rows [OF ran(6)] run_attempts_rows(1) [OF ran(5)] assms(2) by auto
    moreover have "int tried \<le> 1 + (if td_idempotent (rt_definition t) then td_max_retries (rt_definition t) else 0)"
      using count n assms(4) by (auto simp: attempts_allowed_def tool_definition_valid_def split: if_splits)
    ultimately show ?thesis
      using count assms(4) finish_execution_frame(2) [OF ran(6)]
      by (auto simp: tool_definition_valid_def split: if_splits)
  qed (use grew tool_gate_frame(2) tool_replay_frame(2) in \<open>metis+\<close>)
qed

text \<open>
  The key protects retries, not overlap. When two calls under one key both look for a stored
  result before either records its own, both run the handler; the second one's record then
  violates the unique index, so its effect is neither recorded nor audited.
\<close>

theorem overlapping_calls_run_twice:
  assumes "has_key key"
    and "run_attempts env1 t input rc n 0 None st = (Some (Inr out1), n1, st1)"
    and "run_attempts env2 t input rc n 0 None st1 = (Some (Inr out2), n2, st2)"
    and "finish_execution env1 (rt_definition t) rc name version key input h (Some (Inr out1)) n1 st2 = (Inr out1, st3)"
  shows "finish_execution env2 (rt_definition t) rc name version key input h (Some (Inr out2)) n2 st3 =
           (Inl (OtherError ''IntegrityError''), st3)"
proof -
  have "same_success (execution_row env1 rc name version key h n1 (Inr out1)) (execution_row env2 rc name version key h n2 (Inr out2))"
    using assms(1) by (auto simp: same_success_def has_key_def)
  then show ?thesis
    using finish_execution_Inr(2) [OF assms(4)]
    by (auto simp: finish_execution_def record_execution_def)
qed

subsection \<open>A call, concretely\<close>

text \<open>A mail tool whose first attempt times out; its world counts what it did.\<close>

definition mail_tool :: "nat exec_tool" where
  "mail_tool =
     \<lparr>rt_definition = sample_tool_definition\<lparr>td_side_effect_level := Effect_external, td_idempotent := True, td_max_retries := 2\<rparr>,
      rt_input_model = Some, rt_output_model = Some,
      rt_handler = (\<lambda>input rc w. if w = 0 then (Inl TimeoutError, 1) else (Inr [(''sent'', JBool True)], w + 1))\<rparr>"

definition mail_registry :: "(details, nat) tool_registry" where
  "mail_registry = [((''mail.send'', ''1.0.0''), mail_tool)]"

definition mail_env :: exec_env where
  "mail_env = \<lparr>xe_policy_version = AUTONOMY_POLICY_VERSION, xe_hash = (\<lambda>d. concat (map fst d)), xe_is_word = (\<lambda>_. True),
     xe_base_backoff = 200000, xe_new_uuid = (\<lambda>i. 100 + i), xe_now = int\<rparr>"

definition no_executions :: "nat exec_state" where
  "no_executions = \<lparr>xs_rows = [], xs_audit = [], xs_world = 0, xs_sleeps = []\<rparr>"

abbreviation mail_call :: "string \<Rightarrow> nat exec_state \<Rightarrow> details res \<times> nat exec_state" where
  "mail_call field \<equiv> tool_execute mail_env mail_registry ''mail.send'' ''1.0.0'' [(field, JNull)] sample_run_context (Some ''k1'') True"

definition mail_row :: exec_row where
  "mail_row = execution_row mail_env sample_run_context ''mail.send'' ''1.0.0'' (Some ''k1'') ''to'' 2 (Inr [(''sent'', JBool True)])"

lemma mail_resolve: "tool_resolve mail_registry ''mail.send'' ''1.0.0'' = Inr mail_tool"
  by (simp add: tool_resolve_def mail_registry_def)

lemma mail_context: "access_context_check (access_context_from_run sample_run_context) = Inr (access_context_from_run sample_run_context)"
  by (simp add: access_context_check_def access_context_from_run_def access_context_defaults_def sample_run_context_def blank_simps)

lemma mail_gate: "tool_gate mail_env (rt_definition mail_tool) sample_run_context (Some ''k1'') True h st = (Inr (), st)"
  by (simp add: tool_gate_passes mail_tool_def sample_tool_definition_def sample_run_context_def has_key_def)

lemma mail_valid: "tool_definition_valid (rt_definition mail_tool)"
  by (simp add: mail_tool_def tool_definition_valid_def sample_tool_definition_def is_semver_def ascii_digit_def
      startswith_def endswith_def approval_policy_disagrees_with_side_effect_def)

lemma mail_models: "rt_input_model mail_tool = Some" "rt_output_model mail_tool = Some"
  by (simp_all add: mail_tool_def)

lemma mail_hash: "xe_hash mail_env [(field, JNull)] = field"
  by (simp add: mail_env_def)

lemma mail_allowed: "attempts_allowed (rt_definition mail_tool) = Suc (Suc (Suc 0))"
  by (simp add: attempts_allowed_def mail_tool_def)

lemma mail_attempts:
  "run_attempts mail_env mail_tool input sample_run_context (attempts_allowed (rt_definition mail_tool)) 0 None no_executions =
     (Some (Inr [(''sent'', JBool True)]), 2, no_executions\<lparr>xs_world := 2, xs_sleeps := [200000]\<rparr>)"
  unfolding mail_allowed
  by (simp add: mail_tool_def one_attempt_def no_executions_def retried_def mail_env_def)

lemma mail_replay_none: "tool_replay mail_env mail_tool sample_run_context ''mail.send'' (Some ''k1'') h no_executions = None"
  by (simp add: tool_replay_None find_succeeded_def no_executions_def)

lemma mail_first:
  "\<exists>ev. mail_call ''to'' no_executions =
     (Inr [(''sent'', JBool True)], \<lparr>xs_rows = [mail_row], xs_audit = [ev], xs_world = 2, xs_sleeps = [200000]\<rparr>)"
  by (simp add: tool_execute_def mail_resolve mail_gate mail_replay_none mail_attempts mail_models mail_hash
      finish_execution_def record_execution_def tool_audit_ok [OF mail_context] mail_row_def Let_def)
    (simp add: no_executions_def)

theorem tool_call_gated_witness:
  "\<exists>st'. mail_call ''to'' no_executions = (Inr [(''sent'', JBool True)], st') \<and> xs_world st' = 2 \<and>
     td_required_scopes (rt_definition mail_tool) \<subseteq> rc_scopes sample_run_context"
proof -
  obtain ev where f: "mail_call ''to'' no_executions =
     (Inr [(''sent'', JBool True)], \<lparr>xs_rows = [mail_row], xs_audit = [ev], xs_world = 2, xs_sleeps = [200000]\<rparr>)"
    using mail_first by blast
  from tool_call_gated [OF f] show ?thesis using f by (auto simp: no_executions_def mail_registry_def)
qed

theorem replay_runs_nothing_witness:
  "\<exists>st1 st2 st3. mail_call ''to'' no_executions = (Inr [(''sent'', JBool True)], st1) \<and>
     mail_call ''to'' st1 = (Inr [(''sent'', JBool True)], st2) \<and> xs_world st2 = 2 \<and>
     mail_call ''cc'' st1 = (raise_dw (IdempotencyConflictError ''idempotency key reused with a different payload''), st3)"
proof -
  obtain ev where f: "mail_call ''to'' no_executions =
     (Inr [(''sent'', JBool True)], \<lparr>xs_rows = [mail_row], xs_audit = [ev], xs_world = 2, xs_sleeps = [200000]\<rparr>)"
    using mail_first by blast
  let ?st = "\<lparr>xs_rows = [mail_row], xs_audit = [ev], xs_world = 2 :: nat, xs_sleeps = [200000]\<rparr>"
  have again: "\<exists>st3. mail_call field ?st =
      (if field = ''to'' then Inr [(''sent'', JBool True)]
       else raise_dw (IdempotencyConflictError ''idempotency key reused with a different payload''), st3) \<and>
      xs_world st3 = xs_world ?st \<and> xs_rows st3 = xs_rows ?st" for field
    using replay_runs_nothing [OF f _ mail_resolve, of "[(''to'', JNull)]" sample_run_context mail_env ?st "[]" "[(field, JNull)]"
        "[(field, JNull)]" True "access_context_from_run sample_run_context"] mail_context
    by (simp add: mail_models mail_hash mail_gate has_key_def)
  from again [of "''to''"] again [of "''cc''"] f show ?thesis by auto
qed

theorem execution_leaves_trace_witness:
  "\<exists>st' outcome tried. snd (mail_call ''to'' no_executions) = st' \<and>
     xs_rows st' = [execution_row mail_env sample_run_context ''mail.send'' ''1.0.0'' (Some ''k1'') ''to'' tried outcome]"
proof -
  obtain res st' where f: "mail_call ''to'' no_executions = (res, st')" by fastforce
  from execution_leaves_trace [OF f mail_resolve mail_valid, of "[(''to'', JNull)]" "access_context_from_run sample_run_context"] mail_context
  have "\<exists>outcome tried. xs_rows st' =
      xs_rows no_executions @ [execution_row mail_env sample_run_context ''mail.send'' ''1.0.0'' (Some ''k1'') ''to'' tried outcome]"
    by (auto simp: mail_models mail_hash mail_gate find_succeeded_def no_executions_def)
  then show ?thesis using f by (auto simp: no_executions_def)
qed

theorem attempts_bounded_witness:
  "\<exists>st'. snd (mail_call ''to'' no_executions) = st' \<and> xs_rows st' = [mail_row] \<and> xr_attempts mail_row \<le> 3 \<and>
     xs_sleeps st' = [200000]"
proof -
  obtain ev where f: "mail_call ''to'' no_executions =
     (Inr [(''sent'', JBool True)], \<lparr>xs_rows = [mail_row], xs_audit = [ev], xs_world = 2, xs_sleeps = [200000]\<rparr>)"
    using mail_first by blast
  from attempts_bounded [OF f _ mail_resolve mail_valid, of mail_row]
  have "xr_attempts mail_row \<le> 1 + (if td_idempotent (rt_definition mail_tool) then td_max_retries (rt_definition mail_tool) else 0)"
    by (simp add: no_executions_def)
  then show ?thesis using f by (simp add: mail_tool_def)
qed

lemma mail_attempts_after:
  "run_attempts mail_env mail_tool input sample_run_context 3 0 None (no_executions\<lparr>xs_world := 2, xs_sleeps := [200000]\<rparr>) =
     (Some (Inr [(''sent'', JBool True)]), 1, no_executions\<lparr>xs_world := 3, xs_sleeps := [200000]\<rparr>)"
  by (simp add: eval_nat_numeral mail_tool_def one_attempt_def)

theorem overlapping_calls_run_twice_witness:
  "\<exists>st3. finish_execution mail_env (rt_definition mail_tool) sample_run_context ''mail.send'' ''1.0.0'' (Some ''k1'')
       [] ''h'' (Some (Inr [(''sent'', JBool True)])) 1 st3 = (Inl (OtherError ''IntegrityError''), st3) \<and> xs_world st3 = (3 :: nat)"
proof -
  let ?st2 = "no_executions\<lparr>xs_world := 3, xs_sleeps := [200000]\<rparr>"
  have "\<exists>ev. finish_execution mail_env (rt_definition mail_tool) sample_run_context ''mail.send'' ''1.0.0'' (Some ''k1'') [] ''h''
      (Some (Inr [(''sent'', JBool True)])) 2 ?st2 = (Inr [(''sent'', JBool True)], ?st2\<lparr>xs_rows := [execution_row mail_env
        sample_run_context ''mail.send'' ''1.0.0'' (Some ''k1'') ''h'' 2 (Inr [(''sent'', JBool True)])], xs_audit := [ev]\<rparr>)"
    by (simp add: finish_execution_def record_execution_def tool_audit_ok [OF mail_context] no_executions_def)
  then obtain st3 where fin: "finish_execution mail_env (rt_definition mail_tool) sample_run_context ''mail.send'' ''1.0.0''
      (Some ''k1'') [] ''h'' (Some (Inr [(''sent'', JBool True)])) 2 ?st2 = (Inr [(''sent'', JBool True)], st3)" "xs_world st3 = 3"
    by auto
  have first: "run_attempts mail_env mail_tool [] sample_run_context 3 0 None no_executions =
      (Some (Inr [(''sent'', JBool True)]), 2, no_executions\<lparr>xs_world := 2, xs_sleeps := [200000]\<rparr>)"
    using mail_attempts [of "[]"] unfolding mail_allowed by (simp add: eval_nat_numeral)
  from overlapping_calls_run_twice [OF _ first mail_attempts_after fin(1)] show ?thesis
    using fin(2) by (auto simp: has_key_def)
qed

end
