(* ===== verification/Outbox.thy ===== *)
theory Outbox
  imports Events "HOL-Library.List_Lexorder" "HOL-Library.Char_ord"
begin

text \<open>
  The dispatcher of the transactional outbox: the batch operations of
  \<^verbatim>\<open>dw_platform/adapters/persistence/outbox_drain.py\<close> on the table of \<^verbatim>\<open>outbox_events\<close> and the
  consumer of \<^verbatim>\<open>dw_worker/consumers/outbox.py\<close>. Rows held by another worker's transaction are the set
  \<open>locked\<close> that \<^verbatim>\<open>SKIP LOCKED\<close> passes over; a handler acts on a world \<open>'w\<close>; \<open>clock\<close> gives the
  reading at which an event is settled.
\<close>

subsection \<open>The drain\<close>

record outbox_backlog =
  ob_pending :: nat
  ob_oldest_pending_at :: "instant option"

definition claimable :: "string list \<Rightarrow> int \<Rightarrow> outbox_event \<Rightarrow> bool" where
  "claimable types max_attempts e \<longleftrightarrow>
     oe_processed_at e = None \<and> oe_event_type e \<in> set types \<and> oe_attempts e < max_attempts"

definition candidates :: "uuid set \<Rightarrow> string list \<Rightarrow> nat \<Rightarrow> int \<Rightarrow> outbox_event list \<Rightarrow> uuid list" where
  "candidates locked types limit max_attempts rows =
     map oe_id (take limit (sort_by oe_occurred_at
       (filter (\<lambda>e. claimable types max_attempts e \<and> oe_id e \<notin> locked) rows)))"

definition claim_batch ::
  "uuid set \<Rightarrow> string list \<Rightarrow> nat \<Rightarrow> int \<Rightarrow> outbox_event list \<Rightarrow> outbox_event list \<times> outbox_event list" where
  "claim_batch locked types limit max_attempts rows =
     (if types = [] then ([], rows)
      else let claimed = candidates locked types limit max_attempts rows in
           if claimed = [] then ([], rows)
           else let rows' = map (\<lambda>e. if oe_id e \<in> set claimed then record_attempt e else e) rows
                in (sort_by oe_occurred_at (filter (\<lambda>e. oe_id e \<in> set claimed) rows'), rows'))"

definition drain_mark_processed :: "uuid \<Rightarrow> instant \<Rightarrow> outbox_event list \<Rightarrow> outbox_event list" where
  "drain_mark_processed i now rows =
     map (\<lambda>e. if oe_id e = i \<and> oe_processed_at e = None
              then e\<lparr>oe_processed_at := Some now, oe_last_error := None\<rparr> else e) rows"

definition drain_record_failure :: "uuid \<Rightarrow> string \<Rightarrow> outbox_event list \<Rightarrow> outbox_event list" where
  "drain_record_failure i err rows =
     map (\<lambda>e. if oe_id e = i then oe_record_failure e (take 2000 err) else e) rows"

definition drain_backlog :: "string list \<Rightarrow> int \<Rightarrow> outbox_event list \<Rightarrow> outbox_backlog" where
  "drain_backlog types max_attempts rows =
     (let pending = filter (claimable types max_attempts) rows in
      if types = [] \<or> pending = [] then \<lparr>ob_pending = 0, ob_oldest_pending_at = None\<rparr>
      else \<lparr>ob_pending = length pending, ob_oldest_pending_at = Some (Min (oe_occurred_at ` set pending))\<rparr>)"

subsection \<open>The consumer\<close>

text \<open>How a handler ends; an exception comes with the text it prints as.\<close>

datatype delivery_end = Delivered | Undeliverable string | Raised exc string

type_synonym 'w event_handler = "outbox_event \<Rightarrow> 'w \<Rightarrow> delivery_end \<times> 'w"

definition deliver_event ::
  "'w event_handler \<Rightarrow> (uuid \<Rightarrow> instant) \<Rightarrow> outbox_event \<Rightarrow> outbox_event list \<times> 'w \<Rightarrow> outbox_event list \<times> 'w" where
  "deliver_event h clock e s =
     (case h e (snd s) of
        (Undeliverable msg, w) \<Rightarrow> (drain_record_failure (oe_id e) (take 500 msg) (fst s), w)
      | (Raised x msg, w) \<Rightarrow> (drain_record_failure (oe_id e) (take 500 (exc_name x @ '': '' @ msg)) (fst s), w)
      | (Delivered, w) \<Rightarrow> (drain_mark_processed (oe_id e) (clock (oe_id e)) (fst s), w))"

fun deliver_all ::
  "(string \<times> 'w event_handler) list \<Rightarrow> (uuid \<Rightarrow> instant) \<Rightarrow> outbox_event list \<Rightarrow> outbox_event list \<times> 'w \<Rightarrow>
   unit res \<times> outbox_event list \<times> 'w" where
  "deliver_all handlers clock [] s = (Inr (), s)"
| "deliver_all handlers clock (e # es) s =
     (case map_of handlers (oe_event_type e) of
        None \<Rightarrow> (Inl KeyError, s)
      | Some h \<Rightarrow> deliver_all handlers clock es (deliver_event h clock e s))"

text \<open>One tick: the rows and the world after it, and the two gauges it reports.\<close>

definition outbox_consume ::
  "(string \<times> 'w event_handler) list \<Rightarrow> nat \<Rightarrow> int \<Rightarrow> uuid set \<Rightarrow> (uuid \<Rightarrow> instant) \<Rightarrow> instant \<Rightarrow>
   outbox_event list \<times> 'w \<Rightarrow> (nat \<times> int) res \<times> outbox_event list \<times> 'w" where
  "outbox_consume handlers batch_size max_attempts locked clock now s =
     (let types = sort (map fst handlers);
          (events, rows) = claim_batch locked types batch_size max_attempts (fst s)
      in case deliver_all handlers clock events (rows, snd s) of
           (Inl e, s') \<Rightarrow> (Inl e, s')
         | (Inr _, s') \<Rightarrow>
           (let b = drain_backlog types max_attempts (fst s')
            in (Inr (ob_pending b, case ob_oldest_pending_at b of None \<Rightarrow> 0 | Some t \<Rightarrow> now - t), s')))"

definition outbox_tick ::
  "(string \<times> 'w event_handler) list \<Rightarrow> nat \<Rightarrow> int \<Rightarrow> (nat \<Rightarrow> uuid \<Rightarrow> instant) \<Rightarrow> nat \<Rightarrow>
   outbox_event list \<times> 'w \<Rightarrow> outbox_event list \<times> 'w" where
  "outbox_tick handlers batch_size max_attempts clock i s =
     snd (outbox_consume handlers batch_size max_attempts {} (clock i) 0 s)"

subsection \<open>What a tick does to a row\<close>

text \<open>A row only moves forward: attempts grow and a processed row stays as it was processed.\<close>

definition advances :: "outbox_event \<Rightarrow> outbox_event \<Rightarrow> bool" where
  "advances e e' \<longleftrightarrow>
     oe_id e' = oe_id e \<and> oe_event_type e' = oe_event_type e \<and> oe_occurred_at e' = oe_occurred_at e \<and>
     oe_attempts e \<le> oe_attempts e' \<and> (oe_processed_at e \<noteq> None \<longrightarrow> oe_processed_at e' = oe_processed_at e)"

lemma advances_refl [simp]: "advances e e"
  by (simp add: advances_def)

lemma advances_trans: "advances a b \<Longrightarrow> advances b c \<Longrightarrow> advances a c"
  by (auto simp: advances_def)

lemma advances_all_trans:
  "list_all2 advances xs ys \<Longrightarrow> list_all2 advances ys zs \<Longrightarrow> list_all2 advances xs zs"
  using advances_trans by (rule list_all2_trans)

lemma advances_map: "(\<And>e. advances e (f e)) \<Longrightarrow> list_all2 advances rows (map f rows)"
  by (induction rows) auto

lemma advances_ids: "list_all2 advances xs ys \<Longrightarrow> map oe_id ys = map oe_id xs"
  by (induction rule: list_all2_induct) (auto simp: advances_def)

lemma deliver_event_advances: "list_all2 advances (fst s) (fst (deliver_event h clock e s))"
  by (auto simp: deliver_event_def drain_mark_processed_def drain_record_failure_def advances_def oe_record_failure_def
      intro!: advances_map split: prod.splits delivery_end.splits)

lemma deliver_all_advances: "list_all2 advances (fst s) (fst (snd (deliver_all handlers clock es s)))"
proof (induction es arbitrary: s)
  case Nil show ?case by (simp add: list_all2_same)
next
  case (Cons e es)
  show ?case
  proof (cases "map_of handlers (oe_event_type e)")
    case None then show ?thesis by (simp add: list_all2_same)
  next
    case (Some h)
    then show ?thesis using advances_all_trans [OF deliver_event_advances Cons.IH] by simp
  qed
qed

lemma deliver_all_ok:
  assumes "\<And>e. e \<in> set es \<Longrightarrow> oe_event_type e \<in> fst ` set handlers"
  shows "fst (deliver_all handlers clock es s) = Inr ()"
  using assms
proof (induction es arbitrary: s)
  case (Cons e es)
  then obtain h where "map_of handlers (oe_event_type e) = Some h" by (metis list.set_intros(1) map_of_eq_None_iff not_None_eq)
  with Cons show ?case by simp
qed simp

lemma deliver_all_rows_advance: "list_all2 advances rows (fst (snd (deliver_all handlers clock es (rows, w))))"
  using deliver_all_advances [of "(rows, w)"] by simp

subsection \<open>What is claimed\<close>

lemma candidates_claimable:
  assumes "i \<in> set (candidates locked types limit m rows)"
  shows "\<exists>e \<in> set rows. oe_id e = i \<and> claimable types m e \<and> i \<notin> locked"
proof -
  from assms obtain e where "e \<in> set (take limit (sort_by oe_occurred_at
      (filter (\<lambda>e. claimable types m e \<and> oe_id e \<notin> locked) rows)))" "oe_id e = i"
    by (auto simp: candidates_def)
  then show ?thesis by (auto dest!: in_set_takeD)
qed

lemma candidates_empty:
  "candidates locked types (Suc b) m rows = [] \<longleftrightarrow> (\<forall>e \<in> set rows. claimable types m e \<longrightarrow> oe_id e \<in> locked)"
  by (auto simp: candidates_def filter_empty_conv)

lemma claim_batch_advances: "list_all2 advances rows (snd (claim_batch locked types limit m rows))"
  by (auto simp: claim_batch_def Let_def list_all2_same record_attempt_def advances_def intro!: advances_map)

lemma claimed_event:
  assumes "e \<in> set (fst (claim_batch locked types limit m rows))" "distinct (map oe_id rows)"
  shows "\<exists>e0 \<in> set rows. e = record_attempt e0 \<and> claimable types m e0 \<and> oe_id e0 \<notin> locked"
proof -
  let ?cl = "candidates locked types limit m rows"
  from assms(1) obtain e0 where e0: "e0 \<in> set rows" "oe_id e0 \<in> set ?cl" "e = record_attempt e0"
    by (auto simp: claim_batch_def Let_def record_attempt_def split: if_splits)
  obtain e1 where e1: "e1 \<in> set rows" "oe_id e1 = oe_id e0" "claimable types m e1" "oe_id e0 \<notin> locked"
    using candidates_claimable [OF e0(2)] by blast
  then have "e1 = e0" using assms(2) e0(1) by (auto simp: distinct_map inj_on_def)
  with e0 e1 show ?thesis by blast
qed

lemma claim_batch_eq:
  "claim_batch locked types limit m rows =
     (sort_by oe_occurred_at (map record_attempt (filter (\<lambda>e. oe_id e \<in> set (candidates locked types limit m rows)) rows)),
      map (\<lambda>e. if oe_id e \<in> set (candidates locked types limit m rows) then record_attempt e else e) rows)"
proof -
  have bump: "filter (\<lambda>e. oe_id e \<in> A) (map (\<lambda>e. if oe_id e \<in> A then record_attempt e else e) rs) =
      map record_attempt (filter (\<lambda>e. oe_id e \<in> A) rs)" for A rs
    by (induction rs) (auto simp: record_attempt_def)
  have "types = [] \<Longrightarrow> candidates locked types limit m rows = []" by (simp add: candidates_def claimable_def)
  then show ?thesis by (auto simp: claim_batch_def Let_def bump map_idI)
qed

lemma claimed_rows:
  assumes "distinct (map oe_id rows)"
  shows "set (filter (\<lambda>e. oe_id e \<in> set (candidates locked types limit m rows)) rows) =
    set (take limit (sort_by oe_occurred_at (filter (\<lambda>e. claimable types m e \<and> oe_id e \<notin> locked) rows)))"
    (is "_ = set (take limit ?c)")
proof -
  have "set (take limit ?c) \<subseteq> set rows" by (auto dest!: in_set_takeD)
  then show ?thesis using assms by (auto simp: candidates_def distinct_map inj_on_def)
qed

subsection \<open>The backlog shrinks\<close>

text \<open>The attempts still owed to the events a dispatcher handles.\<close>

definition attempts_left :: "string list \<Rightarrow> int \<Rightarrow> outbox_event \<Rightarrow> nat" where
  "attempts_left types m e = (if claimable types m e then nat (m - oe_attempts e) else 0)"

definition attempts_owed :: "string list \<Rightarrow> int \<Rightarrow> outbox_event list \<Rightarrow> nat" where
  "attempts_owed types m rows = sum_list (map (attempts_left types m) rows)"

lemma attempts_owed_0: "attempts_owed types m rows = 0 \<longleftrightarrow> (\<forall>e \<in> set rows. \<not> claimable types m e)"
proof -
  have "attempts_left types m e = 0 \<longleftrightarrow> \<not> claimable types m e" for e by (auto simp: attempts_left_def claimable_def)
  then show ?thesis by (simp add: attempts_owed_def sum_list_eq_0_iff)
qed

lemma advances_attempts_left: "advances e e' \<Longrightarrow> attempts_left types m e' \<le> attempts_left types m e"
  by (auto simp: advances_def attempts_left_def claimable_def)

lemma advances_owed: "list_all2 advances xs ys \<Longrightarrow> attempts_owed types m ys \<le> attempts_owed types m xs"
  unfolding attempts_owed_def
  by (induction rule: list_all2_induct) (auto intro: add_mono advances_attempts_left)

lemma claim_batch_owed:
  assumes "attempts_owed types m rows \<noteq> 0"
  shows "attempts_owed types m (snd (claim_batch {} types (Suc b) m rows)) < attempts_owed types m rows"
proof -
  let ?cl = "candidates {} types (Suc b) m rows"
  let ?f = "\<lambda>e. if oe_id e \<in> set ?cl then record_attempt e else e"
  obtain e where e: "e \<in> set rows" "claimable types m e" using assms by (auto simp: attempts_owed_0)
  then have types: "types \<noteq> []" and some: "?cl \<noteq> []" using candidates_empty [of "{}" types b m rows] by (auto simp: claimable_def)
  then obtain i where "i \<in> set ?cl" by (meson ex_in_conv set_empty)
  then obtain d where d: "d \<in> set rows" "oe_id d \<in> set ?cl" "claimable types m d" using candidates_claimable by blast
  have "sum_list (map (\<lambda>e. attempts_left types m (?f e)) rows) < sum_list (map (attempts_left types m) rows)"
    by (rule sum_list_less [OF _ d(1)]) (use d(2,3) in \<open>auto simp: attempts_left_def claimable_def record_attempt_def\<close>)
  then show ?thesis using types some by (simp add: claim_batch_def Let_def attempts_owed_def comp_def)
qed

lemma outbox_tick_rows:
  assumes "distinct (map oe_id (fst s))"
  shows "fst (outbox_tick handlers b m clock i s) =
    fst (snd (deliver_all handlers (clock i) (fst (claim_batch {} (sort (map fst handlers)) b m (fst s)))
      (snd (claim_batch {} (sort (map fst handlers)) b m (fst s)), snd s)))"
proof -
  let ?types = "sort (map fst handlers)"
  obtain events rows where cl: "claim_batch {} ?types b m (fst s) = (events, rows)" by fastforce
  have "oe_event_type e \<in> fst ` set handlers" if "e \<in> set events" for e
    using claimed_event [of e "{}" ?types b m "fst s"] that assms cl by (force simp: claimable_def record_attempt_def)
  then have "fst (deliver_all handlers (clock i) events (rows, snd s)) = Inr ()" by (intro deliver_all_ok)
  then show ?thesis
    by (cases "deliver_all handlers (clock i) events (rows, snd s)") (auto simp: outbox_tick_def outbox_consume_def cl Let_def)
qed

lemma outbox_tick_advances:
  assumes "distinct (map oe_id (fst s))"
  shows "list_all2 advances (fst s) (fst (outbox_tick handlers b m clock i s))"
  unfolding outbox_tick_rows [OF assms]
  by (rule advances_all_trans [OF claim_batch_advances deliver_all_rows_advance])

lemma outbox_tick_owed:
  assumes "distinct (map oe_id (fst s))"
  shows "attempts_owed (sort (map fst handlers)) m (fst (outbox_tick handlers (Suc b) m clock i s))
         \<le> attempts_owed (sort (map fst handlers)) m (fst s) - 1"
proof (cases "attempts_owed (sort (map fst handlers)) m (fst s) = 0")
  case True
  then show ?thesis using advances_owed [OF outbox_tick_advances [OF assms]] by (metis diff_0_eq_0 le_zero_eq)
next
  case False
  have "attempts_owed (sort (map fst handlers)) m (fst (outbox_tick handlers (Suc b) m clock i s))
      \<le> attempts_owed (sort (map fst handlers)) m (snd (claim_batch {} (sort (map fst handlers)) (Suc b) m (fst s)))"
    unfolding outbox_tick_rows [OF assms] by (rule advances_owed [OF deliver_all_rows_advance])
  with claim_batch_owed [OF False, of b] show ?thesis by linarith
qed

interpretation outbox_lane: draining "\<lambda>s. distinct (map oe_id (fst s))" "outbox_tick handlers (Suc b) m clock"
    "\<lambda>s. attempts_owed (sort (map fst handlers)) m (fst s)"
  for handlers :: "(string \<times> 'w event_handler) list" and b m clock
proof
  fix s :: "outbox_event list \<times> 'w" and i
  assume d: "distinct (map oe_id (fst s))"
  show "distinct (map oe_id (fst (outbox_tick handlers (Suc b) m clock i s)))"
    using advances_ids [OF outbox_tick_advances [OF d]] d by metis
  show "attempts_owed (sort (map fst handlers)) m (fst (outbox_tick handlers (Suc b) m clock i s))
      \<le> attempts_owed (sort (map fst handlers)) m (fst s) - 1" by (rule outbox_tick_owed [OF d])
qed

subsection \<open>Properties\<close>

text \<open>
  C26: The outbox drains. Whatever the handlers do (deliver, refuse, crash), after as many ticks as
  attempts are owed no event of a handled type is left waiting: each one was processed or has used
  up its attempts; no event is lost, and none that was processed before is touched again.
\<close>

theorem outbox_drains:
  assumes "distinct (map oe_id rows)" "attempts_owed (sort (map fst handlers)) m rows \<le> n"
  shows "\<exists>rows' w'. ticks (outbox_tick handlers (Suc b) m clock) n (rows, w) = (rows', w') \<and>
           map oe_id rows' = map oe_id rows \<and>
           (\<forall>e \<in> set rows'. oe_event_type e \<in> fst ` set handlers \<longrightarrow> is_processed e \<or> m \<le> oe_attempts e)"
proof -
  have adv: "list_all2 advances (fst s) (fst (ticks (outbox_tick handlers (Suc b) m clock) k s))"
    if "distinct (map oe_id (fst s))" for k s
    using that
  proof (induction k arbitrary: s)
    case 0 show ?case by (simp add: list_all2_same)
  next
    case (Suc k)
    have "list_all2 advances (fst s) (fst (outbox_tick handlers (Suc b) m clock k s))" by (rule outbox_tick_advances [OF Suc.prems])
    from advances_all_trans [OF this Suc.IH] advances_ids [OF this] Suc.prems show ?case by simp
  qed
  let ?s = "ticks (outbox_tick handlers (Suc b) m clock) n (rows, w)"
  have "attempts_owed (sort (map fst handlers)) m (fst ?s) = 0"
    using outbox_lane.drained [of "(rows, w)" handlers m n b clock] assms by simp
  then have "\<forall>e \<in> set (fst ?s). oe_event_type e \<in> fst ` set handlers \<longrightarrow> is_processed e \<or> m \<le> oe_attempts e"
    by (auto simp: attempts_owed_0 claimable_def is_processed_def)
  then show ?thesis using advances_ids [OF adv [of "(rows, w)" n]] assms(1) by (metis fst_conv prod.collapse)
qed

text \<open>
  A claim takes the oldest waiting events, no more than the batch, in the order they happened,
  counts the attempt on each and leaves every other row and every row another worker holds alone.
\<close>

theorem claim_takes_oldest:
  assumes "distinct (map oe_id rows)" "claim_batch locked types limit m rows = (events, rows')"
  shows "length events \<le> limit \<and> sorted_on oe_occurred_at events \<and>
         (\<forall>e \<in> set events. \<exists>e0 \<in> set rows. e = record_attempt e0 \<and> claimable types m e0 \<and> oe_id e0 \<notin> locked) \<and>
         (\<forall>e \<in> set events. \<forall>e0 \<in> set rows. claimable types m e0 \<longrightarrow> oe_id e0 \<notin> locked \<longrightarrow> oe_id e0 \<notin> oe_id ` set events \<longrightarrow>
            oe_occurred_at e \<le> oe_occurred_at e0) \<and>
         rows' = map (\<lambda>e. if oe_id e \<in> oe_id ` set events then record_attempt e else e) rows"
proof -
  let ?p = "\<lambda>e. claimable types m e \<and> oe_id e \<notin> locked"
  let ?c = "sort_by oe_occurred_at (filter ?p rows)"
  let ?ids = "set (candidates locked types limit m rows)"
  let ?mine = "filter (\<lambda>e. oe_id e \<in> ?ids) rows"
  note mine = claimed_rows [OF assms(1), of locked types limit m]
  have events: "events = sort_by oe_occurred_at (map record_attempt ?mine)"
    and rows': "rows' = map (\<lambda>e. if oe_id e \<in> ?ids then record_attempt e else e) rows"
    using assms(2) unfolding claim_batch_eq by simp_all
  have "length ?mine = card (set ?mine)" using assms(1) by (metis distinct_card distinct_filter distinct_map)
  also have "\<dots> \<le> length (take limit ?c)" unfolding mine by (rule card_length)
  finally have len: "length events \<le> limit" unfolding events by simp
  have set_events: "set events = record_attempt ` set (take limit ?c)" unfolding events using mine by simp
  have same_ids: "oe_id ` set events = ?ids" unfolding set_events candidates_def by (simp add: image_image record_attempt_def)
  have oldest: "oe_occurred_at e \<le> oe_occurred_at e0"
    if e: "e \<in> set events" and e0: "e0 \<in> set rows" "?p e0" "oe_id e0 \<notin> ?ids" for e e0
  proof -
    have "e0 \<in> set ?c" "e0 \<notin> set (take limit ?c)" using e0 by (auto simp: candidates_def)
    then have "e0 \<in> set (drop limit ?c)" by (metis Un_iff append_take_drop_id set_append)
    moreover have "sorted_on oe_occurred_at (take limit ?c @ drop limit ?c)" by simp
    ultimately have "\<forall>x \<in> set (take limit ?c). oe_occurred_at x \<le> oe_occurred_at e0" unfolding sorted_on_append by blast
    then show ?thesis using e unfolding set_events by (auto simp: record_attempt_def)
  qed
  show ?thesis
    using len oldest claimed_event [of _ locked types limit m rows] assms same_ids
    by (auto simp: rows' events)
qed

subsection \<open>A drain, concretely\<close>

definition sample_event :: "uuid \<Rightarrow> instant \<Rightarrow> outbox_event" where
  "sample_event i t =
     \<lparr>oe_id = i, oe_tenant_id = 1, oe_workspace_id = 2, oe_event_type = ''crm.lead.created'', oe_schema_version = ''1'',
      oe_aggregate_id = 9, oe_occurred_at = t, oe_payload = [], oe_correlation_id = None, oe_causation_id = None,
      oe_actor_id = None, oe_processed_at = None, oe_attempts = 0, oe_last_error = None\<rparr>"

text \<open>A handler that fails on its first call and counts its calls.\<close>

definition flaky :: "nat event_handler" where
  "flaky e w = (if w = 0 then Raised TimeoutError ''late'' else Delivered, w + 1)"

theorem outbox_drains_witness:
  "\<exists>rows' w'. ticks (outbox_tick [(''crm.lead.created'', flaky)] (Suc 0) 3 (\<lambda>_ _. 50)) 6 ([sample_event 1 20, sample_event 2 10], 0) =
      (rows', w') \<and> (\<forall>e \<in> set rows'. oe_event_type e = ''crm.lead.created'' \<longrightarrow> is_processed e \<or> 3 \<le> oe_attempts e)"
proof -
  let ?rows = "[sample_event 1 20, sample_event 2 10]"
  have "distinct (map oe_id ?rows)" "attempts_owed (sort (map fst [(''crm.lead.created'', flaky)])) 3 ?rows \<le> 6"
    by (simp_all add: attempts_owed_def attempts_left_def claimable_def sample_event_def)
  from outbox_drains [OF this, of 0 "\<lambda>_ _. 50" 0] show ?thesis by auto
qed

theorem claim_takes_oldest_witness:
  "\<exists>events. fst (claim_batch {} [''crm.lead.created''] 1 3 [sample_event 1 20, sample_event 2 10]) = events \<and>
     length events \<le> 1 \<and> oe_id (hd events) = 2"
proof -
  let ?rows = "[sample_event 1 20, sample_event 2 10]"
  have d: "distinct (map oe_id ?rows)" by (simp add: sample_event_def)
  obtain events rows' where c: "claim_batch {} [''crm.lead.created''] 1 3 ?rows = (events, rows')" by fastforce
  have "oe_id (hd events) = 2" using c by (auto simp: claim_batch_def candidates_def claimable_def sample_event_def record_attempt_def)
  then show ?thesis using claim_takes_oldest [OF d c] c by simp
qed

end
