(* ===== verification/Notify.thy ===== *)
theory Notify
  imports Membership
begin

text \<open>
  In-app notifications and their delivery to linked chats: the database door
  \<^verbatim>\<open>platform.deliver_notification\<close> and the sweeps beside it (migrations \<^verbatim>\<open>855ae928c3fa\<close>,
  \<^verbatim>\<open>5a25154e0296\<close> and \<^verbatim>\<open>983b509c3f0f\<close>), the inbox of \<^verbatim>\<open>adapters/persistence/notifications.py\<close> and
  \<^verbatim>\<open>application/notifications.py\<close>, the channel outbox of \<^verbatim>\<open>channel_deliveries.py\<close> and the worker's lane
  \<^verbatim>\<open>dw_worker/consumers/channel_delivery.py\<close>. The chat provider and the lookup of a linked address are
  parameters; the provider acts on a world \<open>'w\<close>. A transaction of the lane that raises leaves its
  row as it was, so only the transactions that commit are steps of the model.
\<close>

subsection \<open>Tables\<close>

record notice =
  nt_id :: uuid
  nt_tenant_id :: uuid
  nt_workspace_id :: uuid
  nt_recipient :: uuid
  nt_source_key :: string
  nt_title :: ustr
  nt_body :: ustr
  nt_link :: "ustr option"
  nt_created_at :: instant
  nt_read_at :: "instant option"

datatype delivery_status = D_pending | D_sent | D_failed | D_cancelled

record delivery_row =
  dl_id :: uuid
  dl_tenant_id :: uuid
  dl_workspace_id :: uuid
  dl_recipient :: uuid
  dl_channel :: string
  dl_source_key :: string
  dl_title :: ustr
  dl_link :: "ustr option"
  dl_status :: delivery_status
  dl_attempts :: int
  dl_next_attempt_at :: instant
  dl_external_message_id :: "string option"
  dl_last_error :: "ustr option"
  dl_created_at :: instant

record notify_db =
  nd_notes :: "notice list"
  nd_deliveries :: "delivery_row list"
  nd_audit :: "audit_event list"

subsection \<open>The door\<close>

text \<open>The checks of both tables: Postgres's \<^verbatim>\<open>btrim\<close> removes spaces only.\<close>

definition spaces_only :: "ustr \<Rightarrow> bool" where
  "spaces_only s \<longleftrightarrow> list_all (\<lambda>c. c = 32) s"

definition link_char :: "bool \<Rightarrow> nat \<Rightarrow> bool" where
  "link_char inner c \<longleftrightarrow>
     (65 \<le> c \<and> c \<le> 90) \<or> (97 \<le> c \<and> c \<le> 122) \<or> (48 \<le> c \<and> c \<le> 57) \<or> c = 95 \<or> c = 45 \<or>
     (inner \<and> c \<in> {47, 46, 63, 61, 38})"

definition link_ok :: "ustr option \<Rightarrow> bool" where
  "link_ok l = (case l of None \<Rightarrow> True
     | Some [] \<Rightarrow> False
     | Some (c # cs) \<Rightarrow> c = 47 \<and> (case cs of [] \<Rightarrow> True | d # ds \<Rightarrow> link_char False d \<and> list_all (link_char True) ds))"

definition note_ok :: "string \<Rightarrow> ustr \<Rightarrow> ustr \<Rightarrow> ustr option \<Rightarrow> bool" where
  "note_ok key title body link \<longleftrightarrow>
     \<not> spaces_only (ulit key) \<and> \<not> spaces_only title \<and> length title \<le> 200 \<and> length body \<le> 2000 \<and> link_ok link"

definition is_workspace_member :: "identity_db \<Rightarrow> uuid \<Rightarrow> uuid \<Rightarrow> uuid \<Rightarrow> bool" where
  "is_workspace_member idb tenant ws user \<longleftrightarrow> list_ex (\<lambda>m. in_scope tenant ws m \<and> mr_user_id m = user) (id_members idb)"

definition new_delivery ::
  "uuid \<Rightarrow> instant \<Rightarrow> uuid \<Rightarrow> uuid \<Rightarrow> string \<Rightarrow> ustr \<Rightarrow> ustr option \<Rightarrow> uuid \<Rightarrow> string \<Rightarrow> delivery_row" where
  "new_delivery i now tenant ws key title link user channel =
     \<lparr>dl_id = i, dl_tenant_id = tenant, dl_workspace_id = ws, dl_recipient = user, dl_channel = channel,
      dl_source_key = key, dl_title = title, dl_link = link, dl_status = D_pending, dl_attempts = 0,
      dl_next_attempt_at = now, dl_external_message_id = None, dl_last_error = None, dl_created_at = now\<rparr>"

definition same_delivery :: "delivery_row \<Rightarrow> delivery_row \<Rightarrow> bool" where
  "same_delivery d d' \<longleftrightarrow>
     dl_tenant_id d = dl_tenant_id d' \<and> dl_channel d = dl_channel d' \<and> dl_source_key d = dl_source_key d' \<and>
     dl_recipient d = dl_recipient d'"

text \<open>\<^verbatim>\<open>INSERT ... ON CONFLICT DO NOTHING\<close>, row by row.\<close>

definition queue_delivery :: "delivery_row \<Rightarrow> delivery_row list \<Rightarrow> delivery_row list" where
  "queue_delivery d rows = (if list_ex (same_delivery d) rows then rows else rows @ [d])"

definition deliver_notification ::
  "identity_db \<Rightarrow> (uuid \<Rightarrow> uuid option) \<Rightarrow> (uuid \<Rightarrow> uuid) \<Rightarrow> (uuid \<Rightarrow> string \<Rightarrow> uuid) \<Rightarrow> instant \<Rightarrow> uuid option \<Rightarrow> uuid \<Rightarrow>
   uuid list \<Rightarrow> string \<Rightarrow> ustr \<Rightarrow> ustr \<Rightarrow> ustr option \<Rightarrow> notify_db \<Rightarrow> nat res \<times> notify_db" where
  "deliver_notification idb ws_tenant note_id delivery_id now tenant ws recipients key title body link db =
     (case tenant of
        None \<Rightarrow> (Inl (OtherError ''InsufficientPrivilege''), db)
      | Some t \<Rightarrow>
        if ws_tenant ws \<noteq> Some t then (Inl (OtherError ''InsufficientPrivilege''), db)
        else let proposed = filter (is_workspace_member idb t ws) (remdups recipients) in
             if proposed \<noteq> [] \<and> \<not> note_ok key title body link then (Inl (OtherError ''IntegrityError''), db)
             else let delivered = filter (\<lambda>u. \<not> list_ex (\<lambda>n. nt_recipient n = u \<and> nt_source_key n = key) (nd_notes db)) proposed;
                      notes = map (\<lambda>u. \<lparr>nt_id = note_id u, nt_tenant_id = t, nt_workspace_id = ws, nt_recipient = u,
                                         nt_source_key = key, nt_title = title, nt_body = body, nt_link = link,
                                         nt_created_at = now, nt_read_at = None\<rparr>) delivered;
                      linked = concat (map (\<lambda>u. map (\<lambda>x. (u, ir_provider x))
                                 (filter (\<lambda>x. ir_user_id x = u \<and> ir_provider x = ''zalo'') (id_external idb))) delivered);
                      queued = foldl (\<lambda>rows (u, ch). queue_delivery (new_delivery (delivery_id u ch) now t ws key title link u ch) rows)
                                 (nd_deliveries db) linked
                  in (Inr (length delivered), db\<lparr>nd_notes := nd_notes db @ notes, nd_deliveries := queued\<rparr>))"

text \<open>\<^verbatim>\<open>SqlNotificationRepository.deliver\<close>: the caller's own tenant and workspace.\<close>

definition inbox_deliver ::
  "identity_db \<Rightarrow> (uuid \<Rightarrow> uuid option) \<Rightarrow> (uuid \<Rightarrow> uuid) \<Rightarrow> (uuid \<Rightarrow> string \<Rightarrow> uuid) \<Rightarrow> instant \<Rightarrow> access_context \<Rightarrow>
   uuid list \<Rightarrow> string \<Rightarrow> ustr \<Rightarrow> ustr \<Rightarrow> ustr option \<Rightarrow> notify_db \<Rightarrow> unit res \<times> notify_db" where
  "inbox_deliver idb ws_tenant note_id delivery_id now c recipients key title body link db =
     (if recipients = [] then (Inr (), db)
      else case deliver_notification idb ws_tenant note_id delivery_id now (Some (ac_tenant_id c)) (ac_workspace_id c)
                  recipients key title body link db of
             (Inl e, db') \<Rightarrow> (Inl e, db')
           | (Inr _, db') \<Rightarrow> (Inr (), db'))"

subsection \<open>The inbox\<close>

definition INBOX_LIMIT :: nat where "INBOX_LIMIT = 50"

definition is_mine :: "access_context \<Rightarrow> notice \<Rightarrow> bool" where
  "is_mine c n \<longleftrightarrow> nt_tenant_id n = ac_tenant_id c \<and> nt_recipient n = ac_principal_id c"

definition inbox_latest :: "access_context \<Rightarrow> nat \<Rightarrow> notify_db \<Rightarrow> notice list \<times> nat" where
  "inbox_latest c limit db =
     (take limit (sort_by (\<lambda>n. - nt_created_at n) (sort_by (\<lambda>n. - int (nt_id n)) (filter (is_mine c) (nd_notes db)))),
      length (filter (\<lambda>n. is_mine c n \<and> nt_read_at n = None) (nd_notes db)))"

definition read_note :: "instant \<Rightarrow> notice \<Rightarrow> notice" where
  "read_note now n = n\<lparr>nt_read_at := Some (case nt_read_at n of None \<Rightarrow> now | Some t \<Rightarrow> t)\<rparr>"

definition inbox_mark_read :: "instant \<Rightarrow> access_context \<Rightarrow> uuid \<Rightarrow> notify_db \<Rightarrow> bool \<times> notify_db" where
  "inbox_mark_read now c i db =
     (list_ex (\<lambda>n. nt_id n = i \<and> is_mine c n) (nd_notes db),
      db\<lparr>nd_notes := map (\<lambda>n. if nt_id n = i \<and> is_mine c n then read_note now n else n) (nd_notes db)\<rparr>)"


definition notification_service_latest :: "access_context \<Rightarrow> notify_db \<Rightarrow> notice list \<times> nat" where
  "notification_service_latest c db = inbox_latest c INBOX_LIMIT db"

definition notification_service_mark_read :: "instant \<Rightarrow> access_context \<Rightarrow> uuid \<Rightarrow> notify_db \<Rightarrow> unit res \<times> notify_db" where
  "notification_service_mark_read now c i db =
     (case inbox_mark_read now c i db of
        (True, db') \<Rightarrow> (Inr (), db')
      | (False, db') \<Rightarrow> (raise_dw (NotFoundError ''no such notification''), db'))"


subsection \<open>The channel outbox\<close>

definition is_due :: "string \<Rightarrow> instant \<Rightarrow> delivery_row \<Rightarrow> bool" where
  "is_due channel now d \<longleftrightarrow> dl_status d = D_pending \<and> dl_channel d = channel \<and> dl_next_attempt_at d \<le> now"

text \<open>\<^verbatim>\<open>platform.channel_delivery_scopes_due\<close>: each scope once, in the order of its ids.\<close>

definition scopes_due :: "string \<Rightarrow> instant \<Rightarrow> delivery_row list \<Rightarrow> (uuid \<times> uuid) list" where
  "scopes_due channel now rows =
     (let scopes = remdups (map (\<lambda>d. (dl_tenant_id d, dl_workspace_id d)) (filter (is_due channel now) rows))
      in sort_by (\<lambda>x. int (fst x)) (sort_by (\<lambda>x. int (snd x)) scopes))"

definition claim_next :: "string \<Rightarrow> instant \<Rightarrow> uuid set \<Rightarrow> uuid \<times> uuid \<Rightarrow> delivery_row list \<Rightarrow> delivery_row option" where
  "claim_next channel now locked scope rows =
     (case sort_by dl_next_attempt_at (sort_by (\<lambda>d. int (dl_id d))
             (filter (\<lambda>d. is_due channel now d \<and> (dl_tenant_id d, dl_workspace_id d) = scope \<and> dl_id d \<notin> locked) rows)) of
        [] \<Rightarrow> None
      | d # _ \<Rightarrow> Some d)"

definition recipient_may_receive :: "identity_db \<Rightarrow> delivery_row \<Rightarrow> bool" where
  "recipient_may_receive idb d \<longleftrightarrow>
     is_workspace_member idb (dl_tenant_id d) (dl_workspace_id d) (dl_recipient d) \<and>
     list_ex (\<lambda>t. tr_id t = dl_tenant_id d \<and> tr_status t = ''active'') (id_tenants idb)"

definition ERROR_LIMIT :: nat where "ERROR_LIMIT = 500"

text \<open>\<^verbatim>\<open>_settle\<close>: one UPDATE of the held row, while it is pending.\<close>

definition settle :: "uuid \<Rightarrow> (delivery_row \<Rightarrow> delivery_row) \<Rightarrow> notify_db \<Rightarrow> notify_db" where
  "settle i f db =
     db\<lparr>nd_deliveries := map (\<lambda>d. if dl_id d = i \<and> dl_status d = D_pending then f d else d) (nd_deliveries db)\<rparr>"

definition LANE :: string where "LANE = ''channel_delivery''"

definition delivery_audit ::
  "(string \<Rightarrow> uuid) \<Rightarrow> uuid \<Rightarrow> instant \<Rightarrow> delivery_row \<Rightarrow> string \<Rightarrow> details \<Rightarrow> int \<Rightarrow> notify_db \<Rightarrow> notify_db" where
  "delivery_audit uuid5 ev_id now d action extra attempts db =
     db\<lparr>nd_audit := nd_audit db @
        [\<lparr>ae_id = ev_id, ae_tenant_id = dl_tenant_id d, ae_workspace_id = dl_workspace_id d,
          ae_actor_id = uuid5 (''system:'' @ LANE), ae_action = action, ae_resource_type = ''channel_delivery'',
          ae_resource_id = JUuid (dl_id d), ae_occurred_at = now, ae_run_id = None, ae_policy_decision = None,
          ae_trace_id = None,
          ae_details = dict_merge [(''channel'', JStr (dl_channel d)), (''attempts'', JInt attempts),
                                   (''recipient_user_id'', JUuid (dl_recipient d))]
                         (extra @ [(''actor'', JStr (''system:'' @ LANE))])\<rparr>]\<rparr>"

definition mark_sent ::
  "(string \<Rightarrow> uuid) \<Rightarrow> uuid \<Rightarrow> instant \<Rightarrow> delivery_row \<Rightarrow> string \<Rightarrow> string \<Rightarrow> notify_db \<Rightarrow> notify_db" where
  "mark_sent uuid5 ev now d message_id reference db =
     delivery_audit uuid5 ev now d ''channel_delivery.sent''
       [(''external_message_id'', JStr message_id), (''chat_id_hash'', JStr reference)] (dl_attempts d + 1)
       (settle (dl_id d) (\<lambda>r. r\<lparr>dl_status := D_sent, dl_attempts := dl_attempts d + 1,
                                 dl_external_message_id := Some message_id, dl_last_error := None\<rparr>) db)"

definition mark_failed ::
  "(string \<Rightarrow> uuid) \<Rightarrow> uuid \<Rightarrow> instant \<Rightarrow> delivery_row \<Rightarrow> string \<Rightarrow> ustr \<Rightarrow> notify_db \<Rightarrow> notify_db" where
  "mark_failed uuid5 ev now d reason err db =
     delivery_audit uuid5 ev now d ''channel_delivery.failed'' [(''reason'', JStr reason)] (dl_attempts d + 1)
       (settle (dl_id d) (\<lambda>r. r\<lparr>dl_status := D_failed, dl_attempts := dl_attempts d + 1,
                                 dl_last_error := Some (take ERROR_LIMIT (ulit reason @ ulit '': '' @ err))\<rparr>) db)"

definition mark_cancelled ::
  "(string \<Rightarrow> uuid) \<Rightarrow> uuid \<Rightarrow> instant \<Rightarrow> delivery_row \<Rightarrow> string \<Rightarrow> notify_db \<Rightarrow> notify_db" where
  "mark_cancelled uuid5 ev now d reason db =
     delivery_audit uuid5 ev now d ''channel_delivery.cancelled'' [(''reason'', JStr reason)] (dl_attempts d)
       (settle (dl_id d) (\<lambda>r. r\<lparr>dl_status := D_cancelled, dl_attempts := dl_attempts d,
                                 dl_last_error := Some (take ERROR_LIMIT (ulit reason))\<rparr>) db)"

definition retry_later :: "instant \<Rightarrow> delivery_row \<Rightarrow> ustr \<Rightarrow> int \<Rightarrow> notify_db \<Rightarrow> notify_db" where
  "retry_later now d err delay db =
     settle (dl_id d) (\<lambda>r. r\<lparr>dl_status := D_pending, dl_attempts := dl_attempts d + 1,
                             dl_last_error := Some (take ERROR_LIMIT err), dl_next_attempt_at := now + delay\<rparr>) db"

subsection \<open>The lane\<close>

definition MAX_ATTEMPTS :: int where "MAX_ATTEMPTS = 5"
definition BASE_DELAY :: int where "BASE_DELAY = minutes 1"
definition BATCH_PER_SCOPE :: nat where "BATCH_PER_SCOPE = 20"

definition backoff :: "int \<Rightarrow> int" where
  "backoff attempts_made = BASE_DELAY * 2 ^ nat (attempts_made - 1)"

definition rstrip_slash :: "ustr \<Rightarrow> ustr" where
  "rstrip_slash s = rev (dropWhile (\<lambda>c. c = 47) (rev s))"

definition compose :: "ustr \<Rightarrow> ustr \<Rightarrow> ustr \<Rightarrow> ustr option \<Rightarrow> ustr \<Rightarrow> ustr" where
  "compose tenant_name workspace_name title link web_url =
     ulit ''['' @ tenant_name @ [32, 183, 32] @ workspace_name @ ulit '']'' @ [10] @ title @ [10] @
     rstrip_slash web_url @ (case link of None \<Rightarrow> ulit ''/'' | Some [] \<Rightarrow> ulit ''/'' | Some l \<Rightarrow> l)"

text \<open>How a send ends: the provider's message id, a chat that cannot be reached, any other exception.\<close>

datatype send_end = Sent_as string | Unreachable ustr | Send_raised exc ustr

record 'w lane_env =
  le_channel :: string
  le_identity :: identity_db
  le_names :: "uuid \<times> uuid \<Rightarrow> ustr \<times> ustr"
  le_address_of :: "uuid \<Rightarrow> string option"
  le_send :: "string \<Rightarrow> ustr \<Rightarrow> 'w \<Rightarrow> send_end \<times> 'w"
  le_web_url :: ustr
  le_chat_reference :: "string \<Rightarrow> string \<Rightarrow> string"
  le_uuid5 :: "string \<Rightarrow> uuid"
  le_event_id :: "uuid \<Rightarrow> uuid"

definition delivery_text :: "'w lane_env \<Rightarrow> delivery_row \<Rightarrow> ustr" where
  "delivery_text env d =
     (case le_names env (dl_tenant_id d, dl_workspace_id d) of
        (tenant, ws) \<Rightarrow> compose tenant ws (dl_title d) (dl_link d) (le_web_url env))"

definition deliver_claim :: "'w lane_env \<Rightarrow> instant \<Rightarrow> delivery_row \<Rightarrow> notify_db \<times> 'w \<Rightarrow> notify_db \<times> 'w" where
  "deliver_claim env now d s =
     (let db = fst s; w = snd s; ev = le_event_id env (dl_id d) in
      if \<not> recipient_may_receive (le_identity env) d
      then (mark_cancelled (le_uuid5 env) ev now d ''recipient_not_member'' db, w)
      else case le_address_of env (dl_recipient d) of
             None \<Rightarrow> (mark_cancelled (le_uuid5 env) ev now d ''recipient_unlinked'' db, w)
           | Some chat \<Rightarrow>
             (case le_send env chat (delivery_text env d) w of
                (Unreachable msg, w') \<Rightarrow>
                  (mark_failed (le_uuid5 env) ev now d ''recipient_unreachable''
                     (ulit ''ChatRecipientUnreachableError: '' @ msg) db, w')
              | (Send_raised x msg, w') \<Rightarrow>
                  (let made = dl_attempts d + 1; err = ulit (exc_name x) @ ulit '': '' @ msg in
                   if made \<ge> MAX_ATTEMPTS
                   then (mark_failed (le_uuid5 env) ev now d ''attempts_exhausted'' err db, w')
                   else (retry_later now d err (backoff made) db, w'))
              | (Sent_as message_id, w') \<Rightarrow>
                  (mark_sent (le_uuid5 env) ev now d message_id (le_chat_reference env (le_channel env) chat) db, w')))"

text \<open>One scope: up to a batch of claims, stopping at the first that finds nothing.\<close>

fun deliver_scope :: "'w lane_env \<Rightarrow> instant \<Rightarrow> uuid set \<Rightarrow> nat \<Rightarrow> uuid \<times> uuid \<Rightarrow> notify_db \<times> 'w \<Rightarrow> notify_db \<times> 'w" where
  "deliver_scope env now locked 0 scope s = s"
| "deliver_scope env now locked (Suc n) scope s =
     (case claim_next (le_channel env) now locked scope (nd_deliveries (fst s)) of
        None \<Rightarrow> s
      | Some d \<Rightarrow> deliver_scope env now locked n scope (deliver_claim env now d s))"

definition delivery_consume :: "'w lane_env \<Rightarrow> nat \<Rightarrow> uuid set \<Rightarrow> instant \<Rightarrow> notify_db \<times> 'w \<Rightarrow> notify_db \<times> 'w" where
  "delivery_consume env batch locked now s =
     foldl (\<lambda>s scope. deliver_scope env now locked batch scope s) s
       (scopes_due (le_channel env) now (nd_deliveries (fst s)))"

subsection \<open>The sweeps\<close>





subsection \<open>What settling does to a row\<close>

text \<open>The CHECK constraints of the table, and that a pending row still has an attempt left.\<close>

definition delivery_ok :: "delivery_row \<Rightarrow> bool" where
  "delivery_ok d \<longleftrightarrow>
     0 \<le> dl_attempts d \<and> dl_attempts d \<le> MAX_ATTEMPTS \<and> (dl_status d = D_pending \<longrightarrow> dl_attempts d < MAX_ATTEMPTS) \<and>
     (dl_status d = D_sent \<longrightarrow> dl_external_message_id d \<noteq> None) \<and>
     (case dl_last_error d of None \<Rightarrow> True | Some e \<Rightarrow> length e \<le> 500)"

definition same_message :: "delivery_row \<Rightarrow> delivery_row \<Rightarrow> bool" where
  "same_message d d' \<longleftrightarrow>
     dl_id d' = dl_id d \<and> dl_tenant_id d' = dl_tenant_id d \<and> dl_workspace_id d' = dl_workspace_id d \<and>
     dl_recipient d' = dl_recipient d \<and> dl_channel d' = dl_channel d \<and> dl_source_key d' = dl_source_key d \<and>
     dl_title d' = dl_title d \<and> dl_link d' = dl_link d"

definition settled_from :: "instant \<Rightarrow> delivery_row \<Rightarrow> delivery_row \<Rightarrow> bool" where
  "settled_from now d d' \<longleftrightarrow>
     same_message d d' \<and> delivery_ok d' \<and>
     (dl_status d' = D_pending \<longrightarrow>
        dl_attempts d' = dl_attempts d + 1 \<and> dl_next_attempt_at d' = now + backoff (dl_attempts d'))"

lemma backoff_bounds: "0 < n \<Longrightarrow> n < MAX_ATTEMPTS \<Longrightarrow> backoff n \<le> minutes 8"
proof -
  assume "0 < n" "n < MAX_ATTEMPTS"
  then have "n = 1 \<or> n = 2 \<or> n = 3 \<or> n = 4" by (auto simp: MAX_ATTEMPTS_def)
  then show ?thesis by (auto simp: backoff_def BASE_DELAY_def)
qed

lemma settle_row:
  assumes "d \<in> set (nd_deliveries db)" "distinct (map dl_id (nd_deliveries db))" "dl_status d = D_pending"
  shows "nd_deliveries (settle (dl_id d) f db) = map (\<lambda>r. if dl_id r = dl_id d then f d else r) (nd_deliveries db)"
proof -
  have "r = d" if "r \<in> set (nd_deliveries db)" "dl_id r = dl_id d" for r
    using that assms(1,2) by (auto simp: distinct_map inj_on_def)
  then show ?thesis using assms(3) by (auto simp: settle_def)
qed

lemma delivery_audit_rows [simp]: "nd_deliveries (delivery_audit u i now d a x n db) = nd_deliveries db"
  by (simp add: delivery_audit_def)

lemma settled_rows:
  assumes "dl_status d = D_pending" "delivery_ok d"
  shows "settled_from now d (d\<lparr>dl_status := D_sent, dl_attempts := dl_attempts d + 1, dl_external_message_id := Some m, dl_last_error := None\<rparr>)"
    "settled_from now d (d\<lparr>dl_status := D_failed, dl_attempts := dl_attempts d + 1, dl_last_error := Some (take ERROR_LIMIT e)\<rparr>)"
    "settled_from now d (d\<lparr>dl_status := D_cancelled, dl_attempts := dl_attempts d, dl_last_error := Some (take ERROR_LIMIT e)\<rparr>)"
    "dl_attempts d + 1 < MAX_ATTEMPTS \<Longrightarrow> settled_from now d (d\<lparr>dl_status := D_pending, dl_attempts := dl_attempts d + 1,
       dl_last_error := Some (take ERROR_LIMIT e), dl_next_attempt_at := now + backoff (dl_attempts d + 1)\<rparr>)"
  using assms by (simp_all add: settled_from_def same_message_def delivery_ok_def ERROR_LIMIT_def split: option.splits)

lemma deliver_claim_settles:
  assumes "dl_status d = D_pending" "delivery_ok d"
  shows "\<exists>f. settled_from now d (f d) \<and> nd_deliveries (fst (deliver_claim env now d s)) = nd_deliveries (settle (dl_id d) f (fst s))"
proof (cases "recipient_may_receive (le_identity env) d")
  case False
  then show ?thesis using settled_rows(3) [OF assms] by (fastforce simp: deliver_claim_def mark_cancelled_def Let_def)
next
  case member: True
  show ?thesis
  proof (cases "le_address_of env (dl_recipient d)")
    case None
    then show ?thesis using member settled_rows(3) [OF assms] by (fastforce simp: deliver_claim_def mark_cancelled_def Let_def)
  next
    case (Some chat)
    obtain r w' where r: "le_send env chat (delivery_text env d) (snd s) = (r, w')" by fastforce
    note eq = deliver_claim_def Let_def member Some r
    show ?thesis
    proof (cases r)
      case (Sent_as m) then show ?thesis using settled_rows(1) [OF assms] by (fastforce simp: eq mark_sent_def)
    next
      case (Unreachable msg)
      let ?e = "ulit ''recipient_unreachable'' @ ulit '': '' @ ulit ''ChatRecipientUnreachableError: '' @ msg"
      show ?thesis
        by (rule exI [of _ "\<lambda>r. r\<lparr>dl_status := D_failed, dl_attempts := dl_attempts d + 1, dl_last_error := Some (take ERROR_LIMIT ?e)\<rparr>"])
          (simp add: eq Unreachable mark_failed_def settled_rows(2) [OF assms] del: take_append)
    next
      case (Send_raised x msg)
      show ?thesis
      proof (cases "MAX_ATTEMPTS \<le> dl_attempts d + 1")
        case True then show ?thesis using Send_raised settled_rows(2) [OF assms] by (fastforce simp: eq mark_failed_def simp del: take_append)
      next
        case False then show ?thesis using Send_raised settled_rows(4) [OF assms] by (fastforce simp: eq retry_later_def simp del: take_append)
      qed
    qed
  qed
qed

lemma deliver_claim_row:
  assumes "d \<in> set (nd_deliveries (fst s))" "distinct (map dl_id (nd_deliveries (fst s)))" "dl_status d = D_pending" "delivery_ok d"
  shows "\<exists>d'. settled_from now d d' \<and>
     nd_deliveries (fst (deliver_claim env now d s)) = map (\<lambda>r. if dl_id r = dl_id d then d' else r) (nd_deliveries (fst s))"
  using deliver_claim_settles [OF assms(3,4), of now env s] settle_row [OF assms(1-3)] by metis

lemma claim_next_Some:
  assumes "claim_next channel now locked scope rows = Some d"
  shows "d \<in> set rows" "is_due channel now d" "(dl_tenant_id d, dl_workspace_id d) = scope" "dl_id d \<notin> locked"
proof -
  let ?rows = "sort_by dl_next_attempt_at (sort_by (\<lambda>d. int (dl_id d))
             (filter (\<lambda>d. is_due channel now d \<and> (dl_tenant_id d, dl_workspace_id d) = scope \<and> dl_id d \<notin> locked) rows))"
  from assms have "d \<in> set ?rows" unfolding claim_next_def by (cases ?rows) auto
  then show "d \<in> set rows" "is_due channel now d" "(dl_tenant_id d, dl_workspace_id d) = scope" "dl_id d \<notin> locked" by auto
qed

lemma claim_next_None:
  "claim_next channel now locked scope rows = None \<longleftrightarrow>
     (\<forall>d \<in> set rows. is_due channel now d \<longrightarrow> (dl_tenant_id d, dl_workspace_id d) = scope \<longrightarrow> dl_id d \<in> locked)"
proof -
  let ?xs = "sort_by dl_next_attempt_at (sort_by (\<lambda>d. int (dl_id d))
             (filter (\<lambda>d. is_due channel now d \<and> (dl_tenant_id d, dl_workspace_id d) = scope \<and> dl_id d \<notin> locked) rows))"
  have "claim_next channel now locked scope rows = None \<longleftrightarrow> ?xs = []"
    unfolding claim_next_def by (cases ?xs) (simp_all del: sort_by_Nil_iff)
  then show ?thesis by (auto simp: filter_empty_conv)
qed

subsection \<open>A tick\<close>

definition lane_rows_ok :: "string \<Rightarrow> instant \<Rightarrow> delivery_row list \<Rightarrow> bool" where
  "lane_rows_ok channel by_time rows \<longleftrightarrow>
     distinct (map dl_id rows) \<and> list_all delivery_ok rows \<and>
     list_all (\<lambda>d. dl_status d = D_pending \<and> dl_channel d = channel \<longrightarrow> dl_next_attempt_at d \<le> by_time) rows"

definition delivery_left :: "string \<Rightarrow> delivery_row \<Rightarrow> nat" where
  "delivery_left channel d = (if dl_status d = D_pending \<and> dl_channel d = channel then nat (MAX_ATTEMPTS - dl_attempts d) else 0)"

definition deliveries_owed :: "string \<Rightarrow> delivery_row list \<Rightarrow> nat" where
  "deliveries_owed channel rows = sum_list (map (delivery_left channel) rows)"

lemma nothing_owed:
  assumes "deliveries_owed channel rows = 0" "list_all delivery_ok rows" "d \<in> set rows" "dl_channel d = channel"
  shows "dl_status d \<noteq> D_pending"
proof -
  have "delivery_left channel d = 0" using assms(1,3) by (simp add: deliveries_owed_def sum_list_eq_0_iff)
  then show ?thesis using assms(2-4) by (auto simp: delivery_left_def delivery_ok_def list_all_iff)
qed

lemma replaced_ids: "dl_id d' = i \<Longrightarrow> map dl_id (map (\<lambda>r. if dl_id r = i then d' else r) rows) = map dl_id rows"
  by auto

lemma claim_step:
  assumes ok: "lane_rows_ok (le_channel env) (now + minutes 8) (nd_deliveries (fst s))"
    and claim: "claim_next (le_channel env) now locked scope (nd_deliveries (fst s)) = Some d"
  shows "lane_rows_ok (le_channel env) (now + minutes 8) (nd_deliveries (fst (deliver_claim env now d s)))"
    "deliveries_owed (le_channel env) (nd_deliveries (fst (deliver_claim env now d s)))
       < deliveries_owed (le_channel env) (nd_deliveries (fst s))"
proof -
  let ?rows = "nd_deliveries (fst s)"
  note d = claim_next_Some(1,2) [OF claim]
  have props: "distinct (map dl_id ?rows)" "delivery_ok d" "dl_status d = D_pending" "dl_channel d = le_channel env"
    using ok d by (auto simp: lane_rows_ok_def list_all_iff is_due_def)
  obtain d' where d': "settled_from now d d'"
      "nd_deliveries (fst (deliver_claim env now d s)) = map (\<lambda>r. if dl_id r = dl_id d then d' else r) ?rows"
    using deliver_claim_row [OF d(1) props(1,3,2)] by blast
  have same: "dl_id d' = dl_id d" "delivery_ok d'" using d'(1) by (auto simp: settled_from_def same_message_def)
  have "dl_next_attempt_at d' \<le> now + minutes 8" if "dl_status d' = D_pending"
    using that d'(1) same(2) props(2) backoff_bounds [of "dl_attempts d'"] by (auto simp: settled_from_def delivery_ok_def)
  then show "lane_rows_ok (le_channel env) (now + minutes 8) (nd_deliveries (fst (deliver_claim env now d s)))"
    using ok same unfolding d'(2) lane_rows_ok_def replaced_ids [OF same(1)] by (auto simp: list_all_iff)
  have less: "delivery_left (le_channel env) d' < delivery_left (le_channel env) d"
    using d'(1) props(2-4) by (auto simp: settled_from_def same_message_def delivery_left_def delivery_ok_def)
  have only: "r = d" if "r \<in> set ?rows" "dl_id r = dl_id d" for r
    using that d(1) props(1) by (auto simp: distinct_map inj_on_def)
  have "sum_list (map (\<lambda>r. delivery_left (le_channel env) (if dl_id r = dl_id d then d' else r)) ?rows)
      < sum_list (map (delivery_left (le_channel env)) ?rows)"
    by (rule sum_list_less [OF _ d(1)]) (use less only in \<open>auto intro: less_imp_le\<close>)
  then show "deliveries_owed (le_channel env) (nd_deliveries (fst (deliver_claim env now d s)))
       < deliveries_owed (le_channel env) ?rows"
    unfolding d'(2) by (simp add: deliveries_owed_def comp_def)
qed

lemma deliver_scope_step:
  assumes "lane_rows_ok (le_channel env) (now + minutes 8) (nd_deliveries (fst s))"
  shows "lane_rows_ok (le_channel env) (now + minutes 8) (nd_deliveries (fst (deliver_scope env now locked n scope s))) \<and>
         deliveries_owed (le_channel env) (nd_deliveries (fst (deliver_scope env now locked n scope s)))
           \<le> deliveries_owed (le_channel env) (nd_deliveries (fst s))"
  using assms
proof (induction n arbitrary: s)
  case (Suc n)
  show ?case
  proof (cases "claim_next (le_channel env) now locked scope (nd_deliveries (fst s))")
    case None then show ?thesis using Suc.prems by simp
  next
    case (Some d)
    from Suc.IH [OF claim_step(1) [OF Suc.prems Some]] claim_step(2) [OF Suc.prems Some] show ?thesis
      using Some by simp
  qed
qed simp

lemma deliver_scopes_step:
  assumes "lane_rows_ok (le_channel env) (now + minutes 8) (nd_deliveries (fst s))"
  shows "lane_rows_ok (le_channel env) (now + minutes 8)
           (nd_deliveries (fst (foldl (\<lambda>s scope. deliver_scope env now locked n scope s) s scopes))) \<and>
         deliveries_owed (le_channel env) (nd_deliveries (fst (foldl (\<lambda>s scope. deliver_scope env now locked n scope s) s scopes)))
           \<le> deliveries_owed (le_channel env) (nd_deliveries (fst s))"
  using assms
proof (induction scopes arbitrary: s)
  case (Cons scope scopes)
  from deliver_scope_step [OF Cons.prems, of locked n scope] Cons.IH [of "deliver_scope env now locked n scope s"]
  show ?case by auto
qed simp

lemma delivery_consume_step:
  assumes "lane_rows_ok (le_channel env) now (nd_deliveries (fst s))"
  shows "lane_rows_ok (le_channel env) (now + minutes 8) (nd_deliveries (fst (delivery_consume env (Suc b) {} now s)))"
    "deliveries_owed (le_channel env) (nd_deliveries (fst (delivery_consume env (Suc b) {} now s)))
       \<le> deliveries_owed (le_channel env) (nd_deliveries (fst s)) - 1"
proof -
  let ?rows = "nd_deliveries (fst s)" and ?ch = "le_channel env"
  have ok: "lane_rows_ok ?ch (now + minutes 8) ?rows" using assms by (auto simp: lane_rows_ok_def list_all_iff)
  show "lane_rows_ok ?ch (now + minutes 8) (nd_deliveries (fst (delivery_consume env (Suc b) {} now s)))"
    using deliver_scopes_step [OF ok] by (simp add: delivery_consume_def del: deliver_scope.simps)
  show "deliveries_owed ?ch (nd_deliveries (fst (delivery_consume env (Suc b) {} now s))) \<le> deliveries_owed ?ch ?rows - 1"
  proof (cases "scopes_due ?ch now ?rows")
    case Nil
    then have "\<not> is_due ?ch now d" if "d \<in> set ?rows" for d
      using that by (auto simp: scopes_due_def Let_def filter_empty_conv)
    then have "delivery_left ?ch d = 0" if "d \<in> set ?rows" for d
      using that assms by (auto simp: delivery_left_def is_due_def lane_rows_ok_def list_all_iff)
    then have "deliveries_owed ?ch ?rows = 0" by (simp add: deliveries_owed_def sum_list_eq_0_iff)
    then show ?thesis using Nil by (simp add: delivery_consume_def)
  next
    case (Cons scope rest)
    then have "scope \<in> set (scopes_due ?ch now ?rows)" by simp
    then obtain d where "d \<in> set ?rows" "is_due ?ch now d" "(dl_tenant_id d, dl_workspace_id d) = scope"
      by (auto simp: scopes_due_def Let_def)
    then obtain c where c: "claim_next ?ch now {} scope ?rows = Some c" using claim_next_None [of ?ch now "{}" scope ?rows] by fastforce
    have "deliveries_owed ?ch (nd_deliveries (fst (deliver_scope env now {} (Suc b) scope s))) < deliveries_owed ?ch ?rows"
      using deliver_scope_step [OF claim_step(1) [OF ok c]] claim_step(2) [OF ok c] c
      by (metis (no_types, lifting) deliver_scope.simps(2) le_less_trans option.simps(5))
    moreover have "lane_rows_ok ?ch (now + minutes 8) (nd_deliveries (fst (deliver_scope env now {} (Suc b) scope s)))"
      using deliver_scope_step [OF ok] by blast
    ultimately show ?thesis
      using deliver_scopes_step [of env now "deliver_scope env now {} (Suc b) scope s" "{}" "Suc b" rest]
      by (simp add: delivery_consume_def Cons del: deliver_scope.simps) linarith
  qed
qed

text \<open>The lane on its own clock: a tick, then at least the longest backoff passes.\<close>

definition lane_tick :: "'w lane_env \<Rightarrow> nat \<Rightarrow> int \<Rightarrow> nat \<Rightarrow> (notify_db \<times> 'w) \<times> instant \<Rightarrow> (notify_db \<times> 'w) \<times> instant" where
  "lane_tick env batch gap i s = (delivery_consume env batch {} (snd s) (fst s), snd s + max gap (minutes 8))"

interpretation delivery_lane: draining "\<lambda>s. lane_rows_ok (le_channel env) (snd s) (nd_deliveries (fst (fst s)))"
    "lane_tick env (Suc b) gap" "\<lambda>s. deliveries_owed (le_channel env) (nd_deliveries (fst (fst s)))"
  for env :: "'w lane_env" and b gap
proof
  fix s :: "(notify_db \<times> 'w) \<times> instant" and i
  assume ok: "lane_rows_ok (le_channel env) (snd s) (nd_deliveries (fst (fst s)))"
  note step = delivery_consume_step [OF ok, of b]
  show "lane_rows_ok (le_channel env) (snd (lane_tick env (Suc b) gap i s))
      (nd_deliveries (fst (fst (lane_tick env (Suc b) gap i s))))"
    using step(1) by (auto simp: lane_tick_def lane_rows_ok_def list_all_iff intro: order_trans)
  show "deliveries_owed (le_channel env) (nd_deliveries (fst (fst (lane_tick env (Suc b) gap i s))))
      \<le> deliveries_owed (le_channel env) (nd_deliveries (fst (fst s))) - 1"
    using step(2) by (simp add: lane_tick_def)
qed

subsection \<open>What reaches a chat\<close>

definition rightful :: "'w lane_env \<Rightarrow> delivery_row list \<Rightarrow> string \<Rightarrow> ustr \<Rightarrow> bool" where
  "rightful env rows chat said \<longleftrightarrow>
     (\<exists>d \<in> set rows. le_address_of env (dl_recipient d) = Some chat \<and> recipient_may_receive (le_identity env) d \<and>
        dl_channel d = le_channel env \<and> said = delivery_text env d)"

lemma deliver_claim_sends:
  assumes "\<And>chat said w. snd (le_send env chat said w) = w @ [(chat, said)]"
    and "d \<in> set rows" "dl_channel d = le_channel env"
  shows "\<exists>new. snd (deliver_claim env now d s) = snd s @ new \<and> (\<forall>(chat, said) \<in> set new. rightful env rows chat said)"
proof -
  have sent: "le_send env chat said w = (r, w') \<Longrightarrow> w' = w @ [(chat, said)]" for chat said w r w'
    using assms(1) by (metis snd_conv)
  have "snd (deliver_claim env now d s) = snd s \<or>
      (\<exists>chat. le_address_of env (dl_recipient d) = Some chat \<and> recipient_may_receive (le_identity env) d \<and>
              snd (deliver_claim env now d s) = snd s @ [(chat, delivery_text env d)])"
    by (auto simp: deliver_claim_def Let_def dest!: sent split: option.splits prod.splits send_end.splits)
  then show ?thesis
  proof
    assume "snd (deliver_claim env now d s) = snd s"
    then show ?thesis by (intro exI [of _ "[]"]) simp
  next
    assume "\<exists>chat. le_address_of env (dl_recipient d) = Some chat \<and> recipient_may_receive (le_identity env) d \<and>
              snd (deliver_claim env now d s) = snd s @ [(chat, delivery_text env d)]"
    then show ?thesis using assms(2,3) by (auto simp: rightful_def)
  qed
qed

subsection \<open>Induction over the claims of a tick\<close>

lemma deliver_scope_keeps:
  assumes "\<And>s d. P s \<Longrightarrow> claim_next (le_channel env) now locked scope (nd_deliveries (fst s)) = Some d \<Longrightarrow>
      P (deliver_claim env now d s)" and "P s"
  shows "P (deliver_scope env now locked n scope s)"
  using assms(2)
proof (induction n arbitrary: s)
  case (Suc n)
  show ?case
  proof (cases "claim_next (le_channel env) now locked scope (nd_deliveries (fst s))")
    case (Some d) then show ?thesis using Suc.IH [OF assms(1) [OF Suc.prems Some]] by simp
  qed (use Suc.prems in simp)
qed simp

lemma delivery_consume_keeps:
  assumes "\<And>s scope d. P s \<Longrightarrow> claim_next (le_channel env) now locked scope (nd_deliveries (fst s)) = Some d \<Longrightarrow>
      P (deliver_claim env now d s)" and "P s"
  shows "P (delivery_consume env batch locked now s)"
proof -
  have "P (foldl (\<lambda>s scope. deliver_scope env now locked batch scope s) s0 scopes)" if "P s0" for s0 scopes
    using that
  proof (induction scopes arbitrary: s0)
    case (Cons scope scopes)
    have "P (deliver_scope env now locked batch scope s0)" using deliver_scope_keeps [of P env now locked scope] assms(1) Cons.prems by blast
    then show ?case using Cons.IH by simp
  qed simp
  then show ?thesis using assms(2) by (simp add: delivery_consume_def)
qed

definition delivery_key :: "delivery_row \<Rightarrow> uuid \<times> string \<times> string \<times> uuid" where
  "delivery_key d = (dl_tenant_id d, dl_channel d, dl_source_key d, dl_recipient d)"

definition deliveries_ok :: "delivery_row list \<Rightarrow> bool" where
  "deliveries_ok rows \<longleftrightarrow> distinct (map dl_id rows) \<and> list_all delivery_ok rows \<and> distinct (map delivery_key rows)"

lemma claim_keeps:
  assumes ok: "deliveries_ok (nd_deliveries (fst s))"
    and claim: "claim_next channel now locked scope (nd_deliveries (fst s)) = Some d"
  shows "deliveries_ok (nd_deliveries (fst (deliver_claim env now d s)))"
    "\<forall>r' \<in> set (nd_deliveries (fst (deliver_claim env now d s))). \<exists>r \<in> set (nd_deliveries (fst s)). same_message r r'"
proof -
  let ?rows = "nd_deliveries (fst s)"
  note d = claim_next_Some(1,2) [OF claim]
  have dok: "distinct (map dl_id ?rows)" "delivery_ok d" "dl_status d = D_pending"
    using ok d by (auto simp: deliveries_ok_def list_all_iff is_due_def)
  obtain d' where d': "settled_from now d d'"
      "nd_deliveries (fst (deliver_claim env now d s)) = map (\<lambda>r. if dl_id r = dl_id d then d' else r) ?rows"
    using deliver_claim_row [OF d(1) dok(1,3,2)] by blast
  have same: "dl_id d' = dl_id d" "delivery_ok d'" "delivery_key d' = delivery_key d" "same_message d d'"
    using d'(1) by (auto simp: settled_from_def same_message_def delivery_key_def)
  have only: "r = d" if "r \<in> set ?rows" "dl_id r = dl_id d" for r
    using that d(1) dok(1) by (auto simp: distinct_map inj_on_def)
  have keys: "map delivery_key (map (\<lambda>r. if dl_id r = dl_id d then d' else r) ?rows) = map delivery_key ?rows"
    using only same(3) by auto
  show "deliveries_ok (nd_deliveries (fst (deliver_claim env now d s)))"
    using ok same(2) unfolding d'(2) deliveries_ok_def replaced_ids [OF same(1)] keys by (auto simp: list_all_iff)
  have refl: "same_message r r" for r by (simp add: same_message_def)
  show "\<forall>r' \<in> set (nd_deliveries (fst (deliver_claim env now d s))). \<exists>r \<in> set ?rows. same_message r r'"
    unfolding d'(2) using d(1) same(4) refl by auto
qed

lemma rightful_mono:
  assumes "rightful env rows' chat said" "\<forall>r' \<in> set rows'. \<exists>r \<in> set rows. same_message r r'"
  shows "rightful env rows chat said"
proof -
  from assms(1) obtain d' where d': "d' \<in> set rows'" "le_address_of env (dl_recipient d') = Some chat"
      "recipient_may_receive (le_identity env) d'" "dl_channel d' = le_channel env" "said = delivery_text env d'"
    by (auto simp: rightful_def)
  with assms(2) obtain d where d: "d \<in> set rows" "same_message d d'" by blast
  then have "le_address_of env (dl_recipient d) = Some chat" "recipient_may_receive (le_identity env) d"
    "dl_channel d = le_channel env" "said = delivery_text env d"
    using d' by (simp_all add: same_message_def recipient_may_receive_def delivery_text_def)
  with d(1) show ?thesis by (auto simp: rightful_def)
qed

lemma same_messages_trans:
  "\<forall>r' \<in> set ys. \<exists>r \<in> set xs. same_message r r' \<Longrightarrow> \<forall>r' \<in> set zs. \<exists>r \<in> set ys. same_message r r' \<Longrightarrow>
     \<forall>r' \<in> set zs. \<exists>r \<in> set xs. same_message r r'"
  by (fastforce simp: same_message_def)

subsection \<open>Everything that touches the table\<close>







subsection \<open>Properties\<close>

definition no_notices :: notify_db where
  "no_notices = \<lparr>nd_notes = [], nd_deliveries = [], nd_audit = []\<rparr>"


text \<open>
  C27: Every delivery is settled. Whatever the chat provider answers, once the lane has ticked as
  often as attempts are left (with at least the longest backoff between ticks), no delivery of its
  channel is pending: each was sent, failed or cancelled, and none is lost.
\<close>

theorem deliveries_settle:
  assumes "distinct (map dl_id rows)" "list_all delivery_ok rows"
    and "list_all (\<lambda>d. dl_status d = D_pending \<and> dl_channel d = le_channel env \<longrightarrow> dl_next_attempt_at d \<le> now) rows"
    and "nd_deliveries db = rows" "5 * length rows \<le> n"
  shows "\<exists>db' w' now'. ticks (lane_tick env (Suc b) gap) n ((db, w), now) = ((db', w'), now') \<and>
           (\<forall>d \<in> set (nd_deliveries db'). dl_channel d = le_channel env \<longrightarrow> dl_status d \<noteq> D_pending)"
proof -
  let ?s = "((db, w), now)"
  have ok: "lane_rows_ok (le_channel env) (snd ?s) (nd_deliveries (fst (fst ?s)))" using assms by (simp add: lane_rows_ok_def)
  have "delivery_left (le_channel env) d \<le> 5" if "d \<in> set rows" for d
    using that assms(2) by (auto simp: delivery_left_def delivery_ok_def list_all_iff MAX_ATTEMPTS_def)
  then have "sum_list (map (delivery_left (le_channel env)) rows) \<le> sum_list (map (\<lambda>_. 5) rows)" by (intro sum_list_mono)
  then have "deliveries_owed (le_channel env) rows \<le> n" using assms(5) by (simp add: deliveries_owed_def sum_list_triv)
  with delivery_lane.drained [OF ok, of n b gap] assms(4)
  have end_ok: "lane_rows_ok (le_channel env) (snd (ticks (lane_tick env (Suc b) gap) n ?s))
        (nd_deliveries (fst (fst (ticks (lane_tick env (Suc b) gap) n ?s))))"
    "deliveries_owed (le_channel env) (nd_deliveries (fst (fst (ticks (lane_tick env (Suc b) gap) n ?s)))) = 0" by simp_all
  have "dl_status d \<noteq> D_pending" if "d \<in> set (nd_deliveries (fst (fst (ticks (lane_tick env (Suc b) gap) n ?s))))"
      "dl_channel d = le_channel env" for d
    using nothing_owed [OF end_ok(2)] end_ok(1) that unfolding lane_rows_ok_def by blast
  then show ?thesis by (metis prod.collapse)
qed

text \<open>
  C29: A chat only ever gets its own person's notices. Every message a tick hands to the provider is
  addressed to the chat its delivery's recipient has linked now, that recipient is still a member of
  the delivery's workspace in an active tenant, and the text is made of the tenant's and the
  workspace's names, the title and the link alone.
\<close>

theorem chat_gets_own_notices:
  assumes "\<And>chat said w. snd (le_send env chat said w) = w @ [(chat, said)]"
    and "deliveries_ok (nd_deliveries db)" "delivery_consume env batch locked now (db, said0) = (db', said1)"
  shows "\<exists>new. said1 = said0 @ new \<and>
           (\<forall>(chat, said) \<in> set new. \<exists>d \<in> set (nd_deliveries db).
              le_address_of env (dl_recipient d) = Some chat \<and> recipient_may_receive (le_identity env) d \<and>
              said = (case le_names env (dl_tenant_id d, dl_workspace_id d) of
                        (tenant, ws) \<Rightarrow> compose tenant ws (dl_title d) (dl_link d) (le_web_url env)))"
proof -
  let ?P = "\<lambda>s. deliveries_ok (nd_deliveries (fst s)) \<and>
      (\<forall>r' \<in> set (nd_deliveries (fst s)). \<exists>r \<in> set (nd_deliveries db). same_message r r') \<and>
      (\<exists>new. snd s = said0 @ new \<and> (\<forall>(chat, said) \<in> set new. rightful env (nd_deliveries db) chat said))"
  have step: "?P (deliver_claim env now d s)"
    if P: "?P s" and c: "claim_next (le_channel env) now locked scope (nd_deliveries (fst s)) = Some d" for s scope d
  proof -
    note d = claim_next_Some(1,2) [OF c]
    obtain more where more: "snd (deliver_claim env now d s) = snd s @ more"
        "\<forall>(chat, said) \<in> set more. rightful env (nd_deliveries (fst s)) chat said"
      using deliver_claim_sends [OF assms(1) d(1), of now s] d(2) unfolding is_due_def by blast
    then have "\<forall>(chat, said) \<in> set more. rightful env (nd_deliveries db) chat said" using P rightful_mono by blast
    moreover obtain old where "snd s = said0 @ old" "\<forall>(chat, said) \<in> set old. rightful env (nd_deliveries db) chat said" using P by blast
    ultimately have "\<exists>new. snd (deliver_claim env now d s) = said0 @ new \<and>
        (\<forall>(chat, said) \<in> set new. rightful env (nd_deliveries db) chat said)"
      using more(1) by (intro exI [of _ "old @ more"]) auto
    moreover have ok: "deliveries_ok (nd_deliveries (fst s))" using P by blast
    ultimately show ?thesis using claim_keeps [OF ok c, of env] P same_messages_trans by blast
  qed
  have start: "?P (db, said0)" using assms(2) by (auto simp: same_message_def)
  have "?P (delivery_consume env batch locked now (db, said0))"
    by (rule delivery_consume_keeps [where P = ?P and env = env and now = now and locked = locked])
      (rule step, assumption+, rule start)
  with assms(3)
  obtain new where "said1 = said0 @ new" "\<forall>(chat, said) \<in> set new. rightful env (nd_deliveries db) chat said" by auto
  then show ?thesis by (fastforce simp: rightful_def delivery_text_def)
qed

text \<open>
  A notice is delivered once. Delivering again under the same source key, even with other words,
  changes nothing and reports nobody; and whoever got the notice is a member of the workspace it was
  addressed in.
\<close>

theorem notice_delivered_once:
  assumes "deliver_notification idb ws_tenant nid did now t ws recipients key title body link db = (Inr n, db1)"
    and "note_ok key title' body' link'"
  shows "deliver_notification idb ws_tenant nid' did' now' t ws recipients key title' body' link' db1 = (Inr 0, db1) \<and>
         (\<forall>x \<in> set (nd_notes db1) - set (nd_notes db). nt_recipient x \<in> set recipients \<and>
            t = Some (nt_tenant_id x) \<and> is_workspace_member idb (nt_tenant_id x) ws (nt_recipient x))"
proof -
  obtain tn where t: "t = Some tn" "ws_tenant ws = Some tn" using assms(1)
    by (auto simp: deliver_notification_def split: option.splits if_splits)
  let ?proposed = "filter (is_workspace_member idb tn ws) (remdups recipients)"
  let ?told = "\<lambda>u notes. list_ex (\<lambda>x. nt_recipient x = u \<and> nt_source_key x = key) notes"
  let ?delivered = "filter (\<lambda>u. \<not> ?told u (nd_notes db)) ?proposed"
  let ?new = "\<lambda>u. \<lparr>nt_id = nid u, nt_tenant_id = tn, nt_workspace_id = ws, nt_recipient = u, nt_source_key = key, nt_title = title,
      nt_body = body, nt_link = link, nt_created_at = now, nt_read_at = None\<rparr>"
  have grown: "nd_notes db1 = nd_notes db @ map ?new ?delivered"
    using assms(1) t unfolding deliver_notification_def Let_def by (auto split: if_splits)
  have "?told u (nd_notes db1)" if "u \<in> set ?proposed" for u
  proof (cases "?told u (nd_notes db)")
    case False
    then have "?new u \<in> ?new ` set ?delivered" using that by (intro imageI) simp
    then have "?new u \<in> set (nd_notes db1)" unfolding grown by simp
    then show ?thesis unfolding list_ex_iff by (intro bexI [of _ "?new u"]) simp_all
  qed (simp add: grown)
  then have none: "filter (\<lambda>u. \<not> ?told u (nd_notes db1)) ?proposed = []" by (auto simp: filter_empty_conv)
  have "deliver_notification idb ws_tenant nid' did' now' t ws recipients key title' body' link' db1 = (Inr 0, db1)"
    unfolding deliver_notification_def t(1) option.case Let_def none using assms(2) t(2) by simp
  moreover have "\<forall>x \<in> set (nd_notes db1) - set (nd_notes db). nt_recipient x \<in> set recipients \<and>
            t = Some (nt_tenant_id x) \<and> is_workspace_member idb (nt_tenant_id x) ws (nt_recipient x)"
    unfolding grown using t(1) by auto
  ultimately show ?thesis by blast
qed

subsection \<open>A notice, concretely\<close>

definition notify_identity :: identity_db where
  "notify_identity = sample_identity\<lparr>id_external := [\<lparr>ir_user_id = 12, ir_issuer = ''zalo'', ir_subject = ''z12'', ir_provider = ''zalo''\<rparr>]\<rparr>"

definition sample_title :: ustr where "sample_title = ulit ''Review''"

definition sample_delivery :: delivery_row where
  "sample_delivery = new_delivery 300 0 1 2 ''k'' sample_title None 12 ''zalo''"

definition sample_notified :: notify_db where
  "sample_notified = no_notices
     \<lparr>nd_notes := [\<lparr>nt_id = 200, nt_tenant_id = 1, nt_workspace_id = 2, nt_recipient = 12, nt_source_key = ''k'',
                     nt_title = sample_title, nt_body = [], nt_link = None, nt_created_at = 0, nt_read_at = None\<rparr>],
      nd_deliveries := [sample_delivery]\<rparr>"

definition sample_lane :: "(string \<times> ustr) list lane_env" where
  "sample_lane =
     \<lparr>le_channel = ''zalo'', le_identity = notify_identity, le_names = (\<lambda>_. (ulit ''T'', ulit ''W'')),
      le_address_of = (\<lambda>u. if u = 12 then Some ''chat12'' else None),
      le_send = (\<lambda>chat said w. (Sent_as ''m1'', w @ [(chat, said)])), le_web_url = ulit ''https://x/'',
      le_chat_reference = (\<lambda>a b. a @ b), le_uuid5 = length, le_event_id = (\<lambda>i. i)\<rparr>"

lemma sample_note_ok: "note_ok ''k'' sample_title [] None"
  by (simp add: note_ok_def spaces_only_def sample_title_def ulit_def link_ok_def)

lemma sample_notice:
  "deliver_notification notify_identity (\<lambda>_. Some 1) (\<lambda>_. 200) (\<lambda>_ _. 300) 0 (Some 1) 2 [12, 99] ''k'' sample_title [] None no_notices =
     (Inr 1, sample_notified)"
proof -
  have m: "is_workspace_member notify_identity 1 2 u \<longleftrightarrow> u = 11 \<or> u = 12" for u
    by (auto simp: is_workspace_member_def notify_identity_def sample_identity_def sample_member_def in_scope_def)
  have x: "id_external notify_identity = [\<lparr>ir_user_id = 12, ir_issuer = ''zalo'', ir_subject = ''z12'', ir_provider = ''zalo''\<rparr>]"
    by (simp add: notify_identity_def)
  show ?thesis
    by (simp add: deliver_notification_def Let_def m x sample_note_ok no_notices_def sample_notified_def
        queue_delivery_def sample_delivery_def del: One_nat_def)
qed

lemma sample_delivery_ok: "deliveries_ok [sample_delivery]" "delivery_ok sample_delivery"
  by (simp_all add: deliveries_ok_def delivery_ok_def sample_delivery_def new_delivery_def MAX_ATTEMPTS_def)


theorem deliveries_settle_witness:
  "\<exists>db' w' now'. ticks (lane_tick sample_lane (Suc 0) 0) 5 ((sample_notified, []), 7) = ((db', w'), now') \<and>
     (\<forall>d \<in> set (nd_deliveries db'). dl_channel d = ''zalo'' \<longrightarrow> dl_status d \<noteq> D_pending)"
proof -
  have ch: "le_channel sample_lane = ''zalo''" by (simp add: sample_lane_def)
  have "nd_deliveries sample_notified = [sample_delivery]" by (simp add: sample_notified_def)
  moreover have "dl_next_attempt_at sample_delivery \<le> 7" by (simp add: sample_delivery_def new_delivery_def)
  ultimately show ?thesis
    using deliveries_settle [of "[sample_delivery]" sample_lane 7 sample_notified 5 0 0 "[]"] sample_delivery_ok(2) unfolding ch by simp
qed

theorem chat_gets_own_notices_witness:
  "\<exists>db' sent. delivery_consume sample_lane 20 {} 7 (sample_notified, []) = (db', sent) \<and>
     (\<forall>(chat, said) \<in> set sent. \<exists>d \<in> set (nd_deliveries sample_notified). le_address_of sample_lane (dl_recipient d) = Some chat)"
proof -
  obtain db' sent where c: "delivery_consume sample_lane 20 {} 7 (sample_notified, []) = (db', sent)" by fastforce
  have rows: "deliveries_ok (nd_deliveries sample_notified)" using sample_delivery_ok(1) by (simp add: sample_notified_def)
  have "snd (le_send sample_lane chat said w) = w @ [(chat, said)]" for chat said w by (simp add: sample_lane_def)
  from chat_gets_own_notices [OF this rows c] c show ?thesis by fastforce
qed

theorem notice_delivered_once_witness:
  "deliver_notification notify_identity (\<lambda>_. Some 1) (\<lambda>_. 201) (\<lambda>_ _. 301) 5 (Some 1) 2 [12, 99] ''k'' sample_title [] None sample_notified =
     (Inr 0, sample_notified)"
  using notice_delivered_once [OF sample_notice sample_note_ok] by blast

end
