(* ===== verification/Pagination.thy ===== *)
theory Pagination
  imports Approval "HOL-Library.List_Lexorder" "HOL-Library.Char_ord"
begin

text \<open>
  Keyset pagination: the cursor of \<^verbatim>\<open>dw_kernel/pagination.py\<close>, the two SQL clauses of
  \<^verbatim>\<open>adapters/persistence/keyset.py\<close> and the listings of \<^verbatim>\<open>repositories.py\<close> built on them (the approval
  queue, the audit log, the feedback inbox). The base64 layer of a cursor is modelled byte by byte,
  the decoder being the lenient one of Python's \<^verbatim>\<open>binascii\<close>. The text forms inside it (ISO dates,
  UUIDs, JSON, the blake2b digest) are the fields of \<open>text_codec\<close>.
\<close>

subsection \<open>base64url without padding\<close>

definition b64_alphabet :: ustr where
  "b64_alphabet = ulit ''ABCDEFGHIJKLMNOPQRSTUVWXYZabcdefghijklmnopqrstuvwxyz0123456789-_''"

definition b64_char :: "nat \<Rightarrow> nat" where
  "b64_char n = b64_alphabet ! n"

fun b64_sextets :: "nat list \<Rightarrow> nat list" where
  "b64_sextets (a # b # c # rest) =
     (a div 4) # ((a mod 4) * 16 + b div 16) # ((b mod 16) * 4 + c div 64) # (c mod 64) # b64_sextets rest"
| "b64_sextets [a, b] = [a div 4, (a mod 4) * 16 + b div 16, (b mod 16) * 4]"
| "b64_sextets [a] = [a div 4, (a mod 4) * 16]"
| "b64_sextets [] = []"

text \<open>\<^verbatim>\<open>base64.urlsafe_b64encode(raw).decode("ascii").rstrip("=")\<close>\<close>

definition b64_encode :: "nat list \<Rightarrow> ustr" where
  "b64_encode bytes = map b64_char (b64_sextets bytes)"

text \<open>
  The value of a character: the URL-safe alphabet, and the standard one's \<^verbatim>\<open>+\<close> and \<^verbatim>\<open>/\<close>, which
  \<^verbatim>\<open>urlsafe_b64decode\<close> leaves in place.
\<close>

definition b64_value :: "nat \<Rightarrow> nat option" where
  "b64_value c =
     (if 65 \<le> c \<and> c \<le> 90 then Some (c - 65) else if 97 \<le> c \<and> c \<le> 122 then Some (c - 71)
      else if 48 \<le> c \<and> c \<le> 57 then Some (c + 4) else if c = 45 \<or> c = 43 then Some 62
      else if c = 95 \<or> c = 47 then Some 63 else None)"

text \<open>
  \<^verbatim>\<open>binascii.a2b_base64\<close>, not strict: \<open>quad\<close> characters of the current group are read, \<open>left\<close> holds
  the bits not yet emitted and \<open>pads\<close> counts consecutive \<^verbatim>\<open>=\<close>; other characters are skipped.
\<close>

fun a2b :: "nat \<Rightarrow> nat \<Rightarrow> nat \<Rightarrow> ustr \<Rightarrow> nat list option" where
  "a2b quad left pads [] = (if quad = 0 then Some [] else None)"
| "a2b quad left pads (c # cs) =
     (if c = 61
      then (if 2 \<le> quad then (if 4 \<le> quad + Suc pads then Some [] else a2b quad left (Suc pads) cs)
            else a2b quad left pads cs)
      else case b64_value c of
             None \<Rightarrow> a2b quad left pads cs
           | Some v \<Rightarrow>
               (if quad = 0 then a2b 1 v 0 cs
                else if quad = 1 then map_option (\<lambda>r. (left * 4 + v div 16) # r) (a2b 2 (v mod 16) 0 cs)
                else if quad = 2 then map_option (\<lambda>r. (left * 16 + v div 4) # r) (a2b 3 (v mod 4) 0 cs)
                else map_option (\<lambda>r. (left * 64 + v) # r) (a2b 0 0 0 cs)))"

text \<open>\<^verbatim>\<open>-len(cursor) % 4\<close> padding characters put back; only ASCII text is decoded.\<close>

definition repad :: "ustr \<Rightarrow> ustr" where
  "repad cursor = cursor @ replicate ((4 - length cursor mod 4) mod 4) 61"

definition b64_decode :: "ustr \<Rightarrow> nat list option" where
  "b64_decode text_in = (if list_all (\<lambda>c. c < 128) text_in then a2b 0 0 0 text_in else None)"

subsection \<open>Cursors\<close>

definition DEFAULT_PAGE_SIZE :: int where "DEFAULT_PAGE_SIZE = 50"
definition MAX_PAGE_SIZE :: int where "MAX_PAGE_SIZE = 200"
definition CURSOR_FORMAT_VERSION :: int where "CURSOR_FORMAT_VERSION = 1"

type_synonym position = "instant \<times> uuid"

record page_query =
  pq_key :: string
  pq_filters :: "(string \<times> json) list"

text \<open>A decoded JSON document: an object with its fields, or anything else.\<close>

datatype decoded = Decoded_object "(string \<times> json) list" | Decoded_other

record text_codec =
  tc_iso :: "instant \<Rightarrow> ustr"
  tc_from_iso :: "ustr \<Rightarrow> instant option"
  tc_uuid_str :: "uuid \<Rightarrow> ustr"
  tc_uuid_of :: "ustr \<Rightarrow> uuid option"
  tc_str :: "json \<Rightarrow> ustr"
  tc_dumps :: "(string \<times> json) list \<Rightarrow> nat list"
  tc_loads :: "nat list \<Rightarrow> decoded option"
  tc_digest :: "string \<Rightarrow> (string \<times> ustr) list \<Rightarrow> ustr"

text \<open>
  \<^verbatim>\<open>PageQuery.fingerprint\<close>: the filters in key order with their values as text, then the digest of the
  canonical document.
\<close>

definition fingerprint :: "text_codec \<Rightarrow> page_query \<Rightarrow> ustr" where
  "fingerprint tc q = tc_digest tc (pq_key q) (map (\<lambda>(k, v). (k, tc_str tc v)) (sort_key fst (pq_filters q)))"

definition cursor_payload :: "text_codec \<Rightarrow> position \<Rightarrow> page_query \<Rightarrow> (string \<times> json) list" where
  "cursor_payload tc p q =
     [(''v'', JInt CURSOR_FORMAT_VERSION), (''k'', JText (tc_iso tc (fst p))), (''i'', JText (tc_uuid_str tc (snd p))),
      (''q'', JText (fingerprint tc q))]"

definition encode_cursor :: "text_codec \<Rightarrow> position \<Rightarrow> page_query \<Rightarrow> ustr" where
  "encode_cursor tc p q = b64_encode (tc_dumps tc (cursor_payload tc p q))"

definition UNREADABLE :: string where
  "UNREADABLE = ''cursor is not readable; drop it and request the first page again''"

definition OLDER_VERSION :: string where
  "OLDER_VERSION = ''cursor was issued by an older version of this API; drop it and request the first page again''"

definition OTHER_QUERY :: string where
  "OTHER_QUERY = ''cursor was issued for a different query; request the first page again with the filters you want''"

text \<open>\<^verbatim>\<open>payload.get("v") != 1\<close>: Python's \<^verbatim>\<open>True == 1\<close>, so a boolean version passes.\<close>

definition current_version :: "json option \<Rightarrow> bool" where
  "current_version v \<longleftrightarrow> v = Some (JInt CURSOR_FORMAT_VERSION) \<or> v = Some (JBool True)"

definition decode_cursor :: "text_codec \<Rightarrow> ustr \<Rightarrow> page_query \<Rightarrow> position res" where
  "decode_cursor tc cursor q =
     (case b64_decode (repad cursor) of
        None \<Rightarrow> raise_dw (InvalidCursorError UNREADABLE)
      | Some raw \<Rightarrow>
        (case tc_loads tc raw of
           None \<Rightarrow> raise_dw (InvalidCursorError UNREADABLE)
         | Some Decoded_other \<Rightarrow> raise_dw (InvalidCursorError UNREADABLE)
         | Some (Decoded_object payload) \<Rightarrow>
             if \<not> current_version (map_of payload ''v'')
             then raise_dw (InvalidCursorError OLDER_VERSION)
             else if map_of payload ''q'' \<noteq> Some (JText (fingerprint tc q))
             then raise_dw (InvalidCursorError OTHER_QUERY)
             else (case (map_option (tc_str tc) (map_of payload ''k''), map_option (tc_str tc) (map_of payload ''i'')) of
                     (Some k, Some i) \<Rightarrow>
                       (case (tc_from_iso tc k, tc_uuid_of tc i) of
                          (Some t, Some u) \<Rightarrow> Inr (t, u)
                        | _ \<Rightarrow> raise_dw (InvalidCursorError UNREADABLE))
                   | _ \<Rightarrow> raise_dw (InvalidCursorError UNREADABLE))))"

subsection \<open>Pages\<close>

record page_req =
  rq_limit :: nat
  rq_after :: "position option"
  rq_query :: page_query

definition page_request :: "text_codec \<Rightarrow> int \<Rightarrow> ustr option \<Rightarrow> page_query \<Rightarrow> page_req res" where
  "page_request tc limit cursor q =
     (if limit < 1 \<or> limit > MAX_PAGE_SIZE then raise_dw (DomainError ''limit must be between 1 and 200'')
      else case cursor of
             None \<Rightarrow> Inr \<lparr>rq_limit = nat limit, rq_after = None, rq_query = q\<rparr>
           | Some [] \<Rightarrow> Inr \<lparr>rq_limit = nat limit, rq_after = None, rq_query = q\<rparr>
           | Some c \<Rightarrow>
             (case decode_cursor tc c q of
                Inl e \<Rightarrow> Inl e
              | Inr p \<Rightarrow> Inr \<lparr>rq_limit = nat limit, rq_after = Some p, rq_query = q\<rparr>))"

definition fetch_limit :: "page_req \<Rightarrow> nat" where
  "fetch_limit r = rq_limit r + 1"

record 'r page =
  pg_items :: "'r list"
  pg_next_cursor :: "ustr option"

definition map_items :: "('r \<Rightarrow> 's) \<Rightarrow> 'r page \<Rightarrow> 's page" where
  "map_items f p = \<lparr>pg_items = map f (pg_items p), pg_next_cursor = pg_next_cursor p\<rparr>"

definition build_page :: "text_codec \<Rightarrow> 'r list \<Rightarrow> page_req \<Rightarrow> ('r \<Rightarrow> position) \<Rightarrow> 'r page" where
  "build_page tc rows r position_of =
     (let kept = take (rq_limit r) rows
      in \<lparr>pg_items = kept,
          pg_next_cursor = (if rq_limit r < length rows \<and> kept \<noteq> []
                            then Some (encode_cursor tc (position_of (last kept)) (rq_query r)) else None)\<rparr>)"

subsection \<open>The two clauses\<close>

definition before :: "position \<Rightarrow> position \<Rightarrow> bool" where
  "before p p' \<longleftrightarrow> fst p < fst p' \<or> fst p = fst p' \<and> snd p < snd p'"

definition after_position :: "('r \<Rightarrow> position) \<Rightarrow> position option \<Rightarrow> 'r \<Rightarrow> bool" where
  "after_position position_of after r = (case after of None \<Rightarrow> True | Some p \<Rightarrow> before (position_of r) p)"

definition newest_first :: "('r \<Rightarrow> position) \<Rightarrow> 'r list \<Rightarrow> 'r list" where
  "newest_first position_of rows =
     sort_by (\<lambda>r. - fst (position_of r)) (sort_by (\<lambda>r. - int (snd (position_of r))) rows)"

subsection \<open>The listings\<close>

definition approval_position :: "approval_request \<Rightarrow> position" where
  "approval_position r = (the (ar_created_at r), ar_id r)"

definition list_pending ::
  "text_codec \<Rightarrow> 'c platform_db \<Rightarrow> uuid \<Rightarrow> uuid \<Rightarrow> approval_audience \<Rightarrow> page_req \<Rightarrow> approval_request page" where
  "list_pending tc db tenant ws aud req =
     build_page tc
       (take (fetch_limit req)
          (newest_first approval_position
             (filter (\<lambda>r. ar_tenant_id r = tenant \<and> ar_workspace_id r = ws \<and> ar_status r = Approval_pending \<and>
                          visible_to aud (ar_required_scope r) (ar_requested_by r) \<and> after_position approval_position (rq_after req) r) (pd_approvals db))))
       req approval_position"

definition audit_position :: "audit_event \<Rightarrow> position" where
  "audit_position e = (ae_occurred_at e, ae_id e)"

definition audit_list_page :: "text_codec \<Rightarrow> 'c platform_db \<Rightarrow> uuid \<Rightarrow> uuid \<Rightarrow> page_req \<Rightarrow> audit_event page" where
  "audit_list_page tc db tenant ws req =
     build_page tc
       (take (fetch_limit req)
          (newest_first audit_position
             (filter (\<lambda>e. ae_tenant_id e = tenant \<and> ae_workspace_id e = ws \<and>
                          after_position audit_position (rq_after req) e) (pd_audit db))))
       req audit_position"

definition audit_list_for_run :: "'c platform_db \<Rightarrow> uuid \<Rightarrow> uuid \<Rightarrow> uuid \<Rightarrow> nat \<Rightarrow> audit_event list" where
  "audit_list_for_run db tenant run_id ws limit =
     take limit (sort_by ae_occurred_at
       (filter (\<lambda>e. ae_tenant_id e = tenant \<and> ae_run_id e = Some run_id \<and> ae_workspace_id e = ws) (pd_audit db)))"

subsection \<open>The cursor's round trip\<close>

lemma b64_alphabet_values: "map b64_value b64_alphabet = map Some [0..<64]"
  by (simp add: b64_alphabet_def ulit_def b64_value_def upt_rec)

lemma b64_alphabet_length [simp]: "length b64_alphabet = 64"
  by (simp add: b64_alphabet_def ulit_def)

lemma b64_value_char: "n < 64 \<Longrightarrow> b64_value (b64_char n) = Some n"
  using arg_cong [OF b64_alphabet_values, of "\<lambda>xs. xs ! n"] by (simp add: b64_char_def)

lemma b64_alphabet_ascii: "list_all (\<lambda>c. c < 128 \<and> c \<noteq> 61) b64_alphabet"
  by (simp add: b64_alphabet_def ulit_def)

lemma b64_char_ascii: "n < 64 \<Longrightarrow> b64_char n < 128 \<and> b64_char n \<noteq> 61"
  using b64_alphabet_ascii by (simp add: b64_char_def list_all_length)

lemma sextet_bounds:
  fixes a b c :: nat
  assumes "a < 256" "b < 256" "c < 256"
  shows "a div 4 < 64" "(a mod 4) * 16 + b div 16 < 64" "(b mod 16) * 4 + c div 64 < 64" "c mod 64 < 64"
    "(a mod 4) * 16 < 64" "(b mod 16) * 4 < 64"
proof -
  have "a mod 4 < 4" "b div 16 < 16" "b mod 16 < 16" "c div 64 < 4" "a div 4 < 64" using assms by auto
  then show "a div 4 < 64" "(a mod 4) * 16 + b div 16 < 64" "(b mod 16) * 4 + c div 64 < 64" "c mod 64 < 64"
    "(a mod 4) * 16 < 64" "(b mod 16) * 4 < 64" by simp_all
qed

lemma sextet_bytes:
  fixes a b c :: nat
  assumes "a < 256" "b < 256" "c < 256"
  shows "(a div 4) * 4 + ((a mod 4) * 16 + b div 16) div 16 = a"
    "(((a mod 4) * 16 + b div 16) mod 16) * 16 + ((b mod 16) * 4 + c div 64) div 4 = b"
    "(((b mod 16) * 4 + c div 64) mod 4) * 64 + c mod 64 = c"
    "(a div 4) * 4 + ((a mod 4) * 16) div 16 = a"
    "(((a mod 4) * 16 + b div 16) mod 16) * 16 + ((b mod 16) * 4) div 4 = b"
proof -
  have "b div 16 < 16" "c div 64 < 4" using assms by auto
  then show "(a div 4) * 4 + ((a mod 4) * 16 + b div 16) div 16 = a"
    "(((a mod 4) * 16 + b div 16) mod 16) * 16 + ((b mod 16) * 4 + c div 64) div 4 = b"
    "(((b mod 16) * 4 + c div 64) mod 4) * 64 + c mod 64 = c"
    "(a div 4) * 4 + ((a mod 4) * 16) div 16 = a"
    "(((a mod 4) * 16 + b div 16) mod 16) * 16 + ((b mod 16) * 4) div 4 = b"
    by (simp_all add: mult.commute)
qed

lemma b64_sextets_bound: "list_all (\<lambda>b. b < 256) bytes \<Longrightarrow> list_all (\<lambda>n. n < 64) (b64_sextets bytes)"
proof (induction bytes rule: b64_sextets.induct)
  case (1 a b c rest) then show ?case using sextet_bounds [of a b c] by simp
next
  case (2 a b) then show ?case using sextet_bounds [of a b 0] by simp
next
  case (3 a) then show ?case using sextet_bounds [of a 0 0] by simp
qed simp

lemma a2b_step:
  assumes "n < 64"
  shows "a2b 0 left pads (b64_char n # cs) = a2b 1 n 0 cs"
    "a2b 1 left pads (b64_char n # cs) = map_option (\<lambda>r. (left * 4 + n div 16) # r) (a2b 2 (n mod 16) 0 cs)"
    "a2b 2 left pads (b64_char n # cs) = map_option (\<lambda>r. (left * 16 + n div 4) # r) (a2b 3 (n mod 4) 0 cs)"
    "a2b 3 left pads (b64_char n # cs) = map_option (\<lambda>r. (left * 64 + n) # r) (a2b 0 0 0 cs)"
  using b64_value_char [OF assms] b64_char_ascii [OF assms] by simp_all

lemma a2b_groups:
  assumes "a < 256" "b < 256" "c < 256"
  shows "a2b 0 0 0 (map b64_char (b64_sextets (a # b # c # rest)) @ tail) =
           map_option (\<lambda>r. a # b # c # r) (a2b 0 0 0 (map b64_char (b64_sextets rest) @ tail))"
    "a2b 0 0 0 (map b64_char (b64_sextets [a, b]) @ tail) = map_option (\<lambda>r. a # b # r) (a2b 3 ((b mod 16) * 4 mod 4) 0 tail)"
    "a2b 0 0 0 (map b64_char (b64_sextets [a]) @ tail) = map_option (\<lambda>r. a # r) (a2b 2 ((a mod 4) * 16 mod 16) 0 tail)"
proof -
  note n = sextet_bounds [OF assms] and bytes = sextet_bytes [OF assms]
  show "a2b 0 0 0 (map b64_char (b64_sextets (a # b # c # rest)) @ tail) =
      map_option (\<lambda>r. a # b # c # r) (a2b 0 0 0 (map b64_char (b64_sextets rest) @ tail))"
    unfolding b64_sextets.simps list.map append_Cons a2b_step(1) [OF n(1)] a2b_step(2) [OF n(2)] a2b_step(3) [OF n(3)]
      a2b_step(4) [OF n(4)] bytes by (simp add: option.map_comp comp_def)
  show "a2b 0 0 0 (map b64_char (b64_sextets [a, b]) @ tail) = map_option (\<lambda>r. a # b # r) (a2b 3 ((b mod 16) * 4 mod 4) 0 tail)"
    unfolding b64_sextets.simps list.map append_Cons append_Nil a2b_step(1) [OF n(1)] a2b_step(2) [OF n(2)] a2b_step(3) [OF n(6)]
      bytes by (simp add: option.map_comp comp_def)
  show "a2b 0 0 0 (map b64_char (b64_sextets [a]) @ tail) = map_option (\<lambda>r. a # r) (a2b 2 ((a mod 4) * 16 mod 16) 0 tail)"
    unfolding b64_sextets.simps list.map append_Cons append_Nil a2b_step(1) [OF n(1)] a2b_step(2) [OF n(5)] bytes by simp
qed

lemma a2b_encoded:
  assumes "list_all (\<lambda>b. b < 256) bytes"
  shows "a2b 0 0 0 (map b64_char (b64_sextets bytes) @ replicate ((4 - length (b64_sextets bytes) mod 4) mod 4) 61) = Some bytes"
  using assms
proof (induction bytes rule: b64_sextets.induct)
  case (1 a b c rest)
  then have "a < 256" "b < 256" "c < 256" by simp_all
  moreover have "length (b64_sextets (a # b # c # rest)) mod 4 = length (b64_sextets rest) mod 4" by simp
  ultimately show ?case using 1 by (simp only: a2b_groups(1)) simp
next
  case (2 a b)
  then have "a < 256" "b < 256" by simp_all
  then show ?case by (simp only: a2b_groups(2) [of a b 0]) simp
next
  case (3 a)
  then have "a < 256" by simp
  then show ?case by (simp only: a2b_groups(3) [of a 0 0]) (simp add: numeral_2_eq_2)
qed simp

lemma b64_round_trip:
  assumes "list_all (\<lambda>b. b < 256) bytes"
  shows "b64_decode (repad (b64_encode bytes)) = Some bytes"
proof -
  have "list_all (\<lambda>c. c < 128) (map b64_char (b64_sextets bytes))"
    using b64_sextets_bound [OF assms] b64_char_ascii by (auto simp: list_all_iff)
  then show ?thesis using a2b_encoded [OF assms] 
    by (auto simp: b64_decode_def repad_def b64_encode_def list_all_iff)
qed

text \<open>What the text forms promise: each reads back what it writes.\<close>

definition codec_ok :: "text_codec \<Rightarrow> bool" where
  "codec_ok tc \<longleftrightarrow>
     (\<forall>t. tc_from_iso tc (tc_iso tc t) = Some t) \<and> (\<forall>u. tc_uuid_of tc (tc_uuid_str tc u) = Some u) \<and>
     (\<forall>t. tc_str tc (JText t) = t) \<and>
     (\<forall>p q. tc_dumps tc (cursor_payload tc p q) \<noteq> [] \<and> list_all (\<lambda>b. b < 256) (tc_dumps tc (cursor_payload tc p q)) \<and>
            tc_loads tc (tc_dumps tc (cursor_payload tc p q)) = Some (Decoded_object (cursor_payload tc p q)))"

lemma codec_okD:
  assumes "codec_ok tc"
  shows "tc_from_iso tc (tc_iso tc t) = Some t" "tc_uuid_of tc (tc_uuid_str tc u) = Some u" "tc_str tc (JText x) = x"
    "tc_dumps tc (cursor_payload tc p q) \<noteq> []" "list_all (\<lambda>b. b < 256) (tc_dumps tc (cursor_payload tc p q))"
    "tc_loads tc (tc_dumps tc (cursor_payload tc p q)) = Some (Decoded_object (cursor_payload tc p q))"
  using assms unfolding codec_ok_def by blast+

lemma decode_encode:
  assumes "codec_ok tc"
  shows "decode_cursor tc (encode_cursor tc p q) q' =
     (if fingerprint tc q = fingerprint tc q' then Inr p
      else raise_dw (InvalidCursorError OTHER_QUERY))"
  using codec_okD [OF assms]
  by (simp add: decode_cursor_def encode_cursor_def b64_round_trip) (simp add: cursor_payload_def current_version_def)

lemma encode_cursor_not_empty: "codec_ok tc \<Longrightarrow> encode_cursor tc p q \<noteq> []"
proof -
  have "xs \<noteq> [] \<Longrightarrow> b64_sextets xs \<noteq> []" for xs by (cases xs rule: b64_sextets.cases) simp_all
  then show "codec_ok tc \<Longrightarrow> encode_cursor tc p q \<noteq> []" by (simp add: encode_cursor_def b64_encode_def codec_okD(4))
qed

lemma page_request_issued:
  assumes "codec_ok tc" "1 \<le> limit" "limit \<le> MAX_PAGE_SIZE"
  shows "page_request tc limit (Some (encode_cursor tc p q)) q = Inr \<lparr>rq_limit = nat limit, rq_after = Some p, rq_query = q\<rparr>"
proof (cases "encode_cursor tc p q")
  case Nil then show ?thesis using encode_cursor_not_empty [OF assms(1)] by metis
next
  case (Cons c cs)
  then have "decode_cursor tc (c # cs) q = Inr p" using decode_encode [OF assms(1), of p q q] by simp
  then show ?thesis using Cons assms(2,3) by (simp add: page_request_def)
qed

lemma page_request_first:
  "1 \<le> limit \<Longrightarrow> limit \<le> MAX_PAGE_SIZE \<Longrightarrow>
     page_request tc limit None q = Inr \<lparr>rq_limit = nat limit, rq_after = None, rq_query = q\<rparr>"
  by (simp add: page_request_def)

subsection \<open>Order and position\<close>

lemma sorted_insert_key:
  assumes "sorted_wrt (\<lambda>a b. f a < f b \<or> f a = f b \<and> Q a b) xs" "\<And>y. y \<in> set xs \<Longrightarrow> Q x y"
  shows "sorted_wrt (\<lambda>a b. f a < f b \<or> f a = f b \<and> Q a b) (insert_key f x xs)"
  using assms by (induction xs) (auto 0 3)

lemma sorted_sort_by:
  "sorted_wrt Q xs \<Longrightarrow> sorted_wrt (\<lambda>a b. f a < f b \<or> f a = f b \<and> Q a b) (sort_by f xs)"
  by (induction xs) (auto intro!: sorted_insert_key)

lemma set_newest_first [simp]: "set (newest_first pos rows) = set rows"
  by (simp add: newest_first_def)

lemma newest_first_filter: "newest_first pos (filter p rows) = filter p (newest_first pos rows)"
  by (simp add: newest_first_def filter_sort_by)

lemma length_newest_first [simp]: "length (newest_first pos rows) = length rows"
  by (simp add: newest_first_def)

lemma sorted_on_sorted_wrt: "sorted_on f xs \<longleftrightarrow> sorted_wrt (\<lambda>a b. f a \<le> f b) xs"
  by (induction xs) auto

lemma strictly_sorted:
  "sorted_wrt (\<lambda>a b. R a b \<or> pos a = pos b) xs \<Longrightarrow> distinct (map pos xs) \<Longrightarrow> sorted_wrt R xs"
  by (induction xs) auto

text \<open>Rows at distinct positions come strictly newest first.\<close>

lemma newest_first_sorted:
  assumes "distinct (map pos rows)"
  shows "sorted_wrt (\<lambda>a b. before (pos b) (pos a)) (newest_first pos rows)"
proof -
  let ?ys = "sort_by (\<lambda>r. - int (snd (pos r))) rows"
  have "sorted_wrt (\<lambda>a b. - int (snd (pos a)) \<le> - int (snd (pos b))) ?ys"
    using sorted_on_sort_by unfolding sorted_on_sorted_wrt .
  from sorted_sort_by [OF this, of "\<lambda>r. - fst (pos r)"]
  have "sorted_wrt (\<lambda>a b. - fst (pos a) < - fst (pos b) \<or>
      - fst (pos a) = - fst (pos b) \<and> - int (snd (pos a)) \<le> - int (snd (pos b))) (newest_first pos rows)"
    by (simp add: newest_first_def)
  then have weak: "sorted_wrt (\<lambda>a b. before (pos b) (pos a) \<or> pos a = pos b) (newest_first pos rows)"
    by (rule sorted_wrt_mono_rel [rotated]) (auto simp: before_def prod_eq_iff)
  have "distinct (map pos (newest_first pos rows))" using assms by (simp add: distinct_map newest_first_def)
  with weak show ?thesis by (rule strictly_sorted)
qed

lemma before_asym: "before p q \<Longrightarrow> \<not> before q p"
  by (auto simp: before_def)

lemma after_suffix:
  assumes "sorted_wrt (\<lambda>a b. before (pos b) (pos a)) (xs @ x # ys)"
  shows "filter (after_position pos (Some (pos x))) (xs @ x # ys) = ys"
proof -
  have "\<forall>a \<in> set xs. \<not> before (pos a) (pos x)" "\<forall>y \<in> set ys. before (pos y) (pos x)" "\<not> before (pos x) (pos x)"
    using assms before_asym by (auto simp: sorted_wrt_append) (metis before_asym)
  then show ?thesis by (simp add: after_position_def filter_id_conv)
qed

text \<open>The pages a client collects by following cursors until none comes, at most \<open>fuel\<close> of them.\<close>

fun follow_cursors ::
  "text_codec \<Rightarrow> (page_req \<Rightarrow> 'r page) \<Rightarrow> int \<Rightarrow> page_query \<Rightarrow> nat \<Rightarrow> ustr option \<Rightarrow> 'r list list res option" where
  "follow_cursors tc listing limit q 0 cursor = None"
| "follow_cursors tc listing limit q (Suc fuel) cursor =
     (case page_request tc limit cursor q of
        Inl e \<Rightarrow> Some (Inl e)
      | Inr req \<Rightarrow>
        (let p = listing req in
         case pg_next_cursor p of
           None \<Rightarrow> Some (Inr [pg_items p])
         | Some c \<Rightarrow>
           (case follow_cursors tc listing limit q fuel (Some c) of
              None \<Rightarrow> None
            | Some (Inl e) \<Rightarrow> Some (Inl e)
            | Some (Inr pages) \<Rightarrow> Some (Inr (pg_items p # pages)))))"

text \<open>
  The contract of a keyset listing: a page is built from the rows strictly past the position,
  newest first, one more than the page holds.
\<close>

locale keyset_listing =
  fixes tc :: text_codec and listing :: "page_req \<Rightarrow> 'r page" and position_of :: "'r \<Rightarrow> position" and rows :: "'r list"
  assumes listing_eq: "listing req =
    build_page tc (take (fetch_limit req) (newest_first position_of (filter (after_position position_of (rq_after req)) rows)))
      req position_of"
begin

lemma page_at:
  assumes "filter (after_position position_of (rq_after req)) (newest_first position_of rows) = rest" "0 < rq_limit req"
  shows "pg_items (listing req) = take (rq_limit req) rest"
    "pg_next_cursor (listing req) =
       (if rq_limit req < length rest then Some (encode_cursor tc (position_of (rest ! (rq_limit req - 1))) (rq_query req)) else None)"
proof -
  have "listing req = build_page tc (take (Suc (rq_limit req)) rest) req position_of"
    using listing_eq [of req] assms(1) by (simp add: newest_first_filter fetch_limit_def)
  then show "pg_items (listing req) = take (rq_limit req) rest"
    "pg_next_cursor (listing req) =
       (if rq_limit req < length rest then Some (encode_cursor tc (position_of (rest ! (rq_limit req - 1))) (rq_query req)) else None)"
    using assms(2) by (auto simp: build_page_def Let_def last_conv_nth)
qed

lemma follow_suffix:
  assumes tc: "codec_ok tc" and distinct: "distinct (map position_of rows)" and limit: "1 \<le> limit" "limit \<le> MAX_PAGE_SIZE"
    and start: "newest_first position_of rows = done_rows @ rest" "length rest < fuel"
    and cursor: "done_rows = [] \<and> cursor = None \<or>
      done_rows \<noteq> [] \<and> cursor = Some (encode_cursor tc (position_of (last done_rows)) q)"
  shows "\<exists>pages. follow_cursors tc listing limit q fuel cursor = Some (Inr pages) \<and> concat pages = rest \<and>
           list_all (\<lambda>p. length p \<le> nat limit) pages \<and> length pages \<le> Suc (length rest)"
  using start cursor
proof (induction fuel arbitrary: done_rows rest cursor)
  case (Suc fuel)
  define after where "after = (if done_rows = [] then None else Some (position_of (last done_rows)))"
  let ?req = "\<lparr>rq_limit = nat limit, rq_after = after, rq_query = q\<rparr>"
  have req: "page_request tc limit cursor q = Inr ?req"
    using Suc.prems(3) page_request_issued [OF tc limit, of "position_of (last done_rows)" q] page_request_first [OF limit, of tc q]
    by (auto simp: after_def)
  have "filter (after_position position_of after) (newest_first position_of rows) = rest"
  proof (cases "done_rows = []")
    case True then show ?thesis using Suc.prems(1) by (simp add: after_def after_position_def [abs_def])
  next
    case False
    then have "newest_first position_of rows = butlast done_rows @ last done_rows # rest" using Suc.prems(1) by simp
    then show ?thesis using after_suffix newest_first_sorted [OF distinct] False by (metis after_def)
  qed
  from page_at [of ?req, simplified, OF this] limit
  have page: "pg_items (listing ?req) = take (nat limit) rest"
    "pg_next_cursor (listing ?req) =
       (if nat limit < length rest then Some (encode_cursor tc (position_of (rest ! (nat limit - 1))) q) else None)" by simp_all
  show ?case
  proof (cases "nat limit < length rest")
    case False
    then show ?thesis using req page by (simp add: Let_def)
  next
    case True
    let ?done = "done_rows @ take (nat limit) rest" and ?rest = "drop (nat limit) rest"
    have ne: "take (nat limit) rest \<noteq> []" using True limit by auto
    then have last: "last (take (nat limit) rest) = rest ! (nat limit - 1)" using True limit by (simp add: last_conv_nth)
    have "length ?rest < fuel" "newest_first position_of rows = ?done @ ?rest" using True limit Suc.prems(1,2) by auto
    then obtain pages where "follow_cursors tc listing limit q fuel (pg_next_cursor (listing ?req)) = Some (Inr pages)"
        "concat pages = ?rest" "list_all (\<lambda>p. length p \<le> nat limit) pages" "length pages \<le> Suc (length ?rest)"
      using Suc.IH [of ?done ?rest "pg_next_cursor (listing ?req)"] True ne last page(2) by auto
    then show ?thesis using req page True limit by (intro exI [of _ "take (nat limit) rest # pages"]) (auto simp: Let_def)
  qed
qed simp

lemma follow_all:
  assumes "codec_ok tc" "distinct (map position_of rows)" "1 \<le> limit" "limit \<le> MAX_PAGE_SIZE" "length rows < fuel"
  shows "\<exists>pages. follow_cursors tc listing limit q fuel None = Some (Inr pages) \<and>
           concat pages = newest_first position_of rows \<and> list_all (\<lambda>p. length p \<le> nat limit) pages"
  using follow_suffix [OF assms(1-4), of "[]" "newest_first position_of rows" fuel None] assms(5) by auto

end

interpretation approval_queue: keyset_listing tc "list_pending tc db tenant ws aud" approval_position
    "filter (\<lambda>r. ar_tenant_id r = tenant \<and> ar_workspace_id r = ws \<and> ar_status r = Approval_pending \<and>
                 visible_to aud (ar_required_scope r) (ar_requested_by r)) (pd_approvals db)"
  for tc and db :: "'c platform_db" and tenant ws aud
  by unfold_locales (simp add: list_pending_def conj_ac)

interpretation audit_log: keyset_listing tc "audit_list_page tc db tenant ws" audit_position
    "filter (\<lambda>e. ae_tenant_id e = tenant \<and> ae_workspace_id e = ws) (pd_audit db)"
  for tc and db :: "'c platform_db" and tenant ws
  by unfold_locales (simp add: audit_list_page_def conj_ac)


subsection \<open>Properties\<close>


text \<open>
  Following the cursors of the approval queue from the first page ends, and the pages together
  are exactly the pending requests the caller may see, each once and newest first, no page longer
  than the limit asked for.
\<close>

theorem approval_queue_enumerated:
  assumes "codec_ok tc" "1 \<le> limit" "limit \<le> MAX_PAGE_SIZE"
    and "rows = filter (\<lambda>r. ar_tenant_id r = tenant \<and> ar_workspace_id r = ws \<and> ar_status r = Approval_pending \<and>
                  visible_to aud (ar_required_scope r) (ar_requested_by r)) (pd_approvals db)"
    and "distinct (map approval_position rows)" "length rows < fuel"
  shows "\<exists>pages. follow_cursors tc (list_pending tc db tenant ws aud) limit q fuel None = Some (Inr pages) \<and>
           concat pages = newest_first approval_position rows \<and>
           sorted_wrt (\<lambda>a b. before (approval_position b) (approval_position a)) (concat pages) \<and>
           set (concat pages) = set rows \<and> list_all (\<lambda>p. length p \<le> nat limit) pages"
proof -
  obtain pages where "follow_cursors tc (list_pending tc db tenant ws aud) limit q fuel None = Some (Inr pages)"
      "concat pages = newest_first approval_position rows" "list_all (\<lambda>p. length p \<le> nat limit) pages"
    using approval_queue.follow_all [OF assms(1) _ assms(2,3), of tenant ws aud db fuel q] assms(5,6) unfolding assms(4) by blast
  then show ?thesis using newest_first_sorted [OF assms(5)] by (metis set_newest_first)
qed

text \<open>
  A page of the audit log taken at a position does not change when events at that position or
  newer are appended between the requests.
\<close>

theorem audit_page_stable:
  assumes "rq_after req = Some p" "list_all (\<lambda>e. \<not> before (audit_position e) p) newer"
  shows "audit_list_page tc (db\<lparr>pd_audit := pd_audit db @ newer\<rparr>) tenant ws req = audit_list_page tc db tenant ws req"
proof -
  have "filter (\<lambda>e. ae_tenant_id e = tenant \<and> ae_workspace_id e = ws \<and> after_position audit_position (rq_after req) e) newer = []"
    using assms by (auto simp: after_position_def list_all_iff filter_empty_conv)
  then show ?thesis by (simp add: audit_list_page_def)
qed

subsection \<open>A codec that meets its contract\<close>

definition unary_field :: "nat list \<Rightarrow> nat list" where
  "unary_field xs = concat (map (\<lambda>n. replicate n 1 @ [0]) xs) @ [2]"

fun unary_parse :: "nat \<Rightarrow> nat list \<Rightarrow> nat list \<Rightarrow> nat list list" where
  "unary_parse n acc [] = []"
| "unary_parse n acc (b # bs) =
     (if b = 1 then unary_parse (Suc n) acc bs else if b = 0 then unary_parse 0 (acc @ [n]) bs
      else acc # unary_parse 0 [] bs)"

definition text_field :: "(string \<times> json) list \<Rightarrow> string \<Rightarrow> ustr" where
  "text_field fs k = (case map_of fs k of Some (JText t) \<Rightarrow> t | _ \<Rightarrow> [])"

definition sample_codec :: text_codec where
  "sample_codec =
     \<lparr>tc_iso = (\<lambda>t. [if t < 0 then 0 else 1, nat \<bar>t\<bar>]),
      tc_from_iso = (\<lambda>u. case u of [s, n] \<Rightarrow> Some (if s = 0 then - int n else int n) | _ \<Rightarrow> None),
      tc_uuid_str = (\<lambda>u. [u]), tc_uuid_of = (\<lambda>t. case t of [u] \<Rightarrow> Some u | _ \<Rightarrow> None),
      tc_str = (\<lambda>j. case j of JText t \<Rightarrow> t | _ \<Rightarrow> []),
      tc_dumps = (\<lambda>fs. concat (map unary_field [text_field fs ''k'', text_field fs ''i'', text_field fs ''q''])),
      tc_loads = (\<lambda>bytes. case unary_parse 0 [] bytes of
                    [k, i, d] \<Rightarrow> Some (Decoded_object [(''v'', JInt CURSOR_FORMAT_VERSION), (''k'', JText k), (''i'', JText i), (''q'', JText d)])
                  | _ \<Rightarrow> None),
      tc_digest = (\<lambda>key filters. ulit key)\<rparr>"

lemma unary_parse_number: "unary_parse n acc (replicate m 1 @ 0 # bs) = unary_parse 0 (acc @ [n + m]) bs"
  by (induction m arbitrary: n) simp_all

lemma unary_parse_field: "unary_parse 0 acc (unary_field xs @ bs) = (acc @ xs) # unary_parse 0 [] bs"
proof (induction xs arbitrary: acc)
  case (Cons n xs)
  have "unary_field (n # xs) @ bs = replicate n 1 @ 0 # (unary_field xs @ bs)" by (simp add: unary_field_def)
  then show ?case using Cons [of "acc @ [n]"] by (simp only: unary_parse_number) simp
qed (simp add: unary_field_def)

lemma unary_fields: "unary_parse 0 [] (concat (map unary_field xss)) = xss"
proof (induction xss)
  case (Cons xs xss) then show ?case using unary_parse_field [of "[]" xs] by simp
qed simp

lemma sample_codec_ok: "codec_ok sample_codec"
proof -
  have load: "tc_loads sample_codec (tc_dumps sample_codec (cursor_payload sample_codec p q)) =
      Some (Decoded_object (cursor_payload sample_codec p q))" for p q
    using unary_fields [of "[text_field (cursor_payload sample_codec p q) f. f \<leftarrow> [''k'', ''i'', ''q'']]"]
    by (simp add: sample_codec_def text_field_def cursor_payload_def)
  have bytes: "tc_dumps sample_codec fs \<noteq> [] \<and> list_all (\<lambda>b. b < 256) (tc_dumps sample_codec fs)" for fs
    by (auto simp: sample_codec_def unary_field_def list_all_iff in_set_replicate)
  show ?thesis unfolding codec_ok_def using load bytes by (simp add: sample_codec_def)
qed

definition sample_query :: "(string \<times> json) list \<Rightarrow> page_query" where
  "sample_query fs = \<lparr>pq_key = ''approvals'', pq_filters = fs\<rparr>"


definition sample_queue :: "unit platform_db" where
  "sample_queue = (sample_approvals None)\<lparr>pd_approvals := [(sample_approval None)\<lparr>ar_id := 41\<rparr>,
     (sample_approval None)\<lparr>ar_id := 42, ar_created_at := Some 5\<rparr>, sample_approval None]\<rparr>"

theorem approval_queue_enumerated_witness:
  "\<exists>pages. follow_cursors sample_codec
       (list_pending sample_codec sample_queue 1 2 (audience_of sample_decider PLATFORM_ADMIN_ROLE)) 2 (sample_query []) 4 None =
         Some (Inr pages) \<and> map ar_id (concat pages) = [42, 41, 40]"
proof -
  let ?aud = "audience_of sample_decider PLATFORM_ADMIN_ROLE"
  have seen: "filter (\<lambda>r. ar_tenant_id r = 1 \<and> ar_workspace_id r = 2 \<and> ar_status r = Approval_pending \<and>
      visible_to ?aud (ar_required_scope r) (ar_requested_by r)) (pd_approvals sample_queue) = pd_approvals sample_queue"
    by (simp add: sample_queue_def sample_defs visible_to_eq_may_see may_see_def audience_of_def may_decide_def is_allowed_def
        holds_stamped_scope_def has_scope_def APPROVALS_DECIDE_def)
  have "distinct (map approval_position (pd_approvals sample_queue))" "length (pd_approvals sample_queue) < 4"
    "map ar_id (newest_first approval_position (pd_approvals sample_queue)) = [42, 41, 40]"
    by (simp_all add: sample_queue_def sample_approvals_def sample_approval_def approval_position_def newest_first_def)
  moreover from this approval_queue_enumerated [OF sample_codec_ok _ _ seen [symmetric], of 2 4 "sample_query []"]
  obtain pages where "follow_cursors sample_codec (list_pending sample_codec sample_queue 1 2 ?aud) 2 (sample_query []) 4 None =
         Some (Inr pages)" "concat pages = newest_first approval_position (pd_approvals sample_queue)"
    by (auto simp: MAX_PAGE_SIZE_def)
  ultimately show ?thesis by metis
qed

definition sample_audit :: "nat \<Rightarrow> instant \<Rightarrow> audit_event" where
  "sample_audit n t =
     \<lparr>ae_id = n, ae_tenant_id = 1, ae_workspace_id = 2, ae_actor_id = 7, ae_action = ''run.started'', ae_resource_type = ''run'',
      ae_resource_id = JNull, ae_occurred_at = t, ae_run_id = None, ae_policy_decision = None, ae_trace_id = None, ae_details = []\<rparr>"

theorem audit_page_stable_witness:
  "map ae_id (pg_items (audit_list_page sample_codec (sample_queue\<lparr>pd_audit := [sample_audit 1 4, sample_audit 2 5] @ [sample_audit 9 8]\<rparr>)
     1 2 \<lparr>rq_limit = 5, rq_after = Some (5, 2), rq_query = sample_query []\<rparr>)) = [1]"
proof -
  let ?db = "sample_queue\<lparr>pd_audit := [sample_audit 1 4, sample_audit 2 5]\<rparr>"
  let ?req = "\<lparr>rq_limit = 5, rq_after = Some (5, 2), rq_query = sample_query []\<rparr>"
  have "list_all (\<lambda>e. \<not> before (audit_position e) (5, 2)) [sample_audit 9 8]"
    by (simp add: before_def audit_position_def sample_audit_def)
  from audit_page_stable [of ?req "(5, 2)", OF _ this, of sample_codec ?db 1 2]
  show ?thesis
    by (simp add: audit_list_page_def build_page_def Let_def after_position_def before_def audit_position_def sample_audit_def
        newest_first_def fetch_limit_def)
qed

end
