(* ===== verification/Chunking.thy ===== *)
theory Chunking
  imports Errors
begin

text \<open>
  The deterministic chunking of \<^verbatim>\<open>dw_knowledge/chunking.py\<close>: the flat window splitter and the one that
  follows the document's outline. Texts are lists of code points, so every offset is the one
  Python counts. The Unicode tables behind \<^verbatim>\<open>str.lower\<close> and \<^verbatim>\<open>str.isdigit\<close> are the parameters of
  \<open>unicode\<close>.
\<close>

subsection \<open>Python's text operations\<close>

record unicode =
  uc_lower :: "ustr \<Rightarrow> ustr"
  uc_isdigit :: "nat \<Rightarrow> bool"

definition slice :: "ustr \<Rightarrow> nat \<Rightarrow> nat \<Rightarrow> ustr" where
  "slice s i j = take (j - i) (drop i s)"

text \<open>\<^verbatim>\<open>text.rfind(sep, lo, hi)\<close>: the last occurrence that lies within \<^verbatim>\<open>[lo, hi)\<close>.\<close>

definition rfind :: "ustr \<Rightarrow> ustr \<Rightarrow> nat \<Rightarrow> nat \<Rightarrow> nat option" where
  "rfind s sep lo hi =
     (case filter (\<lambda>i. take (length sep) (drop i s) = sep) [lo..<Suc hi - length sep] of
        [] \<Rightarrow> None | is \<Rightarrow> Some (last is))"

definition is_line_break :: "nat \<Rightarrow> bool" where
  "is_line_break c \<longleftrightarrow> (10 \<le> c \<and> c \<le> 13) \<or> (28 \<le> c \<and> c \<le> 30) \<or> c = 133 \<or> c = 8232 \<or> c = 8233"

fun take_line :: "ustr \<Rightarrow> ustr \<times> ustr" where
  "take_line [] = ([], [])"
| "take_line (c # cs) =
     (if c = 13 \<and> cs \<noteq> [] \<and> hd cs = 10 then ([13, 10], tl cs)
      else if is_line_break c then ([c], cs)
      else (c # fst (take_line cs), snd (take_line cs)))"

lemma take_line_append: "fst (take_line s) @ snd (take_line s) = s"
  by (induction s) (auto simp: neq_Nil_conv)

lemma take_line_length: "length (snd (take_line s)) \<le> length s - 1"
  by (induction s) auto

text \<open>\<^verbatim>\<open>text.splitlines(keepends=True)\<close>\<close>

function splitlines :: "ustr \<Rightarrow> ustr list" where
  "splitlines [] = []"
| "splitlines (c # cs) = fst (take_line (c # cs)) # splitlines (snd (take_line (c # cs)))"
  by pat_completeness auto
termination
proof (relation "measure length")
  show "(snd (take_line (c # cs)), c # cs) \<in> measure length" for c cs
    using take_line_length [of "c # cs"] by simp
qed simp

definition lstrip_hash :: "ustr \<Rightarrow> ustr" where
  "lstrip_hash = dropWhile (\<lambda>c. c = 35)"

subsection \<open>The data\<close>

definition MAX_CHUNK_CHARS :: int where "MAX_CHUNK_CHARS = 1200"
definition CHUNK_OVERLAP_CHARS :: int where "CHUNK_OVERLAP_CHARS = 150"

record text_chunk =
  tx_seq :: nat
  tx_start_offset :: nat
  tx_end_offset :: nat
  tx_content :: ustr

record outline_section =
  os_index :: nat
  os_path :: ustr
  os_level :: nat
  os_start_offset :: nat
  os_end_offset :: nat
  os_content :: ustr

record leaf_chunk =
  lf_seq :: nat
  lf_section_index :: nat
  lf_section_path :: ustr
  lf_start_offset :: nat
  lf_end_offset :: nat
  lf_content :: ustr

definition contextual_text :: "leaf_chunk \<Rightarrow> ustr" where
  "contextual_text c =
     (if lf_section_path c \<noteq> [] then [91] @ lf_section_path c @ [93, 10] @ lf_content c else lf_content c)"

record chunking_result =
  cr_sections :: "outline_section list"
  cr_chunks :: "leaf_chunk list"

subsection \<open>Headings\<close>

text \<open>The Vietnamese outline words, each with its trailing space.\<close>

definition HEADING_PREFIXES :: "(ustr \<times> nat) list" where
  "HEADING_PREFIXES =
     [([112, 104, 7847, 110, 32], 1), ([99, 104, 432, 417, 110, 103, 32], 2), ([109, 7909, 99, 32], 3),
      ([273, 105, 7873, 117, 32], 4)]"

definition numbered :: "unicode \<Rightarrow> ustr \<Rightarrow> bool" where
  "numbered uc s \<longleftrightarrow> list_ex (\<lambda>c. uc_isdigit uc c \<or> c \<in> set (ulit ''IVXLCDM'')) (take 24 s)"

definition heading_level :: "unicode \<Rightarrow> ustr \<Rightarrow> nat option" where
  "heading_level uc line =
     (let s = ustrip line in
      if s = [] then None
      else if startswith s [35] then Some (min (length s - length (lstrip_hash s)) 6)
      else map_option snd (List.find (\<lambda>(prefix, _). startswith (uc_lower uc s) prefix \<and> numbered uc s) HEADING_PREFIXES))"

fun find_headings :: "unicode \<Rightarrow> nat \<Rightarrow> ustr list \<Rightarrow> (nat \<times> nat \<times> ustr) list" where
  "find_headings uc offset [] = []"
| "find_headings uc offset (line # lines) =
     (case heading_level uc line of
        None \<Rightarrow> find_headings uc (offset + length line) lines
      | Some level \<Rightarrow> (offset, level, ustrip (lstrip_hash (ustrip line))) # find_headings uc (offset + length line) lines)"

subsection \<open>Sections\<close>

text \<open>The breadcrumb stack has its innermost entry last.\<close>

definition push_heading :: "(nat \<times> ustr) list \<Rightarrow> nat \<Rightarrow> ustr \<Rightarrow> (nat \<times> ustr) list" where
  "push_heading stack level title = rev (dropWhile (\<lambda>h. level \<le> fst h) (rev stack)) @ [(level, title)]"

fun join_path :: "ustr list \<Rightarrow> ustr" where
  "join_path [] = []"
| "join_path [t] = t"
| "join_path (t # ts) = t @ ulit '' > '' @ join_path ts"

fun heading_sections ::
  "ustr \<Rightarrow> nat \<Rightarrow> (nat \<times> ustr) list \<Rightarrow> (nat \<times> nat \<times> ustr) list \<Rightarrow> outline_section list" where
  "heading_sections s index stack [] = []"
| "heading_sections s index stack ((h_off, level, title) # rest) =
     (let stop = (case rest of [] \<Rightarrow> length s | (next_off, _, _) # _ \<Rightarrow> next_off);
          stack' = push_heading stack level title
      in \<lparr>os_index = index, os_path = join_path (map snd stack'), os_level = level, os_start_offset = h_off,
          os_end_offset = stop, os_content = slice s h_off stop\<rparr> # heading_sections s (Suc index) stack' rest)"

definition PREAMBLE_PATH :: ustr where "PREAMBLE_PATH = [77, 7903, 32, 273, 7847, 117]"

definition build_sections :: "ustr \<Rightarrow> (nat \<times> nat \<times> ustr) list \<Rightarrow> outline_section list" where
  "build_sections s headings =
     (case headings of
        [] \<Rightarrow> [\<lparr>os_index = 0, os_path = [], os_level = 0, os_start_offset = 0, os_end_offset = length s, os_content = s\<rparr>]
      | (first_off, _, _) # _ \<Rightarrow>
          let preamble = (if 0 < first_off
                          then [\<lparr>os_index = 0, os_path = PREAMBLE_PATH, os_level = 0, os_start_offset = 0,
                                 os_end_offset = first_off, os_content = slice s 0 first_off\<rparr>] else [])
          in preamble @ heading_sections s (length preamble) [] headings)"

subsection \<open>Windows\<close>

definition SEPARATORS :: "ustr list" where
  "SEPARATORS = [[10, 10], [10], [46, 32], [32]]"

fun first_break :: "ustr \<Rightarrow> nat \<Rightarrow> nat \<Rightarrow> ustr list \<Rightarrow> nat option" where
  "first_break s lo hi [] = None"
| "first_break s lo hi (sep # seps) =
     (case rfind s sep lo hi of Some i \<Rightarrow> Some (i + length sep) | None \<Rightarrow> first_break s lo hi seps)"

definition window_end :: "ustr \<Rightarrow> nat \<Rightarrow> nat \<Rightarrow> nat \<Rightarrow> nat" where
  "window_end s max_chars start stop =
     (let e = min (start + max_chars) stop in
      if e < stop then (case first_break s (start + max_chars div 2) e SEPARATORS of None \<Rightarrow> e | Some b \<Rightarrow> b) else e)"

definition next_start :: "nat \<Rightarrow> nat \<Rightarrow> nat \<Rightarrow> nat" where
  "next_start overlap start e = max (e - overlap) (start + 1)"

definition window_leaf :: "ustr \<Rightarrow> nat \<Rightarrow> nat \<Rightarrow> nat \<Rightarrow> nat \<Rightarrow> ustr \<Rightarrow> leaf_chunk list" where
  "window_leaf s start e seq index path =
     (let content = ustrip (slice s start e) in
      if content \<noteq> []
      then [\<lparr>lf_seq = seq, lf_section_index = index, lf_section_path = path, lf_start_offset = start,
             lf_end_offset = e, lf_content = content\<rparr>] else [])"

function split_section :: "ustr \<Rightarrow> nat \<Rightarrow> nat \<Rightarrow> nat \<Rightarrow> nat \<Rightarrow> ustr \<Rightarrow> nat \<Rightarrow> nat \<Rightarrow> leaf_chunk list" where
  "split_section s start stop seq index path max_chars overlap =
     (if start < stop
      then let e = window_end s max_chars start stop;
               here = window_leaf s start e seq index path
           in here @ (if stop \<le> e then []
                      else split_section s (next_start overlap start e) stop (seq + length here) index path max_chars overlap)
      else [])"
  by pat_completeness auto
termination
  by (relation "measure (\<lambda>(s, start, stop, _). stop - start)") (auto simp: next_start_def)

fun split_sections :: "ustr \<Rightarrow> nat \<Rightarrow> nat \<Rightarrow> nat \<Rightarrow> outline_section list \<Rightarrow> leaf_chunk list" where
  "split_sections s max_chars overlap seq [] = []"
| "split_sections s max_chars overlap seq (sec # secs) =
     (let leaves = split_section s (os_start_offset sec) (os_end_offset sec) seq (os_index sec) (os_path sec) max_chars overlap
      in leaves @ split_sections s max_chars overlap (seq + length leaves) secs)"

definition structure_aware_chunks :: "unicode \<Rightarrow> ustr \<Rightarrow> int \<Rightarrow> int \<Rightarrow> chunking_result res" where
  "structure_aware_chunks uc s max_chars overlap =
     (if max_chars \<le> 0 \<or> overlap < 0 \<or> max_chars \<le> overlap
      then Inl (ValueError ''require max_chars > 0 and 0 <= overlap_chars < max_chars'')
      else if ublank s then Inr \<lparr>cr_sections = [], cr_chunks = []\<rparr>
      else let sections = build_sections s (find_headings uc 0 (splitlines s))
           in Inr \<lparr>cr_sections = sections, cr_chunks = split_sections s (nat max_chars) (nat overlap) 0 sections\<rparr>)"

function text_windows :: "ustr \<Rightarrow> nat \<Rightarrow> nat \<Rightarrow> nat \<Rightarrow> nat \<Rightarrow> text_chunk list" where
  "text_windows s start seq max_chars overlap =
     (if start < length s
      then let e = window_end s max_chars start (length s);
               content = ustrip (slice s start e);
               here = (if content \<noteq> []
                       then [\<lparr>tx_seq = seq, tx_start_offset = start, tx_end_offset = e, tx_content = content\<rparr>] else [])
           in here @ (if length s \<le> e then []
                      else text_windows s (next_start overlap start e) (seq + length here) max_chars overlap)
      else [])"
  by pat_completeness auto
termination
  by (relation "measure (\<lambda>(s, start, _). length s - start)") (auto simp: next_start_def)

definition chunk_text :: "ustr \<Rightarrow> int \<Rightarrow> int \<Rightarrow> text_chunk list res" where
  "chunk_text s max_chars overlap =
     (if max_chars \<le> 0 \<or> overlap < 0 \<or> max_chars \<le> overlap
      then Inl (ValueError ''require max_chars > 0 and 0 <= overlap_chars < max_chars'')
      else if ublank s then Inr [] else Inr (text_windows s 0 0 (nat max_chars) (nat overlap)))"

declare split_section.simps [simp del] text_windows.simps [simp del]

subsection \<open>One window\<close>

lemma rfind_bounds:
  assumes "rfind s sep lo hi = Some i"
  shows "lo \<le> i" "i + length sep \<le> hi" "take (length sep) (drop i s) = sep"
proof -
  let ?is = "filter (\<lambda>i. take (length sep) (drop i s) = sep) [lo..<Suc hi - length sep]"
  have "?is \<noteq> []" "i = last ?is" using assms by (auto simp: rfind_def split: list.splits)
  then have "i \<in> set ?is" using last_in_set by blast
  then show "lo \<le> i" "i + length sep \<le> hi" "take (length sep) (drop i s) = sep" by auto
qed

lemma first_break_bounds:
  "first_break s lo hi seps = Some b \<Longrightarrow> [] \<notin> set seps \<Longrightarrow> lo < b \<and> b \<le> hi"
proof (induction seps)
  case (Cons sep seps)
  show ?case
  proof (cases "rfind s sep lo hi")
    case None then show ?thesis using Cons by simp
  next
    case (Some i) then show ?thesis using Cons.prems rfind_bounds [OF Some] by (cases sep) auto
  qed
qed simp

lemma window_end_bounds:
  assumes "0 < max_chars" "start < stop"
  shows "start < window_end s max_chars start stop" "window_end s max_chars start stop \<le> stop"
    "window_end s max_chars start stop \<le> start + max_chars"
proof -
  define e where "e = min (start + max_chars) stop"
  have e: "start < e" "e \<le> stop" "e \<le> start + max_chars" using assms by (simp_all add: e_def)
  have ne: "[] \<notin> set SEPARATORS" by (simp add: SEPARATORS_def)
  have "start < window_end s max_chars start stop \<and> window_end s max_chars start stop \<le> e"
    unfolding window_end_def e_def [symmetric] using e(1) first_break_bounds [OF _ ne, of s "start + max_chars div 2" e]
    by (fastforce simp: Let_def split: option.split)
  with e show "start < window_end s max_chars start stop" "window_end s max_chars start stop \<le> stop"
    "window_end s max_chars start stop \<le> start + max_chars" by simp_all
qed

lemma next_start_bounds: "start < e \<Longrightarrow> start < next_start overlap start e \<and> next_start overlap start e \<le> e"
  by (auto simp: next_start_def)

lemma slice_char: "i \<le> p \<Longrightarrow> p < j \<Longrightarrow> j \<le> length s \<Longrightarrow> s ! p \<in> set (slice s i j)"
  by (auto simp: slice_def in_set_conv_nth intro!: exI [of _ "p - i"])

lemma ustrip_nonblank: "c \<in> set s \<Longrightarrow> \<not> py_isspace c \<Longrightarrow> ustrip s \<noteq> []"
  by (auto simp: ustrip_def strip_by_Nil)

lemma length_slice_le: "length (slice s i j) \<le> j - i"
  by (simp add: slice_def)

subsection \<open>One section\<close>

definition leaf_ok :: "ustr \<Rightarrow> nat \<Rightarrow> leaf_chunk \<Rightarrow> bool" where
  "leaf_ok s max_chars c \<longleftrightarrow>
     lf_start_offset c < lf_end_offset c \<and> lf_end_offset c \<le> lf_start_offset c + max_chars \<and> lf_end_offset c \<le> length s \<and>
     lf_content c = ustrip (slice s (lf_start_offset c) (lf_end_offset c)) \<and> lf_content c \<noteq> []"

lemma leaf_ok_length: "leaf_ok s max_chars c \<Longrightarrow> length (lf_content c) \<le> max_chars"
  using length_strip_by [of py_isspace "slice s (lf_start_offset c) (lf_end_offset c)"] length_slice_le [of s "lf_start_offset c" "lf_end_offset c"]
  by (auto simp: leaf_ok_def ustrip_def)

lemma split_section_unfold:
  assumes "start < stop" "e = window_end s max_chars start stop" "here = window_leaf s start e seq index path"
  shows "split_section s start stop seq index path max_chars overlap =
     here @ (if stop \<le> e then []
             else split_section s (next_start overlap start e) stop (seq + length here) index path max_chars overlap)"
  using assms by (subst split_section.simps) (simp add: Let_def)

lemma split_section_empty: "\<not> start < stop \<Longrightarrow> split_section s start stop seq index path max_chars overlap = []"
  by (subst split_section.simps) simp

lemma split_section_induct [consumes 1, case_names step]:
  assumes "0 < max_chars"
    and "\<And>start seq. (\<And>seq'. start < stop \<Longrightarrow> window_end s max_chars start stop < stop \<Longrightarrow>
            P (next_start overlap start (window_end s max_chars start stop)) seq') \<Longrightarrow> P start seq"
  shows "P start seq"
proof (induction "stop - start" arbitrary: start seq rule: less_induct)
  case less
  show ?case
  proof (rule assms(2))
    fix seq' assume "start < stop" "window_end s max_chars start stop < stop"
    then have "stop - next_start overlap start (window_end s max_chars start stop) < stop - start"
      using next_start_bounds [OF window_end_bounds(1) [OF assms(1)], of start stop overlap s] by auto
    then show "P (next_start overlap start (window_end s max_chars start stop)) seq'" by (rule less)
  qed
qed

lemma window_leaf_ok:
  assumes "c \<in> set (window_leaf s start e seq index path)" "start < e" "e \<le> start + max_chars" "e \<le> length s"
  shows "leaf_ok s max_chars c \<and> lf_start_offset c = start \<and> lf_end_offset c = e \<and> lf_section_index c = index \<and> lf_section_path c = path"
  using assms by (auto simp: window_leaf_def leaf_ok_def Let_def split: if_splits)

lemma split_section_leaf:
  assumes "0 < max_chars" "stop \<le> length s"
  shows "c \<in> set (split_section s start stop seq index path max_chars overlap) \<Longrightarrow>
     leaf_ok s max_chars c \<and> start \<le> lf_start_offset c \<and> lf_end_offset c \<le> stop \<and>
     lf_section_index c = index \<and> lf_section_path c = path"
  using assms(1)
proof (induction start seq rule: split_section_induct [where s = s and stop = stop and overlap = overlap])
  case (step start seq)
  show ?case
  proof (cases "start < stop")
    case True
    note e = window_end_bounds [OF assms(1) True, of s]
    note nx = next_start_bounds [OF e(1), of overlap]
    from step.prems split_section_unfold [OF True refl refl, of s seq index path max_chars overlap]
    consider "c \<in> set (window_leaf s start (window_end s max_chars start stop) seq index path)"
      | seq' where "window_end s max_chars start stop < stop"
        "c \<in> set (split_section s (next_start overlap start (window_end s max_chars start stop)) stop seq' index path max_chars overlap)"
      by (auto split: if_splits)
    then show ?thesis
    proof cases
      case 1 then show ?thesis using window_leaf_ok [OF 1 e(1,3)] e(2) assms(2) by auto
    next
      case 2 from step.IH [OF True 2] nx show ?thesis by auto
    qed
  qed (use step.prems in \<open>simp add: split_section_empty\<close>)
qed

lemma upt_chain: "[a..<a + m] @ [a + m..<a + (m + n)] = [a..<a + (m + n)]"
  using upt_add_eq_append [of a "a + m" n] by (simp add: add.assoc)

lemma split_section_seq:
  assumes "0 < max_chars"
  shows "map lf_seq (split_section s start stop seq index path max_chars overlap) =
     [seq..<seq + length (split_section s start stop seq index path max_chars overlap)]"
  using assms
proof (induction start seq rule: split_section_induct [where s = s and stop = stop and overlap = overlap])
  case (step start seq)
  show ?case
  proof (cases "start < stop")
    case True
    let ?here = "window_leaf s start (window_end s max_chars start stop) seq index path"
    have here: "map lf_seq ?here = [seq..<seq + length ?here]" by (simp add: window_leaf_def Let_def)
    show ?thesis
      unfolding split_section_unfold [OF True refl refl, of s seq index path max_chars overlap]
      unfolding map_append length_append here
      by (cases "stop \<le> window_end s max_chars start stop")
        (simp_all add: step.IH [OF True] upt_chain add.assoc del: upt_Suc)
  qed (simp add: split_section_empty)
qed

lemma split_section_covers:
  assumes "0 < max_chars" "stop \<le> length s" "p < stop" "\<not> py_isspace (s ! p)"
  shows "start \<le> p \<Longrightarrow>
    \<exists>c \<in> set (split_section s start stop seq index path max_chars overlap). lf_start_offset c \<le> p \<and> p < lf_end_offset c"
  using assms(1)
proof (induction start seq rule: split_section_induct [where s = s and stop = stop and overlap = overlap])
  case (step start seq)
  let ?e = "window_end s max_chars start stop"
  have less: "start < stop" using step.prems assms(3) by simp
  note e = window_end_bounds [OF assms(1) less, of s]
  note nx = next_start_bounds [OF e(1), of overlap]
  note unf = split_section_unfold [OF less refl refl, of s seq index path max_chars overlap]
  show ?case
  proof (cases "p < ?e")
    case True
    then have "ustrip (slice s start ?e) \<noteq> []"
      using slice_char [of start p ?e s] ustrip_nonblank e(2) step.prems assms by auto
    then have "\<exists>c \<in> set (window_leaf s start ?e seq index path). lf_start_offset c \<le> p \<and> p < lf_end_offset c"
      using True step.prems by (simp add: window_leaf_def Let_def)
    then show ?thesis unfolding unf by auto
  next
    case False
    then have "?e < stop" "next_start overlap start ?e \<le> p" using assms(3) nx by auto
    from step.IH [OF less this] this(1) show ?thesis unfolding unf by auto
  qed
qed

subsection \<open>All sections\<close>

lemma split_sections_seq:
  "0 < max_chars \<Longrightarrow> map lf_seq (split_sections s max_chars overlap seq secs) =
     [seq..<seq + length (split_sections s max_chars overlap seq secs)]"
proof (induction secs arbitrary: seq)
  case (Cons sec secs)
  then show ?case by (simp add: Let_def split_section_seq upt_chain add.assoc del: upt_Suc)
qed simp

lemma split_sections_leaf:
  assumes "0 < max_chars" "c \<in> set (split_sections s max_chars overlap seq secs)" "\<forall>sec \<in> set secs. os_end_offset sec \<le> length s"
  shows "\<exists>sec \<in> set secs. leaf_ok s max_chars c \<and> os_start_offset sec \<le> lf_start_offset c \<and> lf_end_offset c \<le> os_end_offset sec \<and>
     lf_section_index c = os_index sec \<and> lf_section_path c = os_path sec"
  using assms(2,3)
proof (induction secs arbitrary: seq)
  case (Cons sec secs)
  then show ?case using split_section_leaf [OF assms(1), of "os_end_offset sec" s c] by (fastforce simp: Let_def)
qed simp

lemma split_sections_covers:
  assumes "0 < max_chars" "sec \<in> set secs" "os_start_offset sec \<le> p" "p < os_end_offset sec" "os_end_offset sec \<le> length s"
    "\<not> py_isspace (s ! p)"
  shows "\<exists>c \<in> set (split_sections s max_chars overlap seq secs). lf_start_offset c \<le> p \<and> p < lf_end_offset c"
  using assms(2)
proof (induction secs arbitrary: seq)
  case (Cons sec' secs)
  show ?case
  proof (cases "sec = sec'")
    case True
    then show ?thesis using split_section_covers [OF assms(1,5,4,6,3), of seq] by (fastforce simp: Let_def)
  next
    case False
    then show ?thesis using Cons.IH Cons.prems by (fastforce simp: Let_def)
  qed
qed simp

text \<open>The sections lie end to end between two offsets.\<close>

fun end_to_end :: "nat \<Rightarrow> outline_section list \<Rightarrow> nat \<Rightarrow> bool" where
  "end_to_end a [] b \<longleftrightarrow> a = b"
| "end_to_end a (sec # secs) b \<longleftrightarrow> os_start_offset sec = a \<and> a < os_end_offset sec \<and> end_to_end (os_end_offset sec) secs b"

lemma end_to_end_le: "end_to_end a secs b \<Longrightarrow> a \<le> b"
  by (induction secs arbitrary: a) fastforce+

lemma end_to_end_bound: "end_to_end a secs b \<Longrightarrow> sec \<in> set secs \<Longrightarrow> a \<le> os_start_offset sec \<and> os_end_offset sec \<le> b"
proof (induction secs arbitrary: a)
  case (Cons x secs) then show ?case using end_to_end_le [of "os_end_offset x" secs b] by fastforce
qed simp

lemma end_to_end_covers:
  "end_to_end a secs b \<Longrightarrow> a \<le> p \<Longrightarrow> p < b \<Longrightarrow> \<exists>sec \<in> set secs. os_start_offset sec \<le> p \<and> p < os_end_offset sec"
proof (induction secs arbitrary: a)
  case (Cons sec secs) then show ?case by (cases "p < os_end_offset sec") auto
qed simp

lemma take_line_nonempty: "fst (take_line (c # cs)) \<noteq> []"
  by simp

lemma splitlines_concat: "concat (splitlines s) = s \<and> [] \<notin> set (splitlines s)"
proof (induction s rule: splitlines.induct)
  case (2 c cs) then show ?case using take_line_append [of "c # cs"] by (auto simp del: take_line.simps simp: take_line_nonempty [symmetric])
qed simp

lemma find_headings_offsets:
  assumes "[] \<notin> set lines"
  shows "sorted_wrt (<) (map fst (find_headings uc offset lines)) \<and>
    (\<forall>h \<in> set (find_headings uc offset lines). offset \<le> fst h \<and> fst h < offset + length (concat lines))"
  using assms
proof (induction lines arbitrary: offset)
  case (Cons line lines)
  let ?later = "find_headings uc (offset + length line) lines"
  have sorted: "sorted_wrt (<) (map fst ?later)"
    and later: "\<And>h. h \<in> set ?later \<Longrightarrow> offset + length line \<le> fst h \<and> fst h < offset + length line + length (concat lines)"
    using Cons.IH [of "offset + length line"] Cons.prems by simp_all
  have pos: "0 < length line" using Cons.prems by auto
  show ?case
  proof (cases "heading_level uc line")
    case None
    then show ?thesis using sorted later by (auto dest!: later)
  next
    case (Some level)
    have "\<forall>x \<in> set (map fst ?later). offset < x"
    proof
      fix x assume "x \<in> set (map fst ?later)"
      then obtain h where "h \<in> set ?later" "x = fst h" by auto
      then show "offset < x" using later [of h] pos by linarith
    qed
    then show ?thesis using sorted later pos Some by (auto dest!: later)
  qed
qed simp

lemma heading_sections_end_to_end:
  "sorted_wrt (<) (map fst ((a, level, title) # hs)) \<Longrightarrow> \<forall>h \<in> set ((a, level, title) # hs). fst h < length s \<Longrightarrow>
     end_to_end a (heading_sections s index stack ((a, level, title) # hs)) (length s)"
proof (induction hs arbitrary: a level title index stack)
  case (Cons h hs) then show ?case by (cases h) (auto simp: Let_def)
qed (simp add: Let_def)

lemma heading_sections_index: "map os_index (heading_sections s index stack hs) = [index..<index + length hs]"
proof (induction s index stack hs rule: heading_sections.induct)
  case (2 s index stack h_off level title rest) then show ?case by (simp add: Let_def upt_conv_Cons del: upt_Suc)
qed simp

lemma build_sections_end_to_end:
  assumes "s \<noteq> []"
  shows "end_to_end 0 (build_sections s (find_headings uc 0 (splitlines s))) (length s)"
proof -
  note lines = splitlines_concat [of s]
  note offs = find_headings_offsets [of "splitlines s" uc 0]
  show ?thesis
  proof (cases "find_headings uc 0 (splitlines s)")
    case Nil then show ?thesis using assms by (simp add: build_sections_def)
  next
    case (Cons h hs)
    obtain a level title where h: "h = (a, level, title)" by (cases h) auto
    have "end_to_end a (heading_sections s i [] (h # hs)) (length s)" for i
      using heading_sections_end_to_end [of a level title hs s i "[]"] offs lines Cons h by simp
    then show ?thesis unfolding Cons by (simp add: build_sections_def h Let_def del: heading_sections.simps) blast
  qed
qed

subsection \<open>Flat windows\<close>

definition flat_chunk :: "leaf_chunk \<Rightarrow> text_chunk" where
  "flat_chunk c = \<lparr>tx_seq = lf_seq c, tx_start_offset = lf_start_offset c, tx_end_offset = lf_end_offset c, tx_content = lf_content c\<rparr>"

lemma text_windows_eq:
  "0 < max_chars \<Longrightarrow>
     text_windows s start seq max_chars overlap = map flat_chunk (split_section s start (length s) seq index path max_chars overlap)"
proof (induction start seq rule: split_section_induct [where s = s and stop = "length s" and overlap = overlap])
  case (step start seq)
  let ?e = "window_end s max_chars start (length s)" and ?h = "\<lambda>e. window_leaf s start e seq index path"
  have here: "map flat_chunk (?h ?e) = (if ustrip (slice s start ?e) \<noteq> []
      then [\<lparr>tx_seq = seq, tx_start_offset = start, tx_end_offset = ?e, tx_content = ustrip (slice s start ?e)\<rparr>] else [])"
    by (simp add: window_leaf_def flat_chunk_def Let_def)
  then have len: "length (if ustrip (slice s start ?e) \<noteq> []
      then [\<lparr>tx_seq = seq, tx_start_offset = start, tx_end_offset = ?e, tx_content = ustrip (slice s start ?e)\<rparr>] else []) =
      length (?h ?e)" by (metis length_map)
  show ?case
  proof (cases "start < length s")
    case True
    show ?thesis
      unfolding split_section_unfold [OF True refl refl, of s seq index path max_chars overlap] map_append here
      using True step.IH [OF True, of "seq + length (?h ?e)"] len
      by (subst text_windows.simps) (simp add: Let_def del: length_map)
  qed (simp add: split_section_empty text_windows.simps)
qed

subsection \<open>Properties\<close>

text \<open>
  C36: Chunking loses nothing. Whatever the text and its headings, every character that is not white
  space lies in the window of some chunk, and a chunk's content is the white-space-stripped text
  of its window; chunks are numbered from 0 in order.
\<close>

theorem chunks_cover_text:
  assumes "structure_aware_chunks uc s max_chars overlap = Inr r" "p < length s" "\<not> py_isspace (s ! p)"
  shows "(\<exists>c \<in> set (cr_chunks r). lf_start_offset c \<le> p \<and> p < lf_end_offset c \<and>
            lf_content c = ustrip (slice s (lf_start_offset c) (lf_end_offset c)) \<and> s ! p \<in> set (lf_content c)) \<and>
         map lf_seq (cr_chunks r) = [0..<length (cr_chunks r)]"
proof -
  let ?secs = "build_sections s (find_headings uc 0 (splitlines s))"
  have ne: "s \<noteq> []" using assms(2) by auto
  have "\<not> ublank s" using assms(2,3) by (auto simp: ublank_all)
  with assms(1) have r: "cr_chunks r = split_sections s (nat max_chars) (nat overlap) 0 ?secs" and pos: "0 < nat max_chars"
    by (auto simp: structure_aware_chunks_def Let_def split: if_splits)
  note ends = build_sections_end_to_end [OF ne, of uc]
  from end_to_end_covers [OF ends, of p] assms(2) obtain sec where sec: "sec \<in> set ?secs"
      "os_start_offset sec \<le> p" "p < os_end_offset sec" by auto
  have stop: "\<forall>sec \<in> set ?secs. os_end_offset sec \<le> length s" using end_to_end_bound [OF ends] by blast
  from split_sections_covers [OF pos sec bspec [OF stop sec(1)] assms(3), of "nat overlap" 0] obtain c where
    c: "c \<in> set (cr_chunks r)" "lf_start_offset c \<le> p" "p < lf_end_offset c" unfolding r by blast
  have ok: "leaf_ok s (nat max_chars) c" using split_sections_leaf [OF pos c(1) [unfolded r] stop] by blast
  then have "s ! p \<in> set (ustrip (slice s (lf_start_offset c) (lf_end_offset c)))"
    using slice_char [OF c(2,3)] strip_by_keeps [of "s ! p" _ py_isspace] assms(3) by (auto simp: leaf_ok_def ustrip_def)
  then show ?thesis using c ok split_sections_seq [OF pos, of s "nat overlap" 0 ?secs] r by (auto simp: leaf_ok_def)
qed

text \<open>
  No chunk is blank or longer than the limit, its window lies inside one section of the outline
  and it carries that section's breadcrumb; the sections lie end to end over the whole text.
\<close>

theorem chunks_bounded:
  assumes "structure_aware_chunks uc s max_chars overlap = Inr r" "c \<in> set (cr_chunks r)"
  shows "lf_content c \<noteq> [] \<and> int (length (lf_content c)) \<le> max_chars \<and> end_to_end 0 (cr_sections r) (length s) \<and>
         (\<exists>sec \<in> set (cr_sections r). os_start_offset sec \<le> lf_start_offset c \<and> lf_start_offset c < lf_end_offset c \<and>
            lf_end_offset c \<le> os_end_offset sec \<and> lf_section_index c = os_index sec \<and> lf_section_path c = os_path sec)"
proof -
  let ?secs = "build_sections s (find_headings uc 0 (splitlines s))"
  from assms have ne: "s \<noteq> []" and r: "cr_chunks r = split_sections s (nat max_chars) (nat overlap) 0 ?secs"
      "cr_sections r = ?secs" and pos: "0 < nat max_chars"
    by (auto simp: structure_aware_chunks_def Let_def ublank_all split: if_splits)
  note ends = build_sections_end_to_end [OF ne, of uc]
  have stop: "\<forall>sec \<in> set ?secs. os_end_offset sec \<le> length s" using end_to_end_bound [OF ends] by blast
  from split_sections_leaf [OF pos assms(2) [unfolded r] stop] obtain sec where sec: "sec \<in> set ?secs"
    "leaf_ok s (nat max_chars) c" "os_start_offset sec \<le> lf_start_offset c" "lf_end_offset c \<le> os_end_offset sec"
    "lf_section_index c = os_index sec" "lf_section_path c = os_path sec" by blast
  then show ?thesis using leaf_ok_length [OF sec(2)] ends pos unfolding r by (auto simp: leaf_ok_def)
qed

text \<open>
  On a text without headings the outline-aware splitter is the flat one: the same windows, the
  same contents and the same numbering.
\<close>

theorem flat_chunks_agree:
  assumes "find_headings uc 0 (splitlines s) = []"
  shows "chunk_text s max_chars overlap =
    (case structure_aware_chunks uc s max_chars overlap of Inl e \<Rightarrow> Inl e | Inr r \<Rightarrow> Inr (map flat_chunk (cr_chunks r)))"
  using assms text_windows_eq [of "nat max_chars" s 0 0 "nat overlap" 0 "[]"]
  by (simp add: chunk_text_def structure_aware_chunks_def build_sections_def Let_def)

subsection \<open>A concrete text\<close>

text \<open>ASCII's part of the Unicode tables.\<close>

definition ascii_unicode :: unicode where
  "ascii_unicode = \<lparr>uc_lower = map (\<lambda>c. if 65 \<le> c \<and> c \<le> 90 then c + 32 else c), uc_isdigit = (\<lambda>c. 48 \<le> c \<and> c \<le> 57)\<rparr>"

definition sample_text :: ustr where
  "sample_text = [35, 97, 10, 98]"

lemmas line_eval = sample_text_def heading_level_def is_line_break_def startswith_def lstrip_hash_def push_heading_def
  slice_def Let_def ustrip_def strip_by_def py_isspace_def ublank_def

lemma sample_sections:
  "build_sections sample_text (find_headings ascii_unicode 0 (splitlines sample_text)) =
     [\<lparr>os_index = 0, os_path = [97], os_level = 1, os_start_offset = 0, os_end_offset = 4, os_content = sample_text\<rparr>]"
  by (simp add: line_eval build_sections_def HEADING_PREFIXES_def ascii_unicode_def)

lemma sample_windows: "window_end sample_text 3 0 4 = 3" "window_end sample_text 3 2 4 = 4"
  by (simp_all add: window_end_def sample_text_def SEPARATORS_def rfind_def Let_def upt_rec)

lemma sample_chunks:
  "\<exists>r. structure_aware_chunks ascii_unicode sample_text 3 1 = Inr r \<and> cr_chunks r =
     [\<lparr>lf_seq = 0, lf_section_index = 0, lf_section_path = [97], lf_start_offset = 0, lf_end_offset = 3, lf_content = [35, 97]\<rparr>,
      \<lparr>lf_seq = 1, lf_section_index = 0, lf_section_path = [97], lf_start_offset = 2, lf_end_offset = 4, lf_content = [98]\<rparr>]"
proof -
  have leaf: "window_leaf sample_text 0 3 0 0 [97] =
      [\<lparr>lf_seq = 0, lf_section_index = 0, lf_section_path = [97], lf_start_offset = 0, lf_end_offset = 3, lf_content = [35, 97]\<rparr>]"
    "window_leaf sample_text 2 4 1 0 [97] =
      [\<lparr>lf_seq = 1, lf_section_index = 0, lf_section_path = [97], lf_start_offset = 2, lf_end_offset = 4, lf_content = [98]\<rparr>]"
    by (simp_all add: window_leaf_def line_eval)
  have "split_section sample_text 2 4 1 0 [97] 3 1 = window_leaf sample_text 2 4 1 0 [97]"
    using split_section_unfold [of 2 4, OF _ refl refl, of sample_text 1 0 "[97]" 3 1] by (simp add: sample_windows)
  with leaf have "split_section sample_text 0 4 0 0 [97] 3 1 =
     [\<lparr>lf_seq = 0, lf_section_index = 0, lf_section_path = [97], lf_start_offset = 0, lf_end_offset = 3, lf_content = [35, 97]\<rparr>,
      \<lparr>lf_seq = 1, lf_section_index = 0, lf_section_path = [97], lf_start_offset = 2, lf_end_offset = 4, lf_content = [98]\<rparr>]"
    using split_section_unfold [of 0 4, OF _ refl refl, of sample_text 0 0 "[97]" 3 1] by (simp add: sample_windows next_start_def numeral_2_eq_2)
  moreover have "\<not> ublank sample_text" by (simp add: sample_text_def blank_simps)
  ultimately show ?thesis by (simp add: structure_aware_chunks_def sample_sections Let_def)
qed

theorem chunks_cover_text_witness:
  "\<exists>r c. structure_aware_chunks ascii_unicode sample_text 3 1 = Inr r \<and> c \<in> set (cr_chunks r) \<and>
     lf_start_offset c \<le> 3 \<and> 3 < lf_end_offset c \<and> 98 \<in> set (lf_content c)"
proof -
  obtain r where r: "structure_aware_chunks ascii_unicode sample_text 3 1 = Inr r" using sample_chunks by blast
  have "3 < length sample_text" "\<not> py_isspace (sample_text ! 3)" by (simp_all add: sample_text_def py_isspace_def)
  from chunks_cover_text [OF r this] r show ?thesis by (auto simp: sample_text_def)
qed

theorem chunks_bounded_witness:
  "\<exists>r c. structure_aware_chunks ascii_unicode sample_text 3 1 = Inr r \<and> c \<in> set (cr_chunks r) \<and>
     lf_content c = [35, 97] \<and> int (length (lf_content c)) \<le> 3 \<and> end_to_end 0 (cr_sections r) (length sample_text)"
proof -
  obtain r c where r: "structure_aware_chunks ascii_unicode sample_text 3 1 = Inr r" "c \<in> set (cr_chunks r)" "lf_content c = [35, 97]"
    using sample_chunks by fastforce
  from chunks_bounded [OF r(1,2)] r show ?thesis by blast
qed

theorem flat_chunks_agree_witness:
  "\<exists>cs r. chunk_text [97, 32, 98] 2 1 = Inr cs \<and> structure_aware_chunks ascii_unicode [97, 32, 98] 2 1 = Inr r \<and>
     cs = map flat_chunk (cr_chunks r)"
proof -
  have "find_headings ascii_unicode 0 (splitlines [97, 32, 98]) = []"
    by (simp add: line_eval HEADING_PREFIXES_def ascii_unicode_def)
  from flat_chunks_agree [OF this, of 2 1] show ?thesis
    by (auto simp: chunk_text_def structure_aware_chunks_def blank_simps Let_def)
qed

end
