(* ===== verification/Evidence.thy ===== *)
theory Evidence
  imports Access Events
begin

text \<open>
  What a stored fact may rest on: the classification ladder and the evidence reference of
  \<^verbatim>\<open>dw_knowledge/contracts.py\<close>, the tables of the knowledge schema (\<^verbatim>\<open>dw_knowledge/tables.py\<close>) and the
  evidence store (\<^verbatim>\<open>adapters/evidence_store.py\<close>) that checks every citation against the chunk it names.
  A query runs under row-level security: a row of another tenant is not there, except that a
  document of scope \<^verbatim>\<open>global\<close> may be read by every tenant. Floats that only lie in the unit interval
  and are compared are rationals.
\<close>

subsection \<open>The classification ladder\<close>

definition CLEARANCE_ALLOWS :: "(string \<times> string list) list" where
  "CLEARANCE_ALLOWS =
     [(''internal'', [''internal'']), (''confidential'', [''internal'', ''confidential'']),
      (''restricted'', [''internal'', ''confidential'', ''restricted''])]"

definition classifications_for_clearance :: "string \<Rightarrow> string list" where
  "classifications_for_clearance clearance =
     (case map_of CLEARANCE_ALLOWS clearance of None \<Rightarrow> [''internal''] | Some allowed \<Rightarrow> allowed)"

definition CLASSIFICATIONS :: "string list" where
  "CLASSIFICATIONS = map fst (sort_by (\<lambda>entry. int (length (snd entry))) CLEARANCE_ALLOWS)"

definition label_rank :: "string \<Rightarrow> nat" where
  "label_rank label = length (takeWhile (\<lambda>l. l \<noteq> label) CLASSIFICATIONS)"

definition classification_rank :: "string \<Rightarrow> nat res" where
  "classification_rank label =
     (if label \<in> set CLASSIFICATIONS then Inr (label_rank label) else Inl (ValueError ''unknown classification''))"

subsection \<open>Evidence references\<close>

record evidence_ref =
  er_evidence_id :: uuid
  er_source_document_id :: uuid
  er_source_version :: string
  er_chunk_id :: "uuid option"
  er_page :: "int option"
  er_start_offset :: "int option"
  er_end_offset :: "int option"
  er_quote :: "ustr option"
  er_relevance_score :: rat
  er_classification :: string
  er_provenance_hash :: string

definition is_hex_digit :: "char \<Rightarrow> bool" where
  "is_hex_digit c \<longleftrightarrow> c \<in> set ''0123456789abcdef''"

definition evidence_ref_ok :: "evidence_ref \<Rightarrow> bool" where
  "evidence_ref_ok ref \<longleftrightarrow>
     (case er_page ref of None \<Rightarrow> True | Some n \<Rightarrow> 1 \<le> n) \<and> (case er_start_offset ref of None \<Rightarrow> True | Some n \<Rightarrow> 0 \<le> n) \<and>
     (case er_end_offset ref of None \<Rightarrow> True | Some n \<Rightarrow> 0 \<le> n) \<and>
     0 \<le> er_relevance_score ref \<and> er_relevance_score ref \<le> 1 \<and>
     length (er_provenance_hash ref) = 64 \<and> list_all is_hex_digit (er_provenance_hash ref)"

subsection \<open>The knowledge schema\<close>

record document_row =
  dc_id :: uuid
  dc_tenant_id :: uuid
  dc_workspace_id :: uuid
  dc_title :: ustr
  dc_identity_key :: "ustr option"
  dc_domain :: string
  dc_source_uri :: string
  dc_classification :: string
  dc_source_version :: string
  dc_index_version :: "string option"
  dc_created_by :: uuid
  dc_created_at :: instant
  dc_doc_key :: "uuid option"
  dc_status :: string
  dc_is_current :: bool
  dc_effective_from :: "instant option"
  dc_effective_to :: "instant option"
  dc_superseded_by :: "uuid option"
  dc_deleted_at :: "instant option"
  dc_deleted_by :: "uuid option"
  dc_scope :: string
  dc_extra :: "(string \<times> string) list"
  dc_acl_principals :: "string list"

record chunk_row =
  ck_id :: uuid
  ck_tenant_id :: uuid
  ck_workspace_id :: uuid
  ck_document_id :: uuid
  ck_seq :: nat
  ck_content :: ustr
  ck_start_offset :: nat
  ck_end_offset :: nat
  ck_provenance_hash :: string
  ck_section_path :: ustr
  ck_section_index :: nat
  ck_status :: string
  ck_deleted_at :: "instant option"

record evidence_row =
  ev_ref :: evidence_ref
  ev_tenant_id :: uuid
  ev_workspace_id :: uuid
  ev_classification :: string
  ev_created_at :: instant

record knowledge_db =
  kd_documents :: "document_row list"
  kd_chunks :: "chunk_row list"
  kd_evidence :: "evidence_row list"

text \<open>The two read policies of \<^verbatim>\<open>documents\<close>, and the one of \<^verbatim>\<open>chunks\<close>.\<close>

definition document_readable :: "uuid \<Rightarrow> document_row \<Rightarrow> bool" where
  "document_readable tenant d \<longleftrightarrow> dc_tenant_id d = tenant \<or> dc_scope d = ''global''"

definition visible_from_workspace :: "uuid \<Rightarrow> document_row \<Rightarrow> bool" where
  "visible_from_workspace ws d \<longleftrightarrow> dc_workspace_id d = ws \<or> dc_scope d = ''global''"

subsection \<open>The evidence store\<close>

definition document_of :: "knowledge_db \<Rightarrow> uuid \<Rightarrow> chunk_row \<Rightarrow> document_row option" where
  "document_of kn tenant c =
     List.find (\<lambda>d. document_readable tenant d \<and> dc_id d = ck_document_id c) (kd_documents kn)"

text \<open>The join of the cited chunks with their documents, in table order.\<close>

definition cited_rows :: "knowledge_db \<Rightarrow> uuid \<Rightarrow> evidence_ref list \<Rightarrow> (chunk_row \<times> document_row) list" where
  "cited_rows kn tenant refs =
     List.map_filter (\<lambda>c. map_option (Pair c) (document_of kn tenant c))
       (filter (\<lambda>c. ck_tenant_id c = tenant \<and> Some (ck_id c) \<in> er_chunk_id ` set refs) (kd_chunks kn))"

definition stored_chunk :: "(chunk_row \<times> document_row) list \<Rightarrow> evidence_ref \<Rightarrow> (chunk_row \<times> document_row) option" where
  "stored_chunk rows ref = List.find (\<lambda>row. Some (ck_id (fst row)) = er_chunk_id ref) rows"

definition check_ref :: "(chunk_row \<times> document_row) list \<Rightarrow> uuid \<Rightarrow> evidence_ref \<Rightarrow> unit res" where
  "check_ref rows ws ref =
     (case stored_chunk rows ref of
        None \<Rightarrow> raise_dw (DomainError ''evidence cites a chunk this tenant does not have'')
      | Some (c, d) \<Rightarrow>
          if ck_provenance_hash c \<noteq> er_provenance_hash ref
          then raise_dw (DomainError ''evidence hash does not match the chunk it cites'')
          else if ck_document_id c \<noteq> er_source_document_id ref
          then raise_dw (DomainError ''evidence cites one document and quotes another'')
          else if \<not> visible_from_workspace ws d
          then raise_dw (DomainError ''evidence cites a document from another workspace'')
          else Inr ())"

fun check_refs :: "(chunk_row \<times> document_row) list \<Rightarrow> uuid \<Rightarrow> evidence_ref list \<Rightarrow> unit res" where
  "check_refs rows ws [] = Inr ()"
| "check_refs rows ws (ref # refs) =
     (case check_ref rows ws ref of Inl e \<Rightarrow> Inl e | Inr _ \<Rightarrow> check_refs rows ws refs)"

text \<open>\<^verbatim>\<open>max(labels, key=classification_rank)\<close>: the first of the highest rank.\<close>

fun strictest_of :: "string \<Rightarrow> string list \<Rightarrow> string" where
  "strictest_of best [] = best"
| "strictest_of best (l # ls) = strictest_of (if label_rank best < label_rank l then l else best) ls"

definition strictest :: "string list \<Rightarrow> string res" where
  "strictest labels =
     (case labels of
        [] \<Rightarrow> Inl (ValueError ''max() iterable argument is empty'')
      | l # ls \<Rightarrow> if list_all (\<lambda>x. x \<in> set CLASSIFICATIONS) labels then Inr (strictest_of l ls)
                 else Inl (ValueError ''unknown classification''))"

definition new_evidence :: "uuid \<Rightarrow> uuid \<Rightarrow> instant \<Rightarrow> (chunk_row \<times> document_row) list \<Rightarrow> evidence_ref \<Rightarrow> evidence_row" where
  "new_evidence tenant ws now rows ref =
     \<lparr>ev_ref = ref, ev_tenant_id = tenant, ev_workspace_id = ws,
      ev_classification = (case stored_chunk rows ref of Some (_, d) \<Rightarrow> dc_classification d | None \<Rightarrow> []), ev_created_at = now\<rparr>"

text \<open>The primary key of \<^verbatim>\<open>knowledge.evidence\<close> is the evidence id.\<close>

definition insert_evidence :: "knowledge_db \<Rightarrow> evidence_row list \<Rightarrow> knowledge_db res" where
  "insert_evidence kn rows =
     (if distinct (map (er_evidence_id \<circ> ev_ref) (kd_evidence kn @ rows))
      then Inr (kn\<lparr>kd_evidence := kd_evidence kn @ rows\<rparr>) else Inl (OtherError ''IntegrityError''))"

definition evidence_record ::
  "instant \<Rightarrow> knowledge_db \<Rightarrow> evidence_ref list \<Rightarrow> uuid \<Rightarrow> uuid \<Rightarrow> (string \<times> knowledge_db) res" where
  "evidence_record now kn refs tenant ws =
     (if refs = [] then raise_dw (DomainError ''a memory cannot be stored without evidence'')
      else if list_ex (\<lambda>ref. er_chunk_id ref = None) refs
      then raise_dw (DomainError ''evidence must name the chunk it came from'')
      else let rows = cited_rows kn tenant refs in
        (case check_refs rows ws refs of
           Inl e \<Rightarrow> Inl e
         | Inr _ \<Rightarrow>
           (case strictest (map (dc_classification \<circ> snd) rows) of
              Inl _ \<Rightarrow> raise_dw (DomainError ''evidence cites a document with an unknown classification'')
            | Inr label \<Rightarrow>
              (case insert_evidence kn (map (new_evidence tenant ws now rows) refs) of
                 Inl e \<Rightarrow> Inl e
               | Inr kn' \<Rightarrow> Inr (label, kn')))))"

subsection \<open>Facts\<close>

lemma set_map_filter: "set (List.map_filter f xs) = {y. \<exists>x \<in> set xs. f x = Some y}"
  by (induction xs) (auto simp: List.map_filter_def)

lemma CLASSIFICATIONS_simp [simp]: "CLASSIFICATIONS = [''internal'', ''confidential'', ''restricted'']"
  by (simp add: CLASSIFICATIONS_def CLEARANCE_ALLOWS_def)

lemma label_rank_simps [simp]:
  "label_rank ''internal'' = 0" "label_rank ''confidential'' = 1" "label_rank ''restricted'' = 2"
  by (simp_all add: label_rank_def)

lemma allowed_cases:
  obtains "classifications_for_clearance clearance = [''internal'']"
  | "classifications_for_clearance clearance = [''internal'', ''confidential'']"
  | "classifications_for_clearance clearance = [''internal'', ''confidential'', ''restricted'']"
proof (cases "clearance \<in> set [''internal'', ''confidential'', ''restricted'']")
  case True then show ?thesis using that by (auto simp: classifications_for_clearance_def CLEARANCE_ALLOWS_def)
next
  case False
  then have "map_of CLEARANCE_ALLOWS clearance = None" by (simp add: CLEARANCE_ALLOWS_def)
  then show ?thesis using that(1) by (simp add: classifications_for_clearance_def)
qed

text \<open>A clearance reads its own classification and everything below it, and nothing above.\<close>

lemma clearance_is_downward:
  assumes "label \<in> set (classifications_for_clearance clearance)" "l \<in> set CLASSIFICATIONS" "label_rank l \<le> label_rank label"
  shows "l \<in> set (classifications_for_clearance clearance)"
  using assms
  by (cases clearance rule: allowed_cases; simp only: CLASSIFICATIONS_simp list.set insert_iff empty_iff; elim disjE; simp)

lemma allowed_on_ladder: "set (classifications_for_clearance clearance) \<subseteq> set CLASSIFICATIONS"
  by (cases clearance rule: allowed_cases) simp_all

lemma strictest_of_ge: "label_rank best \<le> label_rank (strictest_of best ls) \<and> (\<forall>l \<in> set ls. label_rank l \<le> label_rank (strictest_of best ls))"
proof (induction ls arbitrary: best)
  case (Cons l ls)
  show ?case using Cons.IH [of l] Cons.IH [of best] by (cases "label_rank best < label_rank l") auto
qed simp

lemma strictest_of_mem: "strictest_of best ls \<in> set (best # ls)"
  by (induction ls arbitrary: best) (fastforce split: if_splits)+

lemma strictest_ok:
  assumes "strictest labels = Inr label"
  shows "label \<in> set CLASSIFICATIONS \<and> (\<forall>l \<in> set labels. l \<in> set CLASSIFICATIONS \<and> label_rank l \<le> label_rank label)"
proof (cases labels)
  case (Cons l ls)
  then have "list_all (\<lambda>x. x \<in> set CLASSIFICATIONS) labels" "label = strictest_of l ls"
    using assms by (auto simp: strictest_def split: if_splits)
  then show ?thesis using Cons strictest_of_ge [of l ls] strictest_of_mem [of l ls] by (auto simp: list_all_iff simp del: CLASSIFICATIONS_simp)
qed (use assms in \<open>simp add: strictest_def\<close>)

lemma cited_rowsD:
  assumes "(c, d) \<in> set (cited_rows kn tenant refs)"
  shows "c \<in> set (kd_chunks kn)" "ck_tenant_id c = tenant" "d \<in> set (kd_documents kn)" "dc_id d = ck_document_id c"
    "document_readable tenant d"
  using assms by (auto simp: cited_rows_def document_of_def set_map_filter dest!: find_SomeD)

lemma check_refs_ok: "check_refs rows ws refs = Inr () \<longleftrightarrow> (\<forall>ref \<in> set refs. check_ref rows ws ref = Inr ())"
  by (induction refs) (auto split: sum.split)

text \<open>What a passed check says of the reference.\<close>

definition backed :: "knowledge_db \<Rightarrow> uuid \<Rightarrow> uuid \<Rightarrow> evidence_ref \<Rightarrow> chunk_row \<Rightarrow> document_row \<Rightarrow> bool" where
  "backed kn tenant ws ref c d \<longleftrightarrow>
     c \<in> set (kd_chunks kn) \<and> d \<in> set (kd_documents kn) \<and> er_chunk_id ref = Some (ck_id c) \<and> ck_tenant_id c = tenant \<and>
     ck_provenance_hash c = er_provenance_hash ref \<and> ck_document_id c = er_source_document_id ref \<and>
     dc_id d = er_source_document_id ref \<and> document_readable tenant d \<and> visible_from_workspace ws d"

lemma check_ref_backed:
  assumes "check_ref (cited_rows kn tenant refs) ws ref = Inr ()"
  obtains c d where "stored_chunk (cited_rows kn tenant refs) ref = Some (c, d)" "(c, d) \<in> set (cited_rows kn tenant refs)"
    "backed kn tenant ws ref c d"
proof -
  obtain c d where s: "stored_chunk (cited_rows kn tenant refs) ref = Some (c, d)"
      "ck_provenance_hash c = er_provenance_hash ref" "ck_document_id c = er_source_document_id ref" "visible_from_workspace ws d"
    using assms by (auto simp: check_ref_def split: option.splits if_splits)
  from s(1) have mem: "(c, d) \<in> set (cited_rows kn tenant refs)" "er_chunk_id ref = Some (ck_id c)"
    by (auto simp: stored_chunk_def dest!: find_SomeD)
  then show ?thesis using that [OF s(1) mem(1)] s cited_rowsD [OF mem(1)] by (simp add: backed_def)
qed

lemma evidence_record_ok:
  assumes "evidence_record now kn refs tenant ws = Inr (label, kn')"
  shows "refs \<noteq> []" "label \<in> set CLASSIFICATIONS"
    "kn' = kn\<lparr>kd_evidence := kd_evidence kn @ map (new_evidence tenant ws now (cited_rows kn tenant refs)) refs\<rparr>"
    "distinct (map (er_evidence_id \<circ> ev_ref) (kd_evidence kn'))"
    "\<forall>ref \<in> set refs. \<exists>c d. backed kn tenant ws ref c d \<and> label_rank (dc_classification d) \<le> label_rank label \<and>
       ev_classification (new_evidence tenant ws now (cited_rows kn tenant refs) ref) = dc_classification d"
proof -
  let ?rows = "cited_rows kn tenant refs"
  have ok: "check_refs ?rows ws refs = Inr ()" and str: "strictest (map (dc_classification \<circ> snd) ?rows) = Inr label"
    and ins: "insert_evidence kn (map (new_evidence tenant ws now ?rows) refs) = Inr kn'" and "refs \<noteq> []"
    using assms by (auto simp: evidence_record_def Let_def split: if_splits sum.splits)
  then show "refs \<noteq> []" "label \<in> set CLASSIFICATIONS" using strictest_ok [OF str] by (simp_all del: CLASSIFICATIONS_simp)
  show "kn' = kn\<lparr>kd_evidence := kd_evidence kn @ map (new_evidence tenant ws now ?rows) refs\<rparr>"
    "distinct (map (er_evidence_id \<circ> ev_ref) (kd_evidence kn'))"
    using ins by (auto simp: insert_evidence_def split: if_splits)
  show "\<forall>ref \<in> set refs. \<exists>c d. backed kn tenant ws ref c d \<and> label_rank (dc_classification d) \<le> label_rank label \<and>
       ev_classification (new_evidence tenant ws now ?rows ref) = dc_classification d"
  proof
    fix ref assume "ref \<in> set refs"
    then have "check_ref ?rows ws ref = Inr ()" using ok by (simp add: check_refs_ok)
    then obtain c d where cd: "stored_chunk ?rows ref = Some (c, d)" "(c, d) \<in> set ?rows" "backed kn tenant ws ref c d"
      by (rule check_ref_backed)
    have "dc_classification d \<in> set (map (dc_classification \<circ> snd) ?rows)" using cd(2) by force
    then have "label_rank (dc_classification d) \<le> label_rank label" using strictest_ok [OF str] by blast
    then show "\<exists>c d. backed kn tenant ws ref c d \<and> label_rank (dc_classification d) \<le> label_rank label \<and>
       ev_classification (new_evidence tenant ws now ?rows ref) = dc_classification d"
      using cd by (auto simp: new_evidence_def)
  qed
qed

end
