(* ===== verification/RetentionPolicy.thy ===== *)
theory RetentionPolicy
  imports Events
begin

text \<open>
  How long data is kept: the versioned contract of \<^verbatim>\<open>dw_platform/retention_policy.py\<close>. The sweeps that
  enforce it are modelled with the tables they delete from (\<open>Memory\<close>, \<open>Knowledge\<close>, \<open>Notify\<close>). The
  YAML file behind it is the argument of the definitions.
\<close>

record retention_class =
  rk_days :: "int option"
  rk_description :: string

record knowledge_retention =
  kr_deleted_grace_days :: int
  kr_orphan_evidence_grace_days :: int

record audit_retention =
  au_months_ahead :: int
  au_enforced :: bool
  au_tables :: "(string \<times> retention_class) list"

record checkpoint_retention =
  cp_superseded_days :: int
  cp_idle_thread_days :: int

record retention_policy =
  rp_schema_version :: string
  rp_policy_id :: string
  rp_policy_version :: string
  rp_classes :: "(string \<times> retention_class) list"
  rp_knowledge :: knowledge_retention
  rp_audit :: audit_retention
  rp_checkpoints :: checkpoint_retention
  rp_pending_expiry_days :: int
  rp_batch_limit :: int

definition class_ok :: "retention_class \<Rightarrow> bool" where
  "class_ok k = (case rk_days k of None \<Rightarrow> True | Some d \<Rightarrow> 1 \<le> d)"

definition is_semver :: "string \<Rightarrow> bool" where
  "is_semver s =
     (let digit = (\<lambda>c. c \<in> set ''0123456789''); a = dropWhile digit s; b = dropWhile digit (tl a)
      in s \<noteq> [] \<and> digit (hd s) \<and> a \<noteq> [] \<and> hd a = CHR ''.'' \<and> tl a \<noteq> [] \<and> digit (hd (tl a)) \<and>
         b \<noteq> [] \<and> hd b = CHR ''.'' \<and> tl b \<noteq> [] \<and> list_all digit (tl b))"

text \<open>The field constraints and validators pydantic applies when the file is loaded.\<close>

definition retention_policy_ok :: "retention_policy \<Rightarrow> bool" where
  "retention_policy_ok p \<longleftrightarrow>
     rp_schema_version p = ''1.0'' \<and> is_semver (rp_policy_version p) \<and> list_all (class_ok \<circ> snd) (rp_classes p) \<and>
     1 \<le> kr_deleted_grace_days (rp_knowledge p) \<and> 1 \<le> kr_orphan_evidence_grace_days (rp_knowledge p) \<and>
     1 \<le> au_months_ahead (rp_audit p) \<and> au_months_ahead (rp_audit p) \<le> 24 \<and> list_all (class_ok \<circ> snd) (au_tables (rp_audit p)) \<and>
     1 \<le> cp_superseded_days (rp_checkpoints p) \<and> 1 \<le> cp_idle_thread_days (rp_checkpoints p) \<and>
     cp_superseded_days (rp_checkpoints p) \<le> cp_idle_thread_days (rp_checkpoints p) \<and>
     1 \<le> rp_pending_expiry_days p \<and> 0 < rp_batch_limit p \<and> rp_batch_limit p \<le> 10000"

definition audit_cutoff_for :: "audit_retention \<Rightarrow> string \<Rightarrow> instant \<Rightarrow> instant option" where
  "audit_cutoff_for a tab now =
     (case map_of (au_tables a) tab of
        None \<Rightarrow> None
      | Some k \<Rightarrow> if \<not> au_enforced a then None else map_option (\<lambda>d. now - days d) (rk_days k))"

definition cutoff_for :: "retention_policy \<Rightarrow> string \<Rightarrow> instant \<Rightarrow> instant option" where
  "cutoff_for p name now =
     (case map_of (rp_classes p) name of None \<Rightarrow> None | Some k \<Rightarrow> map_option (\<lambda>d. now - days d) (rk_days k))"

lemma cutoff_past:
  assumes "retention_policy_ok p" "cutoff_for p name now = Some cutoff"
  shows "cutoff \<le> now - days 1"
proof -
  obtain k d where k: "map_of (rp_classes p) name = Some k" "rk_days k = Some d" "cutoff = now - days d"
    using assms(2) by (auto simp: cutoff_for_def split: option.splits)
  have "(name, k) \<in> set (rp_classes p)" using k(1) by (rule map_of_SomeD)
  then have "class_ok k" using assms(1) by (auto simp: retention_policy_ok_def list_all_iff)
  then show ?thesis using k by (simp add: class_ok_def)
qed

end
