(* ===== verification/Memory.thy ===== *)
theory Memory
  imports Evidence Pagination RetentionPolicy "HOL-Library.Multiset"
begin

text \<open>
  Long-term memory: the contracts, the write policy, the service and the ranking of the package
  \<^verbatim>\<open>dw_memory\<close>. A proposal is decided by the policy, written with its evidence or held for review; a
  decided review is settled; recall reads back what a caller may see. Every operation that opens a
  transaction returns the database it leaves behind, which is the one it was given when it raises.
  The evidence store is the port \<open>evidence_port\<close> the service calls through; ids drawn from the
  generator are arguments, in the order the code draws them.
\<close>

subsection \<open>Contracts\<close>

definition MEMORY_SCHEMA_VERSION :: string where "MEMORY_SCHEMA_VERSION = ''1.0.0''"
definition RETENTION_CLASS :: string where "RETENTION_CLASS = ''default''"
definition DEFAULT_RECALL_LIMIT :: nat where "DEFAULT_RECALL_LIMIT = 12"
definition RANKING_POOL :: nat where "RANKING_POOL = 100"
definition MEMORY_REVIEW :: string where "MEMORY_REVIEW = ''memory.review''"

datatype memory_type = Episodic | Semantic | Procedural | Preference | Commitment
datatype write_decision = Auto_write | Review | Reject

fun memory_type_value :: "memory_type \<Rightarrow> string" where
  "memory_type_value Episodic = ''episodic''"
| "memory_type_value Semantic = ''semantic''"
| "memory_type_value Procedural = ''procedural''"
| "memory_type_value Preference = ''preference''"
| "memory_type_value Commitment = ''commitment''"

record memory_item =
  mi_memory_id :: uuid
  mi_tenant_id :: uuid
  mi_workspace_id :: uuid
  mi_worker_id :: string
  mi_memory_type :: memory_type
  mi_subject_refs :: "string list"
  mi_content :: ustr
  mi_structured_facts :: details
  mi_provenance_refs :: "evidence_ref list"
  mi_confidence :: rat
  mi_classification :: string
  mi_valid_from :: instant
  mi_valid_until :: "instant option"
  mi_retention_policy :: string
  mi_memory_schema_version :: string
  mi_created_by_run_id :: uuid
  mi_fact_key :: "string option"

definition fact_key_ok :: "string option \<Rightarrow> bool" where
  "fact_key_ok k = (case k of None \<Rightarrow> True | Some s \<Rightarrow> 1 \<le> length s \<and> length s \<le> 64)"

text \<open>The validation a \<^verbatim>\<open>MemoryItem\<close> goes through, on construction and on every read back.\<close>

definition make_item :: "memory_item \<Rightarrow> memory_item res" where
  "make_item m =
     (if mi_content m \<noteq> [] \<and> 0 \<le> mi_confidence m \<and> mi_confidence m \<le> 1 \<and> fact_key_ok (mi_fact_key m) \<and>
         list_all evidence_ref_ok (mi_provenance_refs m) \<and>
         (case mi_valid_until m of None \<Rightarrow> True | Some u \<Rightarrow> mi_valid_from m < u)
      then Inr m else Inl ValidationError)"

definition is_valid_at :: "memory_item \<Rightarrow> instant \<Rightarrow> bool" where
  "is_valid_at m moment \<longleftrightarrow>
     \<not> moment < mi_valid_from m \<and> (case mi_valid_until m of None \<Rightarrow> True | Some u \<Rightarrow> moment < u)"

subsection \<open>The write policy\<close>

record memory_candidate =
  mc_worker_id :: string
  mc_memory_type :: memory_type
  mc_content :: ustr
  mc_structured_facts :: details
  mc_subject_refs :: "string list"
  mc_provenance_refs :: "evidence_ref list"
  mc_classification :: string
  mc_fact_key :: "string option"


record policy_outcome =
  po_decision :: write_decision
  po_reason :: string
  po_confidence :: rat

record write_policy =
  wp_policy_version :: string
  wp_auto_write_sources :: int

text \<open>
  \<^verbatim>\<open>1.0 - 0.5**sources\<close> in double precision: exact up to 53 sources; from 54 on the difference is
  not representable and rounds to 1.
\<close>

definition confidence_of :: "nat \<Rightarrow> rat" where
  "confidence_of sources = (if sources \<le> 53 then 1 - 1 / 2 ^ sources else 1)"

definition evaluate :: "write_policy \<Rightarrow> memory_candidate \<Rightarrow> policy_outcome" where
  "evaluate p c =
     (let sources = card (er_source_document_id ` set (mc_provenance_refs c));
          confidence = confidence_of sources
      in if sources = 0 then \<lparr>po_decision = Reject, po_reason = ''memory without provenance is never stored'', po_confidence = confidence\<rparr>
         else if mc_classification c = ''restricted''
         then \<lparr>po_decision = Review, po_reason = ''restricted content always requires human review'', po_confidence = confidence\<rparr>
         else if wp_auto_write_sources p \<le> int sources
         then \<lparr>po_decision = Auto_write, po_reason = ''corroborated, evidenced, unrestricted'', po_confidence = confidence\<rparr>
         else \<lparr>po_decision = Review, po_reason = ''too few independent sources to write unreviewed'', po_confidence = confidence\<rparr>)"

subsection \<open>The memory schema\<close>

record item_row =
  ir_item :: memory_item
  ir_created_at :: instant

record candidate_row =
  wc_id :: uuid
  wc_tenant_id :: uuid
  wc_workspace_id :: uuid
  wc_candidate :: memory_candidate
  wc_confidence :: rat
  wc_decision :: write_decision
  wc_memory_id :: "uuid option"
  wc_created_by_run_id :: uuid
  wc_created_at :: instant

record item_evidence_row =
  ie_memory_id :: uuid
  ie_evidence_id :: uuid
  ie_tenant_id :: uuid

text \<open>\<open>md_runs\<close> holds the ids of \<^verbatim>\<open>platform.worker_runs\<close>, the target of the items' foreign key.\<close>

record 'c memory_db =
  md_knowledge :: knowledge_db
  md_items :: "item_row list"
  md_candidates :: "candidate_row list"
  md_item_evidence :: "item_evidence_row list"
  md_platform :: "'c platform_db"
  md_runs :: "uuid list"

type_synonym evidence_port = "knowledge_db \<Rightarrow> evidence_ref list \<Rightarrow> uuid \<Rightarrow> uuid \<Rightarrow> (string \<times> knowledge_db) res"

definition insert_candidate :: "'c memory_db \<Rightarrow> candidate_row \<Rightarrow> 'c memory_db res" where
  "insert_candidate db row =
     (if wc_id row \<in> wc_id ` set (md_candidates db) then Inl (OtherError ''IntegrityError'')
      else Inr (db\<lparr>md_candidates := md_candidates db @ [row]\<rparr>))"

definition insert_item :: "'c memory_db \<Rightarrow> item_row \<Rightarrow> 'c memory_db res" where
  "insert_item db row =
     (if mi_memory_id (ir_item row) \<in> (mi_memory_id \<circ> ir_item) ` set (md_items db) \<or>
         mi_provenance_refs (ir_item row) = [] \<or> mi_created_by_run_id (ir_item row) \<notin> set (md_runs db)
      then Inl (OtherError ''IntegrityError'')
      else Inr (db\<lparr>md_items := md_items db @ [row]\<rparr>))"

subsection \<open>Writing an item\<close>

definition verify_evidence ::
  "evidence_port \<Rightarrow> 'c memory_db \<Rightarrow> evidence_ref list \<Rightarrow> string \<Rightarrow> uuid \<Rightarrow> uuid \<Rightarrow> 'c memory_db res" where
  "verify_evidence es db refs claimed tenant ws =
     (case es (md_knowledge db) refs tenant ws of
        Inl e \<Rightarrow> Inl e
      | Inr (cited, kn) \<Rightarrow>
        (case (classification_rank claimed, classification_rank cited) of
           (Inl e, _) \<Rightarrow> Inl e
         | (Inr _, Inl e) \<Rightarrow> Inl e
         | (Inr a, Inr b) \<Rightarrow>
             if a < b then raise_dw (DomainError ''memory claims a lower classification than the evidence it cites'')
             else Inr (db\<lparr>md_knowledge := kn\<rparr>)))"

definition supersedes :: "memory_item \<Rightarrow> item_row \<Rightarrow> bool" where
  "supersedes m row \<longleftrightarrow>
     mi_tenant_id (ir_item row) = mi_tenant_id m \<and> mi_workspace_id (ir_item row) = mi_workspace_id m \<and>
     mi_worker_id (ir_item row) = mi_worker_id m \<and> mi_fact_key (ir_item row) = mi_fact_key m \<and>
     mi_memory_id (ir_item row) \<noteq> mi_memory_id m \<and> mi_valid_until (ir_item row) = None \<and>
     set (mi_subject_refs (ir_item row)) \<inter> set (mi_subject_refs m) \<noteq> {}"

definition close_row :: "instant \<Rightarrow> item_row \<Rightarrow> item_row" where
  "close_row now row = row\<lparr>ir_item := (ir_item row)\<lparr>mi_valid_until := Some now\<rparr>\<rparr>"

definition close_superseded :: "'c memory_db \<Rightarrow> memory_item \<Rightarrow> instant \<Rightarrow> uuid list \<times> 'c memory_db" where
  "close_superseded db m now =
     (if mi_fact_key m = None \<or> mi_subject_refs m = [] then ([], db)
      else (map (mi_memory_id \<circ> ir_item) (filter (supersedes m) (md_items db)),
            db\<lparr>md_items := map (\<lambda>row. if supersedes m row then close_row now row else row) (md_items db)\<rparr>))"

definition store_item :: "evidence_port \<Rightarrow> 'c memory_db \<Rightarrow> memory_item \<Rightarrow> instant \<Rightarrow> (uuid list \<times> 'c memory_db) res" where
  "store_item es db m now =
     (case verify_evidence es db (mi_provenance_refs m) (mi_classification m) (mi_tenant_id m) (mi_workspace_id m) of
        Inl e \<Rightarrow> Inl e
      | Inr db1 \<Rightarrow>
        (case insert_item db1 \<lparr>ir_item = m, ir_created_at = now\<rparr> of
           Inl e \<Rightarrow> Inl e
         | Inr db2 \<Rightarrow>
           (case close_superseded db2 m now of
              (superseded, db3) \<Rightarrow>
                Inr (superseded,
                     db3\<lparr>md_item_evidence := md_item_evidence db3 @
                       map (\<lambda>ref. \<lparr>ie_memory_id = mi_memory_id m, ie_evidence_id = er_evidence_id ref, ie_tenant_id = mi_tenant_id m\<rparr>)
                         (mi_provenance_refs m)\<rparr>))))"

subsection \<open>Proposals\<close>

record proposal_result =
  pr_candidate_id :: uuid
  pr_outcome :: policy_outcome
  pr_item :: "memory_item option"

text \<open>The ids a call draws: the candidate's (without a key), the item's, the approval's and the event's.\<close>

record memory_ids =
  id_candidate :: uuid
  id_item :: uuid
  id_approval :: uuid
  id_event :: uuid

fun write_action :: "write_decision \<Rightarrow> string" where
  "write_action Auto_write = ''memory.item_written''"
| "write_action Review = ''memory.write_held_for_review''"
| "write_action Reject = ''memory.write_rejected''"

definition key_json :: "string option \<Rightarrow> json" where
  "key_json k = (case k of None \<Rightarrow> JNull | Some s \<Rightarrow> JStr s)"

definition proposal_audit ::
  "write_policy \<Rightarrow> uuid \<Rightarrow> access_context \<Rightarrow> memory_candidate \<Rightarrow> policy_outcome \<Rightarrow> memory_item option \<Rightarrow> uuid \<Rightarrow> uuid \<Rightarrow> instant \<Rightarrow>
   uuid list \<Rightarrow> uuid option \<Rightarrow> audit_event" where
  "proposal_audit p event_id c cand outcome item candidate_id run_id now superseded approval_id =
     \<lparr>ae_id = event_id, ae_tenant_id = ac_tenant_id c, ae_workspace_id = ac_workspace_id c, ae_actor_id = ac_principal_id c,
      ae_action = write_action (po_decision outcome), ae_resource_type = ''memory_item'',
      ae_resource_id = JUuid (case item of Some m \<Rightarrow> mi_memory_id m | None \<Rightarrow> candidate_id), ae_occurred_at = now,
      ae_run_id = Some run_id, ae_policy_decision = None, ae_trace_id = None,
      ae_details =
        [(''worker_id'', JStr (mc_worker_id cand)), (''memory_type'', JStr (memory_type_value (mc_memory_type cand))),
         (''confidence'', JFloat (po_confidence outcome)), (''classification'', JStr (mc_classification cand)),
         (''reason'', JStr (po_reason outcome)), (''policy_version'', JStr (wp_policy_version p)),
         (''evidence_count'', JInt (int (length (mc_provenance_refs cand)))), (''fact_key'', key_json (mc_fact_key cand)),
         (''superseded'', JArr (map JUuid superseded))] @
        (case approval_id of None \<Rightarrow> [] | Some a \<Rightarrow> [(''approval_id'', JUuid a)])\<rparr>"

text \<open>The fields of an item that come from its candidate, for a policy write and for an approved one.\<close>

definition item_of ::
  "memory_candidate \<Rightarrow> uuid \<Rightarrow> uuid \<Rightarrow> uuid \<Rightarrow> rat \<Rightarrow> uuid \<Rightarrow> instant \<Rightarrow> memory_item" where
  "item_of cand memory_id tenant ws confidence run_id now =
     \<lparr>mi_memory_id = memory_id, mi_tenant_id = tenant, mi_workspace_id = ws, mi_worker_id = mc_worker_id cand,
      mi_memory_type = mc_memory_type cand, mi_subject_refs = mc_subject_refs cand, mi_content = mc_content cand,
      mi_structured_facts = mc_structured_facts cand, mi_provenance_refs = mc_provenance_refs cand, mi_confidence = confidence,
      mi_classification = mc_classification cand, mi_valid_from = now, mi_valid_until = None,
      mi_retention_policy = RETENTION_CLASS, mi_memory_schema_version = MEMORY_SCHEMA_VERSION,
      mi_created_by_run_id = run_id, mi_fact_key = mc_fact_key cand\<rparr>"

definition stored_item :: "'c memory_db \<Rightarrow> uuid \<Rightarrow> uuid \<Rightarrow> memory_item option res" where
  "stored_item db tenant memory_id =
     (case List.find (\<lambda>row. mi_tenant_id (ir_item row) = tenant \<and> mi_memory_id (ir_item row) = memory_id) (md_items db) of
        None \<Rightarrow> Inr None
      | Some row \<Rightarrow> (case make_item (ir_item row) of Inl e \<Rightarrow> Inl e | Inr m \<Rightarrow> Inr (Some m)))"

definition already_decided :: "'c memory_db \<Rightarrow> uuid \<Rightarrow> uuid \<Rightarrow> proposal_result option res" where
  "already_decided db tenant candidate_id =
     (case List.find (\<lambda>row. wc_tenant_id row = tenant \<and> wc_id row = candidate_id) (md_candidates db) of
        None \<Rightarrow> Inr None
      | Some row \<Rightarrow>
        (case (case wc_memory_id row of None \<Rightarrow> Inr None | Some m \<Rightarrow> stored_item db tenant m) of
           Inl e \<Rightarrow> Inl e
         | Inr item \<Rightarrow>
             Inr (Some \<lparr>pr_candidate_id = candidate_id,
                        pr_outcome = \<lparr>po_decision = wc_decision row, po_reason = ''already decided'', po_confidence = wc_confidence row\<rparr>,
                        pr_item = item\<rparr>)))"

definition review_request :: "uuid \<Rightarrow> access_context \<Rightarrow> memory_candidate \<Rightarrow> uuid \<Rightarrow> policy_outcome \<Rightarrow> approval_request" where
  "review_request approval_id c cand candidate_id outcome =
     \<lparr>ar_id = approval_id, ar_tenant_id = ac_tenant_id c, ar_workspace_id = ac_workspace_id c,
      ar_approval_type = MEMORY_REVIEW, ar_requested_by = ac_principal_id c, ar_reason = ulit (po_reason outcome),
      ar_payload = JObj [(''candidate_id'', JUuid candidate_id), (''worker_id'', JStr (mc_worker_id cand)),
                         (''memory_type'', JStr (memory_type_value (mc_memory_type cand))),
                         (''classification'', JStr (mc_classification cand))],
      ar_run_id = None, ar_required_scope = None, ar_status = Approval_pending, ar_created_at = None, ar_decided_at = None,
      ar_version = 1\<rparr>"

definition new_candidate_row ::
  "access_context \<Rightarrow> uuid \<Rightarrow> memory_candidate \<Rightarrow> policy_outcome \<Rightarrow> memory_item option \<Rightarrow> uuid \<Rightarrow> instant \<Rightarrow> candidate_row" where
  "new_candidate_row c candidate_id cand outcome item run_id now =
     \<lparr>wc_id = candidate_id, wc_tenant_id = ac_tenant_id c, wc_workspace_id = ac_workspace_id c, wc_candidate = cand,
      wc_confidence = po_confidence outcome, wc_decision = po_decision outcome, wc_memory_id = map_option mi_memory_id item,
      wc_created_by_run_id = run_id, wc_created_at = now\<rparr>"

text \<open>
  Inside the transaction, after the candidate row: the item with its evidence, or the approval a
  held candidate waits on. The check of a held candidate's evidence runs in a savepoint that is
  always rolled back, so it leaves nothing behind. The result is what was superseded and the
  approval opened.
\<close>

definition write_or_hold ::
  "evidence_port \<Rightarrow> memory_ids \<Rightarrow> instant \<Rightarrow> instant \<Rightarrow> access_context \<Rightarrow> memory_candidate \<Rightarrow> uuid \<Rightarrow> policy_outcome \<Rightarrow>
   memory_item option \<Rightarrow> 'c memory_db \<Rightarrow> (uuid list \<times> uuid option \<times> 'c memory_db) res" where
  "write_or_hold es ids now db_now c cand candidate_id outcome item db =
     (case item of
        Some m \<Rightarrow> (case store_item es db m now of Inl e \<Rightarrow> Inl e | Inr (superseded, db') \<Rightarrow> Inr (superseded, None, db'))
      | None \<Rightarrow>
          if po_decision outcome = Review
          then (case verify_evidence es db (mc_provenance_refs cand) (mc_classification cand) (ac_tenant_id c) (ac_workspace_id c) of
                  Inl e \<Rightarrow> Inl e
                | Inr _ \<Rightarrow>
                    Inr ([], Some (id_approval ids),
                         db\<lparr>md_platform := approvals_add (md_platform db) db_now
                              (review_request (id_approval ids) c cand candidate_id outcome)\<rparr>))
          else Inr ([], None, db))"

definition purge_vectors :: "bool \<Rightarrow> uuid list \<Rightarrow> uuid list" where
  "purge_vectors has_purge superseded = (if superseded = [] \<or> \<not> has_purge then [] else superseded)"

text \<open>
  \<^verbatim>\<open>MemoryService.propose\<close>: its result, the database it leaves and the vectors it asks the index to
  delete after the commit (a failure there is logged and changes nothing).
\<close>

definition propose ::
  "evidence_port \<Rightarrow> write_policy \<Rightarrow> bool \<Rightarrow> memory_ids \<Rightarrow> instant \<Rightarrow> instant \<Rightarrow> memory_candidate \<Rightarrow> access_context \<Rightarrow> uuid \<Rightarrow>
   uuid option \<Rightarrow> 'c memory_db \<Rightarrow> proposal_result res \<times> 'c memory_db \<times> uuid list" where
  "propose es p has_purge ids now db_now cand c run_id key db =
     (let outcome = evaluate p cand;
          candidate_id = (case key of Some k \<Rightarrow> k | None \<Rightarrow> id_candidate ids);
          made = (if po_decision outcome = Auto_write
                  then map_sum id Some (make_item (item_of cand (id_item ids) (ac_tenant_id c) (ac_workspace_id c)
                                                    (po_confidence outcome) run_id now))
                  else Inr None)
      in case made of
           Inl e \<Rightarrow> (Inl e, db, [])
         | Inr item \<Rightarrow>
           (case (case key of None \<Rightarrow> Inr None | Some k \<Rightarrow> already_decided db (ac_tenant_id c) k) of
              Inl e \<Rightarrow> (Inl e, db, [])
            | Inr (Some seen) \<Rightarrow> (Inr seen, db, [])
            | Inr None \<Rightarrow>
              (case insert_candidate db (new_candidate_row c candidate_id cand outcome item run_id now) of
                 Inl e \<Rightarrow> (Inl e, db, [])
               | Inr db1 \<Rightarrow>
                 (case write_or_hold es ids now db_now c cand candidate_id outcome item db1 of
                    Inl e \<Rightarrow> (Inl e, db, [])
                  | Inr (superseded, approval_id, db2) \<Rightarrow>
                      (Inr \<lparr>pr_candidate_id = candidate_id, pr_outcome = outcome, pr_item = item\<rparr>,
                       db2\<lparr>md_platform := audit_append (md_platform db2)
                             (proposal_audit p (id_event ids) c cand outcome item candidate_id run_id now superseded approval_id)\<rparr>,
                       purge_vectors has_purge superseded)))))"

subsection \<open>Reviews\<close>

definition candidate_row_for :: "'c memory_db \<Rightarrow> uuid \<Rightarrow> access_context \<Rightarrow> candidate_row option" where
  "candidate_row_for db candidate_id c =
     List.find (\<lambda>row. wc_tenant_id row = ac_tenant_id c \<and> wc_id row = candidate_id \<and> wc_workspace_id row = ac_workspace_id c)
       (md_candidates db)"

definition update_candidate :: "'c memory_db \<Rightarrow> uuid \<Rightarrow> (candidate_row \<Rightarrow> candidate_row) \<Rightarrow> 'c memory_db" where
  "update_candidate db candidate_id f =
     db\<lparr>md_candidates := map (\<lambda>row. if wc_id row = candidate_id then f row else row) (md_candidates db)\<rparr>"

definition settle_refused :: "'c memory_db \<Rightarrow> uuid \<Rightarrow> 'c memory_db" where
  "settle_refused db candidate_id = update_candidate db candidate_id (\<lambda>row. row\<lparr>wc_decision := Reject\<rparr>)"

definition review_audit ::
  "write_policy \<Rightarrow> uuid \<Rightarrow> access_context \<Rightarrow> candidate_row \<Rightarrow> string \<Rightarrow> approval_request \<Rightarrow> instant \<Rightarrow> uuid option \<Rightarrow> details \<Rightarrow>
   'c memory_db \<Rightarrow> 'c memory_db" where
  "review_audit p event_id c row action request now resource extra db =
     db\<lparr>md_platform := audit_append (md_platform db)
       \<lparr>ae_id = event_id, ae_tenant_id = ac_tenant_id c, ae_workspace_id = ac_workspace_id c, ae_actor_id = ac_principal_id c,
        ae_action = action, ae_resource_type = ''memory_item'',
        ae_resource_id = JUuid (case resource of Some r \<Rightarrow> r | None \<Rightarrow> wc_id row), ae_occurred_at = now,
        ae_run_id = Some (wc_created_by_run_id row), ae_policy_decision = None, ae_trace_id = None,
        ae_details = dict_merge
          [(''candidate_id'', JUuid (wc_id row)), (''approval_id'', JUuid (ar_id request)),
           (''worker_id'', JStr (mc_worker_id (wc_candidate row))),
           (''memory_type'', JStr (memory_type_value (mc_memory_type (wc_candidate row)))),
           (''classification'', JStr (mc_classification (wc_candidate row))),
           (''evidence_count'', JInt (int (length (mc_provenance_refs (wc_candidate row))))),
           (''policy_version'', JStr (wp_policy_version p))] extra\<rparr>\<rparr>"

definition item_from_candidate :: "candidate_row \<Rightarrow> uuid \<Rightarrow> instant \<Rightarrow> memory_item res" where
  "item_from_candidate row memory_id now =
     make_item (item_of (wc_candidate row) memory_id (wc_tenant_id row) (wc_workspace_id row) (wc_confidence row)
                  (wc_created_by_run_id row) now)"

text \<open>\<^verbatim>\<open>uuid.UUID(str(request.payload["candidate_id"]))\<close>\<close>

definition payload_candidate :: "approval_request \<Rightarrow> uuid res" where
  "payload_candidate request =
     (case ar_payload request of
        JObj fs \<Rightarrow> (case map_of fs ''candidate_id'' of
                      Some (JUuid u) \<Rightarrow> Inr u
                    | Some _ \<Rightarrow> Inl (ValueError ''badly formed hexadecimal UUID string'')
                    | None \<Rightarrow> Inl KeyError)
      | _ \<Rightarrow> Inl KeyError)"

definition is_domain_error :: "exc \<Rightarrow> bool" where
  "is_domain_error e = (case e of DW d \<Rightarrow> is_domain d | _ \<Rightarrow> False)"

definition exc_message :: "exc \<Rightarrow> string" where
  "exc_message e = (case e of DW d \<Rightarrow> error_message d | _ \<Rightarrow> [])"

text \<open>The approved branch: the item and its evidence in a savepoint, or the refusal that is committed in its place.\<close>

definition settle_approved ::
  "evidence_port \<Rightarrow> write_policy \<Rightarrow> memory_ids \<Rightarrow> instant \<Rightarrow> access_context \<Rightarrow> candidate_row \<Rightarrow> approval_request \<Rightarrow> 'c memory_db \<Rightarrow>
   memory_item option res \<times> 'c memory_db \<times> uuid list" where
  "settle_approved es p ids now c row request db =
     (case item_from_candidate row (id_item ids) now of
        Inl e \<Rightarrow> (Inl e, db, [])
      | Inr m \<Rightarrow>
        (case store_item es db m now of
           Inl e \<Rightarrow>
             if is_domain_error e
             then (Inl e, review_audit p (id_event ids) c row ''memory.review_failed'' request now None
                            [(''error'', JStr (exc_message e))] (settle_refused db (wc_id row)), [])
             else (Inl e, db, [])
         | Inr (superseded, db1) \<Rightarrow>
             (Inr (Some m),
              review_audit p (id_event ids) c row ''memory.written_after_review'' request now (Some (mi_memory_id m))
                [(''fact_key'', key_json (mi_fact_key m)), (''superseded'', JArr (map JUuid superseded))]
                (update_candidate db1 (wc_id row) (\<lambda>r. r\<lparr>wc_memory_id := Some (mi_memory_id m)\<rparr>)),
              superseded)))"

definition settle_review ::
  "evidence_port \<Rightarrow> write_policy \<Rightarrow> bool \<Rightarrow> memory_ids \<Rightarrow> instant \<Rightarrow> uuid \<Rightarrow> access_context \<Rightarrow> 'c memory_db \<Rightarrow>
   memory_item option res \<times> 'c memory_db \<times> uuid list" where
  "settle_review es p has_purge ids now approval_id c db =
     (case approvals_get (md_platform db) (ac_tenant_id c) approval_id (ac_workspace_id c) \<lparr>aud_context = c, aud_holds_decide = False\<rparr> of
        None \<Rightarrow> (raise_dw (NotFoundError ''memory review approval not found''), db, [])
      | Some request \<Rightarrow>
          if ar_approval_type request \<noteq> MEMORY_REVIEW \<or> ar_workspace_id request \<noteq> ac_workspace_id c
          then (raise_dw (NotFoundError ''memory review approval not found''), db, [])
          else (case payload_candidate request of
                  Inl e \<Rightarrow> (Inl e, db, [])
                | Inr candidate_id \<Rightarrow>
                  (case candidate_row_for db candidate_id c of
                     None \<Rightarrow> (raise_dw (NotFoundError ''memory candidate not found''), db, [])
                   | Some row \<Rightarrow>
                     (case wc_memory_id row of
                        Some m \<Rightarrow> (stored_item db (ac_tenant_id c) m, db, [])
                      | None \<Rightarrow>
                          if wc_decision row \<noteq> Review then (Inr None, db, [])
                          else if ar_status request = Approval_pending
                          then (raise_dw (ConflictError ''memory review is not decided yet''), db, [])
                          else if ar_status request \<noteq> Approval_approved
                          then (Inr None, review_audit p (id_event ids) c row ''memory.review_rejected'' request now None []
                                            (settle_refused db (wc_id row)), [])
                          else (case settle_approved es p ids now c row request db of
                                  (res, db', superseded) \<Rightarrow> (res, db', purge_vectors has_purge superseded))))))"

record review_candidate =
  rv_candidate_id :: uuid
  rv_candidate :: memory_candidate
  rv_confidence :: rat
  rv_decision :: write_decision
  rv_memory_id :: "uuid option"
  rv_created_by_run_id :: uuid
  rv_created_at :: instant

definition get_candidate :: "'c memory_db \<Rightarrow> uuid \<Rightarrow> access_context \<Rightarrow> review_candidate res" where
  "get_candidate db candidate_id c =
     (case candidate_row_for db candidate_id c of
        None \<Rightarrow> raise_dw (NotFoundError ''memory candidate not found'')
      | Some row \<Rightarrow>
          if mc_classification (wc_candidate row) \<notin> set (classifications_for_clearance (ac_clearance c))
          then raise_dw (PermissionDeniedError ''your clearance does not cover this memory candidate'')
          else Inr \<lparr>rv_candidate_id = wc_id row, rv_candidate = wc_candidate row, rv_confidence = wc_confidence row,
                    rv_decision = wc_decision row, rv_memory_id = wc_memory_id row,
                    rv_created_by_run_id = wc_created_by_run_id row, rv_created_at = wc_created_at row\<rparr>)"

text \<open>\<^verbatim>\<open>require_clearance_for_review\<close>, the guard the approval flow runs for a \<^verbatim>\<open>memory.review\<close>.\<close>

definition require_clearance_for_review :: "approval_request \<Rightarrow> access_context \<Rightarrow> unit res" where
  "require_clearance_for_review request c =
     (case (case ar_payload request of JObj fs \<Rightarrow> map_of fs ''classification'' | _ \<Rightarrow> None) of
        Some (JStr label) \<Rightarrow>
          if label \<in> set (classifications_for_clearance (ac_clearance c)) then Inr ()
          else raise_dw (PermissionDeniedError ''your clearance does not cover the memory this approval would decide'')
      | _ \<Rightarrow> raise_dw (PermissionDeniedError ''your clearance does not cover the memory this approval would decide''))"

subsection \<open>Reading\<close>

fun all_ok :: "'a res list \<Rightarrow> 'a list res" where
  "all_ok [] = Inr []"
| "all_ok (x # xs) = (case x of Inl e \<Rightarrow> Inl e | Inr a \<Rightarrow> map_sum id (\<lambda>as. a # as) (all_ok xs))"

definition item_position :: "item_row \<Rightarrow> position" where
  "item_position row = (ir_created_at row, mi_memory_id (ir_item row))"

definition list_item_rows :: "text_codec \<Rightarrow> 'c memory_db \<Rightarrow> access_context \<Rightarrow> page_req \<Rightarrow> item_row page" where
  "list_item_rows tc db c req =
     build_page tc
       (take (fetch_limit req)
          (newest_first item_position
             (filter (\<lambda>row. mi_tenant_id (ir_item row) = ac_tenant_id c \<and> mi_workspace_id (ir_item row) = ac_workspace_id c \<and>
                            after_position item_position (rq_after req) row) (md_items db))))
       req item_position"

definition list_items :: "text_codec \<Rightarrow> 'c memory_db \<Rightarrow> access_context \<Rightarrow> page_req \<Rightarrow> memory_item page res" where
  "list_items tc db c req =
     (let page = list_item_rows tc db c req in
      case all_ok (map (make_item \<circ> ir_item) (pg_items page)) of
        Inl e \<Rightarrow> Inl e
      | Inr items \<Rightarrow> Inr \<lparr>pg_items = items, pg_next_cursor = pg_next_cursor page\<rparr>)"

definition recallable :: "access_context \<Rightarrow> string \<Rightarrow> string list \<Rightarrow> instant \<Rightarrow> item_row \<Rightarrow> bool" where
  "recallable c worker subjects now row \<longleftrightarrow>
     mi_tenant_id (ir_item row) = ac_tenant_id c \<and> mi_workspace_id (ir_item row) = ac_workspace_id c \<and>
     mi_worker_id (ir_item row) = worker \<and>
     mi_classification (ir_item row) \<in> set (classifications_for_clearance (ac_clearance c)) \<and>
     set (mi_subject_refs (ir_item row)) \<inter> set subjects \<noteq> {} \<and> mi_valid_from (ir_item row) \<le> now \<and>
     (case mi_valid_until (ir_item row) of None \<Rightarrow> True | Some u \<Rightarrow> now < u)"

definition by_confidence :: "item_row list \<Rightarrow> item_row list" where
  "by_confidence rows =
     sort_key (\<lambda>row. - mi_confidence (ir_item row))
       (sort_by (\<lambda>row. - ir_created_at row) (sort_by (\<lambda>row. - int (mi_memory_id (ir_item row))) rows))"

text \<open>The ranker of a deployment, or none; a call may fail.\<close>

type_synonym ranker = "ustr \<Rightarrow> uuid \<Rightarrow> uuid \<Rightarrow> string \<Rightarrow> uuid list \<Rightarrow> uuid list res"

definition position_map :: "uuid list \<Rightarrow> uuid \<Rightarrow> nat option" where
  "position_map order = map_of (rev (zip order [0..<length order]))"

definition rank_by :: "uuid list \<Rightarrow> (uuid \<times> 'i) list \<Rightarrow> 'i list" where
  "rank_by order items =
     (let unranked = card (set order)
      in map snd (sort_key (\<lambda>pair. case position_map order (fst pair) of Some i \<Rightarrow> i | None \<Rightarrow> unranked) items))"

definition ranks :: "ranker option \<Rightarrow> ustr option \<Rightarrow> bool" where
  "ranks ranker query \<longleftrightarrow> ranker \<noteq> None \<and> query \<noteq> None \<and> query \<noteq> Some []"

definition ordered :: "ranker option \<Rightarrow> memory_item list \<Rightarrow> ustr option \<Rightarrow> access_context \<Rightarrow> string \<Rightarrow> memory_item list" where
  "ordered ranker found query c worker =
     (case (ranker, query) of
        (Some nearest, Some (ch # q)) \<Rightarrow>
          if found = [] then found
          else (case nearest (ch # q) (ac_tenant_id c) (ac_workspace_id c) worker (map mi_memory_id found) of
                  Inl _ \<Rightarrow> found
                | Inr order \<Rightarrow> rank_by order (map (\<lambda>m. (mi_memory_id m, m)) found))
      | _ \<Rightarrow> found)"

definition recall ::
  "ranker option \<Rightarrow> 'c memory_db \<Rightarrow> access_context \<Rightarrow> string \<Rightarrow> string list \<Rightarrow> instant \<Rightarrow> nat \<Rightarrow> ustr option \<Rightarrow> memory_item list res" where
  "recall ranker db c worker subjects now limit query =
     (if subjects = [] then Inr []
      else case all_ok (map (make_item \<circ> ir_item)
                  (take (if ranks ranker query then RANKING_POOL else limit)
                     (by_confidence (filter (recallable c worker subjects now) (md_items db))))) of
             Inl e \<Rightarrow> Inl e
           | Inr found \<Rightarrow> Inr (take limit (ordered ranker found query c worker)))"

subsection \<open>Retention\<close>

definition MEMORY_LANE :: string where "MEMORY_LANE = ''retention''"

text \<open>
  \<^verbatim>\<open>SqlMemoryRetention._delete_batch\<close>: the query has no order, the model takes expired rows in table
  order. The links of a deleted item go with it (\<^verbatim>\<open>ON DELETE CASCADE\<close>), and each item leaves an audit
  event of the lane in its own tenant. \<open>fresh\<close> supplies the event ids.
\<close>

definition expired_item :: "string \<Rightarrow> instant \<Rightarrow> item_row \<Rightarrow> bool" where
  "expired_item name cutoff row \<longleftrightarrow> mi_retention_policy (ir_item row) = name \<and> ir_created_at row < cutoff"

definition expiry_audit ::
  "(string \<Rightarrow> uuid) \<Rightarrow> uuid \<Rightarrow> retention_policy \<Rightarrow> string \<Rightarrow> instant \<Rightarrow> item_row \<Rightarrow> audit_event res" where
  "expiry_audit uuid5 event_id p name now row =
     lane_audit_event uuid5 MEMORY_LANE event_id (mi_tenant_id (ir_item row)) (mi_workspace_id (ir_item row))
       ''memory.item.expired'' ''memory_item'' (JUuid (mi_memory_id (ir_item row))) now
       (Some [(''retention_class'', JStr name), (''policy_version'', JStr (rp_policy_version p))]) None"

definition delete_batch ::
  "(string \<Rightarrow> uuid) \<Rightarrow> (uuid \<Rightarrow> uuid) \<Rightarrow> retention_policy \<Rightarrow> instant \<Rightarrow> string \<Rightarrow> instant \<Rightarrow> 'c memory_db \<Rightarrow> (uuid list \<times> 'c memory_db) res" where
  "delete_batch uuid5 fresh p now name cutoff db =
     (let removed = take (nat (rp_batch_limit p)) (filter (expired_item name cutoff) (md_items db));
          doomed = map (mi_memory_id \<circ> ir_item) removed
      in case all_ok (map (\<lambda>row. expiry_audit uuid5 (fresh (mi_memory_id (ir_item row))) p name now row) removed) of
           Inl e \<Rightarrow> Inl e
         | Inr events \<Rightarrow>
             Inr (doomed,
                  db\<lparr>md_items := filter (\<lambda>row. mi_memory_id (ir_item row) \<notin> set doomed) (md_items db),
                     md_item_evidence := filter (\<lambda>l. ie_memory_id l \<notin> set doomed) (md_item_evidence db),
                     md_platform := foldl audit_append (md_platform db) events\<rparr>))"

definition delete_orphan_evidence :: "retention_policy \<Rightarrow> instant \<Rightarrow> 'c memory_db \<Rightarrow> nat \<times> 'c memory_db" where
  "delete_orphan_evidence p now db =
     (let cutoff = now - days (kr_orphan_evidence_grace_days (rp_knowledge p));
          doomed = map (er_evidence_id \<circ> ev_ref) (take (nat (rp_batch_limit p))
            (filter (\<lambda>e. ev_created_at e < cutoff \<and> er_evidence_id (ev_ref e) \<notin> ie_evidence_id ` set (md_item_evidence db))
               (kd_evidence (md_knowledge db))))
      in (length doomed,
          db\<lparr>md_knowledge := (md_knowledge db)\<lparr>kd_evidence :=
               filter (\<lambda>e. er_evidence_id (ev_ref e) \<notin> set doomed) (kd_evidence (md_knowledge db))\<rparr>\<rparr>))"

fun prune_classes ::
  "(string \<Rightarrow> uuid) \<Rightarrow> (uuid \<Rightarrow> uuid) \<Rightarrow> retention_policy \<Rightarrow> instant \<Rightarrow> string list \<Rightarrow> 'c memory_db \<Rightarrow> exc option \<times> 'c memory_db \<times> uuid list" where
  "prune_classes uuid5 fresh p now [] db = (None, db, [])"
| "prune_classes uuid5 fresh p now (name # names) db =
     (case cutoff_for p name now of
        None \<Rightarrow> prune_classes uuid5 fresh p now names db
      | Some cutoff \<Rightarrow>
        (case delete_batch uuid5 fresh p now name cutoff db of
           Inl e \<Rightarrow> (Some e, db, [])
         | Inr (deleted, db') \<Rightarrow>
             (case prune_classes uuid5 fresh p now names db' of (err, db'', purged) \<Rightarrow> (err, db'', deleted @ purged))))"

text \<open>
  \<^verbatim>\<open>SqlMemoryRetention.prune\<close>: the error it raises if any, the database it leaves (each class is a
  transaction of its own) and the ids handed to the vector index.
\<close>

definition memory_prune ::
  "(string \<Rightarrow> uuid) \<Rightarrow> (uuid \<Rightarrow> uuid) \<Rightarrow> retention_policy \<Rightarrow> instant \<Rightarrow> 'c memory_db \<Rightarrow> exc option \<times> 'c memory_db \<times> uuid list" where
  "memory_prune uuid5 fresh p now db =
     (case prune_classes uuid5 fresh p now (sort (remdups (map fst (rp_classes p)))) db of
        (Some e, db', purged) \<Rightarrow> (Some e, db', purged)
      | (None, db', purged) \<Rightarrow> (None, snd (delete_orphan_evidence p now db'), purged))"

subsection \<open>What a stored memory rests on\<close>

definition evidenced :: "'c memory_db \<Rightarrow> memory_item \<Rightarrow> bool" where
  "evidenced db m \<longleftrightarrow>
     mi_provenance_refs m \<noteq> [] \<and> mi_classification m \<in> set CLASSIFICATIONS \<and>
     (\<forall>ref \<in> set (mi_provenance_refs m).
        (\<exists>e \<in> set (kd_evidence (md_knowledge db)). ev_ref e = ref \<and> ev_tenant_id e = mi_tenant_id m \<and>
            label_rank (ev_classification e) \<le> label_rank (mi_classification m)) \<and>
        \<lparr>ie_memory_id = mi_memory_id m, ie_evidence_id = er_evidence_id ref, ie_tenant_id = mi_tenant_id m\<rparr> \<in> set (md_item_evidence db))"

text \<open>Two live memories that answer the same question about a common subject are one memory.\<close>

definition rivals :: "memory_item \<Rightarrow> memory_item \<Rightarrow> bool" where
  "rivals m m' \<longleftrightarrow>
     mi_tenant_id m = mi_tenant_id m' \<and> mi_workspace_id m = mi_workspace_id m' \<and> mi_worker_id m = mi_worker_id m' \<and>
     mi_fact_key m = mi_fact_key m' \<and> mi_fact_key m \<noteq> None \<and> mi_valid_until m = None \<and> mi_valid_until m' = None \<and>
     set (mi_subject_refs m) \<inter> set (mi_subject_refs m') \<noteq> {}"

definition one_answer :: "item_row list \<Rightarrow> bool" where
  "one_answer rows \<longleftrightarrow>
     (\<forall>r \<in> set rows. \<forall>r' \<in> set rows. rivals (ir_item r) (ir_item r') \<longrightarrow> mi_memory_id (ir_item r) = mi_memory_id (ir_item r'))"

definition memory_ok :: "'c memory_db \<Rightarrow> bool" where
  "memory_ok db \<longleftrightarrow>
     distinct (map (mi_memory_id \<circ> ir_item) (md_items db)) \<and> distinct (map wc_id (md_candidates db)) \<and>
     (\<forall>row \<in> set (md_items db). evidenced db (ir_item row)) \<and> one_answer (md_items db)"

lemma evidenced_mono:
  assumes "evidenced db m" "set (kd_evidence (md_knowledge db)) \<subseteq> set (kd_evidence (md_knowledge db'))"
    "set (md_item_evidence db) \<subseteq> set (md_item_evidence db')"
  shows "evidenced db' m"
  using assms unfolding evidenced_def by blast

lemma evidenced_close [simp]: "evidenced db (ir_item (close_row now row)) = evidenced db (ir_item row)"
  by (simp add: evidenced_def close_row_def)

lemma close_row_id [simp]: "mi_memory_id (ir_item (close_row now row)) = mi_memory_id (ir_item row)"
  by (simp add: close_row_def)

lemma rivals_sym: "rivals m m' \<Longrightarrow> rivals m' m"
  unfolding rivals_def by (metis Int_commute)

definition after_closing :: "memory_item \<Rightarrow> instant \<Rightarrow> item_row list \<Rightarrow> item_row list" where
  "after_closing m now rows =
     (if mi_fact_key m = None \<or> mi_subject_refs m = [] then rows
      else map (\<lambda>row. if supersedes m row then close_row now row else row) rows)"

lemma close_superseded_items: "snd (close_superseded db m now) = db\<lparr>md_items := after_closing m now (md_items db)\<rparr>"
  by (simp add: close_superseded_def after_closing_def)

lemma after_closing_ids: "map (mi_memory_id \<circ> ir_item) (after_closing m now rows) = map (mi_memory_id \<circ> ir_item) rows"
  by (simp add: after_closing_def)

lemma after_closing_evidenced:
  "\<forall>row \<in> set rows. evidenced db (ir_item row) \<Longrightarrow> \<forall>row \<in> set (after_closing m now rows). evidenced db (ir_item row)"
  by (auto simp: after_closing_def)

lemma after_closing_live:
  assumes "r \<in> set (after_closing m now rows)" "mi_valid_until (ir_item r) = None"
  shows "r \<in> set rows \<and> (mi_fact_key m = None \<or> mi_subject_refs m = [] \<or> \<not> supersedes m r)"
  using assms by (auto simp: after_closing_def close_row_def split: if_splits)

text \<open>Closing what a new item answers over leaves one answer per question.\<close>

lemma one_answer_after_closing:
  assumes "one_answer rows" "m = ir_item new"
  shows "one_answer (after_closing m now (rows @ [new]))"
  unfolding one_answer_def
proof (intro ballI impI)
  fix r r' assume r: "r \<in> set (after_closing m now (rows @ [new]))" and r': "r' \<in> set (after_closing m now (rows @ [new]))"
    and riv: "rivals (ir_item r) (ir_item r')"
  then have live: "mi_valid_until (ir_item r) = None" "mi_valid_until (ir_item r') = None" by (simp_all add: rivals_def)
  note in_rows = after_closing_live [OF r live(1)] after_closing_live [OF r' live(2)]
  have excl: "mi_memory_id (ir_item x) = mi_memory_id m"
    if "rivals (ir_item x) m" "mi_fact_key m = None \<or> mi_subject_refs m = [] \<or> \<not> supersedes m x" for x
    using that by (auto simp: rivals_def supersedes_def)
  show "mi_memory_id (ir_item r) = mi_memory_id (ir_item r')"
  proof (cases "r = new \<or> r' = new")
    case True
    then show ?thesis using excl [of r] excl [of r'] in_rows riv rivals_sym [OF riv] assms(2) by auto
  next
    case False
    then show ?thesis using in_rows riv assms(1) by (auto simp: one_answer_def)
  qed
qed

lemma evidenced_frame [simp]:
  "evidenced (db\<lparr>md_platform := x\<rparr>) m = evidenced db m" "evidenced (db\<lparr>md_candidates := y\<rparr>) m = evidenced db m"
  "evidenced (db\<lparr>md_runs := z\<rparr>) m = evidenced db m"
  by (simp_all add: evidenced_def)

lemma memory_ok_platform [simp]: "memory_ok (db\<lparr>md_platform := x\<rparr>) = memory_ok db"
  by (simp add: memory_ok_def)

lemma memory_ok_candidates:
  "memory_ok db \<Longrightarrow> distinct (map wc_id rows) \<Longrightarrow> memory_ok (db\<lparr>md_candidates := rows\<rparr>)"
  by (simp add: memory_ok_def)

lemma insert_candidate_ok: "memory_ok db \<Longrightarrow> insert_candidate db row = Inr db' \<Longrightarrow> memory_ok db'"
  by (auto simp: insert_candidate_def memory_ok_def split: if_splits)

lemma update_candidate_ok:
  assumes "memory_ok db" "\<And>row. wc_id (f row) = wc_id row"
  shows "memory_ok (update_candidate db i f)"
proof -
  have "wc_id \<circ> (\<lambda>row. if wc_id row = i then f row else row) = wc_id" using assms(2) by auto
  then show ?thesis using assms(1) unfolding update_candidate_def by (intro memory_ok_candidates) (simp_all add: memory_ok_def)
qed

lemma review_audit_ok [simp]: "memory_ok (review_audit p i c row action request now resource extra db) = memory_ok db"
  by (simp add: review_audit_def)

lemma propose_cases [consumes 1, case_names unchanged committed]:
  assumes "propose es p has_purge ids now db_now cand c run_id key db = (res, db', purge)"
  obtains "db' = db" "purge = []" "\<forall>r. res = Inr r \<longrightarrow> (\<exists>k. key = Some k \<and> already_decided db (ac_tenant_id c) k = Inr (Some r))"
  | item candidate_id db1 superseded approval_id db2 where
    "res = Inr \<lparr>pr_candidate_id = candidate_id, pr_outcome = evaluate p cand, pr_item = item\<rparr>"
    "candidate_id = (case key of Some k \<Rightarrow> k | None \<Rightarrow> id_candidate ids)"
    "item = (if po_decision (evaluate p cand) = Auto_write
             then Some (item_of cand (id_item ids) (ac_tenant_id c) (ac_workspace_id c) (po_confidence (evaluate p cand)) run_id now)
             else None)"
    "case key of None \<Rightarrow> True | Some k \<Rightarrow> already_decided db (ac_tenant_id c) k = Inr None"
    "insert_candidate db (new_candidate_row c candidate_id cand (evaluate p cand) item run_id now) = Inr db1"
    "write_or_hold es ids now db_now c cand candidate_id (evaluate p cand) item db1 = Inr (superseded, approval_id, db2)"
    "db' = db2\<lparr>md_platform := audit_append (md_platform db2)
       (proposal_audit p (id_event ids) c cand (evaluate p cand) item candidate_id run_id now superseded approval_id)\<rparr>"
    "purge = purge_vectors has_purge superseded"
proof -
  let ?outcome = "evaluate p cand" and ?i = "case key of Some k \<Rightarrow> k | None \<Rightarrow> id_candidate ids"
  let ?m = "item_of cand (id_item ids) (ac_tenant_id c) (ac_workspace_id c) (po_confidence (evaluate p cand)) run_id now"
  let ?item = "if po_decision ?outcome = Auto_write then Some ?m else None"
  have made: "(if po_decision ?outcome = Auto_write then map_sum id Some (make_item ?m) else Inr None) =
      (if po_decision ?outcome = Auto_write \<and> make_item ?m = Inl ValidationError then Inl ValidationError else Inr ?item)"
    by (simp add: make_item_def)
  show ?thesis
    using assms that(1) that(2) [of ?i ?item]
    unfolding propose_def Let_def made
    by (auto split: if_splits option.splits sum.splits prod.splits)
qed

text \<open>What the service relies on of the evidence store.\<close>

locale evidence_contract =
  fixes es :: evidence_port
  assumes record_ok: "es kn refs tenant ws = Inr (label, kn') \<Longrightarrow>
    refs \<noteq> [] \<and> label \<in> set CLASSIFICATIONS \<and>
    (\<exists>new. kn' = kn\<lparr>kd_evidence := kd_evidence kn @ new\<rparr> \<and> map ev_ref new = refs \<and>
       (\<forall>e \<in> set new. ev_tenant_id e = tenant \<and> label_rank (ev_classification e) \<le> label_rank label))"
begin

lemma verify_evidence_ok:
  assumes "verify_evidence es db refs claimed tenant ws = Inr db'"
  obtains new where "db' = db\<lparr>md_knowledge := (md_knowledge db)\<lparr>kd_evidence := kd_evidence (md_knowledge db) @ new\<rparr>\<rparr>"
    "map ev_ref new = refs" "refs \<noteq> []" "claimed \<in> set CLASSIFICATIONS"
    "\<forall>e \<in> set new. ev_tenant_id e = tenant \<and> label_rank (ev_classification e) \<le> label_rank claimed"
proof -
  obtain cited kn' where es: "es (md_knowledge db) refs tenant ws = Inr (cited, kn')" and
      ranks: "claimed \<in> set CLASSIFICATIONS" "label_rank cited \<le> label_rank claimed" and db': "db' = db\<lparr>md_knowledge := kn'\<rparr>"
    using assms by (auto simp: verify_evidence_def classification_rank_def simp del: CLASSIFICATIONS_simp split: sum.splits if_splits)
  from record_ok [OF es] obtain new where new: "kn' = (md_knowledge db)\<lparr>kd_evidence := kd_evidence (md_knowledge db) @ new\<rparr>"
      "map ev_ref new = refs" "\<forall>e \<in> set new. ev_tenant_id e = tenant \<and> label_rank (ev_classification e) \<le> label_rank cited"
      "refs \<noteq> []" by blast
  show ?thesis using that [OF _ new(2,4) ranks(1)] new(1,3) ranks(2) db' by force
qed

lemma store_item_ok:
  assumes "store_item es db m now = Inr (superseded, db')"
  obtains new where
    "md_knowledge db' = (md_knowledge db)\<lparr>kd_evidence := kd_evidence (md_knowledge db) @ new\<rparr>" "map ev_ref new = mi_provenance_refs m"
    "mi_provenance_refs m \<noteq> []" "mi_classification m \<in> set CLASSIFICATIONS"
    "\<forall>e \<in> set new. ev_tenant_id e = mi_tenant_id m \<and> label_rank (ev_classification e) \<le> label_rank (mi_classification m)"
    "md_items db' = after_closing m now (md_items db @ [\<lparr>ir_item = m, ir_created_at = now\<rparr>])"
    "mi_memory_id m \<notin> (mi_memory_id \<circ> ir_item) ` set (md_items db)"
    "md_item_evidence db' = md_item_evidence db @
       map (\<lambda>ref. \<lparr>ie_memory_id = mi_memory_id m, ie_evidence_id = er_evidence_id ref, ie_tenant_id = mi_tenant_id m\<rparr>) (mi_provenance_refs m)"
    "md_candidates db' = md_candidates db" "md_platform db' = md_platform db" "md_runs db' = md_runs db"
proof -
  obtain db1 where v: "verify_evidence es db (mi_provenance_refs m) (mi_classification m) (mi_tenant_id m) (mi_workspace_id m) = Inr db1"
      and ins: "mi_memory_id m \<notin> (mi_memory_id \<circ> ir_item) ` set (md_items db1)"
      and db': "db' = (snd (close_superseded (db1\<lparr>md_items := md_items db1 @ [\<lparr>ir_item = m, ir_created_at = now\<rparr>]\<rparr>) m now))
        \<lparr>md_item_evidence := md_item_evidence db1 @
           map (\<lambda>ref. \<lparr>ie_memory_id = mi_memory_id m, ie_evidence_id = er_evidence_id ref, ie_tenant_id = mi_tenant_id m\<rparr>) (mi_provenance_refs m)\<rparr>"
    using assms
    by (auto simp: store_item_def insert_item_def close_superseded_def split: sum.splits prod.splits if_splits)
  from v obtain new where db1: "db1 = db\<lparr>md_knowledge := (md_knowledge db)\<lparr>kd_evidence := kd_evidence (md_knowledge db) @ new\<rparr>\<rparr>"
      "map ev_ref new = mi_provenance_refs m" "mi_provenance_refs m \<noteq> []" "mi_classification m \<in> set CLASSIFICATIONS"
      "\<forall>e \<in> set new. ev_tenant_id e = mi_tenant_id m \<and> label_rank (ev_classification e) \<le> label_rank (mi_classification m)"
    by (rule verify_evidence_ok)
  show ?thesis using db' ins db1 unfolding close_superseded_items by (intro that [of new]) simp_all
qed

lemma store_item_keeps_ok:
  assumes "memory_ok db" "store_item es db m now = Inr (superseded, db')"
  shows "memory_ok db'"
  using assms(2)
proof (rule store_item_ok)
  fix new assume n:
    "md_knowledge db' = (md_knowledge db)\<lparr>kd_evidence := kd_evidence (md_knowledge db) @ new\<rparr>" "map ev_ref new = mi_provenance_refs m"
    "mi_provenance_refs m \<noteq> []" "mi_classification m \<in> set CLASSIFICATIONS"
    "\<forall>e \<in> set new. ev_tenant_id e = mi_tenant_id m \<and> label_rank (ev_classification e) \<le> label_rank (mi_classification m)"
    and items: "md_items db' = after_closing m now (md_items db @ [\<lparr>ir_item = m, ir_created_at = now\<rparr>])"
    "mi_memory_id m \<notin> (mi_memory_id \<circ> ir_item) ` set (md_items db)"
    and links: "md_item_evidence db' = md_item_evidence db @
       map (\<lambda>ref. \<lparr>ie_memory_id = mi_memory_id m, ie_evidence_id = er_evidence_id ref, ie_tenant_id = mi_tenant_id m\<rparr>) (mi_provenance_refs m)"
    and cand: "md_candidates db' = md_candidates db"
  have "\<exists>e \<in> set new. ev_ref e = ref" if "ref \<in> set (mi_provenance_refs m)" for ref
    using that n(2) by (metis (no_types, lifting) image_iff set_map)
  then have "evidenced db' m" unfolding evidenced_def n(1) links using n(3,4,5) by fastforce
  moreover have "\<forall>row \<in> set (md_items db). evidenced db' (ir_item row)"
    using assms(1) evidenced_mono [of db _ db'] n(1) links by (auto simp: memory_ok_def)
  moreover have "one_answer (md_items db')"
    unfolding items by (rule one_answer_after_closing) (use assms(1) in \<open>simp_all add: memory_ok_def\<close>)
  moreover have "distinct (map (mi_memory_id \<circ> ir_item) (md_items db'))"
    using assms(1) items(2) unfolding items after_closing_ids by (auto simp: memory_ok_def)
  moreover from calculation(1,2) have "\<forall>row \<in> set (md_items db'). evidenced db' (ir_item row)"
    unfolding items by (intro after_closing_evidenced) simp
  ultimately show ?thesis using assms(1) unfolding memory_ok_def cand by blast
qed

lemma write_or_hold_keeps_ok:
  assumes "memory_ok db" "write_or_hold es ids now db_now c cand cid outcome item db = Inr (superseded, approval_id, db')"
  shows "memory_ok db'"
  using assms by (auto simp: write_or_hold_def split: option.splits sum.splits if_splits dest: store_item_keeps_ok)

lemma propose_keeps_ok:
  assumes "memory_ok db" "propose es p has_purge ids now db_now cand c run_id key db = (res, db', purge)"
  shows "memory_ok db'"
  using assms(2)
proof (cases rule: propose_cases)
  case committed
  then show ?thesis using write_or_hold_keeps_ok insert_candidate_ok [OF assms(1)] by (metis memory_ok_platform)
qed (use assms(1) in simp)

lemma settle_approved_keeps_ok:
  assumes "memory_ok db" "settle_approved es p ids now c row request db = (res, db', purge)"
  shows "memory_ok db'"
proof (cases "item_from_candidate row (id_item ids) now")
  case (Inl e) then show ?thesis using assms by (simp add: settle_approved_def)
next
  case (Inr m)
  show ?thesis
  proof (cases "store_item es db m now")
    case (Inl e) then show ?thesis using assms Inr
      by (auto simp: settle_approved_def settle_refused_def update_candidate_ok split: if_splits)
  next
    case stored: (Inr sd)
    then obtain superseded db1 where sd: "store_item es db m now = Inr (superseded, db1)" by (cases sd) auto
    then show ?thesis using assms Inr store_item_keeps_ok [OF assms(1) sd]
      by (auto simp: settle_approved_def update_candidate_ok)
  qed
qed

lemma settle_review_keeps_ok:
  assumes "memory_ok db" "settle_review es p has_purge ids now approval_id c db = (res, db', purge)"
  shows "memory_ok db'"
  using assms settle_approved_keeps_ok [OF assms(1)]
  by (auto simp: settle_review_def settle_refused_def update_candidate_ok split: option.splits sum.splits if_splits prod.splits)

end

interpretation sql_evidence: evidence_contract "evidence_record now" for now
proof
  fix kn refs tenant ws label kn'
  assume ok: "evidence_record now kn refs tenant ws = Inr (label, kn')"
  let ?new = "map (new_evidence tenant ws now (cited_rows kn tenant refs)) refs"
  have "map ev_ref ?new = refs" by (simp add: new_evidence_def comp_def)
  moreover have "\<forall>e \<in> set ?new. ev_tenant_id e = tenant \<and> label_rank (ev_classification e) \<le> label_rank label"
    using evidence_record_ok(5) [OF ok] by (force simp: new_evidence_def)
  ultimately show "refs \<noteq> [] \<and> label \<in> set CLASSIFICATIONS \<and>
    (\<exists>new. kn' = kn\<lparr>kd_evidence := kd_evidence kn @ new\<rparr> \<and> map ev_ref new = refs \<and>
       (\<forall>e \<in> set new. ev_tenant_id e = tenant \<and> label_rank (ev_classification e) \<le> label_rank label))"
    using evidence_record_ok(1,2,3) [OF ok] by blast
qed

lemma delete_batch_keeps_ok:
  assumes "memory_ok db" "delete_batch uuid5 fresh p now name cutoff db = Inr (deleted, db')"
  shows "memory_ok db'"
proof -
  have items: "md_items db' = filter (\<lambda>row. mi_memory_id (ir_item row) \<notin> set deleted) (md_items db)"
      and links: "md_item_evidence db' = filter (\<lambda>l. ie_memory_id l \<notin> set deleted) (md_item_evidence db)"
      and rest: "md_knowledge db' = md_knowledge db" "md_candidates db' = md_candidates db"
    using assms(2) by (auto simp: delete_batch_def Let_def split: sum.splits)
  have "evidenced db' (ir_item row)" if "row \<in> set (md_items db')" for row
    using that assms(1) unfolding memory_ok_def evidenced_def items links rest by auto
  moreover have "one_answer (md_items db')" using assms(1) by (simp add: memory_ok_def one_answer_def items)
  moreover have "distinct (map (mi_memory_id \<circ> ir_item) (md_items db'))"
    using assms(1) unfolding memory_ok_def items by (simp add: distinct_map_filter)
  ultimately show ?thesis using assms(1) unfolding memory_ok_def rest by blast
qed

lemma delete_orphan_evidence_keeps_ok:
  assumes "memory_ok db"
  shows "memory_ok (snd (delete_orphan_evidence p now db))"
proof -
  define doomed where "doomed = map (er_evidence_id \<circ> ev_ref) (take (nat (rp_batch_limit p))
      (filter (\<lambda>e. ev_created_at e < now - days (kr_orphan_evidence_grace_days (rp_knowledge p)) \<and>
                   er_evidence_id (ev_ref e) \<notin> ie_evidence_id ` set (md_item_evidence db)) (kd_evidence (md_knowledge db))))"
  have ev: "kd_evidence (md_knowledge (snd (delete_orphan_evidence p now db))) =
        filter (\<lambda>e. er_evidence_id (ev_ref e) \<notin> set doomed) (kd_evidence (md_knowledge db))"
      and cited: "set doomed \<inter> ie_evidence_id ` set (md_item_evidence db) = {}"
      and rest: "md_items (snd (delete_orphan_evidence p now db)) = md_items db"
        "md_candidates (snd (delete_orphan_evidence p now db)) = md_candidates db"
        "md_item_evidence (snd (delete_orphan_evidence p now db)) = md_item_evidence db"
    by (auto simp: delete_orphan_evidence_def Let_def doomed_def [symmetric]) (auto simp: doomed_def dest!: in_set_takeD, metis image_eqI)
  have "evidenced (snd (delete_orphan_evidence p now db)) m" if "evidenced db m" for m
    unfolding evidenced_def rest ev
  proof (intro conjI ballI)
    show "mi_provenance_refs m \<noteq> []" "mi_classification m \<in> set CLASSIFICATIONS" using that by (simp_all add: evidenced_def)
    fix ref assume "ref \<in> set (mi_provenance_refs m)"
    with that have e: "\<exists>e \<in> set (kd_evidence (md_knowledge db)). ev_ref e = ref \<and> ev_tenant_id e = mi_tenant_id m \<and>
        label_rank (ev_classification e) \<le> label_rank (mi_classification m)"
      and link: "\<lparr>ie_memory_id = mi_memory_id m, ie_evidence_id = er_evidence_id ref, ie_tenant_id = mi_tenant_id m\<rparr> \<in> set (md_item_evidence db)"
      by (simp_all add: evidenced_def)
    from link show "\<lparr>ie_memory_id = mi_memory_id m, ie_evidence_id = er_evidence_id ref, ie_tenant_id = mi_tenant_id m\<rparr> \<in> set (md_item_evidence db)" .
    have "er_evidence_id ref \<in> ie_evidence_id ` set (md_item_evidence db)" using link by force
    then have "er_evidence_id ref \<notin> set doomed" using cited by blast
    with e show "\<exists>e \<in> set (filter (\<lambda>e. er_evidence_id (ev_ref e) \<notin> set doomed) (kd_evidence (md_knowledge db))).
        ev_ref e = ref \<and> ev_tenant_id e = mi_tenant_id m \<and> label_rank (ev_classification e) \<le> label_rank (mi_classification m)" by auto
  qed
  then show ?thesis using assms unfolding memory_ok_def rest by blast
qed

lemma prune_classes_keeps_ok:
  "memory_ok db \<Longrightarrow> memory_ok (fst (snd (prune_classes uuid5 fresh p now names db)))"
proof (induction names arbitrary: db)
  case (Cons name names)
  then show ?case
    by (auto split: option.splits sum.splits prod.splits dest!: delete_batch_keeps_ok [OF Cons.prems]) (metis Cons.IH fst_conv snd_conv)+
qed simp

lemma memory_prune_keeps_ok: "memory_ok db \<Longrightarrow> memory_ok (fst (snd (memory_prune uuid5 fresh p now db)))"
  using prune_classes_keeps_ok [of db uuid5 fresh p now "sort (remdups (map fst (rp_classes p)))"]
  by (auto simp: memory_prune_def delete_orphan_evidence_keeps_ok split: prod.splits option.splits)

text \<open>
  The databases that proposals, settled reviews and retention passes reach from an empty schema,
  while other components move documents, chunks, approvals and runs as they like.
\<close>

inductive memory_reach :: "write_policy \<Rightarrow> retention_policy \<Rightarrow> 'c memory_db \<Rightarrow> bool" for p rp where
  empty: "md_items db = [] \<Longrightarrow> md_candidates db = [] \<Longrightarrow> memory_reach p rp db"
| proposed: "memory_reach p rp db \<Longrightarrow>
    propose (evidence_record ev_now) p has_purge ids now db_now cand c run_id key db = (res, db', purge) \<Longrightarrow> memory_reach p rp db'"
| settled: "memory_reach p rp db \<Longrightarrow>
    settle_review (evidence_record ev_now) p has_purge ids now approval_id c db = (res', db', purge) \<Longrightarrow> memory_reach p rp db'"
| pruned: "memory_reach p rp db \<Longrightarrow> memory_prune uuid5 fresh rp now db = (err, db', purge) \<Longrightarrow> memory_reach p rp db'"
| elsewhere: "memory_reach p rp db \<Longrightarrow>
    memory_reach p rp (db\<lparr>md_knowledge := (md_knowledge db)\<lparr>kd_documents := ds, kd_chunks := cs\<rparr>, md_platform := x, md_runs := rs\<rparr>)"

lemma memory_reach_ok: "memory_reach p rp db \<Longrightarrow> memory_ok db"
proof (induction rule: memory_reach.induct)
  case (empty db) then show ?case by (simp add: memory_ok_def one_answer_def)
next
  case (proposed db) then show ?case using sql_evidence.propose_keeps_ok by blast
next
  case (settled db) then show ?case using sql_evidence.settle_review_keeps_ok by blast
next
  case (pruned db uuid5 fresh now err db' purge)
  then show ?case using memory_prune_keeps_ok [of db uuid5 fresh rp now] by simp
next
  case (elsewhere db ds cs x rs) then show ?case by (simp add: memory_ok_def evidenced_def)
qed

subsection \<open>Properties\<close>

text \<open>
  C12: A stored memory is never a dangling claim. However proposals, settled reviews and retention
  passes are interleaved, and whatever happens to documents, approvals and runs meanwhile, every
  stored item cites at least one reference, and for each of them there is an evidence row of its
  tenant, the link row that ties the two, and a label on the item no lower than the evidence's.
\<close>

theorem memory_rests_on_evidence:
  assumes "memory_reach p rp db" "row \<in> set (md_items db)" "m = ir_item row"
  shows "mi_provenance_refs m \<noteq> [] \<and>
    (\<forall>ref \<in> set (mi_provenance_refs m). \<exists>e \<in> set (kd_evidence (md_knowledge db)).
       ev_ref e = ref \<and> ev_tenant_id e = mi_tenant_id m \<and> label_rank (ev_classification e) \<le> label_rank (mi_classification m) \<and>
       \<lparr>ie_memory_id = mi_memory_id m, ie_evidence_id = er_evidence_id ref, ie_tenant_id = mi_tenant_id m\<rparr> \<in> set (md_item_evidence db))"
  using memory_reach_ok [OF assms(1)] assms(2,3) unfolding memory_ok_def evidenced_def by blast


lemma all_ok_items: "all_ok (map (make_item \<circ> ir_item) rows) = Inr ms \<Longrightarrow> ms = map ir_item rows"
proof (induction rows arbitrary: ms)
  case (Cons row rows)
  then show ?case by (auto simp: make_item_def split: if_splits) (metis (no_types, lifting) Inr_inject map_sum.simps(2) obj_sumE map_sum.simps(1) sum.distinct(1))
qed simp

lemma set_rank_by: "set (rank_by order items) = snd ` set items"
  by (simp add: rank_by_def Let_def)

lemma length_rank_by: "length (rank_by order items) = length items"
  by (simp add: rank_by_def Let_def)

lemma ordered_set: "set (ordered ranker found query c worker) = set found"
  by (auto simp: ordered_def set_rank_by image_image split: option.splits list.splits sum.splits)

lemma set_by_confidence: "set (by_confidence rows) = set rows"
  by (simp add: by_confidence_def)

text \<open>
  C30: Recall never leaves its bounds. Whatever the ranker answers, every recalled fact is a stored
  item of the caller's tenant and workspace and of that worker, live at the moment asked for,
  about one of the subjects and within the caller's clearance, and at most the limit are returned.
\<close>

theorem recall_stays_in_bounds:
  assumes "recall ranker db c worker subjects now limit query = Inr found"
  shows "length found \<le> limit \<and>
    (\<forall>m \<in> set found. m \<in> ir_item ` set (md_items db) \<and> mi_tenant_id m = ac_tenant_id c \<and> mi_workspace_id m = ac_workspace_id c \<and>
       mi_worker_id m = worker \<and> mi_classification m \<in> set (classifications_for_clearance (ac_clearance c)) \<and>
       set (mi_subject_refs m) \<inter> set subjects \<noteq> {} \<and> is_valid_at m now)"
proof (cases "subjects = []")
  case True then show ?thesis using assms by (simp add: recall_def)
next
  case False
  let ?rows = "take (if ranks ranker query then RANKING_POOL else limit)
                  (by_confidence (filter (recallable c worker subjects now) (md_items db)))"
  obtain ms where ms: "all_ok (map (make_item \<circ> ir_item) ?rows) = Inr ms" "found = take limit (ordered ranker ms query c worker)"
    using assms False by (auto simp: recall_def split: sum.splits)
  have "set found \<subseteq> set ms" using ms(2) ordered_set set_take_subset by metis
  moreover have "set ms \<subseteq> ir_item ` {row \<in> set (md_items db). recallable c worker subjects now row}"
    unfolding all_ok_items [OF ms(1)] by (auto dest!: in_set_takeD simp: set_by_confidence)
  ultimately show ?thesis using ms(2) by (fastforce simp: recallable_def is_valid_at_def split: option.splits)
qed

lemma evaluate_auto:
  assumes "po_decision (evaluate p cand) = Auto_write"
  shows "mc_classification cand \<noteq> ''restricted''" "er_source_document_id ` set (mc_provenance_refs cand) \<noteq> {}"
    "wp_auto_write_sources p \<le> int (card (er_source_document_id ` set (mc_provenance_refs cand)))"
  using assms by (auto simp: evaluate_def Let_def split: if_splits)


lemma label_below_restricted: "l \<in> set CLASSIFICATIONS \<Longrightarrow> l \<noteq> ''restricted'' \<Longrightarrow> label_rank l < label_rank ''restricted''"
  by auto

text \<open>
  C16: Nothing is learned unreviewed on thin or secret grounds. When a proposal stores an item by
  itself, the references it cites name at least the policy's number of distinct documents, every
  reference matches, hash and document, a chunk the tenant holds of a document the workspace may
  draw on, and none of those documents is restricted.
\<close>

theorem unreviewed_write_is_corroborated:
  assumes "propose (evidence_record ev_now) p has_purge ids now db_now cand c run_id key db = (res, db', purge)"
    and "md_items db' \<noteq> md_items db"
  shows "wp_auto_write_sources p \<le> int (card (er_source_document_id ` set (mc_provenance_refs cand))) \<and>
    (\<forall>ref \<in> set (mc_provenance_refs cand). \<exists>ch d. backed (md_knowledge db) (ac_tenant_id c) (ac_workspace_id c) ref ch d \<and>
       dc_classification d \<noteq> ''restricted'')"
  using assms(1)
proof (cases rule: propose_cases)
  case (committed item candidate_id db1 superseded approval_id db2)
  have kn1: "md_knowledge db1 = md_knowledge db" "md_items db1 = md_items db"
    using committed(5) by (auto simp: insert_candidate_def split: if_splits)
  have auto: "po_decision (evaluate p cand) = Auto_write"
    using assms(2) committed(3,6,7) kn1 by (auto simp: write_or_hold_def split: if_splits sum.splits)
  let ?m = "item_of cand (id_item ids) (ac_tenant_id c) (ac_workspace_id c) (po_confidence (evaluate p cand)) run_id now"
  have "item = Some ?m" using committed(3) auto by simp
  then obtain sd where st: "store_item (evidence_record ev_now) db1 ?m now = Inr sd"
    using committed(6) by (auto simp: write_or_hold_def split: sum.splits)
  then obtain label kn' where ev: "evidence_record ev_now (md_knowledge db) (mc_provenance_refs cand) (ac_tenant_id c) (ac_workspace_id c) = Inr (label, kn')"
      and rank: "mc_classification cand \<in> set CLASSIFICATIONS" "label_rank label \<le> label_rank (mc_classification cand)"
    by (auto simp: store_item_def verify_evidence_def item_of_def kn1 classification_rank_def simp del: CLASSIFICATIONS_simp
        split: sum.splits if_splits)
  have "label_rank label < label_rank ''restricted''"
    using label_below_restricted [OF rank(1) evaluate_auto(1) [OF auto]] rank(2) by (rule le_less_trans [rotated])
  then have "\<forall>ref \<in> set (mc_provenance_refs cand). \<exists>ch d. backed (md_knowledge db) (ac_tenant_id c) (ac_workspace_id c) ref ch d \<and>
       dc_classification d \<noteq> ''restricted''"
    using evidence_record_ok(5) [OF ev] by fastforce
  then show ?thesis using evaluate_auto(3) [OF auto] by blast
qed (use assms(2) in simp)

lemma find_map_same: "(\<And>x. P (f x) = P x) \<Longrightarrow> List.find P (map f xs) = map_option f (List.find P xs)"
  by (induction xs) auto






lemma candidate_row_for_update:
  assumes "candidate_row_for db i c = Some row" "\<And>r. wc_id (f r) = wc_id r \<and> wc_tenant_id (f r) = wc_tenant_id r \<and> wc_workspace_id (f r) = wc_workspace_id r"
    "md_candidates db' = md_candidates db"
  shows "candidate_row_for (update_candidate db' (wc_id row) f) i c = Some (f row)"
proof -
  have "wc_id row = i" using assms(1) by (auto simp: candidate_row_for_def dest!: find_SomeD)
  moreover have "List.find (\<lambda>r. wc_tenant_id r = ac_tenant_id c \<and> wc_id r = i \<and> wc_workspace_id r = ac_workspace_id c)
      (map (\<lambda>r. if wc_id r = i then f r else r) (md_candidates db)) =
      map_option (\<lambda>r. if wc_id r = i then f r else r)
        (List.find (\<lambda>r. wc_tenant_id r = ac_tenant_id c \<and> wc_id r = i \<and> wc_workspace_id r = ac_workspace_id c) (md_candidates db))"
    using assms(2) by (intro find_map_same) auto
  ultimately show ?thesis using assms(1,3) by (simp add: candidate_row_for_def update_candidate_def)
qed

lemma review_audit_frame [simp]:
  "candidate_row_for (review_audit p ev c' row action request now resource extra db) i c = candidate_row_for db i c"
  "approvals_get (md_platform (review_audit p ev c' row action request now resource extra db)) t a w aud = approvals_get (md_platform db) t a w aud"
  "md_items (review_audit p ev c' row action request now resource extra db) = md_items db"
  by (simp_all add: review_audit_def candidate_row_for_def approvals_get_def audit_append_def)

lemma update_candidate_frame [simp]:
  "md_platform (update_candidate db i f) = md_platform db" "md_items (update_candidate db i f) = md_items db"
  by (simp_all add: update_candidate_def)

lemma settle_review_cases [consumes 1, case_names unchanged refused approved]:
  assumes "settle_review es p has_purge ids now approval_id c db = (res, db', purge)"
  obtains "db' = db"
  | request i row where
    "approvals_get (md_platform db) (ac_tenant_id c) approval_id (ac_workspace_id c) \<lparr>aud_context = c, aud_holds_decide = False\<rparr> = Some request"
    "ar_approval_type request = MEMORY_REVIEW" "ar_workspace_id request = ac_workspace_id c" "payload_candidate request = Inr i"
    "candidate_row_for db i c = Some row" "wc_memory_id row = None" "ar_status request \<noteq> Approval_pending"
    "\<exists>action extra. db' = review_audit p (id_event ids) c row action request now None extra (settle_refused db (wc_id row))"
  | request i row m superseded db1 where
    "approvals_get (md_platform db) (ac_tenant_id c) approval_id (ac_workspace_id c) \<lparr>aud_context = c, aud_holds_decide = False\<rparr> = Some request"
    "ar_approval_type request = MEMORY_REVIEW" "ar_workspace_id request = ac_workspace_id c" "payload_candidate request = Inr i"
    "candidate_row_for db i c = Some row" "ar_status request = Approval_approved" "store_item es db m now = Inr (superseded, db1)"
    "\<exists>action extra. db' = review_audit p (id_event ids) c row action request now (Some (mi_memory_id m)) extra
       (update_candidate db1 (wc_id row) (\<lambda>r. r\<lparr>wc_memory_id := Some (mi_memory_id m)\<rparr>))"
  using assms that unfolding settle_review_def settle_approved_def
  by (fastforce split: option.splits sum.splits if_splits prod.splits)

lemma store_item_frame:
  assumes "store_item es db m now = Inr (superseded, db')"
  shows "md_candidates db' = md_candidates db" "md_platform db' = md_platform db"
  using assms
  by (auto simp: store_item_def verify_evidence_def insert_item_def close_superseded_def split: sum.splits if_splits)

text \<open>
  A review is settled once, and only an approval writes. When settling a decided review changes
  anything, settling it again, with whatever ids, clock and evidence, changes nothing; and the
  memory changed only if the approval the caller can see was approved.
\<close>

theorem review_settled_once:
  assumes "settle_review es p has_purge ids now approval_id c db = (res, db', purge)" "db' \<noteq> db"
  shows "(\<exists>res'. settle_review es' p' has_purge' ids' now' approval_id c db' = (res', db', [])) \<and>
    (md_items db' \<noteq> md_items db \<longrightarrow>
       (\<exists>request. approvals_get (md_platform db) (ac_tenant_id c) approval_id (ac_workspace_id c)
            \<lparr>aud_context = c, aud_holds_decide = False\<rparr> = Some request \<and> ar_status request = Approval_approved))"
  using assms(1)
proof (cases rule: settle_review_cases)
  case (refused request i row)
  then obtain action extra where db': "db' = review_audit p (id_event ids) c row action request now None extra (settle_refused db (wc_id row))"
    by blast
  have "candidate_row_for db' i c = Some (row\<lparr>wc_decision := Reject\<rparr>)"
    using candidate_row_for_update [OF refused(5), of "\<lambda>r. r\<lparr>wc_decision := Reject\<rparr>" db] unfolding db' settle_refused_def by simp
  then have "settle_review es' p' has_purge' ids' now' approval_id c db' = (Inr None, db', [])"
    using refused unfolding db' by (simp add: settle_review_def settle_refused_def)
  moreover have "md_items db' = md_items db" unfolding db' by (simp add: settle_refused_def)
  ultimately show ?thesis by blast
next
  case (approved request i row m superseded db1)
  then obtain action extra where db': "db' = review_audit p (id_event ids) c row action request now (Some (mi_memory_id m)) extra
       (update_candidate db1 (wc_id row) (\<lambda>r. r\<lparr>wc_memory_id := Some (mi_memory_id m)\<rparr>))" by blast
  note frame = store_item_frame [OF approved(7)]
  have "candidate_row_for db' i c = Some (row\<lparr>wc_memory_id := Some (mi_memory_id m)\<rparr>)"
    using candidate_row_for_update [OF approved(5), of "\<lambda>r. r\<lparr>wc_memory_id := Some (mi_memory_id m)\<rparr>" db1] frame(1)
    unfolding db' by simp
  then have "settle_review es' p' has_purge' ids' now' approval_id c db' = (stored_item db' (ac_tenant_id c) (mi_memory_id m), db', [])"
    using approved frame(2) unfolding db' by (simp add: settle_review_def)
  then show ?thesis using approved(1,6) by blast
qed (use assms(2) in blast)

lemma position_map_index:
  assumes "distinct order" "i < length order"
  shows "position_map order (order ! i) = Some i"
proof -
  have "distinct (map fst (rev (zip order [0..<length order])))" using assms(1) by (simp add: rev_map [symmetric])
  moreover have "(order ! i, i) \<in> set (rev (zip order [0..<length order]))" using assms(2) by (auto simp: set_zip)
  ultimately show ?thesis unfolding position_map_def by (rule map_of_is_SomeI)
qed

lemma position_map_None: "position_map order i = None \<longleftrightarrow> i \<notin> set order"
proof -
  have "fst ` set (zip order [0..<length order]) = set order" by (metis length_upt diff_zero map_fst_zip set_map)
  then show ?thesis by (simp add: position_map_def map_of_eq_None_iff)
qed

definition rank_key :: "uuid list \<Rightarrow> uuid \<times> 'i \<Rightarrow> nat" where
  "rank_key order pair = (case position_map order (fst pair) of Some i \<Rightarrow> i | None \<Rightarrow> length order)"

definition named_by :: "uuid list \<Rightarrow> (uuid \<times> 'i) list \<Rightarrow> (uuid \<times> 'i) list" where
  "named_by order items =
     map (\<lambda>j. (order ! j, the (map_of items (order ! j)))) (filter (\<lambda>j. map_of items (order ! j) \<noteq> None) [0..<length order])"

lemma rank_key_known: "distinct order \<Longrightarrow> j < length order \<Longrightarrow> rank_key order (order ! j, v) = j"
  by (simp add: rank_key_def position_map_index)

lemma rank_key_unknown: "fst pair \<notin> set order \<Longrightarrow> rank_key order pair = length order"
  using position_map_None [of order "fst pair"] by (simp add: rank_key_def)

lemma rank_key_less:
  assumes "distinct order"
  shows "rank_key order pair < length order \<longleftrightarrow> fst pair \<in> set order"
proof (cases "fst pair \<in> set order")
  case True
  then obtain j where "j < length order" "fst pair = order ! j" by (auto simp: in_set_conv_nth)
  then show ?thesis using True rank_key_known [OF assms, of j "snd pair"] by (cases pair) auto
qed (simp add: rank_key_unknown)

lemma rank_key_le: "distinct order \<Longrightarrow> rank_key order pair \<le> length order"
  by (cases "fst pair \<in> set order") (simp_all add: rank_key_less [symmetric] rank_key_unknown)

lemma rank_key_inj:
  assumes "distinct order" "fst a \<in> set order" "rank_key order a = rank_key order b"
  shows "fst a = fst b"
proof -
  have "fst b \<in> set order" using assms rank_key_less by metis
  then obtain i j where ij: "i < length order" "fst a = order ! i" "j < length order" "fst b = order ! j"
    using assms(2) by (auto simp: in_set_conv_nth)
  then show ?thesis using assms(3) rank_key_known [OF assms(1) ij(1), of "snd a"] rank_key_known [OF assms(1) ij(3), of "snd b"]
    by (cases a; cases b) auto
qed

lemma set_named_by:
  assumes "distinct (map fst items)"
  shows "set (named_by order items) = {pair \<in> set items. fst pair \<in> set order}"
proof (intro set_eqI iffI)
  fix pair assume "pair \<in> set (named_by order items)"
  then obtain j v where "j < length order" "map_of items (order ! j) = Some v" "pair = (order ! j, v)"
    by (auto simp: named_by_def)
  then show "pair \<in> {pair \<in> set items. fst pair \<in> set order}" by (auto dest: map_of_SomeD)
next
  fix pair assume "pair \<in> {pair \<in> set items. fst pair \<in> set order}"
  then obtain j where j: "j < length order" "fst pair = order ! j" "pair \<in> set items" by (auto simp: in_set_conv_nth)
  have "map_of items (order ! j) = Some (snd pair)" using assms j by (intro map_of_is_SomeI) (auto simp flip: j(2))
  then show "pair \<in> set (named_by order items)" using j unfolding named_by_def
    by (auto simp: image_iff prod_eq_iff intro!: bexI [of _ j])
qed

lemma named_by_keys: "distinct order \<Longrightarrow> map (rank_key order) (named_by order items) = filter (\<lambda>j. map_of items (order ! j) \<noteq> None) [0..<length order]"
  by (auto simp: named_by_def rank_key_known intro!: map_idI)

lemma distinct_filter_same:
  assumes "distinct (map fst xs)" "x \<in> set xs" "\<And>y. y \<in> set xs \<Longrightarrow> Q y \<longleftrightarrow> fst y = fst x"
  shows "filter Q xs = [x]"
proof -
  have "filter Q xs = filter (\<lambda>y. y = x) xs"
  proof (rule filter_cong [OF refl])
    fix y assume "y \<in> set xs"
    then show "Q y = (y = x)" using assms by (metis distinct_map inj_onD)
  qed
  then show ?thesis using assms(1,2) by (simp add: filter_eq_distinct distinct_map)
qed

text \<open>
  Ranking reorders and never filters. Ranked by an answer without repetitions, the items are a
  permutation of the ones given: those the ranker names come first, in its order, and those it
  does not know follow in the order they had.
\<close>

theorem rank_by_reorders:
  assumes "distinct order" "distinct (map fst items)"
  shows "mset (rank_by order items) = mset (map snd items) \<and>
    rank_by order items = map snd (named_by order items) @ map snd (filter (\<lambda>pair. fst pair \<notin> set order) items)"
proof -
  let ?f = "rank_key order :: uuid \<times> 'a \<Rightarrow> nat" and ?rest = "filter (\<lambda>pair. fst pair \<notin> set order) items"
  have key: "rank_by order items = map snd (sort_key ?f items)"
    using assms(1) by (simp add: rank_by_def Let_def rank_key_def [abs_def] distinct_card)
  have dkeys: "distinct (map ?f (named_by order items))" unfolding named_by_keys [OF assms(1)] by simp
  have dn: "distinct (named_by order items)" using dkeys by (simp add: distinct_map)
  have di: "distinct items" using assms(2) by (simp add: distinct_map)
  have "mset (named_by order items) = mset (filter (\<lambda>pair. fst pair \<in> set order) items)"
    by (rule iffD1 [OF set_eq_iff_mset_eq_distinct [OF dn distinct_filter [OF di]]])
      (auto simp: set_named_by [OF assms(2)])
  then have ms: "mset (named_by order items @ ?rest) = mset items" by (simp add: multiset_partition [symmetric])
  have "sort_key ?f items = named_by order items @ ?rest"
  proof (rule properties_for_sort_key [OF ms])
    have "sorted (map ?f (named_by order items))" unfolding named_by_keys [OF assms(1)] by (simp add: sorted_wrt_filter)
    moreover have "map ?f ?rest = replicate (length ?rest) (length order)"
      by (simp add: map_replicate_const [symmetric] rank_key_unknown)
    moreover have "\<forall>x \<in> set (named_by order items). ?f x \<le> length order"
      using rank_key_le [OF assms(1)] by blast
    ultimately show "sorted (map ?f (named_by order items @ ?rest))" by (auto simp: sorted_append)
  next
    fix pair assume "pair \<in> set (named_by order items @ ?rest)"
    then consider "fst pair \<in> set order" "pair \<in> set items" | "fst pair \<notin> set order" "pair \<in> set items"
      using set_named_by [OF assms(2), of order] by auto
    then show "filter (\<lambda>x. ?f pair = ?f x) (named_by order items @ ?rest) = filter (\<lambda>x. ?f pair = ?f x) items"
    proof cases
      case 1
      have "filter (\<lambda>x. ?f pair = ?f x) items = [pair]"
        using 1 rank_key_inj [OF assms(1) 1(1)] by (intro distinct_filter_same [OF assms(2)]) (auto simp: rank_key_def)
      moreover have "filter (\<lambda>x. ?f pair = ?f x) (named_by order items) = [pair]"
      proof (rule distinct_filter_same)
        show "distinct (map fst (named_by order items))" using dn assms(2) set_named_by [OF assms(2), of order]
          by (auto simp: distinct_map intro: inj_on_subset)
        show "pair \<in> set (named_by order items)" using 1 set_named_by [OF assms(2), of order] by simp
      qed (use rank_key_inj [OF assms(1) 1(1)] in \<open>auto simp: rank_key_def\<close>)
      moreover have "filter (\<lambda>x. ?f pair = ?f x) ?rest = []"
        using 1 rank_key_less [OF assms(1), of pair] by (auto simp: filter_empty_conv rank_key_unknown)
      ultimately show ?thesis by simp
    next
      case 2
      then have p: "?f pair = length order" by (simp add: rank_key_unknown)
      have "?f x = length order \<longleftrightarrow> fst x \<notin> set order" for x :: "uuid \<times> 'a"
        using rank_key_less [OF assms(1), of x] rank_key_unknown [of x order] by force
      moreover have "filter (\<lambda>x. fst x \<notin> set order) (named_by order items) = []"
        using set_named_by [OF assms(2), of order] by (auto simp: filter_empty_conv)
      ultimately show ?thesis unfolding p by (simp add: eq_commute [of "length order"])
    qed
  qed
  moreover have "mset (rank_by order items) = mset (map snd items)" unfolding key by simp
  ultimately show ?thesis using key by simp
qed

subsection \<open>Concrete runs\<close>

definition sample_ref :: "uuid \<Rightarrow> evidence_ref" where
  "sample_ref n =
     \<lparr>er_evidence_id = 500 + n, er_source_document_id = n, er_source_version = ''1'', er_chunk_id = Some (100 + n), er_page = None,
      er_start_offset = None, er_end_offset = None, er_quote = None, er_relevance_score = 1, er_classification = ''internal'',
      er_provenance_hash = replicate 64 (CHR ''a'')\<rparr>"

definition sample_document :: "uuid \<Rightarrow> document_row" where
  "sample_document n =
     \<lparr>dc_id = n, dc_tenant_id = 1, dc_workspace_id = 2, dc_title = [97], dc_identity_key = None, dc_domain = ''shared'',
      dc_source_uri = [], dc_classification = ''internal'', dc_source_version = ''1'', dc_index_version = None, dc_created_by = 7,
      dc_created_at = 0, dc_doc_key = None, dc_status = ''active'', dc_is_current = True, dc_effective_from = None,
      dc_effective_to = None, dc_superseded_by = None, dc_deleted_at = None, dc_deleted_by = None, dc_scope = ''tenant'',
      dc_extra = [], dc_acl_principals = [''tenant:*'']\<rparr>"

definition sample_chunk :: "uuid \<Rightarrow> chunk_row" where
  "sample_chunk n =
     \<lparr>ck_id = 100 + n, ck_tenant_id = 1, ck_workspace_id = 2, ck_document_id = n, ck_seq = 0, ck_content = [97], ck_start_offset = 0,
      ck_end_offset = 1, ck_provenance_hash = replicate 64 (CHR ''a''), ck_section_path = [], ck_section_index = 0,
      ck_status = ''active'', ck_deleted_at = None\<rparr>"

definition sample_memory :: "unit memory_db" where
  "sample_memory =
     \<lparr>md_knowledge = \<lparr>kd_documents = map sample_document [11, 12, 13, 14], kd_chunks = map sample_chunk [11, 12, 13, 14], kd_evidence = []\<rparr>,
      md_items = [], md_candidates = [], md_item_evidence = [],
      md_platform = \<lparr>pd_approvals = [], pd_decisions = [], pd_outbox = [], pd_audit = [], pd_codes = ()\<rparr>, md_runs = [50]\<rparr>"

definition sample_candidate :: "uuid list \<Rightarrow> memory_candidate" where
  "sample_candidate docs =
     \<lparr>mc_worker_id = ''scribe'', mc_memory_type = Semantic, mc_content = [97], mc_structured_facts = [], mc_subject_refs = [''acct''],
      mc_provenance_refs = map sample_ref docs, mc_classification = ''internal'', mc_fact_key = Some ''date''\<rparr>"

definition sample_policy :: write_policy where
  "sample_policy = \<lparr>wp_policy_version = ''2.0.0'', wp_auto_write_sources = 2\<rparr>"

definition sample_ids :: "uuid \<Rightarrow> memory_ids" where
  "sample_ids n = \<lparr>id_candidate = n, id_item = n + 1, id_approval = n + 2, id_event = n + 3\<rparr>"

abbreviation sample_member :: access_context where
  "sample_member \<equiv> access_context_defaults 1 2 7 {} ''pro''"

abbreviation sample_propose ::
  "uuid \<Rightarrow> instant \<Rightarrow> uuid list \<Rightarrow> unit memory_db \<Rightarrow> proposal_result res \<times> unit memory_db \<times> uuid list" where
  "sample_propose n now docs db \<equiv>
     propose (evidence_record now) sample_policy True (sample_ids n) now now (sample_candidate docs) sample_member 50 (Some n) db"

lemmas memory_eval = sample_memory_def sample_ref_def sample_document_def sample_chunk_def sample_candidate_def sample_policy_def
  sample_ids_def access_context_defaults_def propose_def evaluate_def item_of_def make_item_def fact_key_ok_def evidence_ref_ok_def
  already_decided_def insert_candidate_def new_candidate_row_def write_or_hold_def store_item_def verify_evidence_def
  classification_rank_def insert_item_def close_superseded_def supersedes_def close_row_def evidence_record_def cited_rows_def
  document_of_def document_readable_def check_ref_def stored_chunk_def visible_from_workspace_def strictest_def insert_evidence_def
  new_evidence_def purge_vectors_def confidence_of_def List.map_filter_def Let_def

lemma sample_hash [simp]: "list_all is_hex_digit (replicate 64 CHR ''a'')"
  by (simp add: list_all_iff is_hex_digit_def)

definition sample_item :: "uuid \<Rightarrow> instant \<Rightarrow> uuid list \<Rightarrow> memory_item" where
  "sample_item n now docs = item_of (sample_candidate docs) n 1 2 (3 / 4) 50 now"

lemma sample_first:
  obtains r db where "sample_propose 60 10 [11, 12] sample_memory = (Inr r, db, [])"
    "md_items db = [\<lparr>ir_item = sample_item 61 10 [11, 12], ir_created_at = 10\<rparr>]" "pr_item r = Some (sample_item 61 10 [11, 12])"
  by (simp add: memory_eval sample_item_def)

lemma sample_second:
  obtains r r' db db' where "sample_propose 60 10 [11, 12] sample_memory = (Inr r, db, [])"
    "sample_propose 70 5 [13, 14] db = (Inr r', db', [61])"
    "md_items db' = [\<lparr>ir_item = (sample_item 61 10 [11, 12])\<lparr>mi_valid_until := Some 5\<rparr>, ir_created_at = 10\<rparr>,
       \<lparr>ir_item = sample_item 71 5 [13, 14], ir_created_at = 5\<rparr>]"
  by (simp add: memory_eval sample_item_def)

definition sample_retention :: retention_policy where
  "sample_retention =
     \<lparr>rp_schema_version = ''1.0'', rp_policy_id = ''default'', rp_policy_version = ''1.0.0'',
      rp_classes = [(''default'', \<lparr>rk_days = Some 365, rk_description = []\<rparr>)],
      rp_knowledge = \<lparr>kr_deleted_grace_days = 30, kr_orphan_evidence_grace_days = 7\<rparr>,
      rp_audit = \<lparr>au_months_ahead = 3, au_enforced = False, au_tables = []\<rparr>,
      rp_checkpoints = \<lparr>cp_superseded_days = 7, cp_idle_thread_days = 30\<rparr>, rp_pending_expiry_days = 2, rp_batch_limit = 500\<rparr>"

lemma sample_reach_empty: "memory_reach sample_policy sample_retention sample_memory"
  by (rule memory_reach.empty) (simp_all add: sample_memory_def)

text \<open>
  A memory closed by a clock that is behind the one it was written with makes the inventory
  unreadable: its validity window is reversed, and the listing raises a validation error for the
  page that holds it.
\<close>

theorem backdated_close_breaks_listing:
  "\<exists>db :: unit memory_db. memory_reach sample_policy sample_retention db \<and>
     list_items sample_codec db sample_member \<lparr>rq_limit = 50, rq_after = None, rq_query = sample_query []\<rparr> = Inl ValidationError"
proof -
  obtain r r' db db' where f: "sample_propose 60 10 [11, 12] sample_memory = (Inr r, db, [])"
    and g: "sample_propose 70 5 [13, 14] db = (Inr r', db', [61])"
    and items: "md_items db' = [\<lparr>ir_item = (sample_item 61 10 [11, 12])\<lparr>mi_valid_until := Some 5\<rparr>, ir_created_at = 10\<rparr>,
       \<lparr>ir_item = sample_item 71 5 [13, 14], ir_created_at = 5\<rparr>]"
    by (rule sample_second)
  have "memory_reach sample_policy sample_retention db'"
    by (rule memory_reach.proposed [OF memory_reach.proposed [OF sample_reach_empty f] g])
  moreover have "list_items sample_codec db' sample_member \<lparr>rq_limit = 50, rq_after = None, rq_query = sample_query []\<rparr> = Inl ValidationError"
    by (simp add: list_items_def list_item_rows_def items Let_def build_page_def newest_first_def item_position_def fetch_limit_def
        after_position_def access_context_defaults_def sample_item_def item_of_def make_item_def)
  ultimately show ?thesis by blast
qed

theorem memory_rests_on_evidence_witness:
  "\<exists>(db :: unit memory_db) e. memory_reach sample_policy sample_retention db \<and> map (mi_memory_id \<circ> ir_item) (md_items db) = [61] \<and>
     e \<in> set (kd_evidence (md_knowledge db)) \<and> ev_ref e = sample_ref 11"
proof -
  obtain r db where f: "sample_propose 60 10 [11, 12] sample_memory = (Inr r, db, [])"
    and items: "md_items db = [\<lparr>ir_item = sample_item 61 10 [11, 12], ir_created_at = 10\<rparr>]" by (rule sample_first)
  have reach: "memory_reach sample_policy sample_retention db" by (rule memory_reach.proposed [OF sample_reach_empty f])
  have row: "\<lparr>ir_item = sample_item 61 10 [11, 12], ir_created_at = 10\<rparr> \<in> set (md_items db)" by (simp add: items)
  have "sample_ref 11 \<in> set (mi_provenance_refs (sample_item 61 10 [11, 12]))"
    by (simp add: sample_item_def item_of_def sample_candidate_def)
  with memory_rests_on_evidence [OF reach row refl] obtain e where "e \<in> set (kd_evidence (md_knowledge db))" "ev_ref e = sample_ref 11"
    by auto
  moreover have "map (mi_memory_id \<circ> ir_item) (md_items db) = [61]" by (simp add: items sample_item_def item_of_def)
  ultimately show ?thesis using reach by (intro exI [of _ db] exI [of _ e]) simp
qed


theorem unreviewed_write_is_corroborated_witness:
  "\<exists>r db ch d. sample_propose 60 10 [11, 12] sample_memory = (Inr r, db, []) \<and>
     backed (md_knowledge sample_memory) 1 2 (sample_ref 12) ch d \<and> dc_classification d \<noteq> ''restricted''"
proof -
  obtain r db where f: "sample_propose 60 10 [11, 12] sample_memory = (Inr r, db, [])"
    and items: "md_items db = [\<lparr>ir_item = sample_item 61 10 [11, 12], ir_created_at = 10\<rparr>]" by (rule sample_first)
  have "md_items db \<noteq> md_items sample_memory" by (simp add: items sample_memory_def)
  from unreviewed_write_is_corroborated [OF f this] show ?thesis
    using f by (auto simp: sample_candidate_def access_context_defaults_def)
qed


theorem recall_stays_in_bounds_witness:
  "\<exists>r db. sample_propose 60 10 [11, 12] sample_memory = (Inr r, db, []) \<and>
     recall (Some (\<lambda>_ _ _ _ _. Inr [99, 61])) db sample_member ''scribe'' [''acct''] 20 5 (Some [97]) = Inr [sample_item 61 10 [11, 12]] \<and>
     mi_classification (sample_item 61 10 [11, 12]) \<in> set (classifications_for_clearance (ac_clearance sample_member))"
proof -
  obtain r db where f: "sample_propose 60 10 [11, 12] sample_memory = (Inr r, db, [])"
    and items: "md_items db = [\<lparr>ir_item = sample_item 61 10 [11, 12], ir_created_at = 10\<rparr>]" by (rule sample_first)
  have rec: "recall (Some (\<lambda>_ _ _ _ _. Inr [99, 61])) db sample_member ''scribe'' [''acct''] 20 5 (Some [97]) = Inr [sample_item 61 10 [11, 12]]"
    by (simp add: recall_def ranks_def items recallable_def by_confidence_def RANKING_POOL_def ordered_def rank_by_def Let_def
        sample_item_def item_of_def sample_candidate_def access_context_defaults_def classifications_for_clearance_def
        CLEARANCE_ALLOWS_def make_item_def fact_key_ok_def sample_ref_def evidence_ref_ok_def)
  from recall_stays_in_bounds [OF rec] rec f show ?thesis by auto
qed

theorem rank_by_reorders_witness:
  "rank_by [3, 9, 1] [(1 :: nat, ''a''), (2, ''b''), (3, ''c'')] = [''c'', ''a'', ''b'']"
  using rank_by_reorders [of "[3, 9, 1]" "[(1 :: nat, ''a''), (2, ''b''), (3, ''c'')]"] by (simp add: named_by_def upt_rec)

text \<open>A held proposal whose approval has been approved.\<close>

definition sample_approved :: "unit memory_db" where
  "sample_approved =
     (let db = fst (snd (sample_propose 60 10 [11] sample_memory))
      in db\<lparr>md_platform := (md_platform db)\<lparr>pd_approvals :=
           map (\<lambda>r. r\<lparr>ar_status := Approval_approved\<rparr>) (pd_approvals (md_platform db))\<rparr>\<rparr>)"

abbreviation sample_settle :: "instant \<Rightarrow> uuid \<Rightarrow> unit memory_db \<Rightarrow> memory_item option res \<times> unit memory_db \<times> uuid list" where
  "sample_settle now n db \<equiv>
     settle_review (evidence_record now) sample_policy True (sample_ids n) now 62 (access_context_defaults 1 2 3 {} ''background'') db"

lemma sample_settled:
  "\<exists>m db. sample_settle 20 80 sample_approved = (Inr (Some m), db, []) \<and> map (mi_memory_id \<circ> ir_item) (md_items db) = [81] \<and>
     md_items sample_approved = []"
  by (simp add: sample_approved_def memory_eval approvals_add_def review_request_def audit_append_def settle_review_def
      approvals_get_def visible_to_def payload_candidate_def candidate_row_for_def settle_approved_def item_from_candidate_def
      update_candidate_def review_audit_def MEMORY_REVIEW_def)

theorem review_settled_once_witness:
  "\<exists>m db res'. sample_settle 20 80 sample_approved = (Inr (Some m), db, []) \<and> sample_settle 30 90 db = (res', db, [])"
proof -
  obtain m db where s: "sample_settle 20 80 sample_approved = (Inr (Some m), db, [])"
    and items: "map (mi_memory_id \<circ> ir_item) (md_items db) = [81]" "md_items sample_approved = []"
    using sample_settled by (elim exE conjE) (rule that)
  from items have "db \<noteq> sample_approved" by auto
  from review_settled_once [OF s this, of "evidence_record 30" sample_policy True "sample_ids 90" 30] s show ?thesis by blast
qed

end
