(* ===== verification/VectorIndex.thy ===== *)
theory VectorIndex
  imports Evidence
begin

text \<open>
  The vector index behind retrieval: the trusted filter and the indexed chunk of
  \<^verbatim>\<open>dw_knowledge/ports.py\<close> and the in-memory adapter of \<^verbatim>\<open>dw_knowledge/adapters/memory_index.py\<close>.
  The dictionary keyed by \<^verbatim>\<open>str(chunk_id)\<close> is an association list keyed by the id (insertion order,
  an update stays in place). Vector components are rationals and \<^verbatim>\<open>math.sqrt\<close>, whose result is rounded,
  is a parameter. The locale \<open>vector_index_port\<close> states what the gateway relies on.
\<close>

subsection \<open>The data\<close>

definition SHARED_DOMAIN :: string where "SHARED_DOMAIN = ''shared''"

record trusted_filter =
  tf_tenant_id :: uuid
  tf_workspace_id :: uuid
  tf_domain :: string
  tf_allowed_classifications :: "string list"
  tf_acl_principals :: "string list"

record indexable_chunk =
  ix_chunk_id :: uuid
  ix_document_id :: uuid
  ix_tenant_id :: uuid
  ix_workspace_id :: uuid
  ix_domain :: string
  ix_content :: ustr
  ix_classification :: string
  ix_source_version :: string
  ix_index_version :: string
  ix_provenance_hash :: string
  ix_acl_principals :: "string list"
  ix_vector :: "rat list"
  ix_section_path :: ustr
  ix_seq :: nat
  ix_scope :: string
  ix_extra_payload :: "(string \<times> string) list"

record vector_hit =
  vh_chunk_id :: uuid
  vh_document_id :: uuid
  vh_score :: rat
  vh_content :: ustr
  vh_classification :: string
  vh_source_version :: string
  vh_provenance_hash :: string

record vector_index =
  vi_chunks :: "(uuid \<times> indexable_chunk) list"
  vi_tombstoned :: "uuid set"

subsection \<open>The operations\<close>

definition cosine :: "(rat \<Rightarrow> rat) \<Rightarrow> rat list \<Rightarrow> rat list \<Rightarrow> rat" where
  "cosine sq a b =
     (let dot = sum_list (map (\<lambda>(x, y). x * y) (zip a b));
          norm_a = sq (sum_list (map (\<lambda>x. x * x) a));
          norm_b = sq (sum_list (map (\<lambda>y. y * y) b))
      in if norm_a = 0 \<or> norm_b = 0 then 0 else dot / (norm_a * norm_b))"

definition upsert_one :: "vector_index \<Rightarrow> indexable_chunk \<Rightarrow> vector_index" where
  "upsert_one ix c =
     ix\<lparr>vi_chunks := AList.update (ix_chunk_id c) c (vi_chunks ix),
        vi_tombstoned := vi_tombstoned ix - {ix_document_id c}\<rparr>"

definition upsert :: "vector_index \<Rightarrow> indexable_chunk list \<Rightarrow> vector_index" where
  "upsert ix cs = foldl upsert_one ix cs"

definition delete_document :: "vector_index \<Rightarrow> uuid \<Rightarrow> vector_index" where
  "delete_document ix doc =
     ix\<lparr>vi_chunks := filter (\<lambda>(_, c). ix_document_id c \<noteq> doc) (vi_chunks ix), vi_tombstoned := vi_tombstoned ix - {doc}\<rparr>"

definition tombstone_document :: "vector_index \<Rightarrow> uuid \<Rightarrow> vector_index" where
  "tombstone_document ix doc = ix\<lparr>vi_tombstoned := insert doc (vi_tombstoned ix)\<rparr>"

definition delete_by_tenant :: "vector_index \<Rightarrow> uuid \<Rightarrow> vector_index" where
  "delete_by_tenant ix tenant = ix\<lparr>vi_chunks := filter (\<lambda>(_, c). ix_tenant_id c \<noteq> tenant) (vi_chunks ix)\<rparr>"

text \<open>The checks of the loop in \<^verbatim>\<open>search\<close>, in its order.\<close>

definition trusted :: "trusted_filter \<Rightarrow> indexable_chunk \<Rightarrow> bool" where
  "trusted tf c \<longleftrightarrow>
     (ix_tenant_id c = tf_tenant_id tf \<and> ix_workspace_id c = tf_workspace_id tf \<or> ix_scope c = ''global'') \<and>
     ix_classification c \<in> set (tf_allowed_classifications tf) \<and>
     set (ix_acl_principals c) \<inter> set (tf_acl_principals tf) \<noteq> {} \<and>
     (ix_domain c = tf_domain tf \<or> ix_domain c = SHARED_DOMAIN)"

definition narrowed :: "(string \<times> string) list \<Rightarrow> uuid list \<Rightarrow> indexable_chunk \<Rightarrow> bool" where
  "narrowed filters documents c \<longleftrightarrow>
     \<not> list_ex (\<lambda>(key, v). map_of (rev (ix_extra_payload c)) key \<noteq> Some v) filters \<and>
     \<not> (documents \<noteq> [] \<and> ix_document_id c \<notin> set documents)"

definition hit_of :: "(rat \<Rightarrow> rat) \<Rightarrow> rat list \<Rightarrow> indexable_chunk \<Rightarrow> vector_hit" where
  "hit_of sq v c =
     \<lparr>vh_chunk_id = ix_chunk_id c, vh_document_id = ix_document_id c, vh_score = cosine sq v (ix_vector c),
      vh_content = ix_content c, vh_classification = ix_classification c, vh_source_version = ix_source_version c,
      vh_provenance_hash = ix_provenance_hash c\<rparr>"

definition index_search ::
  "(rat \<Rightarrow> rat) \<Rightarrow> rat list \<Rightarrow> trusted_filter \<Rightarrow> nat \<Rightarrow> (string \<times> string) list \<Rightarrow> uuid list \<Rightarrow> vector_index \<Rightarrow> vector_hit list" where
  "index_search sq v tf top_k filters documents ix =
     take top_k (sort_key (\<lambda>h. - vh_score h)
       (map (hit_of sq v)
          (filter (\<lambda>c. ix_document_id c \<notin> vi_tombstoned ix \<and> narrowed filters documents c \<and> trusted tf c)
             (map snd (vi_chunks ix)))))"

subsection \<open>The live chunks\<close>

definition index_ok :: "vector_index \<Rightarrow> bool" where
  "index_ok ix \<longleftrightarrow> distinct (map fst (vi_chunks ix)) \<and> list_all (\<lambda>(k, c). k = ix_chunk_id c) (vi_chunks ix)"

definition entries :: "vector_index \<Rightarrow> indexable_chunk set" where
  "entries ix = snd ` set (vi_chunks ix)"

definition live :: "vector_index \<Rightarrow> indexable_chunk set" where
  "live ix = {c \<in> entries ix. ix_document_id c \<notin> vi_tombstoned ix}"

lemma set_alist_update: "distinct (map fst al) \<Longrightarrow> set (AList.update k v al) = insert (k, v) {p \<in> set al. fst p \<noteq> k}"
  by (induction al) (auto simp: image_iff)

lemma index_ok_upsert_one: "index_ok ix \<Longrightarrow> index_ok (upsert_one ix c)"
  by (auto simp: index_ok_def upsert_one_def distinct_update list_all_iff set_alist_update)

lemma index_ok_upsert: "index_ok ix \<Longrightarrow> index_ok (upsert ix cs)"
  unfolding upsert_def by (induction cs arbitrary: ix) (simp_all add: index_ok_upsert_one)

lemma index_ok_delete: "index_ok ix \<Longrightarrow> index_ok (delete_document ix doc)"
  by (auto simp: index_ok_def delete_document_def list_all_iff distinct_map_filter)

lemma index_ok_tombstone [simp]: "index_ok (tombstone_document ix doc) = index_ok ix"
  by (simp add: index_ok_def tombstone_document_def)

lemma index_ok_delete_by_tenant: "index_ok ix \<Longrightarrow> index_ok (delete_by_tenant ix tenant)"
  by (auto simp: index_ok_def delete_by_tenant_def list_all_iff distinct_map_filter)

lemma entries_delete [simp]: "entries (delete_document ix doc) = {c \<in> entries ix. ix_document_id c \<noteq> doc}"
  by (force simp: entries_def delete_document_def)

lemma entries_tombstone [simp]: "entries (tombstone_document ix doc) = entries ix"
  by (simp add: entries_def tombstone_document_def)

lemma tombstoned_simps [simp]:
  "vi_tombstoned (delete_document ix doc) = vi_tombstoned ix - {doc}"
  "vi_tombstoned (tombstone_document ix doc) = insert doc (vi_tombstoned ix)"
  "vi_tombstoned (upsert_one ix c) = vi_tombstoned ix - {ix_document_id c}"
  by (simp_all add: delete_document_def tombstone_document_def upsert_one_def)

lemma entries_upsert_one:
  assumes "index_ok ix"
  shows "entries (upsert_one ix c) = insert c {x \<in> entries ix. ix_chunk_id x \<noteq> ix_chunk_id c}"
proof -
  have keys: "fst p = ix_chunk_id (snd p)" if "p \<in> set (vi_chunks ix)" for p
    using assms that by (auto simp: index_ok_def list_all_iff)
  have "entries (upsert_one ix c) = snd ` insert (ix_chunk_id c, c) {p \<in> set (vi_chunks ix). fst p \<noteq> ix_chunk_id c}"
    using assms by (simp add: entries_def upsert_one_def index_ok_def set_alist_update)
  also have "{p \<in> set (vi_chunks ix). fst p \<noteq> ix_chunk_id c} = {p \<in> set (vi_chunks ix). ix_chunk_id (snd p) \<noteq> ix_chunk_id c}"
    using keys by auto
  also have "snd ` insert (ix_chunk_id c, c) \<dots> = insert c {x \<in> entries ix. ix_chunk_id x \<noteq> ix_chunk_id c}"
    unfolding entries_def image_insert snd_conv by blast
  finally show ?thesis .
qed

lemma entries_upsert:
  assumes "index_ok ix" "distinct (map ix_chunk_id cs)"
  shows "entries (upsert ix cs) = set cs \<union> {x \<in> entries ix. ix_chunk_id x \<notin> ix_chunk_id ` set cs}"
  using assms
proof (induction cs arbitrary: ix)
  case (Cons c cs)
  have "entries (upsert ix (c # cs)) = set cs \<union> {x \<in> entries (upsert_one ix c). ix_chunk_id x \<notin> ix_chunk_id ` set cs}"
    using Cons.IH [of "upsert_one ix c"] Cons.prems by (simp add: upsert_def index_ok_upsert_one)
  then show ?case using Cons.prems by (auto simp: entries_upsert_one)
qed (simp add: upsert_def)

lemma tombstoned_upsert: "vi_tombstoned (upsert ix cs) = vi_tombstoned ix - ix_document_id ` set cs"
  unfolding upsert_def by (induction cs arbitrary: ix) auto

lemma set_sort_key_take: "set (take n (sort_key f xs)) \<subseteq> set xs"
  using set_take_subset [of n "sort_key f xs"] by simp

lemma index_search_sound:
  assumes "h \<in> set (index_search sq v tf top_k filters documents ix)"
  shows "\<exists>c \<in> live ix. trusted tf c \<and> narrowed filters documents c \<and> h = hit_of sq v c"
  using assms set_sort_key_take unfolding index_search_def live_def entries_def by fastforce

text \<open>Nothing better than a returned hit is left out: the search is exact up to its limit.\<close>

lemma index_search_best:
  assumes "c \<in> live ix" "trusted tf c" "narrowed filters documents c"
    "hit_of sq v c \<notin> set (index_search sq v tf top_k filters documents ix)"
  shows "length (index_search sq v tf top_k filters documents ix) = top_k \<and>
    (\<forall>h \<in> set (index_search sq v tf top_k filters documents ix). cosine sq v (ix_vector c) \<le> vh_score h)"
proof -
  define hits where "hits = sort_key (\<lambda>h. - vh_score h) (map (hit_of sq v)
    (filter (\<lambda>c. ix_document_id c \<notin> vi_tombstoned ix \<and> narrowed filters documents c \<and> trusted tf c) (map snd (vi_chunks ix))))"
  have eq: "index_search sq v tf top_k filters documents ix = take top_k hits" by (simp add: index_search_def hits_def)
  have "hit_of sq v c \<in> set hits" using assms(1-3) by (auto simp: hits_def live_def entries_def)
  then have d: "hit_of sq v c \<in> set (drop top_k hits)"
    using assms(4) unfolding eq by (metis Un_iff append_take_drop_id set_append)
  have "sorted (map (\<lambda>h. - vh_score h) (take top_k hits @ drop top_k hits))" unfolding append_take_drop_id by (simp add: hits_def)
  then have "\<forall>h \<in> set (take top_k hits). \<forall>h' \<in> set (drop top_k hits). - vh_score h \<le> - vh_score h'"
    unfolding map_append sorted_append by auto
  then have "\<forall>h \<in> set (take top_k hits). vh_score (hit_of sq v c) \<le> vh_score h" using d by auto
  moreover have "top_k \<le> length hits" using d by (cases "top_k \<le> length hits") auto
  ultimately show ?thesis unfolding eq by (simp add: hit_of_def)
qed

subsection \<open>The contract of the port\<close>

text \<open>
  What \<^verbatim>\<open>VectorIndexPort\<close> promises the gateway, over the chunks a search can reach: a deletion and a
  tombstone silence one document and leave the others alone, re-indexing a document replaces its
  chunks, and a search answers only from reachable chunks that pass the trusted filter.
\<close>

locale vector_index_port =
  fixes ok :: "'ix \<Rightarrow> bool" and reach :: "'ix \<Rightarrow> indexable_chunk set" and held :: "'ix \<Rightarrow> indexable_chunk set"
    and put :: "'ix \<Rightarrow> indexable_chunk list \<Rightarrow> 'ix" and remove :: "'ix \<Rightarrow> uuid \<Rightarrow> 'ix" and silence :: "'ix \<Rightarrow> uuid \<Rightarrow> 'ix"
    and find_hits :: "rat list \<Rightarrow> trusted_filter \<Rightarrow> nat \<Rightarrow> (string \<times> string) list \<Rightarrow> uuid list \<Rightarrow> 'ix \<Rightarrow> vector_hit list"
  assumes reach_held: "reach ix \<subseteq> held ix"
    and remove_ok: "ok ix \<Longrightarrow> ok (remove ix doc)"
    and remove_reach: "reach (remove ix doc) = {c \<in> reach ix. ix_document_id c \<noteq> doc}"
    and remove_held: "held (remove ix doc) = {c \<in> held ix. ix_document_id c \<noteq> doc}"
    and silence_ok: "ok ix \<Longrightarrow> ok (silence ix doc)"
    and silence_reach: "reach (silence ix doc) = {c \<in> reach ix. ix_document_id c \<noteq> doc}"
    and silence_held: "held (silence ix doc) = held ix"
    and put_ok: "ok ix \<Longrightarrow> ok (put ix cs)"
    and put_reach: "ok ix \<Longrightarrow> distinct (map ix_chunk_id cs) \<Longrightarrow> \<forall>c \<in> set cs. ix_document_id c = doc \<Longrightarrow>
      \<forall>x \<in> held ix. ix_document_id x \<noteq> doc \<and> ix_chunk_id x \<notin> ix_chunk_id ` set cs \<Longrightarrow>
      reach (put ix cs) = reach ix \<union> set cs \<and> held (put ix cs) = held ix \<union> set cs"
    and search_sound: "h \<in> set (find_hits v tf k filters documents ix) \<Longrightarrow>
      \<exists>c \<in> reach ix. trusted tf c \<and> narrowed filters documents c \<and> vh_chunk_id h = ix_chunk_id c \<and>
        vh_document_id h = ix_document_id c \<and> vh_content h = ix_content c \<and> vh_classification h = ix_classification c \<and>
        vh_source_version h = ix_source_version c \<and> vh_provenance_hash h = ix_provenance_hash c"
begin

definition reindex :: "'ix \<Rightarrow> uuid \<Rightarrow> indexable_chunk list \<Rightarrow> 'ix" where
  "reindex ix doc cs = put (remove ix doc) cs"

lemma reindex_ok: "ok ix \<Longrightarrow> ok (reindex ix doc cs)"
  by (simp add: reindex_def put_ok remove_ok)

lemma reindex_reach:
  assumes "ok ix" "distinct (map ix_chunk_id cs)" "\<forall>c \<in> set cs. ix_document_id c = doc"
    "\<forall>x \<in> held ix. ix_document_id x \<noteq> doc \<longrightarrow> ix_chunk_id x \<notin> ix_chunk_id ` set cs"
  shows "reach (reindex ix doc cs) = {c \<in> reach ix. ix_document_id c \<noteq> doc} \<union> set cs \<and>
         held (reindex ix doc cs) = {c \<in> held ix. ix_document_id c \<noteq> doc} \<union> set cs"
  using put_reach [OF remove_ok [OF assms(1)] assms(2,3)] assms(4)
  by (simp add: reindex_def remove_held remove_reach)

lemma silenced_documents:
  "reach (foldl silence ix docs) = {c \<in> reach ix. ix_document_id c \<notin> set docs} \<and> held (foldl silence ix docs) = held ix"
  by (induction docs arbitrary: ix) (auto simp: silence_reach silence_held)

lemma silenced_ok: "ok ix \<Longrightarrow> ok (foldl silence ix docs)"
  by (induction docs arbitrary: ix) (auto simp: silence_ok)

lemma removed_documents:
  "reach (foldl remove ix docs) = {c \<in> reach ix. ix_document_id c \<notin> set docs} \<and>
   held (foldl remove ix docs) = {c \<in> held ix. ix_document_id c \<notin> set docs}"
  by (induction docs arbitrary: ix) (auto simp: remove_reach remove_held)

lemma removed_ok: "ok ix \<Longrightarrow> ok (foldl remove ix docs)"
  by (induction docs arbitrary: ix) (auto simp: remove_ok)

lemma silenced_not_found:
  assumes "h \<in> set (find_hits v tf k filters documents (silence ix doc))"
  shows "vh_document_id h \<noteq> doc"
  using search_sound [OF assms] by (auto simp: silence_reach)

end

interpretation in_memory: vector_index_port index_ok live entries upsert delete_document tombstone_document "index_search sq"
  for sq
proof
  fix ix cs and doc :: uuid
  assume a: "index_ok ix" "distinct (map ix_chunk_id (cs :: indexable_chunk list))" "\<forall>c \<in> set cs. ix_document_id c = doc"
    "\<forall>x \<in> entries ix. ix_document_id x \<noteq> doc \<and> ix_chunk_id x \<notin> ix_chunk_id ` set cs"
  have "entries (upsert ix cs) = entries ix \<union> set cs" using entries_upsert [OF a(1,2)] a(4) by auto
  then show "live (upsert ix cs) = live ix \<union> set cs \<and> entries (upsert ix cs) = entries ix \<union> set cs"
    using a(3,4) by (auto simp: live_def tombstoned_upsert)
next
  fix h v tf k filters documents ix
  assume "h \<in> set (index_search sq v tf k filters documents ix)"
  from index_search_sound [OF this]
  show "\<exists>c \<in> live ix. trusted tf c \<and> narrowed filters documents c \<and> vh_chunk_id h = ix_chunk_id c \<and>
        vh_document_id h = ix_document_id c \<and> vh_content h = ix_content c \<and> vh_classification h = ix_classification c \<and>
        vh_source_version h = ix_source_version c \<and> vh_provenance_hash h = ix_provenance_hash c"
    by (auto simp: hit_of_def)
qed (auto simp: live_def index_ok_delete index_ok_upsert)

end
