(* ===== verification/Knowledge.thy ===== *)
theory Knowledge
  imports VectorIndex Chunking Memory
begin

text \<open>
  The knowledge gateway (\<^verbatim>\<open>dw_knowledge/gateway.py\<close>), the deterministic identities of documents and
  chunks (\<^verbatim>\<open>identity.py\<close>) and the retention pass over deleted documents (\<^verbatim>\<open>retention.py\<close>).
  The state is the knowledge schema, the vector index, the object storage and the platform schema
  (for the audit log). Every statement runs under row-level security: it changes rows of the
  caller's tenant only and reads, of \<^verbatim>\<open>documents\<close>, the global ones too. A failed statement rolls its
  transaction back; the object storage and the index are not part of it.

  Parameters: the name-based UUID of \<^verbatim>\<open>uuid.uuid5\<close> in the fixed namespace, SHA-256, the Unicode tables,
  the embedding provider, the reranker, the object storage's answer and the rounded square root.
\<close>

subsection \<open>Identities\<close>

text \<open>\<^verbatim>\<open>str(uuid)\<close>\<close>

definition uuid_str :: "uuid \<Rightarrow> string" where
  "uuid_str u =
     (let h = uuid_hex u
      in take 8 h @ ''-'' @ take 4 (drop 8 h) @ ''-'' @ take 4 (drop 12 h) @ ''-'' @ take 4 (drop 16 h) @ ''-'' @ drop 20 h)"

text \<open>\<^verbatim>\<open>identity_key or title\<close>: an empty key falls back too.\<close>

definition identity_name :: "ustr \<Rightarrow> ustr option \<Rightarrow> ustr" where
  "identity_name title key = ustrip (case key of None \<Rightarrow> title | Some k \<Rightarrow> if k = [] then title else k)"

definition document_key :: "uuid \<Rightarrow> uuid \<Rightarrow> string \<Rightarrow> ustr \<Rightarrow> string \<Rightarrow> string \<Rightarrow> ustr option \<Rightarrow> ustr" where
  "document_key tenant ws domain title version scope key =
     (let name = identity_name title key
      in if scope = ''global'' then ulit (''doc:global:'' @ domain @ '':'') @ name @ ulit ('':'' @ version)
         else ulit (''doc:'' @ scope @ '':'' @ uuid_str tenant @ '':'' @ uuid_str ws @ '':'' @ domain @ '':'') @ name @ ulit ('':'' @ version))"

definition document_id_for ::
  "(ustr \<Rightarrow> uuid) \<Rightarrow> uuid \<Rightarrow> uuid \<Rightarrow> string \<Rightarrow> ustr \<Rightarrow> string \<Rightarrow> string \<Rightarrow> ustr option \<Rightarrow> uuid" where
  "document_id_for uuid5 tenant ws domain title version scope key = uuid5 (document_key tenant ws domain title version scope key)"

definition doc_key_for :: "(ustr \<Rightarrow> uuid) \<Rightarrow> uuid \<Rightarrow> uuid \<Rightarrow> string \<Rightarrow> ustr \<Rightarrow> string \<Rightarrow> ustr option \<Rightarrow> uuid" where
  "doc_key_for uuid5 tenant ws domain title scope key =
     (let name = identity_name title key
      in if scope = ''global'' then uuid5 (ulit (''dockey:global:'' @ domain @ '':'') @ name)
         else uuid5 (ulit (''dockey:'' @ uuid_str tenant @ '':'' @ uuid_str ws @ '':'' @ domain @ '':'') @ name))"

definition chunk_id_for :: "(ustr \<Rightarrow> uuid) \<Rightarrow> uuid \<Rightarrow> string \<Rightarrow> nat \<Rightarrow> uuid" where
  "chunk_id_for uuid5 doc version seq = uuid5 (ulit (''chunk:'' @ uuid_str doc @ '':'' @ version @ '':'' @ nat_str seq))"

subsection \<open>Commands\<close>

definition INDEX_VERSION :: string where "INDEX_VERSION = ''2026-07-25.structure-1''"
definition GLOBAL_PUBLISH_SCOPE :: string where "GLOBAL_PUBLISH_SCOPE = ''knowledge.publish_global''"
definition FULL_READ_CHARS :: nat where "FULL_READ_CHARS = 60000"

definition SEARCH_FILTER_KEYS :: "string list" where
  "SEARCH_FILTER_KEYS =
     [''account_id'', ''attachment_scope'', ''source_type'', ''record_type'', ''channel_id'', ''url_hash'', ''lang'',
      ''section_key'', ''metric_code'', ''filter_tag'', ''tender_id'']"

record ingest_command =
  ic_title :: ustr
  ic_content :: ustr
  ic_identity_key :: "ustr option"
  ic_domain :: string
  ic_classification :: string
  ic_source_version :: string
  ic_content_type :: string
  ic_scope :: string
  ic_extra :: "(string \<times> string) list"
  ic_acl_principals :: "string list"

definition keys_whitelisted :: "(string \<times> string) list \<Rightarrow> bool" where
  "keys_whitelisted pairs \<longleftrightarrow> set (map fst pairs) \<subseteq> set SEARCH_FILTER_KEYS"

definition ingest_document_command :: "ingest_command \<Rightarrow> ingest_command res" where
  "ingest_document_command cmd =
     (if ic_title cmd = [] \<or> ic_content cmd = [] \<or> ic_identity_key cmd = Some [] \<or> \<not> keys_whitelisted (ic_extra cmd)
      then Inl ValidationError else Inr cmd)"

record search_query =
  sq_text :: ustr
  sq_domain :: string
  sq_top_k :: int
  sq_document_ids :: "uuid list"
  sq_min_relevance :: rat
  sq_filters :: "(string \<times> string) list"

definition make_search_query :: "search_query \<Rightarrow> search_query res" where
  "make_search_query q =
     (if sq_text q = [] \<or> sq_top_k q < 1 \<or> 50 < sq_top_k q \<or> sq_min_relevance q < 0 \<or> 1 < sq_min_relevance q \<or>
         \<not> keys_whitelisted (sq_filters q)
      then Inl ValidationError else Inr q)"

subsection \<open>The gateway's surroundings\<close>

record rerank_result =
  rk_id :: string
  rk_score :: rat

record gateway_env =
  ge_uuid5 :: "ustr \<Rightarrow> uuid"
  ge_sha256 :: "ustr \<Rightarrow> string"
  ge_unicode :: unicode
  ge_put_object :: "string \<Rightarrow> string res"
  ge_embed :: "ustr list \<Rightarrow> rat list list res"
  ge_sqrt :: "rat \<Rightarrow> rat"
  ge_reranker :: "(ustr \<Rightarrow> (string \<times> ustr) list \<Rightarrow> int \<Rightarrow> rerank_result list res) option"
  ge_rerank_fetch_multiplier :: int

record 'c knowledge_plane =
  kp_db :: knowledge_db
  kp_index :: vector_index
  kp_objects :: "(string \<times> ustr) list"
  kp_platform :: "'c platform_db"

record ingested_document =
  id_document_id :: uuid
  id_chunk_count :: nat
  id_storage_key :: string

subsection \<open>Ingestion\<close>

definition replaces_version :: "uuid \<Rightarrow> uuid \<Rightarrow> uuid \<Rightarrow> document_row \<Rightarrow> bool" where
  "replaces_version tenant key doc d \<longleftrightarrow> dc_tenant_id d = tenant \<and> dc_doc_key d = Some key \<and> dc_is_current d \<and> dc_id d \<noteq> doc"

definition supersede_row :: "instant \<Rightarrow> uuid \<Rightarrow> document_row \<Rightarrow> document_row" where
  "supersede_row now doc d =
     d\<lparr>dc_is_current := False, dc_status := ''superseded'', dc_effective_to := Some now, dc_superseded_by := Some doc\<rparr>"

definition set_chunk_status :: "uuid \<Rightarrow> uuid list \<Rightarrow> string \<Rightarrow> chunk_row list \<Rightarrow> chunk_row list" where
  "set_chunk_status tenant docs status =
     map (\<lambda>c. if ck_tenant_id c = tenant \<and> ck_document_id c \<in> set docs then c\<lparr>ck_status := status\<rparr> else c)"

text \<open>A dictionary built from pairs: a repeated key keeps its place and takes the later value.\<close>

definition dict_of :: "(string \<times> string) list \<Rightarrow> (string \<times> string) list" where
  "dict_of pairs = foldl (\<lambda>d kv. AList.update (fst kv) (snd kv) d) [] pairs"

definition new_document :: "gateway_env \<Rightarrow> instant \<Rightarrow> ingest_command \<Rightarrow> access_context \<Rightarrow> uuid \<Rightarrow> uuid \<Rightarrow> string \<Rightarrow> document_row" where
  "new_document env now cmd ctx doc key uri =
     \<lparr>dc_id = doc, dc_tenant_id = ac_tenant_id ctx, dc_workspace_id = ac_workspace_id ctx, dc_title = ic_title cmd,
      dc_identity_key = ic_identity_key cmd, dc_domain = ic_domain cmd, dc_source_uri = uri,
      dc_classification = ic_classification cmd, dc_source_version = ic_source_version cmd,
      dc_index_version = Some INDEX_VERSION, dc_created_by = ac_principal_id ctx, dc_created_at = now,
      dc_doc_key = Some key, dc_status = ''active'', dc_is_current = True, dc_effective_from = Some now,
      dc_effective_to = None, dc_superseded_by = None, dc_deleted_at = None, dc_deleted_by = None,
      dc_scope = ic_scope cmd, dc_extra = dict_of (ic_extra cmd), dc_acl_principals = ic_acl_principals cmd\<rparr>"

text \<open>The \<^verbatim>\<open>set_\<close> of \<^verbatim>\<open>on_conflict_do_update\<close>: what an ingest of an existing id overwrites.\<close>

definition overwrite_document :: "document_row \<Rightarrow> document_row \<Rightarrow> document_row" where
  "overwrite_document excluded d =
     d\<lparr>dc_title := dc_title excluded, dc_index_version := dc_index_version excluded,
       dc_classification := dc_classification excluded, dc_scope := dc_scope excluded, dc_extra := dc_extra excluded,
       dc_status := ''active'', dc_is_current := True, dc_effective_to := None, dc_deleted_at := None, dc_deleted_by := None\<rparr>"

text \<open>
  The insert. A conflicting row of another tenant cannot be updated: the policy refuses the
  statement.
\<close>

definition upsert_document :: "uuid \<Rightarrow> document_row \<Rightarrow> document_row list \<Rightarrow> document_row list res" where
  "upsert_document tenant d docs =
     (case List.find (\<lambda>x. dc_id x = dc_id d) docs of
        None \<Rightarrow> Inr (docs @ [d])
      | Some x \<Rightarrow>
          if dc_tenant_id x \<noteq> tenant then Inl (OtherError ''ProgrammingError'')
          else Inr (map (\<lambda>y. if dc_id y = dc_id d then overwrite_document d y else y) docs))"

definition new_chunk :: "gateway_env \<Rightarrow> access_context \<Rightarrow> uuid \<Rightarrow> leaf_chunk \<Rightarrow> chunk_row" where
  "new_chunk env ctx doc leaf =
     \<lparr>ck_id = chunk_id_for (ge_uuid5 env) doc INDEX_VERSION (lf_seq leaf), ck_tenant_id = ac_tenant_id ctx,
      ck_workspace_id = ac_workspace_id ctx, ck_document_id = doc, ck_seq = lf_seq leaf, ck_content = lf_content leaf,
      ck_start_offset = lf_start_offset leaf, ck_end_offset = lf_end_offset leaf,
      ck_provenance_hash = ge_sha256 env (lf_content leaf), ck_section_path = lf_section_path leaf,
      ck_section_index = lf_section_index leaf, ck_status = ''active'', ck_deleted_at = None\<rparr>"

text \<open>
  The chunk set is replaced. The delete is refused while evidence cites one of the chunks
  (\<^verbatim>\<open>ON DELETE RESTRICT\<close>), the insert on a key that is taken.
\<close>

definition replace_chunks :: "uuid \<Rightarrow> uuid \<Rightarrow> chunk_row list \<Rightarrow> knowledge_db \<Rightarrow> knowledge_db res" where
  "replace_chunks tenant doc rows db =
     (let gone = filter (\<lambda>c. ck_tenant_id c = tenant \<and> ck_document_id c = doc) (kd_chunks db);
          kept = filter (\<lambda>c. \<not> (ck_tenant_id c = tenant \<and> ck_document_id c = doc)) (kd_chunks db)
      in if list_ex (\<lambda>c. list_ex (\<lambda>e. er_chunk_id (ev_ref e) = Some (ck_id c)) (kd_evidence db)) gone
         then Inl (OtherError ''IntegrityError'')
         else if distinct (map ck_id (kept @ rows)) \<and> distinct (map (\<lambda>c. (ck_document_id c, ck_seq c)) (kept @ rows))
         then Inr (db\<lparr>kd_chunks := kept @ rows\<rparr>) else Inl (OtherError ''IntegrityError''))"

definition ingest_transaction ::
  "uuid \<Rightarrow> instant \<Rightarrow> uuid \<Rightarrow> document_row \<Rightarrow> chunk_row list \<Rightarrow> knowledge_db \<Rightarrow> (uuid list \<times> knowledge_db) res" where
  "ingest_transaction tenant now key d rows db =
     (let superseded = map dc_id (filter (replaces_version tenant key (dc_id d)) (kd_documents db));
          docs = map (\<lambda>x. if replaces_version tenant key (dc_id d) x then supersede_row now (dc_id d) x else x) (kd_documents db);
          chunks = set_chunk_status tenant superseded ''superseded'' (kd_chunks db)
      in case upsert_document tenant d docs of
           Inl e \<Rightarrow> Inl e
         | Inr docs' \<Rightarrow>
             map_sum id (\<lambda>db'. (superseded, db'))
               (replace_chunks tenant (dc_id d) rows (db\<lparr>kd_documents := docs', kd_chunks := chunks\<rparr>)))"

definition indexed_chunk :: "gateway_env \<Rightarrow> ingest_command \<Rightarrow> access_context \<Rightarrow> uuid \<Rightarrow> leaf_chunk \<Rightarrow> rat list \<Rightarrow> indexable_chunk" where
  "indexed_chunk env cmd ctx doc leaf v =
     \<lparr>ix_chunk_id = chunk_id_for (ge_uuid5 env) doc INDEX_VERSION (lf_seq leaf), ix_document_id = doc,
      ix_tenant_id = ac_tenant_id ctx, ix_workspace_id = ac_workspace_id ctx, ix_domain = ic_domain cmd,
      ix_content = lf_content leaf, ix_classification = ic_classification cmd, ix_source_version = ic_source_version cmd,
      ix_index_version = INDEX_VERSION, ix_provenance_hash = ge_sha256 env (lf_content leaf),
      ix_acl_principals = ic_acl_principals cmd, ix_vector = v, ix_section_path = lf_section_path leaf,
      ix_seq = lf_seq leaf, ix_scope = ic_scope cmd, ix_extra_payload = ic_extra cmd\<rparr>"

text \<open>
  The vectors of the new version, after the old points are gone: a provider error, or a number of
  vectors that is not the number of leaves (\<^verbatim>\<open>zip(..., strict=True)\<close>), leaves the document with no points.
\<close>

definition index_leaves ::
  "gateway_env \<Rightarrow> ingest_command \<Rightarrow> access_context \<Rightarrow> uuid \<Rightarrow> leaf_chunk list \<Rightarrow> vector_index \<Rightarrow> exc option \<times> vector_index" where
  "index_leaves env cmd ctx doc leaves ix =
     (if leaves = [] then (None, ix)
      else case ge_embed env (map contextual_text leaves) of
             Inl e \<Rightarrow> (Some e, ix)
           | Inr vectors \<Rightarrow>
               if length vectors \<noteq> length leaves then (Some (ValueError ''zip() argument lengths differ''), ix)
               else (None, upsert ix (map (\<lambda>(leaf, v). indexed_chunk env cmd ctx doc leaf v) (zip leaves vectors))))"

definition storage_key :: "access_context \<Rightarrow> uuid \<Rightarrow> string" where
  "storage_key ctx doc = uuid_str (ac_tenant_id ctx) @ ''/'' @ uuid_str (ac_workspace_id ctx) @ ''/documents/'' @ uuid_str doc"

definition ingest_document_id :: "gateway_env \<Rightarrow> ingest_command \<Rightarrow> access_context \<Rightarrow> uuid" where
  "ingest_document_id env cmd ctx =
     document_id_for (ge_uuid5 env) (ac_tenant_id ctx) (ac_workspace_id ctx) (ic_domain cmd) (ic_title cmd)
       (ic_source_version cmd) (ic_scope cmd) (ic_identity_key cmd)"

definition ingest_doc_key :: "gateway_env \<Rightarrow> ingest_command \<Rightarrow> access_context \<Rightarrow> uuid" where
  "ingest_doc_key env cmd ctx =
     doc_key_for (ge_uuid5 env) (ac_tenant_id ctx) (ac_workspace_id ctx) (ic_domain cmd) (ic_title cmd) (ic_scope cmd) (ic_identity_key cmd)"

definition ingest_leaves :: "gateway_env \<Rightarrow> ingest_command \<Rightarrow> leaf_chunk list res" where
  "ingest_leaves env cmd =
     map_sum id cr_chunks (structure_aware_chunks (ge_unicode env) (ic_content cmd) MAX_CHUNK_CHARS CHUNK_OVERLAP_CHARS)"

definition ingest_document ::
  "gateway_env \<Rightarrow> instant \<Rightarrow> ingest_command \<Rightarrow> access_context \<Rightarrow> 'c knowledge_plane \<Rightarrow> ingested_document res \<times> 'c knowledge_plane" where
  "ingest_document env now cmd ctx st =
     (if ic_scope cmd = ''global'' \<and> GLOBAL_PUBLISH_SCOPE \<notin> ac_scopes ctx
      then (raise_dw (PermissionDeniedError ''publishing a global (cross-tenant) document requires the knowledge.publish_global scope''), st)
      else let doc = ingest_document_id env cmd ctx; skey = storage_key ctx doc in
        case ge_put_object env skey of
          Inl e \<Rightarrow> (Inl e, st)
        | Inr uri \<Rightarrow>
          (let st1 = st\<lparr>kp_objects := AList.update skey (ic_content cmd) (kp_objects st)\<rparr> in
           case ingest_leaves env cmd of
             Inl e \<Rightarrow> (Inl e, st1)
           | Inr leaves \<Rightarrow>
             (let key = ingest_doc_key env cmd ctx in
              case ingest_transaction (ac_tenant_id ctx) now key (new_document env now cmd ctx doc key uri)
                     (map (new_chunk env ctx doc) leaves) (kp_db st1) of
                Inl e \<Rightarrow> (Inl e, st1)
              | Inr (superseded, db) \<Rightarrow>
                (let ix = delete_document (foldl tombstone_document (kp_index st1) superseded) doc in
                 case index_leaves env cmd ctx doc leaves ix of
                   (Some e, ix') \<Rightarrow> (Inl e, st1\<lparr>kp_db := db, kp_index := ix'\<rparr>)
                 | (None, ix') \<Rightarrow>
                     (Inr \<lparr>id_document_id = doc, id_chunk_count = length leaves, id_storage_key = skey\<rparr>,
                      st1\<lparr>kp_db := db, kp_index := ix'\<rparr>)))))"


subsection \<open>Listing and reading\<close>

text \<open>\<^verbatim>\<open>sorted(context.roles)\<close> orders the role principals; every use of the list is a membership test.\<close>

definition context_principals :: "access_context \<Rightarrow> string list" where
  "context_principals ctx =
     [''user:'' @ uuid_str (ac_principal_id ctx), ''tenant:*''] @ map (\<lambda>r. ''role:'' @ r) (sorted_list_of_set (ac_roles ctx))"

definition build_trusted_filter :: "access_context \<Rightarrow> string \<Rightarrow> trusted_filter" where
  "build_trusted_filter ctx domain =
     \<lparr>tf_tenant_id = ac_tenant_id ctx, tf_workspace_id = ac_workspace_id ctx, tf_domain = domain,
      tf_allowed_classifications = classifications_for_clearance (ac_clearance ctx),
      tf_acl_principals = context_principals ctx\<rparr>"

text \<open>The \<^verbatim>\<open>WHERE\<close> both readers share, row-level security included.\<close>

definition document_visible :: "access_context \<Rightarrow> document_row \<Rightarrow> bool" where
  "document_visible ctx d \<longleftrightarrow>
     document_readable (ac_tenant_id ctx) d \<and> visible_from_workspace (ac_workspace_id ctx) d \<and> dc_status d = ''active'' \<and>
     dc_classification d \<in> set (classifications_for_clearance (ac_clearance ctx)) \<and>
     list_ex (\<lambda>p. p \<in> set (dc_acl_principals d)) (context_principals ctx)"

record document_info =
  di_document_id :: uuid
  di_title :: ustr
  di_domain :: string
  di_classification :: string
  di_source_version :: string
  di_index_version :: "string option"
  di_chunk_count :: nat
  di_created_at :: instant
  di_scope :: string
  di_extra :: "(string \<times> string) list"

definition document_info_of :: "knowledge_db \<Rightarrow> uuid \<Rightarrow> document_row \<Rightarrow> document_info" where
  "document_info_of db tenant d =
     \<lparr>di_document_id = dc_id d, di_title = dc_title d, di_domain = dc_domain d, di_classification = dc_classification d,
      di_source_version = dc_source_version d, di_index_version = dc_index_version d,
      di_chunk_count = length (filter (\<lambda>c. ck_tenant_id c = tenant \<and> ck_document_id c = dc_id d) (kd_chunks db)),
      di_created_at = dc_created_at d, di_scope = dc_scope d, di_extra = dc_extra d\<rparr>"

definition document_position :: "document_row \<Rightarrow> position" where
  "document_position d = (dc_created_at d, dc_id d)"

definition info_position :: "document_info \<Rightarrow> position" where
  "info_position i = (di_created_at i, di_document_id i)"

definition list_documents :: "text_codec \<Rightarrow> knowledge_db \<Rightarrow> access_context \<Rightarrow> string option \<Rightarrow> page_req \<Rightarrow> document_info page" where
  "list_documents tc db ctx domain req =
     build_page tc
       (map (document_info_of db (ac_tenant_id ctx))
          (take (fetch_limit req)
             (newest_first document_position
                (filter (\<lambda>d. document_visible ctx d \<and> after_position document_position (rq_after req) d \<and>
                             (case domain of None \<Rightarrow> True | Some only \<Rightarrow> dc_domain d = only)) (kd_documents db)))))
       req info_position"

record document_text =
  dt_document_id :: uuid
  dt_title :: ustr
  dt_text :: ustr
  dt_chunk_count :: nat
  dt_truncated :: bool

fun kept_contents :: "nat \<Rightarrow> nat \<Rightarrow> ustr list \<Rightarrow> ustr list" where
  "kept_contents max_chars used [] = []"
| "kept_contents max_chars used (c # cs) =
     (if max_chars < used + length c then [] else c # kept_contents max_chars (used + length c) cs)"

text \<open>\<^verbatim>\<open>sep.join(parts)\<close>\<close>

fun join_with :: "ustr \<Rightarrow> ustr list \<Rightarrow> ustr" where
  "join_with sep [] = []"
| "join_with sep [x] = x"
| "join_with sep (x # y # ys) = x @ sep @ join_with sep (y # ys)"

definition joined :: "uuid \<Rightarrow> ustr \<Rightarrow> ustr list \<Rightarrow> nat \<Rightarrow> document_text" where
  "joined doc title contents max_chars =
     (let kept = kept_contents max_chars 0 contents
      in \<lparr>dt_document_id = doc, dt_title = title, dt_text = join_with [10, 10] kept, dt_chunk_count = length kept,
          dt_truncated = (length kept < length contents)\<rparr>)"

definition active_chunks :: "knowledge_db \<Rightarrow> uuid \<Rightarrow> uuid \<Rightarrow> chunk_row list" where
  "active_chunks db tenant doc =
     sort_by (\<lambda>c. int (ck_seq c))
       (filter (\<lambda>c. ck_tenant_id c = tenant \<and> ck_document_id c = doc \<and> ck_status c = ''active'') (kd_chunks db))"

definition read_document :: "knowledge_db \<Rightarrow> uuid \<Rightarrow> access_context \<Rightarrow> nat \<Rightarrow> document_text option" where
  "read_document db doc ctx max_chars =
     (case List.find (\<lambda>d. dc_id d = doc \<and> document_visible ctx d) (kd_documents db) of
        None \<Rightarrow> None
      | Some d \<Rightarrow> Some (joined (dc_id d) (dc_title d) (map ck_content (active_chunks db (ac_tenant_id ctx) doc)) max_chars))"

subsection \<open>Deletion\<close>

definition delete_row :: "instant \<Rightarrow> uuid \<Rightarrow> document_row \<Rightarrow> document_row" where
  "delete_row now who d =
     d\<lparr>dc_status := ''deleted'', dc_is_current := False, dc_deleted_at := Some now, dc_deleted_by := Some who\<rparr>"

definition soft_delete_document :: "instant \<Rightarrow> uuid \<Rightarrow> access_context \<Rightarrow> 'c knowledge_plane \<Rightarrow> 'c knowledge_plane" where
  "soft_delete_document now doc ctx st =
     (let tenant = ac_tenant_id ctx; db = kp_db st;
          docs = map (\<lambda>d. if dc_tenant_id d = tenant \<and> dc_id d = doc then delete_row now (ac_principal_id ctx) d else d) (kd_documents db);
          chunks = map (\<lambda>c. if ck_tenant_id c = tenant \<and> ck_document_id c = doc
                            then c\<lparr>ck_status := ''deleted'', ck_deleted_at := Some now\<rparr> else c) (kd_chunks db)
      in st\<lparr>kp_db := db\<lparr>kd_documents := docs, kd_chunks := chunks\<rparr>, kp_index := tombstone_document (kp_index st) doc\<rparr>)"

subsection \<open>Retrieval\<close>

text \<open>\<^verbatim>\<open>_rerank_or_none\<close>: an infrastructure error keeps the vector order, any other error is the search's.\<close>

definition rerank_or_none ::
  "(ustr \<Rightarrow> (string \<times> ustr) list \<Rightarrow> int \<Rightarrow> rerank_result list res) \<Rightarrow> search_query \<Rightarrow> vector_hit list \<Rightarrow> rerank_result list option res" where
  "rerank_or_none rerank q hits =
     (case rerank (sq_text q) (map (\<lambda>h. (uuid_str (vh_chunk_id h), vh_content h)) hits) (sq_top_k q) of
        Inr ranked \<Rightarrow> Inr (Some ranked)
      | Inl (DW e) \<Rightarrow> if is_infrastructure e then Inr None else Inl (DW e)
      | Inl e \<Rightarrow> Inl e)"

text \<open>\<^verbatim>\<open>{str(h.chunk_id): h for h in hits}\<close> and \<^verbatim>\<open>{r.id: r.score for r in ranked}\<close>: the last entry of a key.\<close>

definition by_id :: "vector_hit list \<Rightarrow> string \<Rightarrow> vector_hit option" where
  "by_id hits = map_of (rev (map (\<lambda>h. (uuid_str (vh_chunk_id h), h)) hits))"

definition score_of :: "rerank_result list \<Rightarrow> vector_hit \<Rightarrow> rat" where
  "score_of ranked h =
     (case map_of (rev (map (\<lambda>r. (rk_id r, rk_score r)) ranked)) (uuid_str (vh_chunk_id h)) of None \<Rightarrow> vh_score h | Some s \<Rightarrow> s)"

record evidence_chunk =
  ek_content :: ustr
  ek_evidence :: evidence_ref

definition evidence_of :: "uuid \<Rightarrow> rat \<Rightarrow> vector_hit \<Rightarrow> evidence_chunk" where
  "evidence_of fresh score h =
     \<lparr>ek_content = vh_content h,
      ek_evidence =
        \<lparr>er_evidence_id = fresh, er_source_document_id = vh_document_id h, er_source_version = vh_source_version h,
         er_chunk_id = Some (vh_chunk_id h), er_page = None, er_start_offset = None, er_end_offset = None,
         er_quote = Some (take 280 (vh_content h)), er_relevance_score = max 0 (min 1 score),
         er_classification = vh_classification h, er_provenance_hash = vh_provenance_hash h\<rparr>\<rparr>"

fun evidence_pack :: "(nat \<Rightarrow> uuid) \<Rightarrow> nat \<Rightarrow> (vector_hit \<Rightarrow> rat) \<Rightarrow> rat \<Rightarrow> vector_hit list \<Rightarrow> evidence_chunk list" where
  "evidence_pack fresh n score least [] = []"
| "evidence_pack fresh n score least (h # hs) =
     (if score h < least then evidence_pack fresh n score least hs
      else evidence_of (fresh n) (score h) h # evidence_pack fresh (Suc n) score least hs)"

text \<open>\<open>fresh\<close> is the id generator, read once per evidence; only the first vector of the embedding is used.\<close>

definition search :: "gateway_env \<Rightarrow> (nat \<Rightarrow> uuid) \<Rightarrow> search_query \<Rightarrow> access_context \<Rightarrow> vector_index \<Rightarrow> evidence_chunk list res" where
  "search env fresh q ctx ix =
     (case ge_embed env [sq_text q] of
        Inl e \<Rightarrow> Inl e
      | Inr [] \<Rightarrow> Inl (OtherError ''IndexError'')
      | Inr (v # _) \<Rightarrow>
        (let fetch_k = (case ge_reranker env of None \<Rightarrow> sq_top_k q | Some _ \<Rightarrow> sq_top_k q * ge_rerank_fetch_multiplier env);
             hits = index_search (ge_sqrt env) v (build_trusted_filter ctx (sq_domain q)) (nat fetch_k) (sq_filters q) (sq_document_ids q) ix
         in case (case ge_reranker env of Some rerank \<Rightarrow> if hits \<noteq> [] then rerank_or_none rerank q hits else Inr None | None \<Rightarrow> Inr None) of
              Inl e \<Rightarrow> Inl e
            | Inr None \<Rightarrow> Inr (evidence_pack fresh 0 (score_of []) (sq_min_relevance q) (take (nat (sq_top_k q)) hits))
            | Inr (Some ranked) \<Rightarrow>
                Inr (evidence_pack fresh 0 (score_of ranked) (sq_min_relevance q)
                       (List.map_filter (\<lambda>r. by_id hits (rk_id r)) ranked))))"

subsection \<open>Retention\<close>

definition KNOWLEDGE_LANE :: string where "KNOWLEDGE_LANE = ''retention_knowledge''"
definition PURGED_ACTION :: string where "PURGED_ACTION = ''knowledge.document.purged''"

definition expired_document :: "instant \<Rightarrow> document_row \<Rightarrow> bool" where
  "expired_document cutoff d \<longleftrightarrow>
     dc_status d = ''deleted'' \<and> (case dc_deleted_at d of None \<Rightarrow> False | Some t \<Rightarrow> t < cutoff)"

definition document_cited :: "knowledge_db \<Rightarrow> document_row \<Rightarrow> bool" where
  "document_cited db d \<longleftrightarrow> list_ex (\<lambda>e. er_source_document_id (ev_ref e) = dc_id d) (kd_evidence db)"

definition retention_candidates :: "retention_policy \<Rightarrow> instant \<Rightarrow> knowledge_db \<Rightarrow> uuid list \<times> nat" where
  "retention_candidates p cutoff db =
     (map dc_id (take (nat (rp_batch_limit p))
        (filter (\<lambda>d. expired_document cutoff d \<and> \<not> document_cited db d) (kd_documents db))),
      length (filter (\<lambda>d. expired_document cutoff d \<and> document_cited db d) (kd_documents db)))"

definition purge_audit :: "(string \<Rightarrow> uuid) \<Rightarrow> (uuid \<Rightarrow> uuid) \<Rightarrow> retention_policy \<Rightarrow> instant \<Rightarrow> document_row \<Rightarrow> audit_event res" where
  "purge_audit uuid5 fresh p now d =
     lane_audit_event uuid5 KNOWLEDGE_LANE (fresh (dc_id d)) (dc_tenant_id d) (dc_workspace_id d) PURGED_ACTION ''knowledge_document''
       (JUuid (dc_id d)) now (Some [(''policy_version'', JStr (rp_policy_version p))]) None"

text \<open>
  \<^verbatim>\<open>_delete\<close>: the citation test again, the chunks with their document (\<^verbatim>\<open>ON DELETE CASCADE\<close>; a chunk that
  evidence still cites refuses the statement), one audit event per document in its own tenant.
\<close>

definition delete_documents ::
  "(string \<Rightarrow> uuid) \<Rightarrow> (uuid \<Rightarrow> uuid) \<Rightarrow> retention_policy \<Rightarrow> instant \<Rightarrow> uuid list \<Rightarrow> 'c knowledge_plane \<Rightarrow> (nat \<times> 'c knowledge_plane) res" where
  "delete_documents uuid5 fresh p now doomed st =
     (let db = kp_db st;
          removed = filter (\<lambda>d. dc_id d \<in> set doomed \<and> \<not> document_cited db d) (kd_documents db);
          gone = (\<lambda>c. ck_document_id c \<in> dc_id ` set removed)
      in if list_ex (\<lambda>e. list_ex (\<lambda>c. gone c \<and> er_chunk_id (ev_ref e) = Some (ck_id c)) (kd_chunks db)) (kd_evidence db)
         then Inl (OtherError ''IntegrityError'')
         else case all_ok (map (purge_audit uuid5 fresh p now) removed) of
           Inl e \<Rightarrow> Inl e
         | Inr events \<Rightarrow>
             Inr (length removed,
                  st\<lparr>kp_db := db\<lparr>kd_documents := filter (\<lambda>d. \<not> (dc_id d \<in> set doomed \<and> \<not> document_cited db d)) (kd_documents db),
                                 kd_chunks := filter (\<lambda>c. \<not> gone c) (kd_chunks db)\<rparr>,
                     kp_platform := foldl audit_append (kp_platform st) events\<rparr>))"

text \<open>
  \<^verbatim>\<open>prune\<close>. Between the read of the candidates and the delete other transactions may run: \<open>meanwhile\<close>
  is what they make of the state.
\<close>

definition knowledge_prune ::
  "(string \<Rightarrow> uuid) \<Rightarrow> (uuid \<Rightarrow> uuid) \<Rightarrow> retention_policy \<Rightarrow> instant \<Rightarrow> ('c knowledge_plane \<Rightarrow> 'c knowledge_plane) \<Rightarrow>
   'c knowledge_plane \<Rightarrow> exc option \<times> 'c knowledge_plane" where
  "knowledge_prune uuid5 fresh p now meanwhile st =
     (let cutoff = now - days (kr_deleted_grace_days (rp_knowledge p));
          (doomed, held) = retention_candidates p cutoff (kp_db st);
          st1 = meanwhile (st\<lparr>kp_index := foldl delete_document (kp_index st) doomed\<rparr>)
      in if doomed = [] then (None, st1)
         else case delete_documents uuid5 fresh p now doomed st1 of
                Inl e \<Rightarrow> (Some e, st1)
              | Inr (_, st2) \<Rightarrow> (None, st2))"

end
