(* ===== verification/KnowledgeFacts.thy ===== *)
theory KnowledgeFacts
  imports Knowledge
begin

text \<open>
  What the knowledge gateway keeps: identities can be read back from their keys, every reachable
  state is consistent across the schema and the vector index, ingestion and deletion refine the
  update of an abstract library, and retrieval answers only from live, readable documents.
\<close>

subsection \<open>Identities are injective\<close>

lemma hex_digit_inj: "hex_digit a = hex_digit b \<longleftrightarrow> a mod 16 = b mod 16"
proof -
  have d: "distinct ''0123456789abcdef''" by simp
  have "a mod 16 < length ''0123456789abcdef''" "b mod 16 < length ''0123456789abcdef''" by simp_all
  then show ?thesis unfolding hex_digit_def using nth_eq_iff_index_eq [OF d] by blast
qed

lemma digits_mod:
  fixes u v :: nat
  shows "(\<forall>i < n. u div 16 ^ i mod 16 = v div 16 ^ i mod 16) \<Longrightarrow> u mod 16 ^ n = v mod 16 ^ n"
proof (induction n)
  case (Suc n)
  then have "u mod 16 ^ n = v mod 16 ^ n" "u div 16 ^ n mod 16 = v div 16 ^ n mod 16" by auto
  then show ?case using mod_mult2_eq [of u "16 ^ n" 16] mod_mult2_eq [of v "16 ^ n" 16] by (simp add: mult.commute)
qed simp

lemma uuid_hex_inj:
  assumes "uuid_hex u = uuid_hex v" "u < 2 ^ 128" "v < 2 ^ 128"
  shows "u = v"
proof -
  have "u div 16 ^ i mod 16 = v div 16 ^ i mod 16" if "i < 32" for i
  proof -
    have "uuid_hex u ! (31 - i) = uuid_hex v ! (31 - i)" using assms(1) by simp
    moreover have "[0..<32] ! (31 - i) = 31 - i" using that by (simp del: upt_conv_Cons upt_rec_numeral)
    ultimately show ?thesis using that by (simp add: uuid_hex_def hex_digit_inj del: upt_rec_numeral)
  qed
  then have "u mod 16 ^ 32 = v mod 16 ^ 32" by (intro digits_mod) auto
  then show ?thesis using assms(2,3) by simp
qed

lemma length_uuid_hex [simp]: "length (uuid_hex u) = 32"
  by (simp add: uuid_hex_def)

lemma uuid_str_inj:
  assumes "uuid_str u = uuid_str v" "u < 2 ^ 128" "v < 2 ^ 128"
  shows "u = v"
proof -
  define h where "h = uuid_hex u"
  define k where "k = uuid_hex v"
  have len: "length h = 32" "length k = 32" by (simp_all add: h_def k_def)
  have "take 8 h = take 8 k \<and> take 4 (drop 8 h) = take 4 (drop 8 k) \<and> take 4 (drop 12 h) = take 4 (drop 12 k) \<and>
      take 4 (drop 16 h) = take 4 (drop 16 k) \<and> drop 20 h = drop 20 k"
    using assms(1) len by (simp add: uuid_str_def Let_def h_def [symmetric] k_def [symmetric])
  then have "take 8 h @ take 4 (drop 8 h) @ take 4 (drop 12 h) @ take 4 (drop 16 h) @ drop 20 h =
      take 8 k @ take 4 (drop 8 k) @ take 4 (drop 12 k) @ take 4 (drop 16 k) @ drop 20 k" by simp
  moreover have "take 8 x @ take 4 (drop 8 x) @ take 4 (drop 12 x) @ take 4 (drop 16 x) @ drop 20 x = x" for x :: string
  proof -
    have step: "take 4 (drop n x) @ drop (n + 4) x = drop n x" for n
      using append_take_drop_id [of 4 "drop n x"] by (simp add: add.commute)
    show ?thesis using step [of 8] step [of 12] step [of 16] by simp
  qed
  ultimately have "h = k" by simp
  then show ?thesis using uuid_hex_inj assms(2,3) by (simp add: h_def k_def)
qed

text \<open>A key is a list of fields joined by colons; fields without colons can be read back.\<close>

lemma split_at:
  assumes "c \<notin> set a" "c \<notin> set b" "a @ c # r = b @ c # r'"
  shows "a = b \<and> r = r'"
  using assms by (induction a arbitrary: b) (auto simp: Cons_eq_append_conv append_eq_Cons_conv)

lemma join_with_inj:
  assumes "fs \<noteq> []" "gs \<noteq> []" "\<forall>f \<in> set fs \<union> set gs. c \<notin> set f" "join_with [c] fs = join_with [c] gs"
  shows "fs = gs"
  using assms
proof (induction fs arbitrary: gs)
  case (Cons f fs)
  obtain g gs' where gs: "gs = g # gs'" using Cons.prems(2) by (cases gs) auto
  have eq: "join_with [c] (x # xs) = (if xs = [] then x else x @ c # join_with [c] xs)" for x xs by (cases xs) auto
  have free: "c \<notin> set f" "c \<notin> set g" using Cons.prems(3) gs by auto
  show ?case
  proof (cases "fs = [] \<or> gs' = []")
    case True
    then show ?thesis using Cons.prems(4) free unfolding gs eq by (auto split: if_splits)
  next
    case False
    then have "f @ c # join_with [c] fs = g @ c # join_with [c] gs'" using Cons.prems(4) unfolding gs eq by simp
    then have "f = g" "join_with [c] fs = join_with [c] gs'" using split_at [OF free] by auto
    moreover have "fs = gs'" using Cons.IH [of gs'] False Cons.prems(3) gs calculation(2) by auto
    ultimately show ?thesis using gs by simp
  qed
qed simp


definition clean_identity :: "ingest_command \<Rightarrow> access_context \<Rightarrow> bool" where
  "clean_identity cmd ctx \<longleftrightarrow>
     CHR '':'' \<notin> set (ic_domain cmd) \<and> CHR '':'' \<notin> set (ic_source_version cmd) \<and> CHR '':'' \<notin> set (ic_scope cmd) \<and>
     58 \<notin> set (identity_name (ic_title cmd) (ic_identity_key cmd)) \<and> ac_tenant_id ctx < 2 ^ 128 \<and> ac_workspace_id ctx < 2 ^ 128"

definition key_fields :: "ingest_command \<Rightarrow> access_context \<Rightarrow> ustr list" where
  "key_fields cmd ctx =
     (let name = identity_name (ic_title cmd) (ic_identity_key cmd)
      in if ic_scope cmd = ''global'' then [ulit ''doc'', ulit ''global'', ulit (ic_domain cmd), name, ulit (ic_source_version cmd)]
         else [ulit ''doc'', ulit (ic_scope cmd), ulit (uuid_str (ac_tenant_id ctx)), ulit (uuid_str (ac_workspace_id ctx)),
               ulit (ic_domain cmd), name, ulit (ic_source_version cmd)])"

lemma ulit_append [simp]: "ulit (a @ b) = ulit a @ ulit b"
  by (simp add: ulit_def)

lemma ulit_Cons: "ulit (c # cs) = of_char c # ulit cs"
  by (simp add: ulit_def)

lemma ulit_Nil: "ulit [] = []"
  by (simp add: ulit_def)

lemma ulit_inj [simp]: "ulit a = ulit b \<longleftrightarrow> a = b"
proof -
  have "inj (of_char :: char \<Rightarrow> nat)" by (rule injI) simp
  then show ?thesis unfolding ulit_def by (rule inj_map_eq_map)
qed

lemma colon_ulit: "58 \<in> set (ulit s) \<longleftrightarrow> CHR '':'' \<in> set s"
proof -
  have "(58::nat) = of_char (CHR '':'')" by simp
  then show ?thesis unfolding ulit_def by (auto simp del: of_char_Char)
qed

lemma uuid_str_no_colon: "CHR '':'' \<notin> set (uuid_str u)"
proof -
  have "hex_digit n \<in> set ''0123456789abcdef''" for n unfolding hex_digit_def by (rule nth_mem) simp
  moreover have "CHR '':'' \<notin> set ''0123456789abcdef''" by simp
  ultimately have "CHR '':'' \<noteq> hex_digit n" for n by metis
  then have "CHR '':'' \<notin> set (uuid_hex u)" unfolding uuid_hex_def set_map by blast
  then show ?thesis unfolding uuid_str_def Let_def by (auto dest: in_set_takeD in_set_dropD)
qed

lemma ingest_document_id_fields: "ingest_document_id env cmd ctx = ge_uuid5 env (join_with [58] (key_fields cmd ctx))"
  by (simp add: ingest_document_id_def document_id_for_def document_key_def key_fields_def Let_def ulit_Cons ulit_Nil)

lemma same_document_same_identity:
  assumes "inj (ge_uuid5 env)" "clean_identity cmd ctx" "clean_identity cmd' ctx'"
    "ingest_document_id env cmd ctx = ingest_document_id env cmd' ctx'"
  shows "ingest_doc_key env cmd ctx = ingest_doc_key env cmd' ctx' \<and> ic_scope cmd = ic_scope cmd' \<and>
    ic_domain cmd = ic_domain cmd' \<and> ic_source_version cmd = ic_source_version cmd' \<and>
    (ic_scope cmd \<noteq> ''global'' \<longrightarrow> ac_tenant_id ctx = ac_tenant_id ctx' \<and> ac_workspace_id ctx = ac_workspace_id ctx')"
proof -
  have "join_with [58] (key_fields cmd ctx) = join_with [58] (key_fields cmd' ctx')"
    using assms(1,4) by (simp add: ingest_document_id_fields inj_eq)
  moreover have "\<forall>f \<in> set (key_fields c x). 58 \<notin> set f" if "clean_identity c x" for c x
    using that uuid_str_no_colon by (auto simp: key_fields_def clean_identity_def Let_def colon_ulit)
  ultimately have eq: "key_fields cmd ctx = key_fields cmd' ctx'"
    using assms(2,3) by (intro join_with_inj [where c = 58]) (auto simp: key_fields_def Let_def)
  have ids: "ac_tenant_id ctx < 2 ^ 128" "ac_workspace_id ctx < 2 ^ 128" "ac_tenant_id ctx' < 2 ^ 128" "ac_workspace_id ctx' < 2 ^ 128"
    using assms(2,3) by (simp_all add: clean_identity_def)
  show ?thesis
  proof (cases "ic_scope cmd = ''global'' \<longleftrightarrow> ic_scope cmd' = ''global''")
    case True
    then show ?thesis using eq ids uuid_str_inj
      by (auto simp: key_fields_def Let_def ingest_doc_key_def doc_key_for_def)
  next
    case False
    then show ?thesis using eq by (auto simp: key_fields_def Let_def)
  qed
qed


subsection \<open>The ingest transaction\<close>

lemma find_eq_None: "List.find P xs = None \<longleftrightarrow> (\<forall>x \<in> set xs. \<not> P x)"
  by (induction xs) auto

lemma upsert_documentE:
  assumes "upsert_document tenant d docs = Inr docs'"
  obtains (fresh) "dc_id d \<notin> dc_id ` set docs" "docs' = docs @ [d]"
  | (again) x where "x \<in> set docs" "dc_id x = dc_id d" "dc_tenant_id x = tenant"
      "docs' = map (\<lambda>y. if dc_id y = dc_id d then overwrite_document d y else y) docs"
proof (cases "List.find (\<lambda>x. dc_id x = dc_id d) docs")
  case None
  then have "dc_id d \<notin> dc_id ` set docs" by (auto simp: find_eq_None)
  then show ?thesis using fresh None assms by (simp add: upsert_document_def)
next
  case (Some x)
  then have "x \<in> set docs" "dc_id x = dc_id d" by (auto dest: find_SomeD)
  then show ?thesis using again [of x] Some assms by (simp add: upsert_document_def split: if_splits)
qed

lemma dc_id_updates [simp]:
  "dc_id (overwrite_document d y) = dc_id y" "dc_id (supersede_row now doc y) = dc_id y" "dc_id (delete_row now who y) = dc_id y"
  "dc_tenant_id (overwrite_document d y) = dc_tenant_id y" "dc_tenant_id (supersede_row now doc y) = dc_tenant_id y"
  "dc_tenant_id (delete_row now who y) = dc_tenant_id y"
  "dc_doc_key (overwrite_document d y) = dc_doc_key y" "dc_doc_key (supersede_row now doc y) = dc_doc_key y"
  "dc_doc_key (delete_row now who y) = dc_doc_key y"
  by (simp_all add: overwrite_document_def supersede_row_def delete_row_def)

lemma not_replaces_self [simp]: "\<not> replaces_version tenant key (dc_id x) x"
  by (simp add: replaces_version_def)

definition retire :: "uuid \<Rightarrow> uuid \<Rightarrow> instant \<Rightarrow> uuid \<Rightarrow> document_row \<Rightarrow> document_row" where
  "retire tenant key now doc x = (if replaces_version tenant key doc x then supersede_row now doc x else x)"

lemma retire_simps [simp]:
  "dc_id (retire tenant key now doc x) = dc_id x" "dc_tenant_id (retire tenant key now doc x) = dc_tenant_id x"
  "dc_doc_key (retire tenant key now doc x) = dc_doc_key x"
  "dc_id x = doc \<Longrightarrow> retire tenant key now doc x = x"
  by (auto simp: retire_def)

lemma retire_current: "dc_is_current (retire tenant key now doc x) \<Longrightarrow> retire tenant key now doc x = x"
  by (cases "replaces_version tenant key doc x") (simp_all add: retire_def supersede_row_def)

text \<open>The rows after a committed ingest: the document itself, and every other one, retired if it was current.\<close>

lemma ingest_transaction_docs:
  assumes "ingest_transaction tenant now key d rows db = Inr (superseded, db')" "distinct (map dc_id (kd_documents db))"
  shows "distinct (map dc_id (kd_documents db'))"
    "x \<in> set (kd_documents db) \<Longrightarrow> dc_id x \<noteq> dc_id d \<Longrightarrow> retire tenant key now (dc_id d) x \<in> set (kd_documents db')"
    "y \<in> set (kd_documents db') \<Longrightarrow> dc_id y \<noteq> dc_id d \<Longrightarrow> \<exists>x \<in> set (kd_documents db). y = retire tenant key now (dc_id d) x"
    "\<exists>y \<in> set (kd_documents db'). dc_id y = dc_id d \<and>
       (y = d \<and> dc_id d \<notin> dc_id ` set (kd_documents db) \<or>
        (\<exists>x \<in> set (kd_documents db). dc_id x = dc_id d \<and> dc_tenant_id x = tenant \<and> y = overwrite_document d x))"
    "kd_evidence db' = kd_evidence db" "superseded = map dc_id (filter (replaces_version tenant key (dc_id d)) (kd_documents db))"
    "kd_chunks db' = filter (\<lambda>c. \<not> (ck_tenant_id c = tenant \<and> ck_document_id c = dc_id d))
       (set_chunk_status tenant superseded ''superseded'' (kd_chunks db)) @ rows"
    "distinct (map ck_id (kd_chunks db'))" "distinct (map (\<lambda>c. (ck_document_id c, ck_seq c)) (kd_chunks db'))"
proof -
  let ?docs = "map (retire tenant key now (dc_id d)) (kd_documents db)"
  have retire: "map (\<lambda>x. if replaces_version tenant key (dc_id d) x then supersede_row now (dc_id d) x else x) (kd_documents db) = ?docs"
    by (simp add: retire_def)
  obtain docs' where up: "upsert_document tenant d ?docs = Inr docs'"
    and rep: "replace_chunks tenant (dc_id d) rows (db\<lparr>kd_documents := docs',
        kd_chunks := set_chunk_status tenant superseded ''superseded'' (kd_chunks db)\<rparr>) = Inr db'"
    and sup: "superseded = map dc_id (filter (replaces_version tenant key (dc_id d)) (kd_documents db))"
    using assms(1) unfolding ingest_transaction_def Let_def retire by (auto split: sum.splits simp: map_sum_def)
  have db': "kd_documents db' = docs'" "kd_evidence db' = kd_evidence db"
    "kd_chunks db' = filter (\<lambda>c. \<not> (ck_tenant_id c = tenant \<and> ck_document_id c = dc_id d))
       (set_chunk_status tenant superseded ''superseded'' (kd_chunks db)) @ rows"
    "distinct (map ck_id (kd_chunks db'))" "distinct (map (\<lambda>c. (ck_document_id c, ck_seq c)) (kd_chunks db'))"
    using rep by (auto simp: replace_chunks_def Let_def split: if_splits)
  have ids: "map dc_id ?docs = map dc_id (kd_documents db)" by simp
  have facts: "distinct (map dc_id docs') \<and>
      (\<forall>x \<in> set (kd_documents db). dc_id x \<noteq> dc_id d \<longrightarrow> retire tenant key now (dc_id d) x \<in> set docs') \<and>
      (\<forall>y \<in> set docs'. dc_id y \<noteq> dc_id d \<longrightarrow> (\<exists>x \<in> set (kd_documents db). y = retire tenant key now (dc_id d) x)) \<and>
      (\<exists>y \<in> set docs'. dc_id y = dc_id d \<and>
       (y = d \<and> dc_id d \<notin> dc_id ` set (kd_documents db) \<or>
        (\<exists>x \<in> set (kd_documents db). dc_id x = dc_id d \<and> dc_tenant_id x = tenant \<and> y = overwrite_document d x)))"
    using up
  proof (cases rule: upsert_documentE)
    case fresh
    then have new: "dc_id d \<notin> dc_id ` set (kd_documents db)" by (simp add: image_image)
    then show ?thesis using assms(2) fresh(2) by (auto simp: comp_def)
  next
    case (again x)
    from again(1) obtain z where "z \<in> set (kd_documents db)" "x = retire tenant key now (dc_id d) z" by auto
    then have z: "z \<in> set (kd_documents db)" "dc_id z = dc_id d" "dc_tenant_id z = tenant" using again(2,3) by simp_all
    have ids': "map dc_id docs' = map dc_id (kd_documents db)" unfolding again(4) by auto
    have z': "overwrite_document d z \<in> set docs'" using z by (auto simp: again(4) image_iff intro!: bexI [of _ z])
    have others: "\<forall>x \<in> set (kd_documents db). dc_id x \<noteq> dc_id d \<longrightarrow> retire tenant key now (dc_id d) x \<in> set docs'"
      "\<forall>y \<in> set docs'. dc_id y \<noteq> dc_id d \<longrightarrow> (\<exists>x \<in> set (kd_documents db). y = retire tenant key now (dc_id d) x)"
      unfolding again(4) by (auto split: if_splits)
    show ?thesis
      by (intro conjI bexI [of _ "overwrite_document d z"] disjI2 bexI [of _ z]) (use assms(2) z z' ids' others in auto)
  qed
  show "distinct (map dc_id (kd_documents db'))"
    "x \<in> set (kd_documents db) \<Longrightarrow> dc_id x \<noteq> dc_id d \<Longrightarrow> retire tenant key now (dc_id d) x \<in> set (kd_documents db')"
    "y \<in> set (kd_documents db') \<Longrightarrow> dc_id y \<noteq> dc_id d \<Longrightarrow> \<exists>x \<in> set (kd_documents db). y = retire tenant key now (dc_id d) x"
    "\<exists>y \<in> set (kd_documents db'). dc_id y = dc_id d \<and>
       (y = d \<and> dc_id d \<notin> dc_id ` set (kd_documents db) \<or>
        (\<exists>x \<in> set (kd_documents db). dc_id x = dc_id d \<and> dc_tenant_id x = tenant \<and> y = overwrite_document d x))"
    using facts unfolding db'(1) by blast+
  show "kd_evidence db' = kd_evidence db" "superseded = map dc_id (filter (replaces_version tenant key (dc_id d)) (kd_documents db))"
    "kd_chunks db' = filter (\<lambda>c. \<not> (ck_tenant_id c = tenant \<and> ck_document_id c = dc_id d))
       (set_chunk_status tenant superseded ''superseded'' (kd_chunks db)) @ rows"
    "distinct (map ck_id (kd_chunks db'))" "distinct (map (\<lambda>c. (ck_document_id c, ck_seq c)) (kd_chunks db'))"
    by (fact db' sup)+
qed


lemma ingest_document_cases:
  assumes "ingest_document env now cmd ctx st = (r, st')"
  obtains (refused) e where "r = Inl e" "kp_db st' = kp_db st" "kp_index st' = kp_index st"
  | (committed) uri leaves superseded cs where "ingest_leaves env cmd = Inr leaves"
      "ingest_transaction (ac_tenant_id ctx) now (ingest_doc_key env cmd ctx)
         (new_document env now cmd ctx (ingest_document_id env cmd ctx) (ingest_doc_key env cmd ctx) uri)
         (map (new_chunk env ctx (ingest_document_id env cmd ctx)) leaves) (kp_db st) = Inr (superseded, kp_db st')"
      "kp_index st' = upsert (delete_document (foldl tombstone_document (kp_index st) superseded) (ingest_document_id env cmd ctx)) cs"
      "(\<exists>e. r = Inl e \<and> cs = []) \<or>
       (\<exists>vectors. length vectors = length leaves \<and>
          cs = map (\<lambda>(leaf, v). indexed_chunk env cmd ctx (ingest_document_id env cmd ctx) leaf v) (zip leaves vectors) \<and>
          r = Inr \<lparr>id_document_id = ingest_document_id env cmd ctx, id_chunk_count = length leaves,
                   id_storage_key = storage_key ctx (ingest_document_id env cmd ctx)\<rparr>)"
      "ic_scope cmd = ''global'' \<longrightarrow> GLOBAL_PUBLISH_SCOPE \<in> ac_scopes ctx"
      "kp_platform st' = kp_platform st"
proof -
  let ?doc = "ingest_document_id env cmd ctx" and ?key = "ingest_doc_key env cmd ctx"
  consider (early) "\<exists>e. r = Inl e \<and> kp_db st' = kp_db st \<and> kp_index st' = kp_index st"
    | (late) uri leaves superseded db where "ingest_leaves env cmd = Inr leaves"
      "ingest_transaction (ac_tenant_id ctx) now ?key (new_document env now cmd ctx ?doc ?key uri) (map (new_chunk env ctx ?doc) leaves) (kp_db st) =
         Inr (superseded, db)" "ic_scope cmd = ''global'' \<longrightarrow> GLOBAL_PUBLISH_SCOPE \<in> ac_scopes ctx"
      "(case index_leaves env cmd ctx ?doc leaves (delete_document (foldl tombstone_document (kp_index st) superseded) ?doc) of
         (Some e, ix') \<Rightarrow> r = Inl e \<and> kp_index st' = ix'
       | (None, ix') \<Rightarrow> r = Inr \<lparr>id_document_id = ?doc, id_chunk_count = length leaves, id_storage_key = storage_key ctx ?doc\<rparr> \<and>
           kp_index st' = ix')" "kp_db st' = db" "kp_platform st' = kp_platform st"
    using assms by (auto simp: ingest_document_def Let_def split: if_splits sum.splits prod.splits option.splits)
  then show ?thesis
  proof cases
    case early then show ?thesis using refused by blast
  next
    case late
    define ix where "ix = delete_document (foldl tombstone_document (kp_index st) superseded) ?doc"
    have nil: "upsert ix [] = ix" by (simp add: upsert_def)
    have "(\<exists>e. r = Inl e \<and> kp_index st' = upsert ix []) \<or>
       (\<exists>vectors. length vectors = length leaves \<and>
          kp_index st' = upsert ix (map (\<lambda>(leaf, v). indexed_chunk env cmd ctx ?doc leaf v) (zip leaves vectors)) \<and>
          r = Inr \<lparr>id_document_id = ?doc, id_chunk_count = length leaves, id_storage_key = storage_key ctx ?doc\<rparr>)"
      using late(4) nil unfolding ix_def [symmetric] index_leaves_def
      by (auto split: if_splits sum.splits prod.splits option.splits)
    then obtain cs where cs: "kp_index st' = upsert ix cs" "(\<exists>e. r = Inl e \<and> cs = []) \<or>
       (\<exists>vectors. length vectors = length leaves \<and> cs = map (\<lambda>(leaf, v). indexed_chunk env cmd ctx ?doc leaf v) (zip leaves vectors) \<and>
          r = Inr \<lparr>id_document_id = ?doc, id_chunk_count = length leaves, id_storage_key = storage_key ctx ?doc\<rparr>)" by blast
    show ?thesis by (rule committed [OF late(1) late(2) [folded late(5)] cs(1) [unfolded ix_def] cs(2) late(3) late(6)])
  qed
qed

subsection \<open>Consistency\<close>

definition origin :: "gateway_env \<Rightarrow> document_row \<Rightarrow> bool" where
  "origin env d \<longleftrightarrow>
     (\<exists>cmd ctx. clean_identity cmd ctx \<and> dc_id d = ingest_document_id env cmd ctx \<and> dc_doc_key d = Some (ingest_doc_key env cmd ctx) \<and>
        dc_tenant_id d = ac_tenant_id ctx \<and> dc_workspace_id d = ac_workspace_id ctx \<and> dc_scope d = ic_scope cmd \<and>
        dc_domain d = ic_domain cmd \<and> dc_source_version d = ic_source_version cmd)"

definition documents_ok :: "gateway_env \<Rightarrow> knowledge_db \<Rightarrow> bool" where
  "documents_ok env db \<longleftrightarrow>
     distinct (map dc_id (kd_documents db)) \<and>
     (\<forall>d \<in> set (kd_documents db). origin env d \<and> (dc_is_current d \<longleftrightarrow> dc_status d = ''active'')) \<and>
     (\<forall>d \<in> set (kd_documents db). \<forall>d' \<in> set (kd_documents db).
        dc_is_current d \<and> dc_is_current d' \<and> dc_tenant_id d = dc_tenant_id d' \<and> dc_doc_key d = dc_doc_key d' \<longrightarrow> dc_id d = dc_id d')"

definition holds_chunk :: "document_row \<Rightarrow> chunk_row \<Rightarrow> bool" where
  "holds_chunk d c \<longleftrightarrow>
     dc_id d = ck_document_id c \<and> dc_tenant_id d = ck_tenant_id c \<and> ck_status c = dc_status d \<and>
     (dc_scope d = ''global'' \<or> dc_workspace_id d = ck_workspace_id c)"

definition chunks_ok :: "knowledge_db \<Rightarrow> bool" where
  "chunks_ok db \<longleftrightarrow>
     distinct (map ck_id (kd_chunks db)) \<and> distinct (map (\<lambda>c. (ck_document_id c, ck_seq c)) (kd_chunks db)) \<and>
     (\<forall>c \<in> set (kd_chunks db). \<exists>d \<in> set (kd_documents db). holds_chunk d c)"

definition points_at :: "indexable_chunk \<Rightarrow> chunk_row \<Rightarrow> bool" where
  "points_at x c \<longleftrightarrow>
     ck_id c = ix_chunk_id x \<and> ck_document_id c = ix_document_id x \<and> ck_tenant_id c = ix_tenant_id x \<and>
     ck_workspace_id c = ix_workspace_id x \<and> ck_content c = ix_content x \<and> ck_provenance_hash c = ix_provenance_hash x"

definition describes :: "indexable_chunk \<Rightarrow> document_row \<Rightarrow> bool" where
  "describes x d \<longleftrightarrow>
     dc_id d = ix_document_id x \<and> dc_status d = ''active'' \<and> dc_classification d = ix_classification x \<and>
     dc_scope d = ix_scope x \<and> dc_domain d = ix_domain x \<and> dc_source_version d = ix_source_version x"

definition index_sound :: "knowledge_db \<Rightarrow> vector_index \<Rightarrow> bool" where
  "index_sound db ix \<longleftrightarrow>
     index_ok ix \<and> (\<forall>x \<in> entries ix. \<exists>c \<in> set (kd_chunks db). points_at x c) \<and>
     (\<forall>x \<in> live ix. \<exists>d \<in> set (kd_documents db). describes x d)"

definition plane_ok :: "gateway_env \<Rightarrow> 'c knowledge_plane \<Rightarrow> bool" where
  "plane_ok env st \<longleftrightarrow> documents_ok env (kp_db st) \<and> chunks_ok (kp_db st) \<and> index_sound (kp_db st) (kp_index st)"

lemma documents_okD:
  assumes "documents_ok env db"
  shows "distinct (map dc_id (kd_documents db))" "d \<in> set (kd_documents db) \<Longrightarrow> origin env d"
    "d \<in> set (kd_documents db) \<Longrightarrow> dc_is_current d \<longleftrightarrow> dc_status d = ''active''"
    "d \<in> set (kd_documents db) \<Longrightarrow> d' \<in> set (kd_documents db) \<Longrightarrow> dc_is_current d \<Longrightarrow> dc_is_current d' \<Longrightarrow>
       dc_tenant_id d = dc_tenant_id d' \<Longrightarrow> dc_doc_key d = dc_doc_key d' \<Longrightarrow> dc_id d = dc_id d'"
  using assms unfolding documents_ok_def by blast+

lemma documents_okI:
  assumes "distinct (map dc_id (kd_documents db))" "\<And>d. d \<in> set (kd_documents db) \<Longrightarrow> origin env d"
    "\<And>d. d \<in> set (kd_documents db) \<Longrightarrow> dc_is_current d \<longleftrightarrow> dc_status d = ''active''"
    "\<And>d d'. d \<in> set (kd_documents db) \<Longrightarrow> d' \<in> set (kd_documents db) \<Longrightarrow> dc_is_current d \<Longrightarrow> dc_is_current d' \<Longrightarrow>
       dc_tenant_id d = dc_tenant_id d' \<Longrightarrow> dc_doc_key d = dc_doc_key d' \<Longrightarrow> dc_id d = dc_id d'"
  shows "documents_ok env db"
  unfolding documents_ok_def using assms by blast

lemma origin_new: "clean_identity cmd ctx \<Longrightarrow>
    origin env (new_document env now cmd ctx (ingest_document_id env cmd ctx) (ingest_doc_key env cmd ctx) uri)"
  by (auto simp: origin_def new_document_def)

lemma origin_retire: "origin env d \<Longrightarrow> origin env (retire tenant key now doc d)"
  by (simp add: origin_def retire_def supersede_row_def)

lemma origin_delete: "origin env d \<Longrightarrow> origin env (delete_row now who d)"
  by (simp add: origin_def delete_row_def)

lemma origin_same:
  assumes "inj (ge_uuid5 env)" "origin env x" "clean_identity cmd ctx" "dc_id x = ingest_document_id env cmd ctx"
  shows "dc_doc_key x = Some (ingest_doc_key env cmd ctx) \<and> dc_scope x = ic_scope cmd \<and> dc_domain x = ic_domain cmd \<and>
    dc_source_version x = ic_source_version cmd \<and>
    (ic_scope cmd \<noteq> ''global'' \<longrightarrow> dc_tenant_id x = ac_tenant_id ctx \<and> dc_workspace_id x = ac_workspace_id ctx)"
  using assms(2) same_document_same_identity [OF assms(1) _ assms(3)] assms(4) unfolding origin_def by metis


lemma new_document_simps [simp]:
  "dc_id (new_document env now cmd ctx doc key uri) = doc"
  "dc_tenant_id (new_document env now cmd ctx doc key uri) = ac_tenant_id ctx"
  "dc_workspace_id (new_document env now cmd ctx doc key uri) = ac_workspace_id ctx"
  "dc_doc_key (new_document env now cmd ctx doc key uri) = Some key"
  "dc_status (new_document env now cmd ctx doc key uri) = ''active''"
  "dc_is_current (new_document env now cmd ctx doc key uri)"
  "dc_scope (new_document env now cmd ctx doc key uri) = ic_scope cmd"
  "dc_classification (new_document env now cmd ctx doc key uri) = ic_classification cmd"
  "dc_domain (new_document env now cmd ctx doc key uri) = ic_domain cmd"
  "dc_source_version (new_document env now cmd ctx doc key uri) = ic_source_version cmd"
  "dc_title (new_document env now cmd ctx doc key uri) = ic_title cmd"
  "dc_acl_principals (new_document env now cmd ctx doc key uri) = ic_acl_principals cmd"
  by (simp_all add: new_document_def)

text \<open>What a committed ingest leaves of the document it is about.\<close>

definition published :: "ingest_command \<Rightarrow> access_context \<Rightarrow> uuid \<Rightarrow> uuid \<Rightarrow> document_row \<Rightarrow> bool" where
  "published cmd ctx doc key y \<longleftrightarrow>
     dc_id y = doc \<and> dc_tenant_id y = ac_tenant_id ctx \<and> dc_doc_key y = Some key \<and> dc_status y = ''active'' \<and> dc_is_current y \<and>
     dc_scope y = ic_scope cmd \<and> dc_classification y = ic_classification cmd \<and> dc_domain y = ic_domain cmd \<and>
     dc_source_version y = ic_source_version cmd \<and> dc_title y = ic_title cmd \<and>
     (ic_scope cmd = ''global'' \<or> dc_workspace_id y = ac_workspace_id ctx)"

lemma ingest_published:
  assumes inj: "inj (ge_uuid5 env)" and ok: "documents_ok env db" and clean: "clean_identity cmd ctx"
    and doc: "doc = ingest_document_id env cmd ctx" "key = ingest_doc_key env cmd ctx"
    and tx: "ingest_transaction (ac_tenant_id ctx) now key (new_document env now cmd ctx doc key uri) rows db = Inr (superseded, db')"
  shows "\<exists>y \<in> set (kd_documents db'). published cmd ctx doc key y \<and> origin env y"
proof -
  let ?d = "new_document env now cmd ctx doc key uri"
  have distinct: "distinct (map dc_id (kd_documents db))" using ok by (simp add: documents_ok_def)
  obtain y where y: "y \<in> set (kd_documents db')"
      "y = ?d \<or> (\<exists>x \<in> set (kd_documents db). dc_id x = doc \<and> dc_tenant_id x = ac_tenant_id ctx \<and> y = overwrite_document ?d x)"
    using ingest_transaction_docs(4) [OF tx distinct] by auto
  from y(2) have "published cmd ctx doc key y \<and> origin env y"
  proof (elim disjE bexE conjE)
    assume "y = ?d" then show ?thesis using origin_new [OF clean] doc by (simp add: published_def)
  next
    fix x assume x: "x \<in> set (kd_documents db)" "dc_id x = doc" "dc_tenant_id x = ac_tenant_id ctx" "y = overwrite_document ?d x"
    have o: "origin env x" using ok x(1) by (simp add: documents_ok_def)
    note same = origin_same [OF inj o clean] x(2) doc
    then have "published cmd ctx doc key y" using x(3,4) by (auto simp: published_def overwrite_document_def)
    moreover have "origin env y" using o same x(4) by (auto simp: origin_def overwrite_document_def)
    ultimately show ?thesis by blast
  qed
  then show ?thesis using y(1) by blast
qed

lemma same_id: "distinct (map dc_id docs) \<Longrightarrow> x \<in> set docs \<Longrightarrow> y \<in> set docs \<Longrightarrow> dc_id x = dc_id y \<Longrightarrow> x = y"
  by (metis distinct_map inj_onD)

lemma ingest_documents_ok:
  assumes inj: "inj (ge_uuid5 env)" and ok: "documents_ok env db" and clean: "clean_identity cmd ctx"
    and doc: "doc = ingest_document_id env cmd ctx" "key = ingest_doc_key env cmd ctx"
    and tx: "ingest_transaction (ac_tenant_id ctx) now key (new_document env now cmd ctx doc key uri) rows db = Inr (superseded, db')"
  shows "documents_ok env db'"
proof -
  let ?r = "retire (ac_tenant_id ctx) key now doc"
  have old: "distinct (map dc_id (kd_documents db))" using ok by (simp add: documents_ok_def)
  note docs = ingest_transaction_docs [OF tx old, unfolded new_document_simps]
  obtain z where z: "z \<in> set (kd_documents db')" "published cmd ctx doc key z" "origin env z" using ingest_published [OF assms] by blast
  have cases: "y = z \<or> (dc_id y \<noteq> doc \<and> (\<exists>x \<in> set (kd_documents db). y = ?r x))" if "y \<in> set (kd_documents db')" for y
    using docs(3) [OF that] same_id [OF docs(1) that z(1)] z(2) by (auto simp: published_def)
  have retired: "origin env (?r x) \<and> (dc_is_current (?r x) \<longleftrightarrow> dc_status (?r x) = ''active'')" if "x \<in> set (kd_documents db)" for x
    using ok that origin_retire by (simp add: documents_ok_def retire_def supersede_row_def)
  have each: "origin env y \<and> (dc_is_current y \<longleftrightarrow> dc_status y = ''active'')" if "y \<in> set (kd_documents db')" for y
    using cases [OF that] retired z by (auto simp: published_def)
  have alone: False if "y \<in> set (kd_documents db')" "y \<noteq> z" "dc_is_current y" "dc_tenant_id y = dc_tenant_id z" "dc_doc_key y = dc_doc_key z" for y
  proof -
    note a = that
    obtain x where x: "x \<in> set (kd_documents db)" "y = ?r x" "dc_id y \<noteq> doc" using cases [OF a(1)] a(2) by blast
    then have "\<not> replaces_version (ac_tenant_id ctx) key doc x" using that(3) by (auto simp: retire_def supersede_row_def)
    then show False using x that z(2) by (auto simp: retire_def replaces_version_def published_def)
  qed
  have pair: "dc_id y = dc_id y'" if "y \<in> set (kd_documents db')" "y' \<in> set (kd_documents db')" "dc_is_current y" "dc_is_current y'"
      "dc_tenant_id y = dc_tenant_id y'" "dc_doc_key y = dc_doc_key y'" for y y'
  proof (cases "y = z \<or> y' = z")
    case True then show ?thesis using alone [OF that(1)] alone [OF that(2)] that by metis
  next
    case False
    note a = that
    obtain x x' where x: "x \<in> set (kd_documents db)" "y = ?r x" "x' \<in> set (kd_documents db)" "y' = ?r x'"
      using cases [OF a(1)] cases [OF a(2)] False by blast
    have "?r x = x" "?r x' = x'" using retire_current a(3,4) unfolding x(2,4) by blast+
    then have eq: "y = x" "y' = x'" using x(2,4) by simp_all
    show ?thesis unfolding eq by (rule documents_okD(4) [OF ok x(1,3)]) (use a(3-6) in \<open>simp_all only: eq\<close>)
  qed
  show ?thesis by (rule documents_okI) (fact docs(1), use each in blast, use each in blast, fact pair)
qed


lemma ingest_chunks_ok:
  assumes inj: "inj (ge_uuid5 env)" and ok: "documents_ok env db" "chunks_ok db" and clean: "clean_identity cmd ctx"
    and doc: "doc = ingest_document_id env cmd ctx" "key = ingest_doc_key env cmd ctx"
    and tx: "ingest_transaction (ac_tenant_id ctx) now key (new_document env now cmd ctx doc key uri) (map (new_chunk env ctx doc) leaves) db =
      Inr (superseded, db')"
  shows "chunks_ok db'"
    "c \<in> set (kd_chunks db) \<Longrightarrow> ck_document_id c \<noteq> doc \<Longrightarrow> \<exists>c' \<in> set (kd_chunks db'). c' = c\<lparr>ck_status := ck_status c'\<rparr>"
    "c \<in> set (kd_chunks db) \<Longrightarrow> ck_document_id c = doc \<Longrightarrow> ck_tenant_id c = ac_tenant_id ctx"
proof -
  let ?t = "ac_tenant_id ctx"
  let ?r = "retire ?t key now doc"
  have old: "distinct (map dc_id (kd_documents db))" using ok by (simp add: documents_ok_def)
  note docs = ingest_transaction_docs [OF tx old, unfolded new_document_simps]
  obtain z where z: "z \<in> set (kd_documents db')" "published cmd ctx doc key z" using ingest_published [OF inj ok(1) clean doc tx] by blast
  define upd where "upd (c :: chunk_row) = (if ck_tenant_id c = ?t \<and> ck_document_id c \<in> set superseded then c\<lparr>ck_status := ''superseded''\<rparr> else c)" for c
  have chunks: "kd_chunks db' = filter (\<lambda>c. \<not> (ck_tenant_id c = ?t \<and> ck_document_id c = doc)) (map upd (kd_chunks db)) @ map (new_chunk env ctx doc) leaves"
    unfolding docs(7) set_chunk_status_def upd_def [abs_def] by simp
  have upd [simp]: "ck_document_id (upd c) = ck_document_id c" "ck_tenant_id (upd c) = ck_tenant_id c" "ck_workspace_id (upd c) = ck_workspace_id c" for c
    by (simp_all add: upd_def)
  show own: "c \<in> set (kd_chunks db) \<Longrightarrow> ck_document_id c = doc \<Longrightarrow> ck_tenant_id c = ?t" for c
  proof -
    assume c: "c \<in> set (kd_chunks db)" "ck_document_id c = doc"
    then obtain d where d: "d \<in> set (kd_documents db)" "dc_id d = doc" "dc_tenant_id d = ck_tenant_id c"
      using ok(2) by (auto simp: chunks_ok_def holds_chunk_def)
    obtain y where "y \<in> set (kd_documents db)" "dc_id y = doc" "dc_tenant_id y = ?t" using docs(4) d by auto
    then show "ck_tenant_id c = ?t" using same_id [OF old] d by metis
  qed
  have kept: "\<exists>d' \<in> set (kd_documents db'). holds_chunk d' (upd c)" if c: "c \<in> set (kd_chunks db)" "ck_document_id c \<noteq> doc" for c
  proof -
    obtain d where d: "d \<in> set (kd_documents db)" "holds_chunk d c" using ok(2) c by (auto simp: chunks_ok_def)
    have "ck_document_id c = dc_id d" "ck_tenant_id c = dc_tenant_id d" using d(2) by (simp_all add: holds_chunk_def)
    moreover have "dc_id d \<in> set superseded \<longleftrightarrow> replaces_version ?t key doc d"
    proof
      assume "dc_id d \<in> set superseded"
      then obtain x where "x \<in> set (kd_documents db)" "replaces_version ?t key doc x" "dc_id x = dc_id d" unfolding docs(6) by auto
      then show "replaces_version ?t key doc d" using same_id [OF old _ d(1)] by blast
    qed (use d(1) in \<open>simp add: docs(6)\<close>)
    ultimately have "upd c = (if replaces_version ?t key doc d then c\<lparr>ck_status := ''superseded''\<rparr> else c)"
      by (auto simp: upd_def replaces_version_def)
    then have "holds_chunk (?r d) (upd c)" using d(2) by (simp add: holds_chunk_def retire_def supersede_row_def)
    moreover have "?r d \<in> set (kd_documents db')" using docs(2) [OF d(1)] d(2) c(2) by (simp add: holds_chunk_def)
    ultimately show ?thesis by blast
  qed
  have new: "holds_chunk z (new_chunk env ctx doc leaf)" for leaf
    using z(2) by (auto simp: holds_chunk_def published_def new_chunk_def)
  show "chunks_ok db'" unfolding chunks_ok_def
  proof (intro conjI ballI)
    fix c assume c: "c \<in> set (kd_chunks db')"
    consider leaf where "c = new_chunk env ctx doc leaf" | c0 where "c0 \<in> set (kd_chunks db)" "c = upd c0" "ck_document_id c0 \<noteq> doc"
    proof (cases "c \<in> new_chunk env ctx doc ` set leaves")
      case True then show ?thesis using that(1) by blast
    next
      case False
      then obtain c0 where "c0 \<in> set (kd_chunks db)" "c = upd c0" "\<not> (ck_tenant_id c0 = ?t \<and> ck_document_id c0 = doc)"
        using c unfolding chunks by auto
      then show ?thesis using that(2) own by blast
    qed
    then show "\<exists>d \<in> set (kd_documents db'). holds_chunk d c" using new z(1) kept by cases blast+
  qed (use docs(8,9) in auto)
  show "c \<in> set (kd_chunks db) \<Longrightarrow> ck_document_id c \<noteq> doc \<Longrightarrow> \<exists>c' \<in> set (kd_chunks db'). c' = c\<lparr>ck_status := ck_status c'\<rparr>"
    unfolding chunks by (intro bexI [of _ "upd c"]) (auto simp: upd_def)
qed


lemma indexed_ids:
  "length vectors = length leaves \<Longrightarrow>
     map ix_chunk_id (map (\<lambda>(leaf, v). indexed_chunk env cmd ctx doc leaf v) (zip leaves vectors)) =
     map ck_id (map (new_chunk env ctx doc) leaves)"
  by (rule nth_equalityI) (simp_all add: indexed_chunk_def new_chunk_def)

lemma ingest_index_sound:
  assumes inj: "inj (ge_uuid5 env)" and ok: "documents_ok env db" "chunks_ok db" "index_sound db ix" and clean: "clean_identity cmd ctx"
    and doc: "doc = ingest_document_id env cmd ctx" "key = ingest_doc_key env cmd ctx"
    and tx: "ingest_transaction (ac_tenant_id ctx) now key (new_document env now cmd ctx doc key uri) (map (new_chunk env ctx doc) leaves) db =
      Inr (superseded, db')"
    and cs: "cs = [] \<or> (\<exists>vectors. length vectors = length leaves \<and>
          cs = map (\<lambda>(leaf, v). indexed_chunk env cmd ctx doc leaf v) (zip leaves vectors))"
  defines "ix' \<equiv> upsert (delete_document (foldl tombstone_document ix superseded) doc) cs"
  shows "index_sound db' ix'"
    "live ix' = {x \<in> live ix. ix_document_id x \<noteq> doc \<and> ix_document_id x \<notin> set superseded} \<union> set cs"
proof -
  have old: "distinct (map dc_id (kd_documents db))" using documents_okD [OF ok(1)] by blast
  note docs = ingest_transaction_docs [OF tx old, unfolded new_document_simps]
  note chunks = ingest_chunks_ok [OF inj ok(1,2) clean doc tx]
  obtain z where z: "z \<in> set (kd_documents db')" "published cmd ctx doc key z" using ingest_published [OF inj ok(1) clean doc tx] by blast
  have ix: "index_ok ix" "\<And>x. x \<in> entries ix \<Longrightarrow> \<exists>c \<in> set (kd_chunks db). points_at x c"
    "\<And>x. x \<in> live ix \<Longrightarrow> \<exists>d \<in> set (kd_documents db). describes x d" using ok(3) by (auto simp: index_sound_def)
  have ids: "cs = [] \<or> map ix_chunk_id cs = map ck_id (map (new_chunk env ctx doc) leaves)"
    using cs indexed_ids [of _ leaves env cmd ctx doc] by blast
  have leaf: "\<exists>leaf \<in> set leaves. \<exists>v. x = indexed_chunk env cmd ctx doc leaf v" if "x \<in> set cs" for x
    using cs that by (auto dest!: set_zip_leftD) blast
  have kept: "\<exists>c \<in> set (kd_chunks db'). points_at x c \<and> ck_document_id c \<noteq> doc" if x: "x \<in> entries ix" "ix_document_id x \<noteq> doc" for x
  proof -
    obtain c where c: "c \<in> set (kd_chunks db)" "points_at x c" using ix(2) x(1) by blast
    then obtain c' where "c' \<in> set (kd_chunks db')" "c' = c\<lparr>ck_status := ck_status c'\<rparr>"
      using chunks(2) [of c] x(2) by (auto simp: points_at_def)
    moreover from this(2) have "points_at x c'" using c(2) by (cases c, cases c') (simp add: points_at_def)
    ultimately show ?thesis using x(2) by (auto simp: points_at_def)
  qed
  have apart: "ix_chunk_id x \<notin> ix_chunk_id ` set cs" if x: "x \<in> entries ix" "ix_document_id x \<noteq> doc" for x
  proof
    assume a: "ix_chunk_id x \<in> ix_chunk_id ` set cs"
    then have "ix_chunk_id x \<in> ck_id ` set (map (new_chunk env ctx doc) leaves)" using ids by (metis empty_iff image_empty list.set(1) list.set_map)
    then obtain l where l: "l \<in> set leaves" "ck_id (new_chunk env ctx doc l) = ix_chunk_id x" by auto
    obtain c where c: "c \<in> set (kd_chunks db')" "points_at x c" "ck_document_id c \<noteq> doc" using kept [OF x] by blast
    have "new_chunk env ctx doc l \<in> set (kd_chunks db')" using l(1) by (simp add: docs(7))
    then have "new_chunk env ctx doc l = c" using docs(8) c(1,2) l(2) by (metis distinct_map inj_onD points_at_def)
    then show False using c(3) by (auto simp: new_chunk_def)
  qed
  let ?ix = "foldl tombstone_document ix superseded"
  have silenced: "live ?ix = {c \<in> live ix. ix_document_id c \<notin> set superseded}" "entries ?ix = entries ix" "index_ok ?ix"
    using in_memory.silenced_documents in_memory.silenced_ok [OF ix(1)] by blast+
  have "distinct (map ix_chunk_id cs)" using ids docs(7,8) by auto
  moreover have "ix_document_id (indexed_chunk env cmd ctx doc l v) = doc" for l v by (simp add: indexed_chunk_def)
  then have "\<forall>c \<in> set cs. ix_document_id c = doc" using leaf by metis
  ultimately have after: "live ix' = {c \<in> live ?ix. ix_document_id c \<noteq> doc} \<union> set cs" "entries ix' = {c \<in> entries ?ix. ix_document_id c \<noteq> doc} \<union> set cs"
    using in_memory.reindex_reach [OF silenced(3), of cs doc] apart unfolding ix'_def in_memory.reindex_def silenced(2) by blast+
  show live: "live ix' = {x \<in> live ix. ix_document_id x \<noteq> doc \<and> ix_document_id x \<notin> set superseded} \<union> set cs"
    unfolding after silenced by blast
  have new: "points_at x (new_chunk env ctx doc leaf) \<and> describes x z" if "x = indexed_chunk env cmd ctx doc leaf v" for x leaf v
    using that z(2) by (simp add: points_at_def describes_def indexed_chunk_def new_chunk_def published_def)
  have "index_ok ix'" unfolding ix'_def by (intro index_ok_upsert index_ok_delete silenced(3))
  moreover have "\<exists>c \<in> set (kd_chunks db'). points_at x c" if "x \<in> entries ix'" for x
  proof (cases "x \<in> set cs")
    case True
    then obtain l v where "l \<in> set leaves" "x = indexed_chunk env cmd ctx doc l v" using leaf by blast
    then show ?thesis using new unfolding docs(7) by auto
  next
    case False then show ?thesis using that kept unfolding after silenced by blast
  qed
  moreover have "\<exists>d \<in> set (kd_documents db'). describes x d" if "x \<in> live ix'" for x
  proof (cases "x \<in> set cs")
    case True then show ?thesis using leaf new z(1) by blast
  next
    case False
    then have x: "x \<in> live ix" "ix_document_id x \<noteq> doc" "ix_document_id x \<notin> set superseded" using that unfolding live by blast+
    then obtain d where d: "d \<in> set (kd_documents db)" "describes x d" using ix(3) by blast
    then have "dc_id d \<notin> set superseded" using x(3) by (simp add: describes_def)
    then have "\<not> replaces_version (ac_tenant_id ctx) key doc d" using d(1) unfolding docs(6) by auto
    then show ?thesis using docs(2) [OF d(1)] d(2) x(2) by (auto simp: describes_def retire_def)
  qed
  ultimately show "index_sound db' ix'" unfolding index_sound_def by blast
qed


lemma ingest_plane_ok:
  assumes "inj (ge_uuid5 env)" "plane_ok env st" "clean_identity cmd ctx" "ingest_document env now cmd ctx st = (r, st')"
  shows "plane_ok env st'"
  using assms(4)
proof (cases rule: ingest_document_cases)
  case refused then show ?thesis using assms(2) by (simp add: plane_ok_def)
next
  case (committed uri leaves superseded cs)
  have ok: "documents_ok env (kp_db st)" "chunks_ok (kp_db st)" "index_sound (kp_db st) (kp_index st)" using assms(2) by (auto simp: plane_ok_def)
  have cs: "cs = [] \<or> (\<exists>vectors. length vectors = length leaves \<and>
      cs = map (\<lambda>(leaf, v). indexed_chunk env cmd ctx (ingest_document_id env cmd ctx) leaf v) (zip leaves vectors))"
    using committed(4) by blast
  show ?thesis unfolding plane_ok_def committed(3)
    by (intro conjI ingest_documents_ok [OF assms(1) ok(1) assms(3) refl refl committed(2)]
        ingest_chunks_ok(1) [OF assms(1) ok(1,2) assms(3) refl refl committed(2)]
        ingest_index_sound(1) [OF assms(1) ok assms(3) refl refl committed(2) cs])
qed

text \<open>Deletion\<close>

definition erase :: "uuid \<Rightarrow> uuid \<Rightarrow> instant \<Rightarrow> uuid \<Rightarrow> document_row \<Rightarrow> document_row" where
  "erase tenant doc now who d = (if dc_tenant_id d = tenant \<and> dc_id d = doc then delete_row now who d else d)"

lemma erase_simps [simp]:
  "dc_id (erase tenant doc now who d) = dc_id d" "dc_tenant_id (erase tenant doc now who d) = dc_tenant_id d"
  "dc_doc_key (erase tenant doc now who d) = dc_doc_key d" "dc_id d \<noteq> doc \<Longrightarrow> erase tenant doc now who d = d"
  by (simp_all add: erase_def)

lemma erase_current: "dc_is_current (erase tenant doc now who d) \<Longrightarrow> erase tenant doc now who d = d"
  by (cases "dc_tenant_id d = tenant \<and> dc_id d = doc") (auto simp: erase_def delete_row_def)

lemma soft_delete_docs:
  "kd_documents (kp_db (soft_delete_document now doc ctx st)) =
     map (erase (ac_tenant_id ctx) doc now (ac_principal_id ctx)) (kd_documents (kp_db st))"
  by (simp add: soft_delete_document_def Let_def erase_def)

lemma soft_delete_documents_ok:
  assumes "documents_ok env (kp_db st)"
  shows "documents_ok env (kp_db (soft_delete_document now doc ctx st))"
proof (rule documents_okI)
  let ?e = "erase (ac_tenant_id ctx) doc now (ac_principal_id ctx)"
  show "distinct (map dc_id (kd_documents (kp_db (soft_delete_document now doc ctx st))))"
    using documents_okD(1) [OF assms] by (simp add: soft_delete_docs comp_def)
  fix d assume "d \<in> set (kd_documents (kp_db (soft_delete_document now doc ctx st)))"
  then obtain x where x: "x \<in> set (kd_documents (kp_db st))" "d = ?e x" by (auto simp: soft_delete_docs)
  show "origin env d" "dc_is_current d \<longleftrightarrow> dc_status d = ''active''"
    using documents_okD(2,3) [OF assms x(1)] origin_delete unfolding x(2) by (auto simp: erase_def delete_row_def)
  fix d' assume "d' \<in> set (kd_documents (kp_db (soft_delete_document now doc ctx st)))"
  then obtain x' where x': "x' \<in> set (kd_documents (kp_db st))" "d' = ?e x'" by (auto simp: soft_delete_docs)
  assume cur: "dc_is_current d" "dc_is_current d'" and same: "dc_tenant_id d = dc_tenant_id d'" "dc_doc_key d = dc_doc_key d'"
  have "?e x = x" "?e x' = x'" using cur erase_current unfolding x(2) x'(2) by blast+
  then show "dc_id d = dc_id d'" using documents_okD(4) [OF assms x(1) x'(1)] cur same unfolding x(2) x'(2) by argo
qed

definition erase_chunk :: "uuid \<Rightarrow> uuid \<Rightarrow> instant \<Rightarrow> chunk_row \<Rightarrow> chunk_row" where
  "erase_chunk tenant doc now c =
     (if ck_tenant_id c = tenant \<and> ck_document_id c = doc then c\<lparr>ck_status := ''deleted'', ck_deleted_at := Some now\<rparr> else c)"

lemma erase_chunk_simps [simp]:
  "ck_id (erase_chunk tenant doc now c) = ck_id c" "ck_document_id (erase_chunk tenant doc now c) = ck_document_id c"
  "ck_seq (erase_chunk tenant doc now c) = ck_seq c" "ck_tenant_id (erase_chunk tenant doc now c) = ck_tenant_id c"
  "ck_content (erase_chunk tenant doc now c) = ck_content c" "points_at x (erase_chunk tenant doc now c) = points_at x c"
  by (simp_all add: erase_chunk_def points_at_def)

lemma erase_holds: "holds_chunk d c \<Longrightarrow> holds_chunk (erase tenant doc now who d) (erase_chunk tenant doc now c)"
  by (auto simp: holds_chunk_def erase_def erase_chunk_def delete_row_def)

lemma soft_delete_chunks:
  "kd_chunks (kp_db (soft_delete_document now doc ctx st)) = map (erase_chunk (ac_tenant_id ctx) doc now) (kd_chunks (kp_db st))"
  by (simp add: soft_delete_document_def Let_def erase_chunk_def)

lemma soft_delete_chunks_ok:
  assumes "chunks_ok (kp_db st)"
  shows "chunks_ok (kp_db (soft_delete_document now doc ctx st))"
  unfolding chunks_ok_def soft_delete_docs soft_delete_chunks
proof (intro conjI ballI)
  fix c assume "c \<in> set (map (erase_chunk (ac_tenant_id ctx) doc now) (kd_chunks (kp_db st)))"
  then obtain b where b: "b \<in> set (kd_chunks (kp_db st))" "c = erase_chunk (ac_tenant_id ctx) doc now b" by auto
  then obtain d where "d \<in> set (kd_documents (kp_db st))" "holds_chunk d b" using assms unfolding chunks_ok_def by blast
  then show "\<exists>d \<in> set (map (erase (ac_tenant_id ctx) doc now (ac_principal_id ctx)) (kd_documents (kp_db st))). holds_chunk d c"
    unfolding b(2) by (auto intro!: erase_holds)
qed (use assms in \<open>simp_all add: chunks_ok_def comp_def\<close>)

lemma soft_delete_index_sound:
  assumes "index_sound (kp_db st) (kp_index st)"
  shows "index_sound (kp_db (soft_delete_document now doc ctx st)) (kp_index (soft_delete_document now doc ctx st))"
proof -
  let ?e = "erase (ac_tenant_id ctx) doc now (ac_principal_id ctx)"
  have ix: "kp_index (soft_delete_document now doc ctx st) = tombstone_document (kp_index st) doc"
    by (simp add: soft_delete_document_def Let_def)
  have desc: "\<exists>d \<in> set (map ?e (kd_documents (kp_db st))). describes x d"
    if a: "x \<in> live (kp_index st)" "ix_document_id x \<noteq> doc" for x
  proof -
    obtain d where d: "d \<in> set (kd_documents (kp_db st))" "describes x d" using assms a(1) unfolding index_sound_def by blast
    then have "?e d = d" using a(2) by (simp add: describes_def)
    then show ?thesis using d by (metis image_eqI list.set_map)
  qed
  have pts: "\<exists>c \<in> set (map (erase_chunk (ac_tenant_id ctx) doc now) (kd_chunks (kp_db st))). points_at x c"
    if a: "x \<in> entries (kp_index st)" for x
  proof -
    obtain c where "c \<in> set (kd_chunks (kp_db st))" "points_at x c" using assms a unfolding index_sound_def by blast
    then show ?thesis by auto
  qed
  have "index_ok (kp_index st)" using assms by (simp add: index_sound_def)
  then show ?thesis unfolding index_sound_def ix soft_delete_docs soft_delete_chunks in_memory.silence_reach entries_tombstone index_ok_tombstone
    using desc pts by blast
qed

lemma soft_delete_plane_ok: "plane_ok env st \<Longrightarrow> plane_ok env (soft_delete_document now doc ctx st)"
  by (simp add: plane_ok_def soft_delete_documents_ok soft_delete_chunks_ok soft_delete_index_sound)


text \<open>Retention\<close>

lemma delete_documents_state:
  assumes "delete_documents uuid5 fresh p now doomed st = Inr (n, st')"
  shows "kd_documents (kp_db st') = filter (\<lambda>d. \<not> (dc_id d \<in> set doomed \<and> \<not> document_cited (kp_db st) d)) (kd_documents (kp_db st))"
    "kd_chunks (kp_db st') = filter (\<lambda>c. ck_document_id c \<notin> dc_id `
       {d \<in> set (kd_documents (kp_db st)). dc_id d \<in> set doomed \<and> \<not> document_cited (kp_db st) d}) (kd_chunks (kp_db st))"
    "kd_evidence (kp_db st') = kd_evidence (kp_db st)" "kp_index st' = kp_index st" "kp_objects st' = kp_objects st"
    "\<exists>events. all_ok (map (purge_audit uuid5 fresh p now)
        (filter (\<lambda>d. dc_id d \<in> set doomed \<and> \<not> document_cited (kp_db st) d) (kd_documents (kp_db st)))) = Inr events \<and>
        kp_platform st' = foldl audit_append (kp_platform st) events"
  using assms by (auto simp: delete_documents_def Let_def split: if_splits sum.splits)

lemma delete_documents_plane_ok:
  assumes "plane_ok env st" "delete_documents uuid5 fresh p now doomed st = Inr (n, st')"
    "\<forall>x \<in> entries (kp_index st). ix_document_id x \<notin> set doomed"
  shows "plane_ok env st'"
proof -
  note st' = delete_documents_state [OF assms(2)]
  have ok: "documents_ok env (kp_db st)" "chunks_ok (kp_db st)" "index_sound (kp_db st) (kp_index st)" using assms(1) by (auto simp: plane_ok_def)
  have sub: "set (kd_documents (kp_db st')) \<subseteq> set (kd_documents (kp_db st))" unfolding st'(1) by auto
  have kept: "d \<in> set (kd_documents (kp_db st'))" if "d \<in> set (kd_documents (kp_db st))" "dc_id d \<notin> set doomed" for d using that unfolding st'(1) by simp
  have "documents_ok env (kp_db st')"
    by (rule documents_okI) (use documents_okD [OF ok(1)] sub in \<open>auto simp: st'(1) distinct_map_filter\<close>)
  moreover have "chunks_ok (kp_db st')" unfolding chunks_ok_def
  proof (intro conjI ballI)
    fix c assume c: "c \<in> set (kd_chunks (kp_db st'))"
    then obtain d where d: "d \<in> set (kd_documents (kp_db st))" "holds_chunk d c" using ok(2) unfolding st'(2) chunks_ok_def by auto
    let ?gone = "{d \<in> set (kd_documents (kp_db st)). dc_id d \<in> set doomed \<and> \<not> document_cited (kp_db st) d}"
    have "dc_id d \<notin> dc_id ` ?gone" using c d(2) by (simp add: st'(2) holds_chunk_def)
    then have "d \<notin> ?gone" by blast
    then have "d \<in> set (kd_documents (kp_db st'))" using d(1) by (simp add: st'(1))
    then show "\<exists>d \<in> set (kd_documents (kp_db st')). holds_chunk d c" using d(2) by blast
  qed (use ok(2) in \<open>auto simp: st'(2) chunks_ok_def distinct_map_filter\<close>)
  moreover have "\<exists>c \<in> set (kd_chunks (kp_db st')). points_at x c" if x: "x \<in> entries (kp_index st)" for x
  proof -
    obtain c where c: "c \<in> set (kd_chunks (kp_db st))" "points_at x c" using ok(3) x unfolding index_sound_def by blast
    moreover have "ck_document_id c \<notin> set doomed" using assms(3) x c(2) by (simp add: points_at_def)
    ultimately show ?thesis unfolding st'(2) by auto
  qed
  moreover have "\<exists>d \<in> set (kd_documents (kp_db st')). describes x d" if x: "x \<in> live (kp_index st)" for x
  proof -
    obtain d where d: "d \<in> set (kd_documents (kp_db st))" "describes x d" using ok(3) x unfolding index_sound_def by blast
    moreover have "dc_id d \<notin> set doomed" using assms(3) x d(2) by (simp add: describes_def live_def)
    ultimately show ?thesis using kept by blast
  qed
  ultimately show ?thesis using ok(3) unfolding plane_ok_def index_sound_def st'(4) by blast
qed

lemma delete_points_plane_ok:
  assumes "plane_ok env st"
  shows "plane_ok env (st\<lparr>kp_index := foldl delete_document (kp_index st) docs\<rparr>)"
  using assms in_memory.removed_documents [of "kp_index st" docs] in_memory.removed_ok [of "kp_index st" docs]
  by (simp add: plane_ok_def index_sound_def)

lemma prune_plane_ok:
  assumes "plane_ok env st" "knowledge_prune uuid5 fresh p now id st = (e, st')"
  shows "plane_ok env st'"
proof -
  define doomed where "doomed = fst (retention_candidates p (now - days (kr_deleted_grace_days (rp_knowledge p))) (kp_db st))"
  define st1 where "st1 = st\<lparr>kp_index := foldl delete_document (kp_index st) doomed\<rparr>"
  have ok: "plane_ok env st1" unfolding st1_def by (rule delete_points_plane_ok [OF assms(1)])
  have gone: "\<forall>x \<in> entries (kp_index st1). ix_document_id x \<notin> set doomed"
    using in_memory.removed_documents [of "kp_index st" doomed] by (simp add: st1_def)
  have "st' = st1 \<or> (\<exists>n. delete_documents uuid5 fresh p now doomed st1 = Inr (n, st'))"
    using assms(2) unfolding knowledge_prune_def Let_def split_beta doomed_def [symmetric] st1_def [symmetric]
    by (auto split: if_splits sum.splits)
  then show ?thesis using ok delete_documents_plane_ok [OF ok _ gone] by blast
qed

subsection \<open>Reachable states\<close>

text \<open>
  The states that ingests, deletions, retention passes, recorded evidence and its removal reach from
  an empty plane, with any outcome, by any caller.
\<close>

inductive knowledge_reach :: "gateway_env \<Rightarrow> 'c knowledge_plane \<Rightarrow> bool" for env where
  empty: "kp_db st = \<lparr>kd_documents = [], kd_chunks = [], kd_evidence = []\<rparr> \<Longrightarrow> kp_index st = \<lparr>vi_chunks = [], vi_tombstoned = {}\<rparr> \<Longrightarrow>
    knowledge_reach env st"
| ingested: "knowledge_reach env st \<Longrightarrow> clean_identity cmd ctx \<Longrightarrow> ingest_document env now cmd ctx st = (r, st') \<Longrightarrow> knowledge_reach env st'"
| deleted: "knowledge_reach env st \<Longrightarrow> knowledge_reach env (soft_delete_document now doc ctx st)"
| pruned: "knowledge_reach env st \<Longrightarrow> knowledge_prune uuid5 fresh p now id st = (e, st') \<Longrightarrow> knowledge_reach env st'"
| cited: "knowledge_reach env st \<Longrightarrow> evidence_record now (kp_db st) refs tenant ws = Inr (label, db) \<Longrightarrow> knowledge_reach env (st\<lparr>kp_db := db\<rparr>)"
| drained: "knowledge_reach env st \<Longrightarrow> knowledge_reach env (st\<lparr>kp_db := (kp_db st)\<lparr>kd_evidence := filter keep (kd_evidence (kp_db st))\<rparr>\<rparr>)"

lemma plane_ok_evidence: "plane_ok env (st\<lparr>kp_db := (kp_db st)\<lparr>kd_evidence := es\<rparr>\<rparr>) = plane_ok env st"
  by (simp add: plane_ok_def documents_ok_def chunks_ok_def index_sound_def)

lemma knowledge_reach_ok:
  assumes "knowledge_reach env st" "inj (ge_uuid5 env)"
  shows "plane_ok env st"
  using assms(1)
proof induction
  case (empty st)
  then show ?case by (simp add: plane_ok_def documents_ok_def chunks_ok_def index_sound_def index_ok_def entries_def live_def)
next
  case ingested then show ?case using ingest_plane_ok [OF assms(2)] by blast
next
  case deleted then show ?case using soft_delete_plane_ok by blast
next
  case pruned then show ?case using prune_plane_ok by blast
next
  case (cited st now refs tenant ws label db)
  then show ?case using evidence_record_ok(3) [OF cited.hyps(2)] plane_ok_evidence by metis
next
  case drained then show ?case using plane_ok_evidence by blast
qed

end
