(* ===== verification/Retrieval.thy ===== *)
theory Retrieval
  imports KnowledgeFacts
begin

text \<open>
  What the knowledge plane promises its callers: retrieval answers only from live documents the
  caller may read, whatever the reranker says; ingestion and deletion refine the update of a library
  with one current version per document; a full read returns what was ingested; retention removes
  what is deleted, expired and uncited. The places where the code does not keep such a promise are
  stated as theorems too.
\<close>

subsection \<open>Search\<close>

lemma filter_single:
  assumes "distinct (map f xs)" "c \<in> set xs" "P c" "\<And>x. x \<in> set xs \<Longrightarrow> P x \<Longrightarrow> f x = f c"
  shows "filter P xs = [c]"
proof -
  have "set (filter P xs) = {c}" using assms by (auto simp: distinct_map dest: inj_onD)
  moreover have "distinct (filter P xs)" using assms(1) by (simp add: distinct_map)
  ultimately have "length (filter P xs) = 1" using distinct_card by fastforce
  then obtain y where y: "filter P xs = [y]" by (auto simp: length_Suc_conv)
  then have "set (filter P xs) = {y}" by (simp only: list.set)
  then show ?thesis using \<open>set (filter P xs) = {c}\<close> y by simp
qed

lemma evidence_pack_sound:
  "e \<in> set (evidence_pack fresh n score least hits) \<Longrightarrow> \<exists>h \<in> set hits. \<exists>i. e = evidence_of i (score h) h \<and> least \<le> score h"
proof (induction hits arbitrary: n)
  case (Cons h hits)
  show ?case
  proof (cases "score h < least")
    case True then show ?thesis using Cons by auto
  next
    case False
    then consider "e = evidence_of (fresh n) (score h) h" | "e \<in> set (evidence_pack fresh (Suc n) score least hits)" using Cons.prems by auto
    then show ?thesis
    proof cases
      case 1 then show ?thesis using False by (intro bexI [of _ h] exI [of _ "fresh n"]) auto
    next
      case 2 then show ?thesis using Cons.IH by fastforce
    qed
  qed
qed simp

lemma by_id_sound: "by_id hits k = Some h \<Longrightarrow> h \<in> set hits"
  unfolding by_id_def by (drule map_of_SomeD) auto

lemma search_from_index:
  assumes "search env fresh q ctx ix = Inr found" "e \<in> set found"
  obtains x i s where "x \<in> live ix" "trusted (build_trusted_filter ctx (sq_domain q)) x" "narrowed (sq_filters q) (sq_document_ids q) x"
    "ek_content e = ix_content x" "er_chunk_id (ek_evidence e) = Some (ix_chunk_id x)" "er_source_document_id (ek_evidence e) = ix_document_id x"
    "er_provenance_hash (ek_evidence e) = ix_provenance_hash x" "er_classification (ek_evidence e) = ix_classification x"
    "er_relevance_score (ek_evidence e) = max 0 (min 1 s)" "sq_min_relevance q \<le> s"
proof -
  obtain v vs where v: "ge_embed env [sq_text q] = Inr (v # vs)"
    using assms(1) by (auto simp: search_def split: sum.splits list.splits)
  define hits where "hits = index_search (ge_sqrt env) v (build_trusted_filter ctx (sq_domain q))
    (nat (case ge_reranker env of None \<Rightarrow> sq_top_k q | Some _ \<Rightarrow> sq_top_k q * ge_rerank_fetch_multiplier env)) (sq_filters q) (sq_document_ids q) ix"
  consider ranked where "found = evidence_pack fresh 0 (score_of ranked) (sq_min_relevance q) (List.map_filter (\<lambda>r. by_id hits (rk_id r)) ranked)"
    | "found = evidence_pack fresh 0 (score_of []) (sq_min_relevance q) (take (nat (sq_top_k q)) hits)"
    using assms(1) unfolding search_def v sum.case list.case Let_def hits_def [symmetric]
    by (auto split: sum.splits option.splits if_splits)
  then obtain score hs where hs: "found = evidence_pack fresh 0 score (sq_min_relevance q) hs" "set hs \<subseteq> set hits"
  proof cases
    case (1 ranked)
    then show ?thesis by (rule that) (auto simp: set_map_filter dest: by_id_sound)
  next
    case 2 then show ?thesis by (rule that) (rule set_take_subset)
  qed
  obtain h i where h: "h \<in> set hits" "e = evidence_of i (score h) h" "sq_min_relevance q \<le> score h"
    using evidence_pack_sound assms(2) hs unfolding hs(1) by blast
  obtain x where "x \<in> live ix" "trusted (build_trusted_filter ctx (sq_domain q)) x" "narrowed (sq_filters q) (sq_document_ids q) x"
      "h = hit_of (ge_sqrt env) v x" using index_search_sound h(1) unfolding hits_def by blast
  then show ?thesis using that [of x "score h"] h by (simp add: evidence_of_def hit_of_def)
qed

lemma same_chunk: "distinct (map ck_id chunks) \<Longrightarrow> x \<in> set chunks \<Longrightarrow> y \<in> set chunks \<Longrightarrow> ck_id x = ck_id y \<Longrightarrow> x = y"
  by (metis distinct_map inj_onD)

text \<open>The chunk and the document behind a result.\<close>

definition result_of :: "'c knowledge_plane \<Rightarrow> evidence_chunk \<Rightarrow> chunk_row \<Rightarrow> document_row \<Rightarrow> bool" where
  "result_of st e c d \<longleftrightarrow>
     c \<in> set (kd_chunks (kp_db st)) \<and> d \<in> set (kd_documents (kp_db st)) \<and> holds_chunk d c \<and>
     er_chunk_id (ek_evidence e) = Some (ck_id c) \<and> er_source_document_id (ek_evidence e) = dc_id d \<and>
     ek_content e = ck_content c \<and> er_provenance_hash (ek_evidence e) = ck_provenance_hash c \<and>
     er_classification (ek_evidence e) = dc_classification d"

lemma search_result:
  assumes "plane_ok env st" "search env' fresh q ctx (kp_index st) = Inr found" "e \<in> set found"
  obtains c d where "result_of st e c d" "dc_status d = ''active''"
    "dc_classification d \<in> set (classifications_for_clearance (ac_clearance ctx))"
    "dc_tenant_id d = ac_tenant_id ctx \<and> ck_workspace_id c = ac_workspace_id ctx \<or> dc_scope d = ''global''"
    "dc_domain d = sq_domain q \<or> dc_domain d = SHARED_DOMAIN"
    "0 \<le> er_relevance_score (ek_evidence e)" "er_relevance_score (ek_evidence e) \<le> 1"
proof -
  obtain x s where x: "x \<in> live (kp_index st)" "trusted (build_trusted_filter ctx (sq_domain q)) x"
    "ek_content e = ix_content x" "er_chunk_id (ek_evidence e) = Some (ix_chunk_id x)" "er_source_document_id (ek_evidence e) = ix_document_id x"
    "er_provenance_hash (ek_evidence e) = ix_provenance_hash x" "er_classification (ek_evidence e) = ix_classification x"
    "er_relevance_score (ek_evidence e) = max 0 (min 1 s)"
    using search_from_index [OF assms(2,3)] by metis
  have ix: "index_sound (kp_db st) (kp_index st)" "chunks_ok (kp_db st)" "documents_ok env (kp_db st)" using assms(1) by (auto simp: plane_ok_def)
  have "x \<in> entries (kp_index st)" using x(1) by (simp add: live_def)
  then obtain c where c: "c \<in> set (kd_chunks (kp_db st))" "points_at x c" using ix(1) unfolding index_sound_def by blast
  obtain d where d: "d \<in> set (kd_documents (kp_db st))" "describes x d" using ix(1) x(1) unfolding index_sound_def by blast
  obtain d' where d': "d' \<in> set (kd_documents (kp_db st))" "holds_chunk d' c" using ix(2) c(1) unfolding chunks_ok_def by blast
  have "d' = d" by (rule same_id [OF documents_okD(1) [OF ix(3)] d'(1) d(1)]) (use c(2) d(2) d'(2) in \<open>simp add: points_at_def describes_def holds_chunk_def\<close>)
  then have h: "holds_chunk d c" using d' by simp
  show ?thesis
    by (rule that [of c d])
      (use x c d h in \<open>auto simp: result_of_def points_at_def describes_def trusted_def build_trusted_filter_def holds_chunk_def\<close>)
qed


text \<open>
  The passage a search returns can be cited exactly when its document belongs to the caller's
  tenant: the evidence store then finds the chunk, with the same hash and document, in the caller's
  workspace or a global one; a passage of another tenant's global document is refused, because the
  chunks of a global document are only readable in the tenant that ingested it.
\<close>

theorem search_result_citable:
  assumes "knowledge_reach env st" "inj (ge_uuid5 env)" "search env' fresh q ctx (kp_index st) = Inr found" "e \<in> set found"
  shows "check_ref (cited_rows (kp_db st) (ac_tenant_id ctx) [ek_evidence e]) (ac_workspace_id ctx) (ek_evidence e) = Inr () \<longleftrightarrow>
    (\<exists>d \<in> set (kd_documents (kp_db st)). dc_id d = er_source_document_id (ek_evidence e) \<and> dc_tenant_id d = ac_tenant_id ctx)"
proof -
  let ?t = "ac_tenant_id ctx" and ?ref = "ek_evidence e"
  have ok: "documents_ok env (kp_db st)" "chunks_ok (kp_db st)" using knowledge_reach_ok [OF assms(1,2)] by (auto simp: plane_ok_def)
  obtain c d where cd: "result_of st e c d" and own: "dc_tenant_id d = ?t \<and> ck_workspace_id c = ac_workspace_id ctx \<or> dc_scope d = ''global''"
    using search_result [OF knowledge_reach_ok [OF assms(1,2)] assms(3,4)] by metis
  note r = cd [unfolded result_of_def holds_chunk_def]
  have docs: "distinct (map dc_id (kd_documents (kp_db st)))" using documents_okD [OF ok(1)] by blast
  have find_doc: "document_of (kp_db st) ?t c = Some d" if "dc_tenant_id d = ?t"
  proof -
    have "List.find (\<lambda>x. document_readable ?t x \<and> dc_id x = ck_document_id c) (kd_documents (kp_db st)) \<noteq> None"
      using r that by (auto simp: find_eq_None document_readable_def)
    then obtain y where y: "List.find (\<lambda>x. document_readable ?t x \<and> dc_id x = ck_document_id c) (kd_documents (kp_db st)) = Some y" by blast
    then have "y \<in> set (kd_documents (kp_db st))" "dc_id y = dc_id d" using r by (auto dest!: find_SomeD)
    then show ?thesis using same_id [OF docs] r y by (metis document_of_def)
  qed
  show ?thesis
  proof (cases "dc_tenant_id d = ?t")
    case True
    have "filter (\<lambda>x. ck_tenant_id x = ?t \<and> Some (ck_id x) \<in> er_chunk_id ` set [?ref]) (kd_chunks (kp_db st)) = [c]"
      using True r ok(2) by (intro filter_single [where f = ck_id]) (auto simp: chunks_ok_def)
    then have "cited_rows (kp_db st) ?t [?ref] = [(c, d)]"
      unfolding cited_rows_def by (simp add: List.map_filter_def find_doc [OF True])
    then have "check_ref (cited_rows (kp_db st) ?t [?ref]) (ac_workspace_id ctx) ?ref = Inr ()"
      using r own by (auto simp: check_ref_def stored_chunk_def visible_from_workspace_def)
    then show ?thesis using True r by auto
  next
    case False
    have "check_ref (cited_rows (kp_db st) ?t [?ref]) (ac_workspace_id ctx) ?ref \<noteq> Inr ()"
    proof
      assume "check_ref (cited_rows (kp_db st) ?t [?ref]) (ac_workspace_id ctx) ?ref = Inr ()"
      then obtain c' d' where b: "backed (kp_db st) ?t (ac_workspace_id ctx) ?ref c' d'" using check_ref_backed by blast
      then have "ck_id c' = ck_id c" "c' \<in> set (kd_chunks (kp_db st))" using r by (auto simp: backed_def)
      then have "c' = c" using same_chunk [of "kd_chunks (kp_db st)" c' c] ok(2) r by (simp add: chunks_ok_def)
      then show False using b False r by (auto simp: backed_def)
    qed
    moreover have "\<not> (\<exists>x \<in> set (kd_documents (kp_db st)). dc_id x = er_source_document_id ?ref \<and> dc_tenant_id x = ?t)"
    proof
      assume "\<exists>x \<in> set (kd_documents (kp_db st)). dc_id x = er_source_document_id ?ref \<and> dc_tenant_id x = ?t"
      then obtain x where x: "x \<in> set (kd_documents (kp_db st))" "dc_id x = dc_id d" "dc_tenant_id x = ?t" using r by auto
      then have "x = d" using same_id [OF docs, of x d] r by blast
      then show False using x(3) False by simp
    qed
    ultimately show ?thesis by blast
  qed
qed


subsection \<open>The library\<close>


















subsection \<open>Reading back\<close>









subsection \<open>Listing\<close>

lemma insert_key_map: "insert_key g (f x) (map f xs) = map f (insert_key (\<lambda>x. g (f x)) x xs)"
  by (induction xs) auto

lemma sort_by_map: "sort_by g (map f xs) = map f (sort_by (\<lambda>x. g (f x)) xs)"
  by (induction xs) (auto simp: insert_key_map)

lemma newest_first_map: "newest_first pos (map f xs) = map f (newest_first (\<lambda>x. pos (f x)) xs)"
  by (simp add: newest_first_def sort_by_map)

definition listed :: "access_context \<Rightarrow> string option \<Rightarrow> document_row \<Rightarrow> bool" where
  "listed ctx domain d \<longleftrightarrow> document_visible ctx d \<and> (case domain of None \<Rightarrow> True | Some only \<Rightarrow> dc_domain d = only)"

lemma info_position_of [simp]: "info_position (document_info_of db tenant d) = document_position d"
  by (simp add: info_position_def document_info_of_def document_position_def)

interpretation document_inventory: keyset_listing tc "list_documents tc db ctx domain" info_position
    "map (document_info_of db (ac_tenant_id ctx)) (filter (listed ctx domain) (kd_documents db))"
  for tc db ctx domain
proof
  fix req :: page_req
  have after: "after_position info_position p (document_info_of db t d) = after_position document_position p d" for p t d
    by (cases p) (simp_all add: after_position_def)
  have "filter (\<lambda>d. document_visible ctx d \<and> after_position document_position (rq_after req) d \<and>
      (case domain of None \<Rightarrow> True | Some only \<Rightarrow> dc_domain d = only)) (kd_documents db) =
    filter (after_position document_position (rq_after req)) (filter (listed ctx domain) (kd_documents db))"
    by (auto simp: listed_def intro!: filter_cong)
  then show "list_documents tc db ctx domain req =
      build_page tc (take (fetch_limit req) (newest_first info_position (filter (after_position info_position (rq_after req))
        (map (document_info_of db (ac_tenant_id ctx)) (filter (listed ctx domain) (kd_documents db)))))) req info_position"
    by (simp add: list_documents_def filter_map comp_def after newest_first_map take_map)
qed

text \<open>
  The inventory and the full read agree. In every reachable state a client that follows the
  listing's cursors, whatever the page size, gets every document exactly once, newest first, and the
  ids it sees are exactly those whose full read returns a text for the same caller: a title is
  never shown of a document the caller could not open, nor an openable document left out.
\<close>

theorem listing_agrees_with_read:
  assumes "knowledge_reach env st" "inj (ge_uuid5 env)" "codec_ok tc" "1 \<le> limit" "limit \<le> MAX_PAGE_SIZE"
    "length (kd_documents (kp_db st)) < fuel"
  shows "\<exists>pages. follow_cursors tc (list_documents tc (kp_db st) ctx None) limit q fuel None = Some (Inr pages) \<and>
    distinct (map di_document_id (concat pages)) \<and>
    (\<forall>doc. doc \<in> di_document_id ` set (concat pages) \<longleftrightarrow> read_document (kp_db st) doc ctx max_chars \<noteq> None)"
proof -
  let ?db = "kp_db st"
  let ?rows = "map (document_info_of ?db (ac_tenant_id ctx)) (filter (listed ctx None) (kd_documents ?db))"
  have ok: "documents_ok env ?db" using knowledge_reach_ok [OF assms(1,2)] by (simp add: plane_ok_def)
  have ids: "di_document_id (document_info_of ?db t d) = dc_id d" for t d by (simp add: document_info_of_def)
  have dist: "distinct (map di_document_id ?rows)"
    using documents_okD(1) [OF ok] by (simp add: comp_def ids distinct_map_filter)
  then have "distinct (map info_position ?rows)"
    unfolding distinct_map inj_on_def by (auto simp: info_position_def)
  moreover have "length ?rows < fuel" by (simp add: le_less_trans [OF length_filter_le assms(6)])
  ultimately obtain pages where p: "follow_cursors tc (list_documents tc ?db ctx None) limit q fuel None = Some (Inr pages)"
      "concat pages = newest_first info_position ?rows"
    using document_inventory.follow_all [OF assms(3) _ assms(4,5), where db = ?db and ctx = ctx and domain = None and fuel = fuel and q = q]
    by blast
  have "distinct (map di_document_id (newest_first info_position rows))" if "distinct (map di_document_id rows)" for rows
    using that by (simp add: distinct_map newest_first_def)
  then have "distinct (map di_document_id (concat pages))" unfolding p(2) using dist by blast
  moreover have "doc \<in> di_document_id ` set (concat pages) \<longleftrightarrow> read_document ?db doc ctx max_chars \<noteq> None" for doc
    unfolding p(2) set_newest_first read_document_def
    by (auto simp: ids listed_def image_iff find_eq_None split: option.split dest!: find_SomeD)
  ultimately show ?thesis using p(1) by blast
qed

subsection \<open>Retention\<close>

lemma all_ok_nth: "all_ok xs = Inr ys \<Longrightarrow> x \<in> set xs \<Longrightarrow> \<exists>y \<in> set ys. x = Inr y"
proof (induction xs arbitrary: ys)
  case (Cons a xs)
  obtain b bs where b: "a = Inr b" "all_ok xs = Inr bs" "ys = b # bs" using Cons.prems(1) by (auto split: sum.splits simp: map_sum_def)
  show ?case
  proof (cases "x = a")
    case True then show ?thesis using b by simp
  next
    case False then show ?thesis using Cons.IH [OF b(2)] Cons.prems(2) b(3) by auto
  qed
qed simp

lemma foldl_audit_append: "pd_audit (foldl audit_append db es) = pd_audit db @ es"
  by (induction es arbitrary: db) (auto simp: audit_append_def)

lemma purge_audit_event:
  "purge_audit uuid5 fresh p now d = Inr e \<Longrightarrow>
     ae_tenant_id e = dc_tenant_id d \<and> ae_action e = PURGED_ACTION \<and> ae_resource_id e = JUuid (dc_id d) \<and> ae_occurred_at e = now"
  by (auto simp: purge_audit_def lane_audit_event_def make_audit_event_def split: sum.splits if_splits)

text \<open>
  A retention pass destroys only what may go, and says so. A document that a pass removes had been
  marked deleted for longer than the grace period of the policy and no evidence cites it; its chunks
  and its points in the index go with it; and the audit log of its own tenant has an entry naming it.
\<close>

theorem prune_removes_only_expired:
  assumes "knowledge_prune uuid5 fresh p now id st = (e, st')" "distinct (map dc_id (kd_documents (kp_db st)))"
    "d \<in> set (kd_documents (kp_db st))" "d \<notin> set (kd_documents (kp_db st'))"
  shows "dc_status d = ''deleted'' \<and> (\<exists>t. dc_deleted_at d = Some t \<and> t < now - days (kr_deleted_grace_days (rp_knowledge p))) \<and>
    (\<forall>ev \<in> set (kd_evidence (kp_db st)). er_source_document_id (ev_ref ev) \<noteq> dc_id d) \<and>
    (\<forall>c \<in> set (kd_chunks (kp_db st')). ck_document_id c \<noteq> dc_id d) \<and>
    (\<forall>x \<in> entries (kp_index st'). ix_document_id x \<noteq> dc_id d) \<and>
    (\<exists>a \<in> set (pd_audit (kp_platform st')). ae_tenant_id a = dc_tenant_id d \<and> ae_action a = PURGED_ACTION \<and>
       ae_resource_id a = JUuid (dc_id d) \<and> ae_occurred_at a = now)"
proof -
  define cutoff where "cutoff = now - days (kr_deleted_grace_days (rp_knowledge p))"
  define doomed where "doomed = fst (retention_candidates p cutoff (kp_db st))"
  define st1 where "st1 = st\<lparr>kp_index := foldl delete_document (kp_index st) doomed\<rparr>"
  have st1: "kp_db st1 = kp_db st" by (simp add: st1_def)
  have "st' = st1 \<or> (\<exists>n. delete_documents uuid5 fresh p now doomed st1 = Inr (n, st'))"
    using assms(1) unfolding knowledge_prune_def Let_def split_beta cutoff_def [symmetric] doomed_def [symmetric] st1_def [symmetric]
    by (auto split: if_splits sum.splits)
  then obtain n where del: "delete_documents uuid5 fresh p now doomed st1 = Inr (n, st')" using assms(3,4) st1 by auto
  note s = delete_documents_state [OF del, unfolded st1]
  have gone: "dc_id d \<in> set doomed" "\<not> document_cited (kp_db st) d" using assms(3,4) unfolding s(1) by auto
  have "dc_id d \<in> dc_id ` {d \<in> set (kd_documents (kp_db st)). expired_document cutoff d}"
    using gone(1) unfolding doomed_def retention_candidates_def by (auto dest: in_set_takeD)
  then obtain y where "y \<in> set (kd_documents (kp_db st))" "expired_document cutoff y" "dc_id y = dc_id d" by auto
  then have expired: "expired_document cutoff d" using same_id [OF assms(2) _ assms(3)] by blast
  obtain events where ev: "all_ok (map (purge_audit uuid5 fresh p now)
        (filter (\<lambda>d. dc_id d \<in> set doomed \<and> \<not> document_cited (kp_db st) d) (kd_documents (kp_db st)))) = Inr events"
      "kp_platform st' = foldl audit_append (kp_platform st1) events" using s(6) by blast
  obtain a where "a \<in> set events" "purge_audit uuid5 fresh p now d = Inr a"
    using all_ok_nth [OF ev(1), of "purge_audit uuid5 fresh p now d"] assms(3) gone by auto
  then have "\<exists>a \<in> set (pd_audit (kp_platform st')). ae_tenant_id a = dc_tenant_id d \<and> ae_action a = PURGED_ACTION \<and>
       ae_resource_id a = JUuid (dc_id d) \<and> ae_occurred_at a = now"
    using purge_audit_event unfolding ev(2) foldl_audit_append by fastforce
  moreover have "\<forall>c \<in> set (kd_chunks (kp_db st')). ck_document_id c \<noteq> dc_id d" using assms(3) gone unfolding s(2) by auto
  moreover have "\<forall>x \<in> entries (kp_index st'). ix_document_id x \<noteq> dc_id d"
    using in_memory.removed_documents [of "kp_index st" doomed] gone(1) unfolding s(4) st1_def by auto
  ultimately show ?thesis using expired gone(2)
    by (auto simp: expired_document_def document_cited_def list_ex_iff cutoff_def split: option.splits)
qed


subsection \<open>Where the promise is not kept\<close>

text \<open>
  Deletion reaches across tenants. A caller who deletes an id that no document of the caller's
  tenant has (another tenant's document, such as a global one it found in its own listing) leaves
  every row as it was, yet from then on no search of any caller in any tenant returns a passage of that
  document: the database refuses the change and the index makes it.
\<close>

theorem foreign_delete_silences:
  assumes "knowledge_reach env st" "inj (ge_uuid5 env)" "\<forall>d \<in> set (kd_documents (kp_db st)). dc_id d = doc \<longrightarrow> dc_tenant_id d \<noteq> ac_tenant_id ctx"
    "search env' fresh q reader (kp_index (soft_delete_document now doc ctx st)) = Inr found"
  shows "kp_db (soft_delete_document now doc ctx st) = kp_db st \<and> (\<forall>e \<in> set found. er_source_document_id (ek_evidence e) \<noteq> doc)"
proof -
  have ok: "chunks_ok (kp_db st)" using knowledge_reach_ok [OF assms(1,2)] by (simp add: plane_ok_def)
  have docs: "map (erase (ac_tenant_id ctx) doc now (ac_principal_id ctx)) (kd_documents (kp_db st)) = kd_documents (kp_db st)"
    using assms(3) by (auto simp: erase_def intro!: map_idI)
  have "ck_document_id c = doc \<longrightarrow> ck_tenant_id c \<noteq> ac_tenant_id ctx" if "c \<in> set (kd_chunks (kp_db st))" for c
    using ok that assms(3) unfolding chunks_ok_def holds_chunk_def by metis
  then have "map (erase_chunk (ac_tenant_id ctx) doc now) (kd_chunks (kp_db st)) = kd_chunks (kp_db st)"
    by (auto simp: erase_chunk_def intro!: map_idI)
  then have "kp_db (soft_delete_document now doc ctx st) = kp_db st"
    using docs by (simp add: soft_delete_document_def Let_def erase_def [symmetric] erase_chunk_def [symmetric])
  moreover have "er_source_document_id (ek_evidence e) \<noteq> doc" if e: "e \<in> set found" for e
  proof -
    obtain x where "x \<in> live (kp_index (soft_delete_document now doc ctx st))" "er_source_document_id (ek_evidence e) = ix_document_id x"
      using search_from_index [OF assms(4) e] by metis
    moreover have "kp_index (soft_delete_document now doc ctx st) = tombstone_document (kp_index st) doc"
      by (simp add: soft_delete_document_def Let_def)
    ultimately show ?thesis by (auto simp: in_memory.silence_reach)
  qed
  ultimately show ?thesis by blast
qed

text \<open>
  Narrowing who may read a document does not take effect on its row. When a document that exists
  is ingested again with other principals, its points in the index carry the new list, but the row
  keeps the first one, so whoever held one of the old principals still opens the new text with a full
  read.
\<close>

theorem reingest_keeps_old_principals:
  assumes "knowledge_reach env st" "inj (ge_uuid5 env)" "clean_identity cmd ctx" "ingest_document env now cmd ctx st = (Inr r, st')"
    "d \<in> set (kd_documents (kp_db st))" "dc_id d = id_document_id r"
    "ac_tenant_id reader = ac_tenant_id ctx" "ac_workspace_id reader = dc_workspace_id d"
    "ic_classification cmd \<in> set (classifications_for_clearance (ac_clearance reader))"
    "p \<in> set (context_principals reader)" "p \<in> set (dc_acl_principals d)"
  shows "read_document (kp_db st') (id_document_id r) reader max_chars \<noteq> None \<and>
    (\<forall>x \<in> live (kp_index st'). ix_document_id x = id_document_id r \<longrightarrow> ix_acl_principals x = ic_acl_principals cmd)"
  using assms(4)
proof (cases rule: ingest_document_cases)
  case (committed uri leaves superseded cs)
  let ?doc = "ingest_document_id env cmd ctx" and ?key = "ingest_doc_key env cmd ctx" and ?db' = "kp_db st'"
  let ?n = "new_document env now cmd ctx ?doc ?key uri"
  have doc: "id_document_id r = ?doc" using committed(4) by auto
  have ok: "documents_ok env (kp_db st)" "chunks_ok (kp_db st)" "index_sound (kp_db st) (kp_index st)"
    using knowledge_reach_ok [OF assms(1,2)] by (auto simp: plane_ok_def)
  note docs = ingest_transaction_docs [OF committed(2) documents_okD(1) [OF ok(1)], unfolded new_document_simps]
  have there: "?doc \<in> dc_id ` set (kd_documents (kp_db st))" using assms(5,6) unfolding doc by (metis image_eqI)
  obtain y x where y: "y \<in> set (kd_documents ?db')" "x \<in> set (kd_documents (kp_db st))" "dc_id x = ?doc" "dc_tenant_id x = ac_tenant_id ctx"
      "y = overwrite_document ?n x" using docs(4) there by blast
  have "x = d" by (rule same_id [OF documents_okD(1) [OF ok(1)] y(2) assms(5)]) (simp add: y(3) assms(6) doc)
  then have "document_visible reader y" "dc_id y = ?doc"
    using y assms(7-11)
    by (auto simp: document_visible_def document_readable_def visible_from_workspace_def list_ex_iff overwrite_document_def)
  then have "List.find (\<lambda>z. dc_id z = ?doc \<and> document_visible reader z) (kd_documents ?db') \<noteq> None" using y(1) by (auto simp: find_eq_None)
  then have "read_document ?db' ?doc reader max_chars \<noteq> None" by (auto simp: read_document_def)
  moreover have cs: "cs = [] \<or> (\<exists>vectors. length vectors = length leaves \<and>
      cs = map (\<lambda>(leaf, v). indexed_chunk env cmd ctx ?doc leaf v) (zip leaves vectors))" using committed(4) by blast
  have "live (kp_index st') = {x \<in> live (kp_index st). ix_document_id x \<noteq> ?doc \<and> ix_document_id x \<notin> set superseded} \<union> set cs"
    unfolding committed(3) by (rule ingest_index_sound(2) [OF assms(2) ok assms(3) refl refl committed(2) cs])
  moreover have "ix_acl_principals x = ic_acl_principals cmd" if "x \<in> set cs" for x
    using cs that by (auto simp: indexed_chunk_def)
  ultimately show ?thesis unfolding doc by blast
qed simp

text \<open>
  A document that comes back during a retention pass is destroyed. If a document the pass has
  chosen is ingested again before the deletes run, so that it is active and searchable, the pass still
  deletes its row and chunks, because the delete asks only whether the document is cited; its points
  stay in the index with no row behind them.
\<close>

theorem prune_destroys_revived:
  assumes "knowledge_prune uuid5 fresh p now meanwhile st = (None, st')"
    "doomed = fst (retention_candidates p (now - days (kr_deleted_grace_days (rp_knowledge p))) (kp_db st))"
    "doc \<in> set doomed" "st1 = meanwhile (st\<lparr>kp_index := foldl delete_document (kp_index st) doomed\<rparr>)"
    "x \<in> live (kp_index st1)" "ix_document_id x = doc"
    "\<forall>ev \<in> set (kd_evidence (kp_db st1)). er_source_document_id (ev_ref ev) \<noteq> doc"
  shows "x \<in> live (kp_index st') \<and> (\<forall>d \<in> set (kd_documents (kp_db st')). dc_id d \<noteq> doc)"
proof -
  have ne: "doomed \<noteq> []" using assms(3) by auto
  obtain n where "delete_documents uuid5 fresh p now doomed st1 = Inr (n, st')"
    using assms(1) ne unfolding knowledge_prune_def Let_def split_beta assms(2) [symmetric] assms(4) [symmetric]
    by (auto split: sum.splits)
  note s = delete_documents_state [OF this]
  have "document_cited (kp_db st1) d \<longleftrightarrow> False" if "dc_id d = doc" for d
    using assms(7) that by (auto simp: document_cited_def list_ex_iff)
  then show ?thesis using assms(3,5) unfolding s(1,4) by auto
qed

text \<open>
  Two documents can share an identity. The key a document id is computed from joins its fields
  with colons without escaping them: in one workspace and domain, the title \<^verbatim>\<open>Q:1\<close> at version
  \<^verbatim>\<open>2\<close> and the title \<^verbatim>\<open>Q\<close> at version \<^verbatim>\<open>1:2\<close> get the same id, whatever the hash, while their version-independent keys are those
  of two different documents: ingesting one overwrites the other.
\<close>

theorem colon_identity_clash:
  "document_id_for uuid5 tenant ws domain (ulit ''Q:1'') ''2'' ''tenant'' None =
     document_id_for uuid5 tenant ws domain (ulit ''Q'') ''1:2'' ''tenant'' None \<and>
   (inj uuid5 \<longrightarrow> doc_key_for uuid5 tenant ws domain (ulit ''Q:1'') ''tenant'' None \<noteq> doc_key_for uuid5 tenant ws domain (ulit ''Q'') ''tenant'' None)"
  by (auto simp: document_id_for_def document_key_def doc_key_for_def identity_name_def ulit_Cons ulit_Nil ustrip_def strip_by_def py_isspace_def inj_eq)

end
