(* ===== verification/RetrievalSamples.thy ===== *)
theory RetrievalSamples
  imports Retrieval "HOL-Library.Countable"
begin

text \<open>
  Concrete runs of the knowledge gateway: one document ingested, found, listed, read, ingested again,
  deleted and purged, at which the theorems of \<open>Retrieval\<close> apply.
\<close>


text \<open>
  A plane with one global document, published by user 3 of tenant 1 and readable tenant-wide. The
  name-based ids are an injective coding of the key.
\<close>

definition sample_gateway :: gateway_env where
  "sample_gateway =
     \<lparr>ge_uuid5 = list_encode, ge_sha256 = (\<lambda>_. ''h''), ge_unicode = ascii_unicode, ge_put_object = (\<lambda>k. Inr k),
      ge_embed = (\<lambda>texts. Inr (map (\<lambda>_. [1]) texts)), ge_sqrt = (\<lambda>x. x), ge_reranker = None, ge_rerank_fetch_multiplier = 4\<rparr>"

definition sample_author :: access_context where
  "sample_author = (access_context_defaults 1 2 3 {} ''free'')\<lparr>ac_scopes := {GLOBAL_PUBLISH_SCOPE}\<rparr>"

definition sample_stranger :: access_context where
  "sample_stranger = access_context_defaults 7 8 9 {} ''free''"

definition sample_ingest :: "string list \<Rightarrow> ingest_command" where
  "sample_ingest acl =
     \<lparr>ic_title = [84], ic_content = [98], ic_identity_key = None, ic_domain = ''shared'', ic_classification = ''internal'',
      ic_source_version = ''1'', ic_content_type = ''text/plain'', ic_scope = ''global'', ic_extra = [], ic_acl_principals = acl\<rparr>"

definition sample_plane :: "unit knowledge_plane" where
  "sample_plane =
     \<lparr>kp_db = \<lparr>kd_documents = [], kd_chunks = [], kd_evidence = []\<rparr>, kp_index = \<lparr>vi_chunks = [], vi_tombstoned = {}\<rparr>, kp_objects = [],
      kp_platform = \<lparr>pd_approvals = [], pd_decisions = [], pd_outbox = [], pd_audit = [], pd_codes = ()\<rparr>\<rparr>"

definition sample_search :: search_query where
  "sample_search = \<lparr>sq_text = [98], sq_domain = ''shared'', sq_top_k = 8, sq_document_ids = [], sq_min_relevance = 0, sq_filters = []\<rparr>"

abbreviation sample_doc :: uuid where
  "sample_doc \<equiv> ingest_document_id sample_gateway (sample_ingest [''tenant:*'']) sample_author"

abbreviation sample_leaf :: leaf_chunk where
  "sample_leaf \<equiv> \<lparr>lf_seq = 0, lf_section_index = 0, lf_section_path = [], lf_start_offset = 0, lf_end_offset = 1, lf_content = [98]\<rparr>"

lemma sample_inj: "inj (ge_uuid5 sample_gateway)"
  by (simp add: sample_gateway_def inj_list_encode)

lemma sample_clean: "clean_identity (sample_ingest acl) sample_author"
  by (simp add: clean_identity_def sample_ingest_def sample_author_def access_context_defaults_def identity_name_def ustrip_def
      strip_by_def py_isspace_def)

lemma sample_leaves: "ingest_leaves sample_gateway (sample_ingest acl) = Inr [sample_leaf]"
proof -
  have sections: "build_sections [98] (find_headings ascii_unicode 0 (splitlines [98])) =
      [\<lparr>os_index = 0, os_path = [], os_level = 0, os_start_offset = 0, os_end_offset = 1, os_content = [98]\<rparr>]"
    by (simp add: line_eval build_sections_def HEADING_PREFIXES_def ascii_unicode_def)
  have "window_end [98] 1200 0 1 = 1" by (simp add: window_end_def)
  then have "split_section [98] 0 1 0 0 [] 1200 150 = [sample_leaf]"
    by (subst split_section_unfold [OF _ refl refl]) (simp_all add: window_leaf_def Let_def slice_def ustrip_def strip_by_def py_isspace_def)
  then show ?thesis
    using sections by (simp add: ingest_leaves_def structure_aware_chunks_def sample_gateway_def sample_ingest_def MAX_CHUNK_CHARS_def
        CHUNK_OVERLAP_CHARS_def ublank_def ustrip_def strip_by_def py_isspace_def)
qed


abbreviation sample_key :: uuid where
  "sample_key \<equiv> ingest_doc_key sample_gateway (sample_ingest [''tenant:*'']) sample_author"

abbreviation sample_storage :: string where
  "sample_storage \<equiv> storage_key sample_author sample_doc"

abbreviation sample_row :: "instant \<Rightarrow> string list \<Rightarrow> document_row" where
  "sample_row now acl \<equiv> new_document sample_gateway now (sample_ingest acl) sample_author sample_doc sample_key sample_storage"

abbreviation sample_chunk :: chunk_row where
  "sample_chunk \<equiv> new_chunk sample_gateway sample_author sample_doc sample_leaf"

abbreviation sample_point :: "string list \<Rightarrow> indexable_chunk" where
  "sample_point acl \<equiv> indexed_chunk sample_gateway (sample_ingest acl) sample_author sample_doc sample_leaf [1]"

abbreviation sample_receipt :: ingested_document where
  "sample_receipt \<equiv> \<lparr>id_document_id = sample_doc, id_chunk_count = 1, id_storage_key = sample_storage\<rparr>"

definition sample_stored :: "unit knowledge_plane" where
  "sample_stored =
     sample_plane\<lparr>kp_db := \<lparr>kd_documents = [sample_row 10 [''tenant:*'']], kd_chunks = [sample_chunk], kd_evidence = []\<rparr>,
       kp_index := \<lparr>vi_chunks = [(ix_chunk_id (sample_point [''tenant:*'']), sample_point [''tenant:*''])], vi_tombstoned = {}\<rparr>,
       kp_objects := [(sample_storage, [98])]\<rparr>"

lemma sample_same: "ingest_document_id sample_gateway (sample_ingest acl) sample_author = sample_doc"
  "ingest_doc_key sample_gateway (sample_ingest acl) sample_author = sample_key"
  by (simp_all add: ingest_document_id_def ingest_doc_key_def sample_ingest_def)

lemma sample_env:
  "ge_put_object sample_gateway k = Inr k" "ge_embed sample_gateway texts = Inr (map (\<lambda>_. [1]) texts)"
  "ic_scope (sample_ingest acl) = ''global''" "GLOBAL_PUBLISH_SCOPE \<in> ac_scopes sample_author" "ic_content (sample_ingest acl) = [98]"
  "ac_tenant_id sample_author = 1" "ac_workspace_id sample_author = 2" "ic_title (sample_ingest acl) = [84]"
  "ge_reranker sample_gateway = None" "ge_sqrt sample_gateway = (\<lambda>x. x)"
  by (simp_all add: sample_gateway_def sample_ingest_def sample_author_def access_context_defaults_def)

lemma sample_chunk_simps:
  "ck_tenant_id sample_chunk = 1" "ck_document_id sample_chunk = sample_doc" "ck_status sample_chunk = ''active''" "ck_seq sample_chunk = 0"
  "ix_document_id (sample_point acl) = sample_doc" "ck_content sample_chunk = [98]" "ck_workspace_id sample_chunk = 2"
  "ck_id sample_chunk = ix_chunk_id (sample_point acl)"
  by (simp_all add: new_chunk_def indexed_chunk_def sample_env)

lemma sample_ingested:
  "ingest_document sample_gateway 10 (sample_ingest [''tenant:*'']) sample_author sample_plane = (Inr sample_receipt, sample_stored)"
proof -
  have tx: "ingest_transaction 1 10 sample_key (sample_row 10 [''tenant:*'']) [sample_chunk] \<lparr>kd_documents = [], kd_chunks = [], kd_evidence = []\<rparr> =
      Inr ([], \<lparr>kd_documents = [sample_row 10 [''tenant:*'']], kd_chunks = [sample_chunk], kd_evidence = []\<rparr>)"
    by (simp add: ingest_transaction_def upsert_document_def replace_chunks_def set_chunk_status_def Let_def del: One_nat_def)
  have ix: "index_leaves sample_gateway (sample_ingest [''tenant:*'']) sample_author sample_doc [sample_leaf] \<lparr>vi_chunks = [], vi_tombstoned = {}\<rparr> =
      (None, \<lparr>vi_chunks = [(ix_chunk_id (sample_point [''tenant:*'']), sample_point [''tenant:*''])], vi_tombstoned = {}\<rparr>)"
    by (simp add: index_leaves_def sample_env upsert_def upsert_one_def)
  show ?thesis
    by (simp add: ingest_document_def Let_def sample_env sample_leaves sample_plane_def tx ix delete_document_def sample_stored_def del: One_nat_def)
qed

lemma sample_reach: "knowledge_reach sample_gateway sample_stored"
  by (rule knowledge_reach.ingested [OF _ sample_clean sample_ingested]) (rule knowledge_reach.empty; simp add: sample_plane_def)

abbreviation sample_evidence :: evidence_chunk where
  "sample_evidence \<equiv> evidence_of 0 1 (hit_of (\<lambda>x. x) [1] (sample_point [''tenant:*'']))"

lemma sample_found: "search sample_gateway (\<lambda>n. n) sample_search sample_author (kp_index sample_stored) = Inr [sample_evidence]"
proof -
  have hits: "index_search (\<lambda>x. x) [1] (build_trusted_filter sample_author ''shared'') 8 [] [] (kp_index sample_stored) =
      [hit_of (\<lambda>x. x) [1] (sample_point [''tenant:*''])]"
    by (simp add: sample_stored_def index_search_def narrowed_def trusted_def build_trusted_filter_def
      indexed_chunk_def sample_ingest_def context_principals_def classifications_for_clearance_def CLEARANCE_ALLOWS_def sample_author_def
      access_context_defaults_def SHARED_DOMAIN_def)
  have score: "score_of [] (hit_of (\<lambda>x. x) [1] (sample_point [''tenant:*''])) = 1"
    by (simp add: score_of_def hit_of_def cosine_def indexed_chunk_def)
  show ?thesis by (simp add: search_def sample_env sample_search_def hits score del: One_nat_def)
qed

lemma sample_evidence_simps: "er_source_document_id (ek_evidence sample_evidence) = sample_doc" "ek_content sample_evidence = [98]"
  by (simp_all add: evidence_of_def hit_of_def indexed_chunk_def)


theorem search_result_citable_witness:
  "check_ref (cited_rows (kp_db sample_stored) 1 [ek_evidence sample_evidence]) 2 (ek_evidence sample_evidence) = Inr ()"
  using search_result_citable [OF sample_reach sample_inj sample_found, of sample_evidence]
  by (simp add: sample_stored_def sample_env sample_evidence_simps del: One_nat_def)





lemma sample_row_simps [simp]:
  "dc_created_at (new_document env now cmd ctx doc key uri) = now"
  by (simp add: new_document_def)

lemma sample_visible: "document_visible sample_author (sample_row now [''tenant:*''])"
  by (simp add: document_visible_def document_readable_def visible_from_workspace_def sample_ingest_def sample_author_def
      access_context_defaults_def classifications_for_clearance_def CLEARANCE_ALLOWS_def context_principals_def)

theorem listing_agrees_with_read_witness:
  "\<exists>pages. follow_cursors sample_codec (list_documents sample_codec (kp_db sample_stored) sample_author None) 1 (sample_query []) 5 None =
     Some (Inr pages) \<and> sample_doc \<in> di_document_id ` set (concat pages)"
proof -
  obtain pages where p: "follow_cursors sample_codec (list_documents sample_codec (kp_db sample_stored) sample_author None) 1 (sample_query []) 5 None =
      Some (Inr pages)"
    "\<forall>doc. doc \<in> di_document_id ` set (concat pages) \<longleftrightarrow> read_document (kp_db sample_stored) doc sample_author 10 \<noteq> None"
    using listing_agrees_with_read [OF sample_reach sample_inj sample_codec_ok, of 1 5 sample_author "sample_query []" 10]
    by (auto simp: MAX_PAGE_SIZE_def sample_stored_def)
  moreover have "read_document (kp_db sample_stored) sample_doc sample_author 10 \<noteq> None"
    using sample_visible by (simp add: read_document_def sample_stored_def)
  ultimately show ?thesis by blast
qed

text \<open>The stored document ingested again, with another list of principals.\<close>

lemma sample_reingested:
  assumes "kp_db st = \<lparr>kd_documents = [d], kd_chunks = [c], kd_evidence = []\<rparr>" "dc_id d = sample_doc" "dc_tenant_id d = 1"
    "ck_tenant_id c = 1" "ck_document_id c = sample_doc"
  shows "ingest_document sample_gateway now (sample_ingest acl) sample_author st =
    (Inr sample_receipt,
     st\<lparr>kp_objects := AList.update sample_storage [98] (kp_objects st),
        kp_db := \<lparr>kd_documents = [overwrite_document (sample_row now acl) d], kd_chunks = [sample_chunk], kd_evidence = []\<rparr>,
        kp_index := upsert_one (delete_document (kp_index st) sample_doc) (sample_point acl)\<rparr>)"
proof -
  have tx: "ingest_transaction 1 now sample_key (sample_row now acl) [sample_chunk] (kp_db st) =
      Inr ([], \<lparr>kd_documents = [overwrite_document (sample_row now acl) d], kd_chunks = [sample_chunk], kd_evidence = []\<rparr>)"
    using assms by (simp add: ingest_transaction_def upsert_document_def replace_chunks_def set_chunk_status_def Let_def replaces_version_def del: One_nat_def)
  have ix: "index_leaves sample_gateway (sample_ingest acl) sample_author sample_doc [sample_leaf] ix = (None, upsert_one ix (sample_point acl))" for ix
    by (simp add: index_leaves_def sample_env upsert_def)
  show ?thesis
    by (simp add: ingest_document_def Let_def sample_env sample_leaves sample_same [of acl] tx ix del: One_nat_def)
qed

theorem reingest_keeps_old_principals_witness:
  "\<exists>st :: unit knowledge_plane. ingest_document sample_gateway 30 (sample_ingest [''user:x'']) sample_author sample_stored = (Inr sample_receipt, st) \<and>
     read_document (kp_db st) sample_doc sample_author 10 \<noteq> None \<and>
     (\<forall>x \<in> live (kp_index st). ix_document_id x = sample_doc \<longrightarrow> ix_acl_principals x = [''user:x''])"
proof -
  let ?d = "sample_row 10 [''tenant:*'']"
  have stored: "kp_db sample_stored = \<lparr>kd_documents = [?d], kd_chunks = [sample_chunk], kd_evidence = []\<rparr>" by (simp add: sample_stored_def)
  obtain st :: "unit knowledge_plane" where st: "ingest_document sample_gateway 30 (sample_ingest [''user:x'']) sample_author sample_stored = (Inr sample_receipt, st)"
    using sample_reingested [of sample_stored ?d sample_chunk, OF stored _ _ sample_chunk_simps(1,2)] by (simp add: sample_env del: One_nat_def)
  have "read_document (kp_db st) (id_document_id sample_receipt) sample_author 10 \<noteq> None \<and>
    (\<forall>x \<in> live (kp_index st). ix_document_id x = id_document_id sample_receipt \<longrightarrow> ix_acl_principals x = ic_acl_principals (sample_ingest [''user:x'']))"
    by (rule reingest_keeps_old_principals [OF sample_reach sample_inj sample_clean st, where d = ?d and p = "''tenant:*''"])
      (simp_all add: sample_stored_def sample_ingest_def sample_author_def access_context_defaults_def classifications_for_clearance_def
        CLEARANCE_ALLOWS_def context_principals_def)
  then show ?thesis using st by (intro exI [of _ st]) (simp add: sample_ingest_def)
qed

theorem foreign_delete_silences_witness:
  "search sample_gateway (\<lambda>n. n) sample_search sample_author (kp_index sample_stored) = Inr [sample_evidence] \<and>
   er_source_document_id (ek_evidence sample_evidence) = sample_doc \<and>
   kp_db (soft_delete_document 20 sample_doc sample_stranger sample_stored) = kp_db sample_stored \<and>
   search sample_gateway (\<lambda>n. n) sample_search sample_author (kp_index (soft_delete_document 20 sample_doc sample_stranger sample_stored)) = Inr []"
proof -
  have "index_search (\<lambda>x. x) [1] (build_trusted_filter sample_author ''shared'') 8 [] []
      (kp_index (soft_delete_document 20 sample_doc sample_stranger sample_stored)) = []"
    by (simp add: sample_stored_def index_search_def soft_delete_document_def tombstone_document_def sample_chunk_simps Let_def del: One_nat_def)
  then have none: "search sample_gateway (\<lambda>n. n) sample_search sample_author (kp_index (soft_delete_document 20 sample_doc sample_stranger sample_stored)) = Inr []"
    by (simp add: search_def sample_env sample_search_def)
  have "kp_db (soft_delete_document 20 sample_doc sample_stranger sample_stored) = kp_db sample_stored \<and>
      (\<forall>e \<in> set ([] :: evidence_chunk list). er_source_document_id (ek_evidence e) \<noteq> sample_doc)"
    by (rule foreign_delete_silences [OF sample_reach sample_inj _ none])
      (simp add: sample_stored_def sample_env sample_stranger_def access_context_defaults_def)
  then show ?thesis using none sample_found sample_evidence_simps by blast
qed

theorem colon_identity_clash_witness:
  "document_id_for list_encode 1 2 ''d'' (ulit ''Q:1'') ''2'' ''tenant'' None = document_id_for list_encode 1 2 ''d'' (ulit ''Q'') ''1:2'' ''tenant'' None \<and>
   doc_key_for list_encode 1 2 ''d'' (ulit ''Q:1'') ''tenant'' None \<noteq> doc_key_for list_encode 1 2 ''d'' (ulit ''Q'') ''tenant'' None"
  using colon_identity_clash [of list_encode 1 2 "''d''"] inj_list_encode by blast


text \<open>The stored document deleted, and the retention pass a month and a day later.\<close>

definition sample_deleted :: "unit knowledge_plane" where
  "sample_deleted = soft_delete_document 20 sample_doc sample_author sample_stored"

abbreviation sample_later :: instant where
  "sample_later \<equiv> 20 + days 31"

abbreviation sample_dead :: document_row where
  "sample_dead \<equiv> delete_row 20 3 (sample_row 10 [''tenant:*''])"

abbreviation sample_dead_chunk :: chunk_row where
  "sample_dead_chunk \<equiv> sample_chunk\<lparr>ck_status := ''deleted'', ck_deleted_at := Some 20\<rparr>"

lemma sample_deleted_db: "kp_db sample_deleted = \<lparr>kd_documents = [sample_dead], kd_chunks = [sample_dead_chunk], kd_evidence = []\<rparr>"
proof -
  have "ac_principal_id sample_author = 3" by (simp add: sample_author_def access_context_defaults_def)
  then show ?thesis
    by (simp add: sample_deleted_def soft_delete_document_def sample_stored_def Let_def sample_env sample_chunk_simps del: One_nat_def)
qed

lemma sample_candidates:
  "retention_candidates sample_retention (sample_later - days (kr_deleted_grace_days (rp_knowledge sample_retention))) (kp_db sample_deleted) =
     ([sample_doc], 0)"
  by (simp add: retention_candidates_def sample_deleted_db expired_document_def document_cited_def sample_retention_def delete_row_def)

lemma sample_purge_audit: "\<exists>e. purge_audit (\<lambda>_. 4) (\<lambda>u. u) sample_retention sample_later d = Inr e"
  by (simp add: purge_audit_def lane_audit_event_def system_actor_def system_actor_label_def KNOWLEDGE_LANE_def is_lane_name_def lane_char_def
      make_audit_event_def PURGED_ACTION_def blank_simps)

lemma sample_purge:
  fixes st :: "'c knowledge_plane"
  assumes "kp_db st = \<lparr>kd_documents = [d], kd_chunks = [c], kd_evidence = []\<rparr>" "dc_id d = sample_doc"
  shows "\<exists>n st'. delete_documents (\<lambda>_. 4) (\<lambda>u. u) sample_retention sample_later [sample_doc] st = Inr (n, st') \<and>
    kd_documents (kp_db st') = []"
  using assms sample_purge_audit [of d] by (auto simp: delete_documents_def Let_def document_cited_def)

theorem prune_removes_only_expired_witness:
  "\<exists>e st'. knowledge_prune (\<lambda>_. 4) (\<lambda>u. u) sample_retention sample_later id sample_deleted = (e, st') \<and>
     (\<exists>a \<in> set (pd_audit (kp_platform st')). ae_action a = PURGED_ACTION \<and> ae_resource_id a = JUuid sample_doc) \<and>
     (\<forall>x \<in> entries (kp_index st'). ix_document_id x \<noteq> sample_doc)"
proof -
  let ?st1 = "sample_deleted\<lparr>kp_index := foldl delete_document (kp_index sample_deleted) [sample_doc]\<rparr>"
  obtain n and st' :: "unit knowledge_plane" where st': "delete_documents (\<lambda>_. 4) (\<lambda>u. u) sample_retention sample_later [sample_doc] ?st1 = Inr (n, st')"
      "kd_documents (kp_db st') = []"
    using sample_purge [of ?st1 sample_dead sample_dead_chunk] sample_deleted_db by auto
  have p: "knowledge_prune (\<lambda>_. 4) (\<lambda>u. u) sample_retention sample_later id sample_deleted = (None, st')"
    using st'(1) unfolding knowledge_prune_def Let_def sample_candidates by simp
  from prune_removes_only_expired [OF p, of sample_dead] st'(2)
  show ?thesis using p by (intro exI [of _ None] exI [of _ st']) (auto simp: sample_deleted_db)
qed

lemma alist_update_mem: "(k, v) \<in> set (AList.update k v al)"
  by (induction al) auto

theorem prune_destroys_revived_witness:
  "\<exists>st' :: unit knowledge_plane. knowledge_prune (\<lambda>_. 4) (\<lambda>u. u) sample_retention sample_later
       (\<lambda>s. snd (ingest_document sample_gateway sample_later (sample_ingest [''tenant:*'']) sample_author s)) sample_deleted = (None, st') \<and>
     sample_point [''tenant:*''] \<in> live (kp_index st') \<and> (\<forall>d \<in> set (kd_documents (kp_db st')). dc_id d \<noteq> sample_doc)"
proof -
  let ?again = "\<lambda>s :: unit knowledge_plane. snd (ingest_document sample_gateway sample_later (sample_ingest [''tenant:*'']) sample_author s)"
  let ?s = "sample_deleted\<lparr>kp_index := foldl delete_document (kp_index sample_deleted) [sample_doc]\<rparr>"
  have s: "kp_db ?s = \<lparr>kd_documents = [sample_dead], kd_chunks = [sample_dead_chunk], kd_evidence = []\<rparr>" by (simp add: sample_deleted_db)
  have "ck_tenant_id sample_dead_chunk = 1" "ck_document_id sample_dead_chunk = sample_doc" "dc_id sample_dead = sample_doc" "dc_tenant_id sample_dead = 1"
    by (simp_all add: sample_chunk_simps sample_env del: One_nat_def)
  note again = sample_reingested [OF s this(3,4,1,2), of sample_later "[''tenant:*'']"]
  have db: "kp_db (?again ?s) = \<lparr>kd_documents = [overwrite_document (sample_row sample_later [''tenant:*'']) sample_dead], kd_chunks = [sample_chunk], kd_evidence = []\<rparr>"
    and ix: "kp_index (?again ?s) = upsert_one (delete_document (kp_index ?s) sample_doc) (sample_point [''tenant:*''])"
    unfolding again by simp_all
  obtain n and st' :: "unit knowledge_plane" where st': "delete_documents (\<lambda>_. 4) (\<lambda>u. u) sample_retention sample_later [sample_doc] (?again ?s) = Inr (n, st')"
    using sample_purge [OF db] by auto
  have p: "knowledge_prune (\<lambda>_. 4) (\<lambda>u. u) sample_retention sample_later ?again sample_deleted = (None, st')"
    using st' unfolding knowledge_prune_def Let_def sample_candidates by simp
  have live: "sample_point [''tenant:*''] \<in> live (kp_index (?again ?s))"
    unfolding ix using alist_update_mem by (force simp: live_def entries_def upsert_one_def sample_chunk_simps)
  have candidates: "[sample_doc] = fst (retention_candidates sample_retention
      (sample_later - days (kr_deleted_grace_days (rp_knowledge sample_retention))) (kp_db sample_deleted))"
    by (simp only: sample_candidates fst_conv)
  have uncited: "\<forall>ev \<in> set (kd_evidence (kp_db (?again ?s))). er_source_document_id (ev_ref ev) \<noteq> sample_doc" unfolding db by simp
  from prune_destroys_revived [OF p candidates _ refl live sample_chunk_simps(5) uncited] p show ?thesis by auto
qed

end
