(* ===== verification/IngestJobs.thy ===== *)
theory IngestJobs
  imports RetrievalSamples
begin

text \<open>
  The durable upload queue: the job store of \<^verbatim>\<open>dw_knowledge/ingest_jobs.py\<close>, the worker's consumer
  \<^verbatim>\<open>dw_worker/consumers/ingest.py\<close> and the upload route of \<^verbatim>\<open>dw_api/routes/v1/knowledge.py\<close>. The table
  is a list of rows; a claim returns the row it updated, and the copy a worker holds is the handle the
  later calls are made with. Files, the object storage and the document parser are parameters.
\<close>

subsection \<open>Jobs\<close>

definition DEFAULT_LEASE_SECONDS :: int where "DEFAULT_LEASE_SECONDS = 900"
definition DEFAULT_HEARTBEAT_SECONDS :: int where "DEFAULT_HEARTBEAT_SECONDS = 300"
definition DEFAULT_RETRY_BACKOFF_SECONDS :: int where "DEFAULT_RETRY_BACKOFF_SECONDS = 30"
definition DEFAULT_MAX_ATTEMPTS :: nat where "DEFAULT_MAX_ATTEMPTS = 3"
definition MAX_ERROR_CHARS :: nat where "MAX_ERROR_CHARS = 2000"

record enqueue_command =
  eq_title :: ustr
  eq_filename :: ustr
  eq_content_type :: string
  eq_identity_key :: "ustr option"
  eq_domain :: string
  eq_classification :: string
  eq_source_version :: string
  eq_scope :: string
  eq_extra :: "(string \<times> string) list"
  eq_acl_principals :: "string list"

definition enqueue_ingest_command :: "enqueue_command \<Rightarrow> enqueue_command res" where
  "enqueue_ingest_command cmd =
     (if eq_title cmd = [] \<or> eq_filename cmd = [] \<or> eq_identity_key cmd = Some [] \<or> \<not> keys_whitelisted (eq_extra cmd)
      then Inl ValidationError else Inr cmd)"

record ingest_job =
  ij_id :: uuid
  ij_tenant_id :: uuid
  ij_workspace_id :: uuid
  ij_created_by :: uuid
  ij_title :: ustr
  ij_identity_key :: "ustr option"
  ij_domain :: string
  ij_classification :: string
  ij_source_version :: string
  ij_scope :: string
  ij_filename :: ustr
  ij_content_type :: string
  ij_storage_key :: ustr
  ij_status :: string
  ij_attempts :: nat
  ij_max_attempts :: nat
  ij_available_at :: instant
  ij_lease_until :: "instant option"
  ij_error :: "string option"
  ij_document_id :: "uuid option"
  ij_chunk_count :: "nat option"
  ij_created_at :: instant
  ij_updated_at :: instant
  ij_extra :: "(string \<times> string) list"
  ij_acl_principals :: "string list"
  ij_warnings :: "string list"

type_synonym job_table = "ingest_job list"

subsection \<open>The store\<close>

definition new_job :: "instant \<Rightarrow> uuid \<Rightarrow> enqueue_command \<Rightarrow> access_context \<Rightarrow> ustr \<Rightarrow> ingest_job" where
  "new_job now job_id cmd ctx skey =
     \<lparr>ij_id = job_id, ij_tenant_id = ac_tenant_id ctx, ij_workspace_id = ac_workspace_id ctx, ij_created_by = ac_principal_id ctx,
      ij_title = eq_title cmd, ij_identity_key = eq_identity_key cmd, ij_domain = eq_domain cmd,
      ij_classification = eq_classification cmd, ij_source_version = eq_source_version cmd, ij_scope = eq_scope cmd,
      ij_filename = eq_filename cmd, ij_content_type = eq_content_type cmd, ij_storage_key = skey, ij_status = ''queued'',
      ij_attempts = 0, ij_max_attempts = DEFAULT_MAX_ATTEMPTS, ij_available_at = now, ij_lease_until = None, ij_error = None,
      ij_document_id = None, ij_chunk_count = None, ij_created_at = now, ij_updated_at = now, ij_extra = dict_of (eq_extra cmd),
      ij_acl_principals = eq_acl_principals cmd, ij_warnings = []\<rparr>"

definition enqueue :: "instant \<Rightarrow> uuid \<Rightarrow> enqueue_command \<Rightarrow> access_context \<Rightarrow> ustr \<Rightarrow> job_table \<Rightarrow> (uuid \<times> job_table) res" where
  "enqueue now job_id cmd ctx skey jobs =
     (if job_id \<in> ij_id ` set jobs then Inl (OtherError ''IntegrityError'') else Inr (job_id, jobs @ [new_job now job_id cmd ctx skey]))"

definition get_job :: "job_table \<Rightarrow> uuid \<Rightarrow> access_context \<Rightarrow> ingest_job option" where
  "get_job jobs job_id ctx = List.find (\<lambda>j. ij_tenant_id j = ac_tenant_id ctx \<and> ij_id j = job_id) jobs"

text \<open>\<^verbatim>\<open>newest.setdefault\<close> over rows ordered by source and age: the newest job of each source.\<close>

definition latest_for_sources :: "job_table \<Rightarrow> string list \<Rightarrow> access_context \<Rightarrow> string \<Rightarrow> uuid option" where
  "latest_for_sources jobs sources ctx =
     (let wanted = filter (\<lambda>s. s \<noteq> []) sources;
          rows = sort_by (\<lambda>j. - ij_created_at j)
            (filter (\<lambda>j. ij_tenant_id j = ac_tenant_id ctx \<and> ij_source_version j \<in> set wanted) jobs)
      in (\<lambda>source. map_option ij_id (List.find (\<lambda>j. ij_source_version j = source) rows)))"

definition claimable :: "instant \<Rightarrow> ingest_job \<Rightarrow> bool" where
  "claimable now j \<longleftrightarrow>
     ij_status j = ''queued'' \<and> ij_available_at j \<le> now \<or>
     ij_status j = ''processing'' \<and> (case ij_lease_until j of None \<Rightarrow> False | Some t \<Rightarrow> t < now)"

definition claim_row :: "instant \<Rightarrow> int \<Rightarrow> ingest_job \<Rightarrow> ingest_job" where
  "claim_row now lease j =
     j\<lparr>ij_status := ''processing'', ij_attempts := ij_attempts j + 1, ij_lease_until := Some (now + seconds lease), ij_updated_at := now\<rparr>"

definition update_job :: "uuid \<Rightarrow> (ingest_job \<Rightarrow> ingest_job) \<Rightarrow> job_table \<Rightarrow> job_table" where
  "update_job job_id f jobs = map (\<lambda>j. if ij_id j = job_id then f j else j) jobs"

definition claim_next :: "instant \<Rightarrow> int \<Rightarrow> job_table \<Rightarrow> ingest_job option \<times> job_table" where
  "claim_next now lease jobs =
     (case sort_by ij_available_at (filter (claimable now) jobs) of
        [] \<Rightarrow> (None, jobs)
      | row # _ \<Rightarrow> (Some (claim_row now lease row), update_job (ij_id row) (claim_row now lease) jobs))"

text \<open>The owner's copy carries the attempt count its claim set; the row must still have it.\<close>

definition owned :: "ingest_job \<Rightarrow> ingest_job \<Rightarrow> bool" where
  "owned job j \<longleftrightarrow> ij_tenant_id j = ij_tenant_id job \<and> ij_id j = ij_id job \<and> ij_status j = ''processing'' \<and> ij_attempts j = ij_attempts job"

definition renew_lease :: "instant \<Rightarrow> int \<Rightarrow> ingest_job \<Rightarrow> job_table \<Rightarrow> bool \<times> job_table" where
  "renew_lease now lease job jobs =
     (list_ex (owned job) jobs,
      map (\<lambda>j. if owned job j then j\<lparr>ij_lease_until := Some (now + seconds lease), ij_updated_at := now\<rparr> else j) jobs)"

definition same_row :: "ingest_job \<Rightarrow> ingest_job \<Rightarrow> bool" where
  "same_row job j \<longleftrightarrow> ij_tenant_id j = ij_tenant_id job \<and> ij_id j = ij_id job"

definition mark_done :: "instant \<Rightarrow> ingest_job \<Rightarrow> uuid \<Rightarrow> nat \<Rightarrow> string list \<Rightarrow> job_table \<Rightarrow> job_table" where
  "mark_done now job doc chunks warnings jobs =
     map (\<lambda>j. if same_row job j
              then j\<lparr>ij_status := ''done'', ij_document_id := Some doc, ij_chunk_count := Some chunks, ij_error := None,
                     ij_warnings := warnings, ij_lease_until := None, ij_updated_at := now\<rparr> else j) jobs"

definition backoff :: "int \<Rightarrow> nat \<Rightarrow> int" where
  "backoff retry_seconds attempts = seconds (retry_seconds * 2 ^ (attempts - 1))"

definition fail_row :: "int \<Rightarrow> instant \<Rightarrow> ingest_job \<Rightarrow> string \<Rightarrow> ingest_job \<Rightarrow> ingest_job" where
  "fail_row retry_seconds now job error j =
     (let j' = j\<lparr>ij_error := Some (take MAX_ERROR_CHARS error), ij_lease_until := None, ij_updated_at := now\<rparr>
      in if ij_max_attempts job \<le> ij_attempts job then j'\<lparr>ij_status := ''failed''\<rparr>
         else j'\<lparr>ij_status := ''queued'', ij_available_at := now + backoff retry_seconds (ij_attempts job)\<rparr>)"

definition mark_failed :: "int \<Rightarrow> instant \<Rightarrow> ingest_job \<Rightarrow> string \<Rightarrow> job_table \<Rightarrow> job_table" where
  "mark_failed retry_seconds now job error jobs = map (\<lambda>j. if same_row job j then fail_row retry_seconds now job error j else j) jobs"

subsection \<open>The consumer\<close>

record ingest_components =
  ie_gateway :: gateway_env
  ie_get_object :: "ustr \<Rightarrow> nat list res"
  ie_parse :: "nat list \<Rightarrow> string \<Rightarrow> ustr \<Rightarrow> (ustr \<times> string list) res"
  ie_retry_backoff_seconds :: int
  ie_lease_seconds :: int
  ie_heartbeat_seconds :: int
  ie_job_timeout_seconds :: string

definition context_for :: "ingest_job \<Rightarrow> access_context" where
  "context_for job =
     (access_context_defaults (ij_tenant_id job) (ij_workspace_id job) (ij_created_by job) {''system''} ''system'')
       \<lparr>ac_scopes := {}, ac_clearance := ''internal''\<rparr>"

definition command_of :: "ingest_job \<Rightarrow> ustr \<Rightarrow> ingest_command" where
  "command_of job content =
     \<lparr>ic_title = ij_title job, ic_content = content, ic_identity_key = ij_identity_key job, ic_domain = ij_domain job,
      ic_classification = ij_classification job, ic_source_version = ij_source_version job, ic_content_type = ''text/markdown'',
      ic_scope = ij_scope job, ic_extra = ij_extra job, ic_acl_principals = ij_acl_principals job\<rparr>"

text \<open>\<^verbatim>\<open>_process\<close> up to \<^verbatim>\<open>mark_done\<close>: the outcome and the plane it leaves.\<close>

definition process_job ::
  "ingest_components \<Rightarrow> instant \<Rightarrow> ingest_job \<Rightarrow> 'c knowledge_plane \<Rightarrow> (ingested_document \<times> string list) res \<times> 'c knowledge_plane" where
  "process_job lane now job st =
     (case ie_get_object lane (ij_storage_key job) of
        Inl e \<Rightarrow> (Inl e, st)
      | Inr bytes \<Rightarrow>
        (case ie_parse lane bytes (ij_content_type job) (ij_filename job) of
           Inl e \<Rightarrow> (Inl e, st)
         | Inr (content, warnings) \<Rightarrow>
           if ublank content then (Inl (ValueError ''the file has no text that could be read out of it''), st)
           else (case ingest_document_command (command_of job content) of
                   Inl e \<Rightarrow> (Inl e, st)
                 | Inr cmd \<Rightarrow>
                   (case ingest_document (ie_gateway lane) now cmd (context_for job) st of
                      (Inl e, st') \<Rightarrow> (Inl e, st')
                    | (Inr r, st') \<Rightarrow> (Inr (r, warnings), st')))))"

definition exc_text :: "exc \<Rightarrow> string" where
  "exc_text e = (case e of DW d \<Rightarrow> error_message d | ValueError m \<Rightarrow> m | _ \<Rightarrow> [])"

definition settle_job ::
  "ingest_components \<Rightarrow> instant \<Rightarrow> ingest_job \<Rightarrow> (ingested_document \<times> string list) res \<Rightarrow> job_table \<Rightarrow> job_table" where
  "settle_job lane now job outcome jobs =
     (case outcome of
        Inr (r, warnings) \<Rightarrow> mark_done now job (id_document_id r) (id_chunk_count r) warnings jobs
      | Inl TimeoutError \<Rightarrow> mark_failed (ie_retry_backoff_seconds lane) now job (''job exceeded '' @ ie_job_timeout_seconds lane @ ''s'') jobs
      | Inl e \<Rightarrow> mark_failed (ie_retry_backoff_seconds lane) now job (exc_name e @ '': '' @ exc_text e) jobs)"

text \<open>
  \<^verbatim>\<open>drain_one\<close>. The job is claimed at \<open>now\<close> and settled at \<open>later\<close>; \<open>meanwhile\<close> is what heartbeats and
  other workers make of the table in between. A job that exceeds its budget is cancelled and leaves
  the plane it had reached: \<open>cancelled\<close> is that plane.
\<close>

definition drain_one ::
  "ingest_components \<Rightarrow> instant \<Rightarrow> instant \<Rightarrow> (job_table \<Rightarrow> job_table) \<Rightarrow> 'c knowledge_plane option \<Rightarrow>
   job_table \<times> 'c knowledge_plane \<Rightarrow> job_table \<times> 'c knowledge_plane" where
  "drain_one lane now later meanwhile cancelled s =
     (case claim_next now (ie_lease_seconds lane) (fst s) of
        (None, jobs) \<Rightarrow> (jobs, snd s)
      | (Some job, jobs) \<Rightarrow>
        (let (outcome, st) = (case cancelled of Some st \<Rightarrow> (Inl TimeoutError, st) | None \<Rightarrow> process_job lane later job (snd s))
         in (settle_job lane later job outcome (meanwhile jobs), st)))"

text \<open>\<^verbatim>\<open>build_ingest_consumer\<close> refuses a heartbeat that is not shorter than the lease.\<close>

definition build_ingest_consumer :: "ingest_components \<Rightarrow> ingest_components res" where
  "build_ingest_consumer lane =
     (if ie_lease_seconds lane \<le> ie_heartbeat_seconds lane
      then Inl (ValueError ''heartbeat_seconds must be shorter than lease_seconds'') else Inr lane)"

subsection \<open>The upload route\<close>

definition MAX_UPLOAD_BYTES :: nat where "MAX_UPLOAD_BYTES = 50 * 1024 * 1024"

record upload_form =
  uf_data :: "nat list"
  uf_filename :: ustr
  uf_content_type :: string
  uf_title :: ustr
  uf_domain :: string
  uf_classification :: string
  uf_source_version :: string
  uf_scope :: string

definition upload_key :: "access_context \<Rightarrow> uuid \<Rightarrow> ustr \<Rightarrow> ustr" where
  "upload_key ctx job_id filename =
     ulit (uuid_str (ac_tenant_id ctx) @ ''/'' @ uuid_str (ac_workspace_id ctx) @ ''/uploads/'' @ uuid_str job_id @ ''/'') @ filename"

definition upload_command :: "upload_form \<Rightarrow> enqueue_command" where
  "upload_command f =
     \<lparr>eq_title = uf_title f, eq_filename = (if uf_filename f = [] then ulit ''document'' else uf_filename f),
      eq_content_type = (if uf_content_type f = [] then ''application/octet-stream'' else uf_content_type f), eq_identity_key = None,
      eq_domain = uf_domain f, eq_classification = uf_classification f, eq_source_version = uf_source_version f, eq_scope = uf_scope f,
      eq_extra = [], eq_acl_principals = [''tenant:*'']\<rparr>"

text \<open>
  The files staged in the object storage are an association list; \<open>put\<close> is the storage's answer.
  The bytes are staged before the command is validated.
\<close>

definition upload_document ::
  "(ustr \<Rightarrow> unit res) \<Rightarrow> instant \<Rightarrow> uuid \<Rightarrow> access_context \<Rightarrow> upload_form \<Rightarrow> (ustr \<times> nat list) list \<times> job_table \<Rightarrow>
   ingest_job res \<times> (ustr \<times> nat list) list \<times> job_table" where
  "upload_document put now job_id ctx f s =
     (case require_scope PLATFORM_ADMIN_ROLE ctx ''knowledge.write'' of
        Inl e \<Rightarrow> (Inl e, s)
      | Inr _ \<Rightarrow>
        if uf_scope f \<noteq> ''tenant'' \<and> uf_scope f \<noteq> ''global'' then (raise_dw (DomainError ''scope must be tenant or global''), s)
        else if uf_scope f = ''global'' \<and> PLATFORM_ADMIN_ROLE \<notin> ac_roles ctx
        then (raise_dw (PermissionDeniedError ''publishing a global document requires platform_admin''), s)
        else if uf_data f = [] then (raise_dw (DomainError ''uploaded file is empty''), s)
        else if MAX_UPLOAD_BYTES < length (uf_data f) then (raise_dw (DomainError ''file exceeds 52428800 bytes''), s)
        else let skey = upload_key ctx job_id (eq_filename (upload_command f)) in
          (case put skey of
             Inl e \<Rightarrow> (Inl e, s)
           | Inr _ \<Rightarrow>
             (let files = AList.update skey (uf_data f) (fst s) in
              case enqueue_ingest_command (upload_command f) of
                Inl e \<Rightarrow> (Inl e, files, snd s)
              | Inr cmd \<Rightarrow>
                (case enqueue now job_id cmd ctx skey (snd s) of
                   Inl e \<Rightarrow> (Inl e, files, snd s)
                 | Inr (created, jobs) \<Rightarrow>
                   (case get_job jobs created ctx of
                      None \<Rightarrow> (Inl AssertionError, files, jobs)
                    | Some job \<Rightarrow> (Inr job, files, jobs))))))"


subsection \<open>Facts about the store\<close>

lemma claim_next_some:
  assumes "claim_next now lease jobs = (Some job, jobs')"
  obtains row where "row \<in> set jobs" "claimable now row" "job = claim_row now lease row" "jobs' = update_job (ij_id row) (claim_row now lease) jobs"
    "\<forall>j \<in> set jobs. claimable now j \<longrightarrow> ij_available_at row \<le> ij_available_at j"
proof (cases "sort_by ij_available_at (filter (claimable now) jobs)")
  case Nil then show ?thesis using assms by (simp add: claim_next_def)
next
  case (Cons row rest)
  have "set (row # rest) = {j \<in> set jobs. claimable now j}" using Cons set_sort_by [of ij_available_at "filter (claimable now) jobs"] by simp
  then have "row \<in> set jobs" "claimable now row" and all: "\<forall>j \<in> set jobs. claimable now j \<longrightarrow> j \<in> set (row # rest)" by auto
  moreover have "\<forall>j \<in> set (row # rest). ij_available_at row \<le> ij_available_at j"
    using sorted_on_sort_by [of ij_available_at "filter (claimable now) jobs"] unfolding Cons by (auto simp: sorted_on_sorted_wrt)
  ultimately show ?thesis using that [of row] assms Cons by (auto simp: claim_next_def)
qed

lemma claim_next_none: "claim_next now lease jobs = (None, jobs') \<Longrightarrow> jobs' = jobs \<and> (\<forall>j \<in> set jobs. \<not> claimable now j)"
  by (auto simp: claim_next_def filter_empty_conv split: list.splits)

lemma same_job: "distinct (map ij_id jobs) \<Longrightarrow> x \<in> set jobs \<Longrightarrow> y \<in> set jobs \<Longrightarrow> ij_id x = ij_id y \<Longrightarrow> x = y"
  by (metis distinct_map inj_onD)

lemma claim_row_simps [simp]:
  "ij_id (claim_row now lease j) = ij_id j" "ij_tenant_id (claim_row now lease j) = ij_tenant_id j"
  "ij_attempts (claim_row now lease j) = Suc (ij_attempts j)" "ij_status (claim_row now lease j) = ''processing''"
  "ij_lease_until (claim_row now lease j) = Some (now + seconds lease)" "ij_max_attempts (claim_row now lease j) = ij_max_attempts j"
  "ij_scope (claim_row now lease j) = ij_scope j"
  by (simp_all add: claim_row_def)

lemma fail_row_simps [simp]:
  "ij_id (fail_row retry now job error j) = ij_id j" "ij_tenant_id (fail_row retry now job error j) = ij_tenant_id j"
  "ij_attempts (fail_row retry now job error j) = ij_attempts j" "ij_lease_until (fail_row retry now job error j) = None"
  "ij_status (fail_row retry now job error j) = (if ij_max_attempts job \<le> ij_attempts job then ''failed'' else ''queued'')"
  "ij_max_attempts (fail_row retry now job error j) = ij_max_attempts j"
  by (simp_all add: fail_row_def Let_def)

subsection \<open>Ownership\<close>

text \<open>
  The tables that uploads, claims, heartbeats and settlements reach, with the handles workers hold.
  A handle is never taken away from a worker: one that stalled may use its handle at any later time.
\<close>

inductive queue_reach :: "job_table \<Rightarrow> ingest_job list \<Rightarrow> bool" where
  start: "queue_reach [] []"
| enqueued: "queue_reach jobs held \<Longrightarrow> enqueue now job_id cmd ctx skey jobs = Inr (i, jobs') \<Longrightarrow> queue_reach jobs' held"
| claimed: "queue_reach jobs held \<Longrightarrow> claim_next now lease jobs = (Some job, jobs') \<Longrightarrow> queue_reach jobs' (job # held)"
| renewed: "queue_reach jobs held \<Longrightarrow> job \<in> set held \<Longrightarrow> renew_lease now lease job jobs = (b, jobs') \<Longrightarrow> queue_reach jobs' held"
| finished: "queue_reach jobs held \<Longrightarrow> job \<in> set held \<Longrightarrow> queue_reach (mark_done now job doc chunks warnings jobs) held"
| failed: "queue_reach jobs held \<Longrightarrow> job \<in> set held \<Longrightarrow> queue_reach (mark_failed retry now job error jobs) held"

definition queue_ok :: "job_table \<Rightarrow> ingest_job list \<Rightarrow> bool" where
  "queue_ok jobs held \<longleftrightarrow>
     distinct (map ij_id jobs) \<and> distinct (map (\<lambda>h. (ij_id h, ij_attempts h)) held) \<and>
     (\<forall>h \<in> set held. \<exists>j \<in> set jobs. ij_id j = ij_id h \<and> ij_tenant_id j = ij_tenant_id h \<and> ij_attempts h \<le> ij_attempts j)"

lemma queue_ok_map:
  assumes "queue_ok jobs held" "\<And>j. ij_id (f j) = ij_id j" "\<And>j. ij_tenant_id (f j) = ij_tenant_id j" "\<And>j. ij_attempts (f j) = ij_attempts j"
  shows "queue_ok (map f jobs) held"
  using assms unfolding queue_ok_def by (simp add: comp_def)

lemma queue_reach_ok: "queue_reach jobs held \<Longrightarrow> queue_ok jobs held"
proof (induction rule: queue_reach.induct)
  case start then show ?case by (simp add: queue_ok_def)
next
  case (enqueued jobs held now job_id cmd ctx skey i jobs')
  then have "jobs' = jobs @ [new_job now job_id cmd ctx skey]" "job_id \<notin> ij_id ` set jobs" by (auto simp: enqueue_def split: if_splits)
  then show ?case using enqueued.IH by (auto simp: queue_ok_def new_job_def)
next
  case (claimed jobs held now lease job jobs')
  obtain row where row: "row \<in> set jobs" "job = claim_row now lease row" "jobs' = update_job (ij_id row) (claim_row now lease) jobs"
    using claim_next_some [OF claimed.hyps(2)] by blast
  have d: "distinct (map ij_id jobs)" and held: "\<And>h. h \<in> set held \<Longrightarrow> \<exists>j \<in> set jobs. ij_id j = ij_id h \<and> ij_tenant_id j = ij_tenant_id h \<and> ij_attempts h \<le> ij_attempts j"
    using claimed.IH by (auto simp: queue_ok_def)
  let ?f = "\<lambda>j. if ij_id j = ij_id row then claim_row now lease j else j"
  have jobs': "jobs' = map ?f jobs" by (simp add: row(3) update_job_def)
  have ids: "map ij_id jobs' = map ij_id jobs" unfolding jobs' by simp
  have same: "j = row" if "j \<in> set jobs" "ij_id j = ij_id row" for j using same_job [OF d that(1) row(1) that(2)] .
  have new: "(ij_id job, ij_attempts job) \<notin> (\<lambda>h. (ij_id h, ij_attempts h)) ` set held"
  proof
    assume "(ij_id job, ij_attempts job) \<in> (\<lambda>h. (ij_id h, ij_attempts h)) ` set held"
    then obtain h where h: "h \<in> set held" "ij_id h = ij_id row" "ij_attempts h = Suc (ij_attempts row)" unfolding row(2) by auto
    obtain j where "j \<in> set jobs" "ij_id j = ij_id h" "ij_attempts h \<le> ij_attempts j" using held [OF h(1)] by blast
    then show False using same [of j] h by simp
  qed
  have "\<exists>j \<in> set jobs'. ij_id j = ij_id h \<and> ij_tenant_id j = ij_tenant_id h \<and> ij_attempts h \<le> ij_attempts j" if mem: "h \<in> set (job # held)" for h
  proof (cases "h = job")
    case True
    have "claim_row now lease row \<in> set jobs'" unfolding jobs' using row(1) by (auto intro!: image_eqI [of _ _ row])
    then show ?thesis using True row(2) by (intro bexI [of _ "claim_row now lease row"]) simp_all
  next
    case False
    then obtain j where j: "j \<in> set jobs" "ij_id j = ij_id h" "ij_tenant_id j = ij_tenant_id h" "ij_attempts h \<le> ij_attempts j" using held [of h] mem by auto
    then have "?f j \<in> set jobs'" unfolding jobs' by simp
    then show ?thesis using j by (intro bexI [of _ "?f j"]) simp_all
  qed
  then show ?case unfolding queue_ok_def ids using claimed.IH new by (simp add: queue_ok_def)
next
  case (renewed jobs held job now lease b jobs')
  then have "jobs' = map (\<lambda>j. if owned job j then j\<lparr>ij_lease_until := Some (now + seconds lease), ij_updated_at := now\<rparr> else j) jobs"
    by (simp add: renew_lease_def)
  then show ?case using queue_ok_map [OF renewed.IH] by simp
next
  case finished then show ?case unfolding mark_done_def using queue_ok_map by simp
next
  case failed then show ?case unfolding mark_failed_def using queue_ok_map by simp
qed

text \<open>
  C22: A job has one owner. However uploads, claims, heartbeats and settlements interleave, and however
  long a worker stalls, of all the handles ever given out for a job at most one can still renew the
  lease: two different workers are never both told that the job is theirs.
\<close>

theorem lease_has_one_owner:
  assumes "queue_reach jobs held" "h \<in> set held" "h' \<in> set held" "ij_id h = ij_id h'"
    "fst (renew_lease now lease h jobs)" "fst (renew_lease now' lease' h' jobs)"
  shows "h = h'"
proof -
  have ok: "queue_ok jobs held" by (rule queue_reach_ok [OF assms(1)])
  obtain j j' where j: "j \<in> set jobs" "owned h j" "j' \<in> set jobs" "owned h' j'"
    using assms(5,6) by (auto simp: renew_lease_def list_ex_iff)
  then have "ij_id j = ij_id j'" using assms(4) by (simp add: owned_def)
  then have "j = j'" using same_job [OF _ j(1,3)] ok by (simp add: queue_ok_def)
  then have "ij_attempts h = ij_attempts h'" using j by (simp add: owned_def)
  then show ?thesis using ok assms(2-4) by (auto simp: queue_ok_def distinct_map dest: inj_onD)
qed

text \<open>
  A job that is being worked on is not given out again. If the consumer was built with a heartbeat
  shorter than the lease and a heartbeat just renewed the lease, then no claim up to the next heartbeat
  returns that job, whatever else is in the queue.
\<close>

theorem heartbeat_keeps_job:
  assumes "queue_reach jobs held" "build_ingest_consumer lane = Inr lane'"
    "renew_lease now (ie_lease_seconds lane) h jobs = (True, jobs')" "now \<le> t" "t \<le> now + seconds (ie_heartbeat_seconds lane)"
    "claim_next t lease jobs' = (Some job, jobs'')"
  shows "ij_id job \<noteq> ij_id h"
proof
  assume eq: "ij_id job = ij_id h"
  have ids: "distinct (map ij_id jobs)" using queue_reach_ok [OF assms(1)] by (simp add: queue_ok_def)
  let ?f = "\<lambda>j. if owned h j then j\<lparr>ij_lease_until := Some (now + seconds (ie_lease_seconds lane)), ij_updated_at := now\<rparr> else j"
  have jobs': "jobs' = map ?f jobs" and "list_ex (owned h) jobs" using assms(3) by (auto simp: renew_lease_def)
  then obtain j where j: "j \<in> set jobs" "owned h j" by (auto simp: list_ex_iff)
  obtain row where row: "row \<in> set jobs'" "claimable t row" "job = claim_row t lease row" using claim_next_some [OF assms(6)] by blast
  then obtain j0 where j0: "j0 \<in> set jobs" "row = ?f j0" unfolding jobs' by auto
  have "ij_id j0 = ij_id j" using j0(2) row(3) eq j(2) by (auto simp: owned_def split: if_splits)
  then have "j0 = j" using same_job [OF ids j0(1) j(1)] by blast
  then have row_eq: "row = j\<lparr>ij_lease_until := Some (now + seconds (ie_lease_seconds lane)), ij_updated_at := now\<rparr>" using j0(2) j(2) by simp
  have "ie_heartbeat_seconds lane < ie_lease_seconds lane" using assms(2) by (auto simp: build_ingest_consumer_def split: if_splits)
  then show False using row(2) assms(5) j(2) unfolding row_eq by (simp add: claimable_def owned_def)
qed


subsection \<open>Failure\<close>

text \<open>
  Retries are bounded and spaced. A job that was claimed and failed goes back to the queue, due
  after the base delay doubled for every attempt before, with the lease released and the error kept
  to 2000 characters; the failure of its last attempt is final: no later claim takes it.
\<close>

theorem failure_requeues_or_ends:
  assumes "claim_next now lease jobs = (Some job, jobs')" "distinct (map ij_id jobs)" "jobs'' = mark_failed retry t job error jobs'"
  shows "\<exists>j \<in> set jobs''. ij_id j = ij_id job \<and> ij_attempts j = ij_attempts job \<and> ij_lease_until j = None \<and>
    (\<exists>kept. ij_error j = Some kept \<and> length kept \<le> MAX_ERROR_CHARS) \<and>
    (if ij_attempts job < ij_max_attempts job
     then ij_status j = ''queued'' \<and> ij_available_at j = t + seconds (retry * 2 ^ (ij_attempts job - 1)) \<and>
          (\<forall>t'. claimable t' j \<longleftrightarrow> ij_available_at j \<le> t')
     else ij_status j = ''failed'' \<and> (\<forall>t'. \<not> claimable t' j))"
proof -
  obtain row where row: "row \<in> set jobs" "job = claim_row now lease row" "jobs' = update_job (ij_id row) (claim_row now lease) jobs"
    using claim_next_some [OF assms(1)] by blast
  have "job \<in> set jobs'" unfolding row(2,3) update_job_def using row(1) by (auto intro!: image_eqI [of _ _ row])
  then have "fail_row retry t job error job \<in> set jobs''" unfolding assms(3) mark_failed_def by (auto simp: same_row_def intro!: image_eqI [of _ _ job])
  then show ?thesis
    by (rule bexI [rotated]) (auto simp: fail_row_def Let_def claimable_def backoff_def)
qed

text \<open>
  A worker that dies takes no attempt away. A job whose worker is killed before it can report is
  given out again after each lease with its count raised and never compared with the limit: for every
  number, a job with three attempts allowed reaches that many and can still be claimed.
\<close>

theorem crashed_job_claimed_forever:
  "\<exists>jobs held j. queue_reach jobs held \<and> jobs = [j] \<and> ij_max_attempts j = 3 \<and> ij_attempts j = n \<and> (\<exists>t. claimable t j)"
proof (induction n)
  case 0
  let ?cmd = "\<lparr>eq_title = [97], eq_filename = [97], eq_content_type = [], eq_identity_key = None, eq_domain = [], eq_classification = [],
    eq_source_version = [], eq_scope = ''tenant'', eq_extra = [], eq_acl_principals = []\<rparr>"
  let ?j = "new_job 0 5 ?cmd sample_author [97]"
  have "enqueue 0 5 ?cmd sample_author [97] [] = Inr (5, [?j])" by (simp add: enqueue_def)
  then have "queue_reach [?j] []" by (rule queue_reach.enqueued [OF queue_reach.start])
  moreover have "ij_max_attempts ?j = 3" "ij_attempts ?j = 0" "claimable 0 ?j" by (simp_all add: new_job_def DEFAULT_MAX_ATTEMPTS_def claimable_def)
  ultimately show ?case by blast
next
  case (Suc n)
  then obtain held j t where j: "queue_reach [j] held" "ij_max_attempts j = 3" "ij_attempts j = n" "claimable t j" by blast
  have "claim_next t 900 [j] = (Some (claim_row t 900 j), [claim_row t 900 j])" using j(4) by (simp add: claim_next_def update_job_def)
  then have "queue_reach [claim_row t 900 j] (claim_row t 900 j # held)" by (rule queue_reach.claimed [OF j(1)])
  moreover have "claimable (t + seconds 901) (claim_row t 900 j)" by (simp add: claimable_def)
  ultimately show ?case using j(2,3)
    by (intro exI [of _ "[claim_row t 900 j]"] exI [of _ "claim_row t 900 j # held"] exI [of _ "claim_row t 900 j"] exI [of _ "t + seconds 901"] conjI) simp_all
qed

text \<open>
  A worker that lost its job can still fail it. Settling does not ask who owns the row, as renewing
  does: when a stalled worker reports its failure after another worker finished the same job, the
  finished job goes back to the queue and is due again, with its error text on a document that is
  indexed.
\<close>

theorem stale_failure_reopens_job:
  assumes "queue_reach jobs held" "h \<in> set held" "j \<in> set jobs" "ij_id j = ij_id h" "ij_status j = ''done''"
    "ij_attempts h < ij_attempts j" "ij_attempts h < ij_max_attempts h"
  shows "\<not> fst (renew_lease now lease h jobs) \<and>
    (\<exists>j' \<in> set (mark_failed retry now h error jobs). ij_id j' = ij_id h \<and> ij_status j' = ''queued'' \<and>
       ij_document_id j' = ij_document_id j \<and> claimable (ij_available_at j') j')"
proof -
  have ok: "queue_ok jobs held" by (rule queue_reach_ok [OF assms(1)])
  obtain x where x: "x \<in> set jobs" "ij_id x = ij_id h" "ij_tenant_id x = ij_tenant_id h" using ok assms(2) by (auto simp: queue_ok_def)
  have "x = j" using same_job [OF _ x(1) assms(3)] ok x(2) assms(4) by (simp add: queue_ok_def)
  then have row: "same_row h j" using x by (simp add: same_row_def)
  have "\<not> owned h y" if "y \<in> set jobs" for y
  proof
    assume y: "owned h y"
    then have "y = j" using same_job [OF _ that assms(3)] ok assms(4) by (simp add: queue_ok_def owned_def)
    then show False using y assms(5) by (simp add: owned_def)
  qed
  then have "\<not> fst (renew_lease now lease h jobs)" by (auto simp: renew_lease_def list_ex_iff)
  moreover have "fail_row retry now h error j \<in> set (mark_failed retry now h error jobs)"
    using row assms(3) by (auto simp: mark_failed_def intro!: image_eqI [of _ _ j])
  moreover have "ij_status (fail_row retry now h error j) = ''queued''" "ij_document_id (fail_row retry now h error j) = ij_document_id j"
    using assms(7) by (simp_all add: fail_row_def Let_def)
  ultimately show ?thesis using assms(4) by (intro conjI) (auto intro!: bexI [of _ "fail_row retry now h error j"] simp: claimable_def)
qed

subsection \<open>From upload to document\<close>

lemma settle_in_table:
  assumes "claim_next now lease jobs = (Some job, jobs')" "distinct (map ij_id jobs)"
  shows "job \<in> set jobs'" "\<And>j. j \<in> set jobs' \<Longrightarrow> ij_id j = ij_id job \<Longrightarrow> j = job"
proof -
  obtain row where row: "row \<in> set jobs" "job = claim_row now lease row" "jobs' = update_job (ij_id row) (claim_row now lease) jobs"
    using claim_next_some [OF assms(1)] by blast
  show mem: "job \<in> set jobs'" unfolding row(2,3) update_job_def using row(1) by (auto intro!: image_eqI [of _ _ row])
  have "map ij_id jobs' = map ij_id jobs" unfolding row(3) update_job_def by simp
  then have ids: "distinct (map ij_id jobs')" using assms(2) by simp
  show "\<And>j. j \<in> set jobs' \<Longrightarrow> ij_id j = ij_id job \<Longrightarrow> j = job" using same_job [OF ids _ mem] by blast
qed


text \<open>
  A global upload is accepted and never published. The route takes a global document from a
  platform administrator, but the worker ingests under a context without scopes, which the gateway
  refuses: draining such a job changes nothing in the knowledge plane and leaves the job queued for
  another try or failed, never done.
\<close>

theorem global_upload_never_published:
  assumes "claim_next now (ie_lease_seconds lane) jobs = (Some job, jobs')" "distinct (map ij_id jobs)" "ij_scope job = ''global''"
  shows "snd (drain_one lane now later (\<lambda>x. x) None (jobs, st)) = st \<and>
    (\<forall>j \<in> set (fst (drain_one lane now later (\<lambda>x. x) None (jobs, st))). ij_id j = ij_id job \<longrightarrow> ij_status j \<in> {''queued'', ''failed''})"
proof -
  have denied: "\<exists>e. process_job lane later job st = (Inl e, st)"
    using assms(3) by (auto simp: process_job_def ingest_document_def command_of_def ingest_document_command_def context_for_def
        split: sum.split prod.split)
  then obtain e where e: "process_job lane later job st = (Inl e, st)" by blast
  obtain error where settle: "settle_job lane later job (Inl e) jobs' = mark_failed (ie_retry_backoff_seconds lane) later job error jobs'"
    by (cases e) (auto simp: settle_job_def)
  have drain: "drain_one lane now later (\<lambda>x. x) None (jobs, st) = (mark_failed (ie_retry_backoff_seconds lane) later job error jobs', st)"
    by (simp add: drain_one_def assms(1) e settle)
  show ?thesis unfolding drain
  proof (intro conjI ballI impI)
    fix j assume j: "j \<in> set (fst (mark_failed (ie_retry_backoff_seconds lane) later job error jobs', st))" "ij_id j = ij_id job"
    then obtain x where x: "x \<in> set jobs'" "j = (if same_row job x then fail_row (ie_retry_backoff_seconds lane) later job error x else x)"
      by (auto simp: mark_failed_def)
    then have "x = job" using settle_in_table(2) [OF assms(1,2)] j(2) by (simp split: if_splits)
    then show "ij_status j \<in> {''queued'', ''failed''}" using x(2) by (simp add: same_row_def)
  qed simp
qed


subsection \<open>Witnesses\<close>

definition sample_lane :: ingest_components where
  "sample_lane =
     \<lparr>ie_gateway = sample_gateway, ie_get_object = (\<lambda>_. Inr [98]), ie_parse = (\<lambda>bytes _ _. Inr (bytes, [])),
      ie_retry_backoff_seconds = DEFAULT_RETRY_BACKOFF_SECONDS, ie_lease_seconds = DEFAULT_LEASE_SECONDS, ie_heartbeat_seconds = DEFAULT_HEARTBEAT_SECONDS, ie_job_timeout_seconds = ''2700.0''\<rparr>"

definition sample_upload :: "string \<Rightarrow> enqueue_command" where
  "sample_upload scope =
     \<lparr>eq_title = [84], eq_filename = [97], eq_content_type = ''text/plain'', eq_identity_key = None, eq_domain = ''shared'',
      eq_classification = ''internal'', eq_source_version = ''1'', eq_scope = scope, eq_extra = [], eq_acl_principals = [''tenant:*'']\<rparr>"

abbreviation sample_queued :: "string \<Rightarrow> ingest_job" where
  "sample_queued scope \<equiv> new_job 0 5 (sample_upload scope) sample_author [47]"

abbreviation sample_handle :: "instant \<Rightarrow> ingest_job \<Rightarrow> ingest_job" where
  "sample_handle now j \<equiv> claim_row now DEFAULT_LEASE_SECONDS j"

lemma sample_queue: "queue_reach [sample_queued scope] []"
proof -
  have "enqueue 0 5 (sample_upload scope) sample_author [47] [] = Inr (5, [sample_queued scope])" by (simp add: enqueue_def)
  then show ?thesis by (rule queue_reach.enqueued [OF queue_reach.start])
qed

lemma sample_job_simps:
  "ij_id (sample_queued scope) = 5" "ij_attempts (sample_queued scope) = 0" "ij_status (sample_queued scope) = ''queued''"
  "ij_available_at (sample_queued scope) = 0" "ij_max_attempts (sample_queued scope) = 3" "ij_scope (sample_queued scope) = scope"
  "ij_tenant_id (sample_queued scope) = 1"
  by (simp_all add: new_job_def sample_upload_def DEFAULT_MAX_ATTEMPTS_def sample_env)

lemma claim_one: "claimable now j \<Longrightarrow> claim_next now lease [j] = (Some (claim_row now lease j), [claim_row now lease j])"
  by (simp add: claim_next_def update_job_def)

lemma sample_claim: "claim_next 0 DEFAULT_LEASE_SECONDS [sample_queued scope] = (Some (sample_handle 0 (sample_queued scope)), [sample_handle 0 (sample_queued scope)])"
  by (rule claim_one) (simp add: claimable_def sample_job_simps)

abbreviation sample_second :: ingest_job where
  "sample_second \<equiv> sample_handle (seconds 1000) (sample_handle 0 (sample_queued ''tenant''))"

lemma sample_reclaim:
  "claim_next (seconds 1000) DEFAULT_LEASE_SECONDS [sample_handle 0 (sample_queued ''tenant'')] = (Some sample_second, [sample_second])"
  by (rule claim_one) (simp add: claimable_def DEFAULT_LEASE_SECONDS_def)

lemma sample_two_handles: "queue_reach [sample_second] [sample_second, sample_handle 0 (sample_queued ''tenant'')]"
  by (rule queue_reach.claimed [OF queue_reach.claimed [OF sample_queue sample_claim] sample_reclaim])

theorem lease_has_one_owner_witness:
  "queue_reach [sample_second] [sample_second, sample_handle 0 (sample_queued ''tenant'')] \<and>
   fst (renew_lease (seconds 1001) 900 sample_second [sample_second]) \<and>
   \<not> fst (renew_lease (seconds 1001) 900 (sample_handle 0 (sample_queued ''tenant'')) [sample_second])"
proof -
  have "ij_attempts sample_second \<noteq> ij_attempts (sample_handle 0 (sample_queued ''tenant''))" by simp
  then have "sample_second \<noteq> sample_handle 0 (sample_queued ''tenant'')" by metis
  moreover have renews: "fst (renew_lease (seconds 1001) 900 sample_second [sample_second])" by (simp add: renew_lease_def owned_def)
  ultimately have "\<not> fst (renew_lease (seconds 1001) 900 (sample_handle 0 (sample_queued ''tenant'')) [sample_second])"
    using lease_has_one_owner [OF sample_two_handles, of sample_second "sample_handle 0 (sample_queued ''tenant'')" "seconds 1001" 900 "seconds 1001" 900]
    by auto
  then show ?thesis using sample_two_handles renews by blast
qed

theorem heartbeat_keeps_job_witness:
  "\<exists>job jobs. claim_next (seconds 400) 900 (snd (renew_lease (seconds 300) 900 (sample_handle 0 (sample_queued ''tenant''))
      [sample_handle 0 (sample_queued ''tenant''), new_job 7 6 (sample_upload ''tenant'') sample_author [47]])) = (Some job, jobs) \<and> ij_id job \<noteq> 5"
proof -
  let ?h = "sample_handle 0 (sample_queued ''tenant'')" and ?n = "new_job 7 6 (sample_upload ''tenant'') sample_author [47]"
  have "enqueue 7 6 (sample_upload ''tenant'') sample_author [47] [?h] = Inr (6, [?h, ?n])" by (simp add: enqueue_def sample_job_simps)
  then have reach: "queue_reach [?h, ?n] [?h]" by (rule queue_reach.enqueued [OF queue_reach.claimed [OF sample_queue sample_claim]])
  have n: "ij_id ?n = 6" "ij_status ?n = ''queued''" "ij_available_at ?n = 7" by (simp_all add: new_job_def)
  have h: "ij_id ?h = 5" "ij_available_at ?h = 0" by (simp_all add: sample_job_simps claim_row_def)
  let ?r = "?h\<lparr>ij_lease_until := Some (seconds 300 + seconds 900), ij_updated_at := seconds 300\<rparr>"
  have r: "renew_lease (seconds 300) (ie_lease_seconds sample_lane) ?h [?h, ?n] = (True, [?r, ?n])"
    by (simp add: renew_lease_def owned_def n h sample_lane_def DEFAULT_LEASE_SECONDS_def)
  have "claimable (seconds 400) ?n" "\<not> claimable (seconds 400) ?r" by (simp_all add: claimable_def n)
  then obtain job jobs where c: "claim_next (seconds 400) 900 [?r, ?n] = (Some job, jobs)" by (simp add: claim_next_def)
  have "build_ingest_consumer sample_lane = Inr sample_lane"
    by (simp add: build_ingest_consumer_def sample_lane_def DEFAULT_LEASE_SECONDS_def DEFAULT_HEARTBEAT_SECONDS_def)
  from heartbeat_keeps_job [OF reach this r _ _ c]
  have "ij_id job \<noteq> 5" by (simp add: sample_job_simps sample_lane_def DEFAULT_HEARTBEAT_SECONDS_def)
  moreover have "renew_lease (seconds 300) 900 ?h [?h, ?n] = (True, [?r, ?n])" using r by (simp add: sample_lane_def DEFAULT_LEASE_SECONDS_def)
  ultimately show ?thesis using c by (intro exI [of _ job] exI [of _ jobs]) simp
qed

theorem failure_requeues_or_ends_witness:
  "\<exists>j \<in> set (mark_failed 30 9 (sample_handle 0 (sample_queued ''tenant'')) ''boom'' [sample_handle 0 (sample_queued ''tenant'')]).
     ij_id j = 5 \<and> ij_status j = ''queued'' \<and> ij_available_at j = 9 + seconds 30"
  using failure_requeues_or_ends [OF sample_claim _ refl, of "''tenant''" 30 9 "''boom''"] by (auto simp: sample_job_simps)

theorem stale_failure_reopens_job_witness:
  "\<exists>j' \<in> set (mark_failed 30 (seconds 2000) (sample_handle 0 (sample_queued ''tenant'')) ''late''
       (mark_done (seconds 1500) sample_second 77 1 [] [sample_second])). ij_id j' = 5 \<and> ij_status j' = ''queued'' \<and> ij_document_id j' = Some 77"
proof -
  let ?h = "sample_handle 0 (sample_queued ''tenant'')" and ?jobs = "mark_done (seconds 1500) sample_second 77 1 [] [sample_second]"
  have reach: "queue_reach ?jobs [sample_second, ?h]" by (rule queue_reach.finished [OF sample_two_handles]) simp
  let ?j = "sample_second\<lparr>ij_status := ''done'', ij_document_id := Some 77, ij_chunk_count := Some 1, ij_error := None, ij_warnings := [],
      ij_lease_until := None, ij_updated_at := seconds 1500\<rparr>"
  have j: "?j \<in> set ?jobs" by (simp add: mark_done_def same_row_def)
  from stale_failure_reopens_job [OF reach _ j, of ?h "seconds 2000" 900 30 "''late''"]
  show ?thesis by (auto simp: sample_job_simps)
qed

theorem global_upload_never_published_witness:
  "snd (drain_one sample_lane 0 9 (\<lambda>x. x) None ([sample_queued ''global''], sample_plane)) = sample_plane \<and>
   ''done'' \<notin> ij_status ` set (fst (drain_one sample_lane 0 9 (\<lambda>x. x) None ([sample_queued ''global''], sample_plane)))"
proof -
  have lease: "ie_lease_seconds sample_lane = DEFAULT_LEASE_SECONDS" by (simp add: sample_lane_def)
  have r: "snd (drain_one sample_lane 0 9 (\<lambda>x. x) None ([sample_queued ''global''], sample_plane)) = sample_plane \<and>
    (\<forall>j \<in> set (fst (drain_one sample_lane 0 9 (\<lambda>x. x) None ([sample_queued ''global''], sample_plane))).
       ij_id j = ij_id (sample_handle 0 (sample_queued ''global'')) \<longrightarrow> ij_status j \<in> {''queued'', ''failed''})"
    by (rule global_upload_never_published [of 0 sample_lane _ _ "[sample_handle 0 (sample_queued ''global'')]"])
      (simp_all add: lease sample_claim sample_job_simps)
  have "ij_id j = 5" if "j \<in> set (fst (drain_one sample_lane 0 9 (\<lambda>x. x) None ([sample_queued ''global''], sample_plane)))" for j
    using that by (auto simp: drain_one_def lease sample_claim settle_job_def mark_done_def mark_failed_def sample_job_simps
        split: sum.splits prod.splits exc.splits if_splits)
  then show ?thesis using r by (fastforce simp: sample_job_simps)
qed




end
