(* ===== verification/SupportAccess.thy ===== *)
theory SupportAccess
  imports Membership "HOL-Library.List_Lexorder" "HOL-Library.Char_ord"
begin

text \<open>
  Customer-granted support access: the grant's lifecycle and the support access context of
  \<^verbatim>\<open>dw_platform/application/support_access.py\<close>, its SQL side in
  \<^verbatim>\<open>adapters/persistence/support_grants.py\<close>, \<^verbatim>\<open>provisioning_repo.py\<close> and \<^verbatim>\<open>scope_holders.py\<close>, the table's
  constraints and its trigger (migration \<^verbatim>\<open>af8ee878b4ab\<close>), the functions a staff member reads through
  (migration \<^verbatim>\<open>f1576bf82a5a\<close>) and the request dependency of \<^verbatim>\<open>dw_api/dependencies/auth.py\<close>. A
  context's resources are named by functions it registers, which are arguments here, as are the
  token verifier, the identity bootstrap, the clock and the id generator. Foreign keys to
  tenants and workspaces are not modelled: every identifier comes from a context or a row.
\<close>

definition SUPPORT_GRANT_SCOPE :: string where
  "SUPPORT_GRANT_SCOPE = ''support.grant''"

definition SUPPORT_REQUEST_SCOPE :: string where
  "SUPPORT_REQUEST_SCOPE = ''support.request''"

definition SUPPORT_ACCESS_FEATURE :: string where
  "SUPPORT_ACCESS_FEATURE = ''support_access''"

definition WORKSPACE_RESOURCE :: string where
  "WORKSPACE_RESOURCE = ''workspace''"

definition MAX_DURATION_HOURS :: int where
  "MAX_DURATION_HOURS = 336"

definition MAX_REASON_LENGTH :: nat where
  "MAX_REASON_LENGTH = 300"

definition FORBIDDEN_SCOPE_PREFIXES :: "string list" where
  "FORBIDDEN_SCOPE_PREFIXES =
     [''approvals.'', ''runs.'', ''audit.'', ''knowledge.'', ''memory.'', ''platform.'', ''support.'', ''directory.'']"

definition forbidden_scope :: "string \<Rightarrow> bool" where
  "forbidden_scope s \<longleftrightarrow> list_ex (startswith s) FORBIDDEN_SCOPE_PREFIXES"

definition lower_letter :: "char \<Rightarrow> bool" where
  "lower_letter c \<longleftrightarrow> (let n = (of_char c :: nat) in 97 \<le> n \<and> n \<le> 122)"

text \<open>\<^verbatim>\<open>_KEY = [a-z][a-z0-9_.]{0,63}\<close> and \<^verbatim>\<open>_RESOURCE_TYPE = [a-z_]{1,40}\<close>, matched whole.\<close>

definition is_set_key :: "string \<Rightarrow> bool" where
  "is_set_key s \<longleftrightarrow>
     s \<noteq> [] \<and> length s \<le> 64 \<and> lower_letter (hd s) \<and>
     list_all (\<lambda>c. lower_or_digit c \<or> c = CHR ''_'' \<or> c = CHR ''.'') (tl s)"

definition is_resource_type :: "string \<Rightarrow> bool" where
  "is_resource_type s \<longleftrightarrow> s \<noteq> [] \<and> length s \<le> 40 \<and> list_all (\<lambda>c. lower_letter c \<or> c = CHR ''_'') s"

subsection \<open>The catalog\<close>

record support_scope_set =
  sc_key :: string
  sc_label :: ustr
  sc_scopes :: "string set"
  sc_resource_types :: "string set"

type_synonym describer = "access_context \<Rightarrow> string \<Rightarrow> uuid \<Rightarrow> ustr option res"

record support_catalog =
  cg_sets :: "(string \<times> support_scope_set) list"
  cg_resources :: "(string \<times> describer) list"
  cg_frozen :: bool

definition new_catalog :: support_catalog where
  "new_catalog = \<lparr>cg_sets = [], cg_resources = [], cg_frozen = False\<rparr>"

definition refuse_when_frozen :: "support_catalog \<Rightarrow> unit res" where
  "refuse_when_frozen cat =
     (if cg_frozen cat then raise_dw (ConfigError ''the support scope catalog is frozen once the process is wired'') else Inr ())"

definition register_set :: "support_catalog \<Rightarrow> string \<Rightarrow> ustr \<Rightarrow> string set \<Rightarrow> string set \<Rightarrow> support_catalog res" where
  "register_set cat key label scopes types =
     (case refuse_when_frozen cat of
        Inl e \<Rightarrow> Inl e
      | Inr _ \<Rightarrow>
        if \<not> is_set_key key then raise_dw (ConfigError ''support scope set key is malformed'')
        else if key \<in> fst ` set (cg_sets cat) then raise_dw (ConfigError ''support scope set registered twice'')
        else if ublank label then raise_dw (ConfigError ''support scope set needs a label'')
        else if scopes = {} then raise_dw (ConfigError ''support scope set has no scopes'')
        else if \<exists>s \<in> scopes. forbidden_scope s
        then raise_dw (ConfigError ''support scope set carries a scope support may never hold'')
        else if types = {} \<or> \<not> (\<forall>t \<in> types. is_resource_type t)
        then raise_dw (ConfigError ''support scope set needs resource types of [a-z_]{1,40}'')
        else Inr (cat\<lparr>cg_sets := cg_sets cat @
               [(key, \<lparr>sc_key = key, sc_label = ustrip label, sc_scopes = scopes, sc_resource_types = types\<rparr>)]\<rparr>))"

definition register_resource :: "support_catalog \<Rightarrow> string \<Rightarrow> describer \<Rightarrow> support_catalog res" where
  "register_resource cat rtype d =
     (case refuse_when_frozen cat of
        Inl e \<Rightarrow> Inl e
      | Inr _ \<Rightarrow>
        if rtype = WORKSPACE_RESOURCE \<or> \<not> is_resource_type rtype
        then raise_dw (ConfigError ''a context names its own resource types, never workspace'')
        else if rtype \<in> fst ` set (cg_resources cat)
        then raise_dw (ConfigError ''support resource type registered twice'')
        else Inr (cat\<lparr>cg_resources := cg_resources cat @ [(rtype, d)]\<rparr>))"

definition freeze :: "support_catalog \<Rightarrow> support_catalog res" where
  "freeze cat =
     (let unnamed = (\<Union>s \<in> set (cg_sets cat). sc_resource_types (snd s)) - {WORKSPACE_RESOURCE} - fst ` set (cg_resources cat)
      in if unnamed \<noteq> {} then raise_dw (ConfigError ''a support scope set names a resource type nobody describes'')
         else Inr (cat\<lparr>cg_frozen := True\<rparr>))"

definition catalog_sets :: "support_catalog \<Rightarrow> support_scope_set list" where
  "catalog_sets cat = sort_key sc_key (map snd (cg_sets cat))"

definition catalog_get :: "support_catalog \<Rightarrow> string \<Rightarrow> support_scope_set option" where
  "catalog_get cat key = map_of (cg_sets cat) key"

definition describer_of :: "support_catalog \<Rightarrow> string \<Rightarrow> describer option" where
  "describer_of cat rtype = map_of (cg_resources cat) rtype"

subsection \<open>The grant\<close>

datatype grant_status =
  Awaiting_approval | Awaiting_assignment | Grant_active | Grant_rejected | Grant_revoked

fun grant_status_value :: "grant_status \<Rightarrow> string" where
  "grant_status_value Awaiting_approval = ''pending_approval''"
| "grant_status_value Awaiting_assignment = ''pending_assignment''"
| "grant_status_value Grant_active = ''active''"
| "grant_status_value Grant_rejected = ''rejected''"
| "grant_status_value Grant_revoked = ''revoked''"

definition EXPIRED :: string where
  "EXPIRED = ''expired''"

definition INEFFECTIVE :: string where
  "INEFFECTIVE = ''ineffective''"

definition OPEN_STATUSES :: "grant_status set" where
  "OPEN_STATUSES = {Awaiting_approval, Awaiting_assignment, Grant_active}"

record support_grant =
  sg_id :: uuid
  sg_code :: string
  sg_tenant_id :: uuid
  sg_workspace_id :: uuid
  sg_resource_type :: string
  sg_resource_id :: "uuid option"
  sg_resource_label :: ustr
  sg_scope_set_key :: string
  sg_scope_set_label :: ustr
  sg_scopes :: "string set"
  sg_reason :: ustr
  sg_duration_hours :: int
  sg_status :: grant_status
  sg_requested_by :: "uuid option"
  sg_requested_at :: instant
  sg_granted_by :: "uuid option"
  sg_granted_at :: "instant option"
  sg_rejected_by :: "uuid option"
  sg_rejected_at :: "instant option"
  sg_reject_reason :: "ustr option"
  sg_staff_user_id :: "uuid option"
  sg_assigned_by :: "uuid option"
  sg_activated_at :: "instant option"
  sg_expires_at :: "instant option"
  sg_revoked_by :: "uuid option"
  sg_revoked_at :: "instant option"

definition grant_effective_state :: "support_grant \<Rightarrow> instant \<Rightarrow> string set \<Rightarrow> string" where
  "grant_effective_state g now grantor_scopes =
     (if sg_status g \<noteq> Grant_active then grant_status_value (sg_status g)
      else if (case sg_expires_at g of None \<Rightarrow> True | Some t \<Rightarrow> t \<le> now) then EXPIRED
      else if SUPPORT_GRANT_SCOPE \<notin> grantor_scopes \<or> \<not> sg_scopes g \<subseteq> grantor_scopes then INEFFECTIVE
      else grant_status_value Grant_active)"

record support_grant_view =
  sv_grant :: support_grant
  sv_state :: string

record grant_change =
  gc_status :: grant_status
  gc_granted_by :: "uuid option"
  gc_granted_at :: "instant option"
  gc_rejected_by :: "uuid option"
  gc_rejected_at :: "instant option"
  gc_reject_reason :: "ustr option"
  gc_revoked_by :: "uuid option"
  gc_revoked_at :: "instant option"

definition change_to :: "grant_status \<Rightarrow> grant_change" where
  "change_to s =
     \<lparr>gc_status = s, gc_granted_by = None, gc_granted_at = None, gc_rejected_by = None, gc_rejected_at = None,
      gc_reject_reason = None, gc_revoked_by = None, gc_revoked_at = None\<rparr>"

record support_request =
  sq_scope_set_key :: string
  sq_resource_type :: string
  sq_resource_id :: "uuid option"
  sq_reason :: ustr
  sq_duration_hours :: int

subsection \<open>The table, its constraints and its trigger\<close>

record staff_row =
  st_user_id :: uuid
  st_label :: "ustr option"
  st_added_by :: "uuid option"

record provisioning_row =
  pv_id :: uuid
  pv_actor_id :: uuid
  pv_action :: string
  pv_target_type :: string
  pv_target_id :: uuid
  pv_details :: details
  pv_occurred_at :: instant

record support_db =
  sp_identity :: identity_db
  sp_workspaces :: "(uuid \<times> uuid \<times> ustr) list"
  sp_tenant_names :: "(uuid \<times> ustr) list"
  sp_emails :: "(uuid \<times> ustr) list"
  sp_staff :: "staff_row list"
  sp_grants :: "support_grant list"
  sp_audit :: "audit_event list"
  sp_provisioning :: "provisioning_row list"

definition hours :: "int \<Rightarrow> instant" where
  "hours n = n * 3600000000"

definition btrim :: "ustr \<Rightarrow> ustr" where
  "btrim s = strip_by (\<lambda>c. c = 32) s"

definition btrim_within :: "ustr \<Rightarrow> nat \<Rightarrow> bool" where
  "btrim_within s n \<longleftrightarrow> 1 \<le> length (btrim s) \<and> length (btrim s) \<le> n"

definition ck_request :: "support_grant \<Rightarrow> bool" where
  "ck_request g \<longleftrightarrow>
     is_resource_type (sg_resource_type g) \<and>
     (sg_resource_id g = None \<longleftrightarrow> sg_resource_type g = ''workspace'') \<and>
     btrim_within (sg_resource_label g) 200 \<and>
     btrim (ulit (sg_scope_set_key g)) \<noteq> [] \<and> btrim (sg_scope_set_label g) \<noteq> [] \<and>
     sg_scopes g \<noteq> {} \<and> btrim_within (sg_reason g) 300 \<and> 1 \<le> sg_duration_hours g \<and> sg_duration_hours g \<le> 336"

definition ck_granted :: "support_grant \<Rightarrow> bool" where
  "ck_granted g \<longleftrightarrow>
     (case sg_status g of
        Awaiting_assignment \<Rightarrow> sg_granted_at g \<noteq> None
      | Grant_active \<Rightarrow> sg_granted_at g \<noteq> None
      | Grant_revoked \<Rightarrow> True
      | _ \<Rightarrow> sg_granted_at g = None \<and> sg_granted_by g = None)"

definition ck_rejected :: "support_grant \<Rightarrow> bool" where
  "ck_rejected g \<longleftrightarrow>
     (sg_status g = Grant_rejected \<longleftrightarrow> sg_rejected_at g \<noteq> None) \<and>
     (sg_status g = Grant_rejected \<longleftrightarrow> sg_reject_reason g \<noteq> None) \<and>
     (sg_status g = Grant_rejected \<or> sg_rejected_by g = None) \<and>
     (case sg_reject_reason g of None \<Rightarrow> True | Some r \<Rightarrow> btrim_within r 300)"

definition ck_assigned :: "support_grant \<Rightarrow> bool" where
  "ck_assigned g \<longleftrightarrow>
     (sg_activated_at g = None \<longleftrightarrow> sg_expires_at g = None) \<and>
     (sg_activated_at g = None \<longleftrightarrow> sg_staff_user_id g = None) \<and>
     (sg_activated_at g \<noteq> None \<or> sg_assigned_by g = None) \<and>
     (case sg_status g of
        Grant_active \<Rightarrow> sg_activated_at g \<noteq> None \<and> sg_granted_at g \<noteq> None
      | Grant_revoked \<Rightarrow> sg_activated_at g = None \<or> sg_granted_at g \<noteq> None
      | _ \<Rightarrow> sg_activated_at g = None) \<and>
     (case sg_expires_at g of None \<Rightarrow> True
      | Some t \<Rightarrow> map_option (\<lambda>a. a + hours (sg_duration_hours g)) (sg_activated_at g) = Some t)"

definition ck_revoked :: "support_grant \<Rightarrow> bool" where
  "ck_revoked g \<longleftrightarrow>
     (sg_status g = Grant_revoked \<longleftrightarrow> sg_revoked_at g \<noteq> None) \<and> (sg_status g = Grant_revoked \<or> sg_revoked_by g = None)"

definition grant_check :: "support_grant \<Rightarrow> bool" where
  "grant_check g \<longleftrightarrow> ck_request g \<and> ck_granted g \<and> ck_rejected g \<and> ck_assigned g \<and> ck_revoked g"

text \<open>\<^verbatim>\<open>substring(code FROM 4)::integer\<close> and the code of a number.\<close>

definition code_number :: "string \<Rightarrow> nat" where
  "code_number code = foldl (\<lambda>n c. 10 * n + (of_char c - 48)) 0 (drop 3 code)"

definition grant_code :: "nat \<Rightarrow> string" where
  "grant_code n = ''SG-'' @ (if n < 10000 then replicate (4 - length (nat_str n)) CHR ''0'' @ nat_str n else nat_str n)"

definition next_number :: "support_grant list \<Rightarrow> uuid \<Rightarrow> nat" where
  "next_number rows tenant =
     foldl max 0 (map (code_number \<circ> sg_code) (filter (\<lambda>g. sg_tenant_id g = tenant) rows)) + 1"

text \<open>\<^verbatim>\<open>platform.guard_support_grant()\<close>: on an insert it assigns the code, on an update it checks the step.\<close>

definition guard_insert :: "support_grant list \<Rightarrow> support_grant \<Rightarrow> support_grant res" where
  "guard_insert rows g =
     (if sg_status g \<notin> {Awaiting_approval, Awaiting_assignment} then Inl (OtherError ''IntegrityError'')
      else Inr (g\<lparr>sg_code := grant_code (next_number rows (sg_tenant_id g))\<rparr>))"

definition grant_moves :: "(grant_status \<times> grant_status) list" where
  "grant_moves =
     [(Awaiting_approval, Awaiting_assignment), (Awaiting_approval, Grant_rejected), (Awaiting_approval, Grant_revoked),
      (Awaiting_assignment, Grant_active), (Awaiting_assignment, Grant_revoked), (Grant_active, Grant_revoked)]"

definition same_request :: "support_grant \<Rightarrow> support_grant \<Rightarrow> bool" where
  "same_request new old \<longleftrightarrow>
     sg_id new = sg_id old \<and> sg_code new = sg_code old \<and> sg_tenant_id new = sg_tenant_id old \<and>
     sg_workspace_id new = sg_workspace_id old \<and> sg_resource_type new = sg_resource_type old \<and>
     sg_resource_id new = sg_resource_id old \<and> sg_resource_label new = sg_resource_label old \<and>
     sg_scope_set_key new = sg_scope_set_key old \<and> sg_scope_set_label new = sg_scope_set_label old \<and>
     sg_scopes new = sg_scopes old \<and> sg_reason new = sg_reason old \<and> sg_duration_hours new = sg_duration_hours old \<and>
     sg_requested_by new = sg_requested_by old \<and> sg_requested_at new = sg_requested_at old"

definition guard_update :: "support_grant \<Rightarrow> support_grant \<Rightarrow> bool" where
  "guard_update old new \<longleftrightarrow>
     same_request new old \<and> (sg_status old, sg_status new) \<in> set grant_moves \<and>
     \<not> (sg_status old \<noteq> Awaiting_approval \<and>
         (sg_granted_by new, sg_granted_at new) \<noteq> (sg_granted_by old, sg_granted_at old)) \<and>
     \<not> (sg_status old = Grant_active \<and>
         (sg_staff_user_id new, sg_assigned_by new, sg_activated_at new, sg_expires_at new) \<noteq>
         (sg_staff_user_id old, sg_assigned_by old, sg_activated_at old, sg_expires_at old))"

text \<open>An INSERT and an UPDATE of the row with one id, as the database runs them.\<close>

definition insert_grant :: "support_grant list \<Rightarrow> support_grant \<Rightarrow> (support_grant \<times> support_grant list) res" where
  "insert_grant rows new =
     (case guard_insert rows new of
        Inl e \<Rightarrow> Inl e
      | Inr g \<Rightarrow>
        if \<not> grant_check g \<or> sg_id g \<in> sg_id ` set rows \<or> (\<exists>r \<in> set rows. sg_tenant_id r = sg_tenant_id g \<and> sg_code r = sg_code g)
        then Inl (OtherError ''IntegrityError'') else Inr (g, rows @ [g]))"

definition update_grant ::
  "(support_grant \<Rightarrow> bool) \<Rightarrow> (support_grant \<Rightarrow> support_grant) \<Rightarrow> support_grant list \<Rightarrow> (support_grant option \<times> support_grant list) res" where
  "update_grant sel f rows =
     (case List.find sel rows of
        None \<Rightarrow> Inr (None, rows)
      | Some g \<Rightarrow>
        if guard_update g (f g) \<and> grant_check (f g)
        then Inr (Some (f g), map (\<lambda>r. if sg_id r = sg_id g then f g else r) rows)
        else Inl (OtherError ''IntegrityError''))"

text \<open>
  The foreign keys to \<^verbatim>\<open>platform.users\<close>: deleting a person sets the five columns that name who took a step
  to NULL, each by an UPDATE that fires the trigger, and is refused for the staff member of a grant.
\<close>

datatype person_column = Requested_by | Granted_by | Rejected_by | Assigned_by | Revoked_by

fun column_of :: "person_column \<Rightarrow> support_grant \<Rightarrow> uuid option" where
  "column_of Requested_by g = sg_requested_by g"
| "column_of Granted_by g = sg_granted_by g"
| "column_of Rejected_by g = sg_rejected_by g"
| "column_of Assigned_by g = sg_assigned_by g"
| "column_of Revoked_by g = sg_revoked_by g"

fun set_null :: "person_column \<Rightarrow> support_grant \<Rightarrow> support_grant" where
  "set_null Requested_by g = g\<lparr>sg_requested_by := None\<rparr>"
| "set_null Granted_by g = g\<lparr>sg_granted_by := None\<rparr>"
| "set_null Rejected_by g = g\<lparr>sg_rejected_by := None\<rparr>"
| "set_null Assigned_by g = g\<lparr>sg_assigned_by := None\<rparr>"
| "set_null Revoked_by g = g\<lparr>sg_revoked_by := None\<rparr>"

fun null_column :: "uuid \<Rightarrow> person_column \<Rightarrow> support_grant list \<Rightarrow> support_grant list res" where
  "null_column u k [] = Inr []"
| "null_column u k (g # gs) =
     (if column_of k g = Some u \<and> \<not> (guard_update g (set_null k g) \<and> grant_check (set_null k g)) then Inl (OtherError ''IntegrityError'')
      else case null_column u k gs of
             Inl e \<Rightarrow> Inl e
           | Inr gs' \<Rightarrow> Inr ((if column_of k g = Some u then set_null k g else g) # gs'))"

fun null_columns :: "uuid \<Rightarrow> person_column list \<Rightarrow> support_grant list \<Rightarrow> support_grant list res" where
  "null_columns u [] gs = Inr gs"
| "null_columns u (k # ks) gs = (case null_column u k gs of Inl e \<Rightarrow> Inl e | Inr gs' \<Rightarrow> null_columns u ks gs')"

definition delete_user :: "support_db \<Rightarrow> uuid \<Rightarrow> support_db res" where
  "delete_user db u =
     (if \<exists>g \<in> set (sp_grants db). sg_staff_user_id g = Some u then Inl (OtherError ''IntegrityError'')
      else case null_columns u [Requested_by, Granted_by, Rejected_by, Assigned_by, Revoked_by] (sp_grants db) of
             Inl e \<Rightarrow> Inl e
           | Inr rows \<Rightarrow> Inr (db\<lparr>sp_grants := rows, sp_staff := map (\<lambda>r. if st_added_by r = Some u then r\<lparr>st_added_by := None\<rparr> else r)
                               (filter (\<lambda>r. st_user_id r \<noteq> u) (sp_staff db))\<rparr>))"

subsection \<open>The customer's side of the repository\<close>

definition mine :: "access_context \<Rightarrow> uuid option \<Rightarrow> support_grant \<Rightarrow> bool" where
  "mine c requested_by g \<longleftrightarrow>
     sg_tenant_id g = ac_tenant_id c \<and> sg_workspace_id g = ac_workspace_id c \<and>
     (case requested_by of None \<Rightarrow> True | Some u \<Rightarrow> sg_requested_by g = Some u)"

definition workspace_name :: "support_db \<Rightarrow> access_context \<Rightarrow> ustr option" where
  "workspace_name db c =
     map_option (snd \<circ> snd)
       (List.find (\<lambda>(w, t, _). w = ac_workspace_id c \<and> t = ac_tenant_id c) (sp_workspaces db))"

definition create_grant ::
  "support_db \<Rightarrow> support_grant \<Rightarrow> (support_grant \<Rightarrow> audit_event res) \<Rightarrow> (support_grant \<times> support_db) res" where
  "create_grant db new audit =
     (case insert_grant (sp_grants db) new of
        Inl e \<Rightarrow> Inl e
      | Inr (g, rows) \<Rightarrow>
        (case audit g of
           Inl e \<Rightarrow> Inl e
         | Inr ev \<Rightarrow> Inr (g, db\<lparr>sp_grants := rows, sp_audit := sp_audit db @ [ev]\<rparr>)))"

definition get_grant :: "support_db \<Rightarrow> access_context \<Rightarrow> uuid \<Rightarrow> support_grant option" where
  "get_grant db c grant_id = List.find (\<lambda>g. sg_id g = grant_id \<and> mine c None g) (sp_grants db)"

definition repo_list_grants :: "support_db \<Rightarrow> access_context \<Rightarrow> uuid option \<Rightarrow> support_grant list" where
  "repo_list_grants db c requested_by =
     sort_by (\<lambda>g. - sg_requested_at g) (sort_by (\<lambda>g. - int (sg_id g)) (filter (mine c requested_by) (sp_grants db)))"

text \<open>The columns a step does not name keep their value.\<close>

definition overlay :: "'a option \<Rightarrow> 'a option \<Rightarrow> 'a option" where
  "overlay new old = (case new of None \<Rightarrow> old | Some v \<Rightarrow> Some v)"

definition apply_change :: "grant_change \<Rightarrow> support_grant \<Rightarrow> support_grant" where
  "apply_change ch g =
     g\<lparr>sg_status := gc_status ch,
       sg_granted_by := overlay (gc_granted_by ch) (sg_granted_by g), sg_granted_at := overlay (gc_granted_at ch) (sg_granted_at g),
       sg_rejected_by := overlay (gc_rejected_by ch) (sg_rejected_by g), sg_rejected_at := overlay (gc_rejected_at ch) (sg_rejected_at g),
       sg_reject_reason := overlay (gc_reject_reason ch) (sg_reject_reason g),
       sg_revoked_by := overlay (gc_revoked_by ch) (sg_revoked_by g), sg_revoked_at := overlay (gc_revoked_at ch) (sg_revoked_at g)\<rparr>"

definition change_grant ::
  "support_db \<Rightarrow> access_context \<Rightarrow> uuid \<Rightarrow> grant_status set \<Rightarrow> grant_change \<Rightarrow> (support_grant \<Rightarrow> audit_event res) \<Rightarrow>
   (support_grant option \<times> support_db) res" where
  "change_grant db c grant_id expected ch audit =
     (case update_grant (\<lambda>g. sg_id g = grant_id \<and> mine c None g \<and> sg_status g \<in> expected) (apply_change ch) (sp_grants db) of
        Inl e \<Rightarrow> Inl e
      | Inr (None, _) \<Rightarrow> Inr (None, db)
      | Inr (Some g, rows) \<Rightarrow>
        (case audit g of
           Inl e \<Rightarrow> Inl e
         | Inr ev \<Rightarrow> Inr (Some g, db\<lparr>sp_grants := rows, sp_audit := sp_audit db @ [ev]\<rparr>)))"

text \<open>\<^verbatim>\<open>SqlScopeHolders.scopes_of\<close>: the scopes of the one membership of that person in an active tenant.\<close>

definition workspace_members :: "identity_db \<Rightarrow> uuid \<Rightarrow> uuid \<Rightarrow> member_row list" where
  "workspace_members db tenant ws =
     map fst (sort_by (\<lambda>(m, t). int (mr_user_id m))
       (filter (\<lambda>(m, t). tr_id t = mr_tenant_id m \<and> in_scope tenant ws m \<and> tr_status t = ''active'')
          (List.product (id_members db) (id_tenants db))))"

definition member_scopes :: "identity_db \<Rightarrow> member_row \<Rightarrow> string set" where
  "member_scopes db m = effective_scopes db (set (mr_role_keys m)) (set (mr_permission_set_keys m))"

definition scopes_of :: "identity_db \<Rightarrow> uuid \<Rightarrow> uuid \<Rightarrow> uuid \<Rightarrow> string set" where
  "scopes_of db tenant ws user =
     (case filter (\<lambda>m. mr_user_id m = user) (workspace_members db tenant ws) of
        [m] \<Rightarrow> member_scopes db m
      | _ \<Rightarrow> {})"

definition holding :: "identity_db \<Rightarrow> uuid \<Rightarrow> uuid \<Rightarrow> string set \<Rightarrow> uuid list" where
  "holding db tenant ws scopes =
     (if scopes = {} then []
      else map mr_user_id (filter (\<lambda>m. member_scopes db m \<inter> scopes \<noteq> {}) (workspace_members db tenant ws)))"

definition holds_scope :: "identity_db \<Rightarrow> uuid \<Rightarrow> uuid \<Rightarrow> uuid \<Rightarrow> string \<Rightarrow> bool" where
  "holds_scope db tenant ws user scope \<longleftrightarrow> scope \<noteq> [] \<and> scope \<in> scopes_of db tenant ws user"

subsection \<open>The service\<close>

definition require_enabled :: "access_context \<Rightarrow> unit res" where
  "require_enabled c =
     (if ctx_has_feature c SUPPORT_ACCESS_FEATURE then Inr ()
      else raise_dw (PermissionDeniedError ''support access is not enabled for this organisation''))"

definition side :: "access_context \<Rightarrow> string res" where
  "side c =
     (if has_scope c SUPPORT_GRANT_SCOPE then Inr SUPPORT_GRANT_SCOPE
      else if has_scope c SUPPORT_REQUEST_SCOPE then Inr SUPPORT_REQUEST_SCOPE
      else raise_dw permission_denied)"

definition require_granter :: "access_context \<Rightarrow> unit res" where
  "require_granter c = (if has_scope c SUPPORT_GRANT_SCOPE then Inr () else raise_dw permission_denied)"

definition require_holds :: "access_context \<Rightarrow> string set \<Rightarrow> unit res" where
  "require_holds c scopes =
     (if scopes - ac_scopes c \<noteq> {} then raise_dw (PermissionDeniedError ''you can only grant scopes you hold yourself'') else Inr ())"

definition wrong_status :: dw_error where
  "wrong_status = ConflictError ''the support grant is not in a state that allows this''"

definition require_status :: "support_grant \<Rightarrow> grant_status set \<Rightarrow> unit res" where
  "require_status g allowed = (if sg_status g \<notin> allowed then raise_dw wrong_status else Inr ())"

definition checked_reason :: "ustr \<Rightarrow> ustr res" where
  "checked_reason reason =
     (let stripped = ustrip reason
      in if \<not> (1 \<le> length stripped \<and> length stripped \<le> MAX_REASON_LENGTH)
         then raise_dw (DomainError ''a reason of 1 to 300 characters is required'') else Inr stripped)"

definition support_grant_audit :: "uuid \<Rightarrow> support_grant \<Rightarrow> uuid \<Rightarrow> string \<Rightarrow> instant \<Rightarrow> details \<Rightarrow> audit_event res" where
  "support_grant_audit event_id g actor action occurred extra =
     make_audit_event
       \<lparr>ae_id = event_id, ae_tenant_id = sg_tenant_id g, ae_workspace_id = sg_workspace_id g, ae_actor_id = actor,
        ae_action = action, ae_resource_type = ''support_grant'', ae_resource_id = JUuid (sg_id g), ae_occurred_at = occurred,
        ae_run_id = None, ae_policy_decision = None, ae_trace_id = None,
        ae_details = dict_merge [(''support_grant_id'', JUuid (sg_id g)), (''code'', JStr (sg_code g)),
                                 (''scope_set_key'', JStr (sg_scope_set_key g)), (''resource_type'', JStr (sg_resource_type g)),
                                 (''status'', JStr (grant_status_value (sg_status g)))] extra\<rparr>"

text \<open>\<^verbatim>\<open>_views\<close> asks each granter's scopes once per workspace and keeps the answer in \<open>held\<close>.\<close>

fun views :: "identity_db \<Rightarrow> instant \<Rightarrow> ((uuid \<times> uuid) \<times> string set) list \<Rightarrow> support_grant list \<Rightarrow> support_grant_view list" where
  "views idb now held [] = []"
| "views idb now held (g # gs) =
     (case (if sg_status g = Grant_active then sg_granted_by g else None) of
        None \<Rightarrow> \<lparr>sv_grant = g, sv_state = grant_effective_state g now {}\<rparr> # views idb now held gs
      | Some by \<Rightarrow>
        (let key = (sg_workspace_id g, by);
             held' = (case map_of held key of
                        None \<Rightarrow> (key, scopes_of idb (sg_tenant_id g) (sg_workspace_id g) by) # held
                      | Some _ \<Rightarrow> held)
         in \<lparr>sv_grant = g, sv_state = grant_effective_state g now (the (map_of held' key))\<rparr> # views idb now held' gs))"

definition catalog_for :: "support_catalog \<Rightarrow> access_context \<Rightarrow> support_scope_set list res" where
  "catalog_for cat c =
     (case require_enabled c of
        Inl e \<Rightarrow> Inl e
      | Inr _ \<Rightarrow> (case side c of Inl e \<Rightarrow> Inl e | Inr _ \<Rightarrow> Inr (catalog_sets cat)))"

definition list_grants :: "support_db \<Rightarrow> instant \<Rightarrow> access_context \<Rightarrow> support_grant_view list res" where
  "list_grants db now c =
     (case require_enabled c of
        Inl e \<Rightarrow> Inl e
      | Inr _ \<Rightarrow>
        (case side c of
           Inl e \<Rightarrow> Inl e
         | Inr s \<Rightarrow>
             Inr (views (sp_identity db) now []
                    (repo_list_grants db c (if s = SUPPORT_GRANT_SCOPE then None else Some (ac_principal_id c))))))"

definition resource_label :: "support_catalog \<Rightarrow> support_db \<Rightarrow> access_context \<Rightarrow> string \<Rightarrow> uuid option \<Rightarrow> ustr res" where
  "resource_label cat db c rtype rid =
     (case (if rtype = WORKSPACE_RESOURCE
            then (if rid \<noteq> None then raise_dw (DomainError ''a workspace grant names no resource id'') else Inr (workspace_name db c))
            else (case rid of
                    None \<Rightarrow> raise_dw (DomainError ''this resource type needs a resource id'')
                  | Some r \<Rightarrow> (case describer_of cat rtype of None \<Rightarrow> Inr None | Some d \<Rightarrow> d c rtype r))) of
        Inl e \<Rightarrow> Inl e
      | Inr None \<Rightarrow> raise_dw (NotFoundError ''resource not found in this workspace'')
      | Inr (Some label) \<Rightarrow> Inr (take 200 label))"

definition new_grant ::
  "uuid \<Rightarrow> instant \<Rightarrow> access_context \<Rightarrow> support_request \<Rightarrow> support_scope_set \<Rightarrow> ustr \<Rightarrow> ustr \<Rightarrow> bool \<Rightarrow> support_grant" where
  "new_grant grant_id now c cmd s label reason granting =
     \<lparr>sg_id = grant_id, sg_code = [], sg_tenant_id = ac_tenant_id c, sg_workspace_id = ac_workspace_id c,
      sg_resource_type = sq_resource_type cmd, sg_resource_id = sq_resource_id cmd, sg_resource_label = label,
      sg_scope_set_key = sc_key s, sg_scope_set_label = sc_label s, sg_scopes = sc_scopes s, sg_reason = reason,
      sg_duration_hours = sq_duration_hours cmd,
      sg_status = (if granting then Awaiting_assignment else Awaiting_approval),
      sg_requested_by = Some (ac_principal_id c), sg_requested_at = now,
      sg_granted_by = (if granting then Some (ac_principal_id c) else None), sg_granted_at = (if granting then Some now else None),
      sg_rejected_by = None, sg_rejected_at = None, sg_reject_reason = None, sg_staff_user_id = None, sg_assigned_by = None,
      sg_activated_at = None, sg_expires_at = None, sg_revoked_by = None, sg_revoked_at = None\<rparr>"

definition request ::
  "support_catalog \<Rightarrow> instant \<Rightarrow> (nat \<Rightarrow> uuid) \<Rightarrow> support_db \<Rightarrow> access_context \<Rightarrow> support_request \<Rightarrow> (support_grant_view \<times> support_db) res" where
  "request cat now new_uuid db c cmd =
     (case require_enabled c of Inl e \<Rightarrow> Inl e | Inr _ \<Rightarrow>
      (case side c of Inl e \<Rightarrow> Inl e | Inr sd \<Rightarrow>
      (case catalog_get cat (sq_scope_set_key cmd) of None \<Rightarrow> raise_dw (DomainError ''no such support scope set'') | Some s \<Rightarrow>
       if sq_resource_type cmd \<notin> sc_resource_types s
       then raise_dw (DomainError ''this scope set is not offered for that resource type'')
       else
      (case checked_reason (sq_reason cmd) of Inl e \<Rightarrow> Inl e | Inr reason \<Rightarrow>
       if \<not> (1 \<le> sq_duration_hours cmd \<and> sq_duration_hours cmd \<le> MAX_DURATION_HOURS)
       then raise_dw (DomainError ''duration must be 1 to 336 hours'')
       else
      (case resource_label cat db c (sq_resource_type cmd) (sq_resource_id cmd) of Inl e \<Rightarrow> Inl e | Inr label \<Rightarrow>
      (case (if sd = SUPPORT_GRANT_SCOPE then require_holds c (sc_scopes s) else Inr ()) of Inl e \<Rightarrow> Inl e | Inr _ \<Rightarrow>
      (case create_grant db (new_grant (new_uuid 0) now c cmd s label reason (sd = SUPPORT_GRANT_SCOPE))
              (\<lambda>g. support_grant_audit (new_uuid 1) g (ac_principal_id c) ''support.grant.requested'' now []) of
         Inl e \<Rightarrow> Inl e
       | Inr (g, db') \<Rightarrow> Inr (\<lparr>sv_grant = g, sv_state = grant_status_value (sg_status g)\<rparr>, db'))))))))"

text \<open>
  \<^verbatim>\<open>_change\<close>: the guarded update with its audit event, then the view of the row it returned. \<open>later\<close> is
  the second reading of the clock, for the view.
\<close>

definition change ::
  "instant \<Rightarrow> instant \<Rightarrow> uuid \<Rightarrow> support_db \<Rightarrow> access_context \<Rightarrow> uuid \<Rightarrow> grant_status set \<Rightarrow> grant_change \<Rightarrow> string \<Rightarrow>
   (support_grant_view \<times> support_db) res" where
  "change now later event_id db c grant_id expected ch action =
     (case change_grant db c grant_id expected ch
             (\<lambda>g. support_grant_audit event_id g (ac_principal_id c) action now []) of
        Inl e \<Rightarrow> Inl e
      | Inr (None, _) \<Rightarrow> raise_dw wrong_status
      | Inr (Some g, db') \<Rightarrow> Inr (hd (views (sp_identity db') later [] [g]), db'))"

definition load_grant :: "support_db \<Rightarrow> access_context \<Rightarrow> uuid \<Rightarrow> support_grant res" where
  "load_grant db c grant_id =
     (case get_grant db c grant_id of None \<Rightarrow> raise_dw (NotFoundError ''support grant not found'') | Some g \<Rightarrow> Inr g)"

text \<open>
  Reads and writes of one command are separate transactions; \<open>meanwhile\<close> is what others make of the
  database in between.
\<close>

definition approve ::
  "instant \<Rightarrow> instant \<Rightarrow> uuid \<Rightarrow> (support_db \<Rightarrow> support_db) \<Rightarrow> support_db \<Rightarrow> access_context \<Rightarrow> uuid \<Rightarrow>
   (support_grant_view \<times> support_db) res" where
  "approve now later event_id meanwhile db c grant_id =
     (case require_enabled c of Inl e \<Rightarrow> Inl e | Inr _ \<Rightarrow>
      (case require_granter c of Inl e \<Rightarrow> Inl e | Inr _ \<Rightarrow>
      (case load_grant db c grant_id of Inl e \<Rightarrow> Inl e | Inr g \<Rightarrow>
      (case require_status g {Awaiting_approval} of Inl e \<Rightarrow> Inl e | Inr _ \<Rightarrow>
      (case require_holds c (sg_scopes g) of Inl e \<Rightarrow> Inl e | Inr _ \<Rightarrow>
       change now later event_id (meanwhile db) c grant_id {Awaiting_approval}
         ((change_to Awaiting_assignment)\<lparr>gc_granted_by := Some (ac_principal_id c), gc_granted_at := Some now\<rparr>)
         ''support.grant.approved'')))))"

definition reject ::
  "instant \<Rightarrow> instant \<Rightarrow> uuid \<Rightarrow> (support_db \<Rightarrow> support_db) \<Rightarrow> support_db \<Rightarrow> access_context \<Rightarrow> uuid \<Rightarrow> ustr \<Rightarrow>
   (support_grant_view \<times> support_db) res" where
  "reject now later event_id meanwhile db c grant_id reason =
     (case require_granter c of Inl e \<Rightarrow> Inl e | Inr _ \<Rightarrow>
      (case checked_reason reason of Inl e \<Rightarrow> Inl e | Inr checked \<Rightarrow>
      (case load_grant db c grant_id of Inl e \<Rightarrow> Inl e | Inr g \<Rightarrow>
      (case require_status g {Awaiting_approval} of Inl e \<Rightarrow> Inl e | Inr _ \<Rightarrow>
       change now later event_id (meanwhile db) c grant_id {Awaiting_approval}
         ((change_to Grant_rejected)\<lparr>gc_rejected_by := Some (ac_principal_id c), gc_rejected_at := Some now, gc_reject_reason := Some checked\<rparr>)
         ''support.grant.rejected''))))"

definition revoke ::
  "instant \<Rightarrow> instant \<Rightarrow> uuid \<Rightarrow> (support_db \<Rightarrow> support_db) \<Rightarrow> support_db \<Rightarrow> access_context \<Rightarrow> uuid \<Rightarrow>
   (support_grant_view \<times> support_db) res" where
  "revoke now later event_id meanwhile db c grant_id =
     (case require_granter c of Inl e \<Rightarrow> Inl e | Inr _ \<Rightarrow>
      (case load_grant db c grant_id of Inl e \<Rightarrow> Inl e | Inr g \<Rightarrow>
      (case require_status g OPEN_STATUSES of Inl e \<Rightarrow> Inl e | Inr _ \<Rightarrow>
       change now later event_id (meanwhile db) c grant_id OPEN_STATUSES
         ((change_to Grant_revoked)\<lparr>gc_revoked_by := Some (ac_principal_id c), gc_revoked_at := Some now\<rparr>)
         ''support.grant.revoked'')))"

subsection \<open>The operators' side\<close>

text \<open>\<open>sql_lower\<close> and \<open>py_lower\<close> are the two case foldings of an e-mail address.\<close>

definition find_user_by_email :: "(ustr \<Rightarrow> ustr) \<Rightarrow> (ustr \<Rightarrow> ustr) \<Rightarrow> support_db \<Rightarrow> ustr \<Rightarrow> uuid option" where
  "find_user_by_email sql_lower py_lower db email =
     map_option fst (List.find (\<lambda>(_, e). sql_lower e = py_lower (ustrip email)) (sp_emails db))"

definition record_provisioning :: "uuid \<Rightarrow> uuid \<Rightarrow> string \<Rightarrow> string \<Rightarrow> uuid \<Rightarrow> details \<Rightarrow> instant \<Rightarrow> support_db \<Rightarrow> support_db" where
  "record_provisioning audit_id actor action ttype target given occurred db =
     db\<lparr>sp_provisioning := sp_provisioning db @
        [\<lparr>pv_id = audit_id, pv_actor_id = actor, pv_action = action, pv_target_type = ttype, pv_target_id = target,
          pv_details = given, pv_occurred_at = occurred\<rparr>]\<rparr>"

definition is_support_staff :: "support_db \<Rightarrow> uuid \<Rightarrow> bool" where
  "is_support_staff db user \<longleftrightarrow> user \<in> st_user_id ` set (sp_staff db)"

definition add_support_staff ::
  "(ustr \<Rightarrow> ustr) \<Rightarrow> (ustr \<Rightarrow> ustr) \<Rightarrow> instant \<Rightarrow> uuid \<Rightarrow> uuid \<Rightarrow> support_db \<Rightarrow> ustr \<Rightarrow> ustr option \<Rightarrow> (uuid \<times> support_db) res" where
  "add_support_staff sql_lower py_lower now audit_id operator db email label =
     (if (case label of None \<Rightarrow> False | Some l \<Rightarrow> 200 < length l) then raise_dw (DomainError ''a note is at most 200 characters'')
      else case find_user_by_email sql_lower py_lower db email of
             None \<Rightarrow> raise_dw (NotFoundError ''no user with that email has signed in yet'')
           | Some user \<Rightarrow>
               (let db1 = (if is_support_staff db user then db
                           else db\<lparr>sp_staff := sp_staff db @ [\<lparr>st_user_id = user, st_label = label, st_added_by = Some operator\<rparr>]\<rparr>)
                in Inr (user, record_provisioning audit_id operator ''platform.support_staff.add'' ''support_staff'' user [] now db1)))"

definition remove_support_staff :: "instant \<Rightarrow> uuid \<Rightarrow> uuid \<Rightarrow> support_db \<Rightarrow> uuid \<Rightarrow> support_db res" where
  "remove_support_staff now audit_id operator db user =
     (if \<not> is_support_staff db user then raise_dw (NotFoundError ''not support staff'')
      else Inr (record_provisioning audit_id operator ''platform.support_staff.remove'' ''support_staff'' user [] now
                  (db\<lparr>sp_staff := filter (\<lambda>r. st_user_id r \<noteq> user) (sp_staff db)\<rparr>)))"

record support_request_summary =
  su_grant_id :: uuid
  su_code :: string
  su_tenant_id :: uuid
  su_tenant_name :: ustr
  su_workspace_id :: uuid
  su_workspace_name :: ustr
  su_resource_type :: string
  su_resource_label :: ustr
  su_scope_set_key :: string
  su_scope_set_label :: ustr
  su_duration_hours :: int
  su_reason :: ustr
  su_requested_at :: instant

definition named :: "support_db \<Rightarrow> support_grant list \<Rightarrow> (support_grant \<times> ustr \<times> ustr) list" where
  "named db gs =
     concat (map (\<lambda>g. [(g, tn, wn). (t, tn) \<leftarrow> sp_tenant_names db, t = sg_tenant_id g,
                                    (w, _, wn) \<leftarrow> sp_workspaces db, w = sg_workspace_id g]) gs)"

definition list_support_requests :: "support_db \<Rightarrow> support_request_summary list" where
  "list_support_requests db =
     map (\<lambda>(g, tn, wn).
            \<lparr>su_grant_id = sg_id g, su_code = sg_code g, su_tenant_id = sg_tenant_id g, su_tenant_name = tn,
             su_workspace_id = sg_workspace_id g, su_workspace_name = wn, su_resource_type = sg_resource_type g,
             su_resource_label = sg_resource_label g, su_scope_set_key = sg_scope_set_key g, su_scope_set_label = sg_scope_set_label g,
             su_duration_hours = sg_duration_hours g, su_reason = sg_reason g, su_requested_at = sg_requested_at g\<rparr>)
       (named db (sort_by sg_requested_at (sort_by (\<lambda>g. int (sg_id g)) (filter (\<lambda>g. sg_status g = Awaiting_assignment) (sp_grants db)))))"

definition assigned_to :: "uuid \<Rightarrow> uuid \<Rightarrow> instant \<Rightarrow> support_grant \<Rightarrow> support_grant" where
  "assigned_to staff operator now g =
     g\<lparr>sg_status := Grant_active, sg_staff_user_id := Some staff, sg_assigned_by := Some operator, sg_activated_at := Some now,
       sg_expires_at := Some (now + hours (sg_duration_hours g))\<rparr>"

definition assign_support_grant ::
  "instant \<Rightarrow> uuid \<Rightarrow> (support_grant \<Rightarrow> audit_event res) \<Rightarrow> uuid \<Rightarrow> support_db \<Rightarrow> uuid \<Rightarrow> uuid \<Rightarrow> (support_grant \<times> support_db) res" where
  "assign_support_grant now operator tenant_audit provisioning_id db grant_id staff =
     (case List.find (\<lambda>g. sg_id g = grant_id) (sp_grants db) of
        None \<Rightarrow> raise_dw (NotFoundError ''support grant not found'')
      | Some current \<Rightarrow>
        if sg_status current \<noteq> Awaiting_assignment
        then raise_dw (ConflictError ''only a grant waiting for assignment can be assigned'')
        else if \<not> is_support_staff db staff
        then raise_dw (ConflictError ''a grant is only ever assigned to support staff'')
        else
          (case update_grant (\<lambda>g. sg_id g = grant_id) (assigned_to staff operator now) (sp_grants db) of
             Inl e \<Rightarrow> Inl e
           | Inr (None, _) \<Rightarrow> Inl (OtherError ''NoResultFound'')
           | Inr (Some g, rows) \<Rightarrow>
             (case tenant_audit g of
                Inl e \<Rightarrow> Inl e
              | Inr ev \<Rightarrow>
                Inr (g, record_provisioning provisioning_id operator ''platform.support_grant.assign'' ''support_grant'' grant_id
                          [(''tenant_id'', JUuid (sg_tenant_id g)), (''code'', JStr (sg_code g)), (''staff_user_id'', JUuid staff)] now
                          (db\<lparr>sp_grants := rows, sp_audit := sp_audit db @ [ev]\<rparr>)))))"

definition assign_support_request ::
  "instant \<Rightarrow> (nat \<Rightarrow> uuid) \<Rightarrow> uuid \<Rightarrow> support_db \<Rightarrow> uuid \<Rightarrow> uuid \<Rightarrow> (support_grant \<times> support_db) res" where
  "assign_support_request now new_uuid operator db grant_id staff =
     assign_support_grant now operator
       (\<lambda>g. support_grant_audit (new_uuid 1) g operator ''support.grant.assigned'' now [(''staff_user_id'', JUuid staff)])
       (new_uuid 0) db grant_id staff"

subsection \<open>The staff member's side\<close>

definition SECOND_FACTOR_METHODS :: "string set" where
  "SECOND_FACTOR_METHODS = {''otp'', ''hwk'', ''mfa''}"

definition SUPPORT_ACCESS_ACTION :: string where
  "SUPPORT_ACCESS_ACTION = ''support.access''"

definition grant_for_staff :: "support_db \<Rightarrow> uuid \<Rightarrow> uuid \<Rightarrow> support_grant option" where
  "grant_for_staff db staff grant_id =
     List.find (\<lambda>g. sg_id g = grant_id \<and> sg_staff_user_id g = Some staff) (sp_grants db)"

record staff_grant_row =
  sr_grant :: support_grant
  sr_tenant_name :: ustr
  sr_workspace_name :: ustr

definition recent_for_staff :: "instant \<Rightarrow> uuid \<Rightarrow> support_grant \<Rightarrow> bool" where
  "recent_for_staff now staff g \<longleftrightarrow>
     sg_staff_user_id g = Some staff \<and>
     (case (sg_activated_at g, sg_expires_at g) of
        (Some _, Some e) \<Rightarrow> now - hours 720 < (case sg_revoked_at g of None \<Rightarrow> e | Some r \<Rightarrow> min e r)
      | _ \<Rightarrow> False)"

definition seen_by_staff :: "uuid \<Rightarrow> support_grant \<Rightarrow> support_grant" where
  "seen_by_staff staff g =
     g\<lparr>sg_reason := [], sg_duration_hours := 0, sg_requested_by := None, sg_requested_at := the (sg_activated_at g),
       sg_granted_at := None, sg_rejected_by := None, sg_rejected_at := None, sg_reject_reason := None, sg_staff_user_id := Some staff,
       sg_assigned_by := None, sg_revoked_by := None\<rparr>"

definition grants_for_staff :: "instant \<Rightarrow> support_db \<Rightarrow> uuid \<Rightarrow> staff_grant_row list" where
  "grants_for_staff now db staff =
     map (\<lambda>(g, tn, wn). \<lparr>sr_grant = seen_by_staff staff g, sr_tenant_name = tn, sr_workspace_name = wn\<rparr>)
       (named db (sort_by (\<lambda>g. - the (sg_activated_at g)) (sort_by (\<lambda>g. int (sg_id g)) (filter (recent_for_staff now staff) (sp_grants db)))))"

definition tenant_plan :: "identity_db \<Rightarrow> uuid \<Rightarrow> (string \<times> string set) option" where
  "tenant_plan db tenant =
     (case List.find (\<lambda>((e, p), t). er_tenant_id e = tenant \<and> er_plan_id e = fst p \<and> tr_id t = er_tenant_id e)
             (List.product (List.product (id_entitlements db) (id_plans db)) (id_tenants db)) of
        None \<Rightarrow> None
      | Some ((e, p), t) \<Rightarrow>
        if tr_status t \<noteq> ''active'' then None else Some (er_plan_id e, set (snd p) \<union> set (er_feature_overrides e)))"

definition granter_scopes :: "support_db \<Rightarrow> support_grant \<Rightarrow> string set" where
  "granter_scopes db g =
     (case sg_granted_by g of
        None \<Rightarrow> {}
      | Some by \<Rightarrow> scopes_of (sp_identity db) (sg_tenant_id g) (sg_workspace_id g) by)"

definition state_of :: "support_db \<Rightarrow> instant \<Rightarrow> support_grant \<Rightarrow> string" where
  "state_of db now g = grant_effective_state g now (granter_scopes db g)"

definition support_context :: "support_db \<Rightarrow> instant \<Rightarrow> uuid \<Rightarrow> uuid \<Rightarrow> access_context res" where
  "support_context db now who grant_id =
     (case grant_for_staff db who grant_id of
        None \<Rightarrow> raise_dw (NotFoundError ''support grant not found'')
      | Some g \<Rightarrow>
        if grant_effective_state g now (granter_scopes db g) \<noteq> grant_status_value Grant_active
        then raise_dw (PermissionDeniedError ''this support grant is no longer in force'')
        else
          (case tenant_plan (sp_identity db) (sg_tenant_id g) of
             None \<Rightarrow> raise_dw (PermissionDeniedError ''support access is not enabled for this organisation'')
           | Some (plan, features) \<Rightarrow>
             if SUPPORT_ACCESS_FEATURE \<notin> features
             then raise_dw (PermissionDeniedError ''support access is not enabled for this organisation'')
             else access_context_check
                    ((access_context_defaults (sg_tenant_id g) (sg_workspace_id g) who {} plan)
                       \<lparr>ac_scopes := sg_scopes g, ac_feature_flags := features,
                        ac_support := Some \<lparr>ss_grant_id = sg_id g, ss_code = sg_code g, ss_resource_type = sg_resource_type g,
                                             ss_resource_id = sg_resource_id g, ss_scope_set_key = sg_scope_set_key g\<rparr>\<rparr>)))"

definition build_support :: "support_db \<Rightarrow> instant \<Rightarrow> uuid \<Rightarrow> string set \<Rightarrow> uuid \<Rightarrow> access_context res" where
  "build_support db now who auth_methods grant_id =
     (if \<not> is_support_staff db who then raise_dw (PermissionDeniedError ''support staff only'')
      else if auth_methods \<inter> SECOND_FACTOR_METHODS = {}
      then raise_dw (PermissionDeniedError ''a second authentication factor is required for support access'')
      else support_context db now who grant_id)"

definition recheck :: "support_db \<Rightarrow> instant \<Rightarrow> access_context \<Rightarrow> unit res" where
  "recheck db now c =
     (case ac_support c of
        None \<Rightarrow> Inr ()
      | Some s \<Rightarrow> (case support_context db now (ac_principal_id c) (ss_grant_id s) of Inl e \<Rightarrow> Inl e | Inr _ \<Rightarrow> Inr ()))"

definition support_access_audit :: "uuid \<Rightarrow> access_context \<Rightarrow> string \<Rightarrow> string \<Rightarrow> (string \<times> string) list \<Rightarrow> instant \<Rightarrow> audit_event res" where
  "support_access_audit event_id c method route path_ids occurred =
     (case ac_support c of
        None \<Rightarrow> Inl AssertionError
      | Some s \<Rightarrow>
        make_audit_event
          \<lparr>ae_id = event_id, ae_tenant_id = ac_tenant_id c, ae_workspace_id = ac_workspace_id c, ae_actor_id = ac_principal_id c,
           ae_action = SUPPORT_ACCESS_ACTION, ae_resource_type = ''support_grant'', ae_resource_id = JUuid (ss_grant_id s),
           ae_occurred_at = occurred, ae_run_id = None, ae_policy_decision = None, ae_trace_id = None,
           ae_details = [(''support_grant_id'', JUuid (ss_grant_id s)), (''code'', JStr (ss_code s)), (''method'', JStr method),
                         (''route'', JStr route), (''path_ids'', JObj (map (\<lambda>(k, v). (k, JStr v)) path_ids))]\<rparr>)"

subsection \<open>The door of the API\<close>

record verified_identity =
  vi_subject :: string
  vi_issuer :: string
  vi_auth_methods :: "string set"

record bootstrap_view =
  bv_principal_id :: uuid
  bv_is_platform_operator :: bool

record api_request =
  hr_authorization :: "ustr option"
  hr_tenant :: "ustr option"
  hr_workspace :: "ustr option"
  hr_support_grant :: "ustr option"
  hr_method :: string
  hr_route :: "string option"
  hr_path :: string
  hr_path_ids :: "(string \<times> string) list"

text \<open>The configured services: absent ones are \<open>None\<close>. \<open>ct_parse_uuid\<close> is \<^verbatim>\<open>uuid.UUID(raw)\<close>.\<close>

record api_container =
  ct_verifier :: "(ustr \<Rightarrow> verified_identity res) option"
  ct_bootstrap :: "(verified_identity \<Rightarrow> bootstrap_view res) option"
  ct_has_factory :: bool
  ct_has_support :: bool
  ct_has_provisioning :: bool
  ct_allowed_routes :: "(string \<times> string) set"
  ct_parse_uuid :: "ustr \<Rightarrow> uuid option"

definition ascii_lower :: "ustr \<Rightarrow> ustr" where
  "ascii_lower = map (\<lambda>c. if 65 \<le> c \<and> c \<le> 90 then c + 32 else c)"

text \<open>The scheme is compared after \<^verbatim>\<open>lower()\<close>; only ASCII letters fold to the letters of \<^verbatim>\<open>bearer\<close>.\<close>

definition bearer_token :: "ustr option \<Rightarrow> ustr res" where
  "bearer_token authorization =
     (let raw = (case authorization of None \<Rightarrow> [] | Some a \<Rightarrow> a);
          scheme = takeWhile (\<lambda>c. c \<noteq> 32) raw;
          token = ustrip (drop 1 (dropWhile (\<lambda>c. c \<noteq> 32) raw))
      in if ascii_lower scheme \<noteq> ulit ''bearer'' \<or> token = [] then raise_dw (UnauthenticatedError ''missing bearer token'')
         else Inr token)"

definition uuid_header :: "(ustr \<Rightarrow> uuid option) \<Rightarrow> ustr option \<Rightarrow> uuid option res" where
  "uuid_header parse raw =
     (case raw of
        None \<Rightarrow> Inr None
      | Some r \<Rightarrow> (case parse r of None \<Rightarrow> raise_dw (TenantContextMissingError ''header is not a valid UUID'') | Some u \<Rightarrow> Inr (Some u)))"

definition get_access_context :: "api_container \<Rightarrow> support_db \<Rightarrow> api_request \<Rightarrow> access_context res" where
  "get_access_context ct db rq =
     (if hr_support_grant rq \<noteq> None then raise_dw (PermissionDeniedError ''this route is not open to support access'')
      else case ct_verifier ct of
             None \<Rightarrow> raise_dw (InfrastructureError ''authentication is not configured'')
           | Some verify \<Rightarrow>
             if \<not> ct_has_factory ct then raise_dw (InfrastructureError ''authentication is not configured'')
             else
               (case bearer_token (hr_authorization rq) of Inl e \<Rightarrow> Inl e | Inr token \<Rightarrow>
               (case verify token of Inl e \<Rightarrow> Inl e | Inr identity \<Rightarrow>
               (case uuid_header (ct_parse_uuid ct) (hr_tenant rq) of Inl e \<Rightarrow> Inl e | Inr tenant \<Rightarrow>
               (case uuid_header (ct_parse_uuid ct) (hr_workspace rq) of Inl e \<Rightarrow> Inl e | Inr ws \<Rightarrow>
                  build_context (sp_identity db) (vi_subject identity) (vi_issuer identity) tenant ws)))))"

definition record_access :: "audit_event \<Rightarrow> support_db \<Rightarrow> support_db" where
  "record_access ev db = db\<lparr>sp_audit := sp_audit db @ [ev]\<rparr>"

definition get_access_context_or_support ::
  "api_container \<Rightarrow> instant \<Rightarrow> instant \<Rightarrow> uuid \<Rightarrow> support_db \<Rightarrow> api_request \<Rightarrow> (access_context \<times> support_db) res" where
  "get_access_context_or_support ct now later event_id db rq =
     (if hr_support_grant rq = None
      then (case get_access_context ct db rq of Inl e \<Rightarrow> Inl e | Inr c \<Rightarrow> Inr (c, db))
      else if (case hr_route rq of None \<Rightarrow> True | Some r \<Rightarrow> (hr_method rq, r) \<notin> ct_allowed_routes ct)
      then raise_dw (PermissionDeniedError ''this route is not open to support access'')
      else
        (case uuid_header (ct_parse_uuid ct) (hr_support_grant rq) of Inl e \<Rightarrow> Inl e | Inr gid \<Rightarrow>
        (case (ct_verifier ct, ct_bootstrap ct, gid) of
           (Some verify, Some bootstrap, Some grant_id) \<Rightarrow>
             if \<not> ct_has_support ct then raise_dw (InfrastructureError ''support access is not configured'')
             else
               (case bearer_token (hr_authorization rq) of Inl e \<Rightarrow> Inl e | Inr token \<Rightarrow>
               (case verify token of Inl e \<Rightarrow> Inl e | Inr identity \<Rightarrow>
               (case bootstrap identity of Inl e \<Rightarrow> Inl e | Inr view \<Rightarrow>
               (case build_support db now (bv_principal_id view) (vi_auth_methods identity) grant_id of Inl e \<Rightarrow> Inl e | Inr c \<Rightarrow>
               (case support_access_audit event_id c (hr_method rq)
                       (case hr_route rq of None \<Rightarrow> hr_path rq | Some r \<Rightarrow> if r = [] then hr_path rq else r) (hr_path_ids rq) later of
                  Inl e \<Rightarrow> Inl e
                | Inr ev \<Rightarrow> Inr (c, record_access ev db))))))
         | _ \<Rightarrow> raise_dw (InfrastructureError ''support access is not configured''))))"

definition get_provisioning_context :: "api_container \<Rightarrow> api_request \<Rightarrow> uuid res" where
  "get_provisioning_context ct rq =
     (case (ct_verifier ct, ct_bootstrap ct) of
        (Some verify, Some bootstrap) \<Rightarrow>
          if \<not> ct_has_provisioning ct then raise_dw (InfrastructureError ''provisioning is not configured'')
          else
            (case bearer_token (hr_authorization rq) of Inl e \<Rightarrow> Inl e | Inr token \<Rightarrow>
            (case verify token of Inl e \<Rightarrow> Inl e | Inr identity \<Rightarrow>
            (case bootstrap identity of Inl e \<Rightarrow> Inl e | Inr view \<Rightarrow>
             if \<not> bv_is_platform_operator view then raise_dw (PermissionDeniedError ''platform operator required'')
             else Inr (bv_principal_id view))))
      | _ \<Rightarrow> raise_dw (InfrastructureError ''provisioning is not configured''))"

end
