(* ===== verification/SupportLaws.thy ===== *)
theory SupportLaws
  imports SupportAccess
begin

text \<open>
  What support access promises. The databases an installation can reach are those that evolve from
  one without grants by the commands of \<open>SupportAccess\<close>, in any interleaving and with the contexts that
  were issued. In each of them the table is well formed, every grant was made by somebody who held
  what it hands over, and what a staff member gets through the door is no more than that.
\<close>

subsection \<open>Codes\<close>

lemma hex_digit_decimal: "n < 10 \<Longrightarrow> (of_char (hex_digit n) :: nat) = 48 + n"
proof -
  assume "n < 10"
  then have "n = 0 \<or> n = 1 \<or> n = 2 \<or> n = 3 \<or> n = 4 \<or> n = 5 \<or> n = 6 \<or> n = 7 \<or> n = 8 \<or> n = 9" by arith
  then show ?thesis by (elim disjE) (simp_all add: hex_digit_def)
qed

lemma foldl_decimal: "foldl (\<lambda>n c. 10 * n + (of_char c - 48)) 0 (nat_str k) = (k :: nat)"
proof (induction k rule: nat_str.induct)
  case (1 k)
  show ?case
  proof (cases "k < 10")
    case True then show ?thesis by (simp add: nat_str.simps [of k] hex_digit_decimal)
  next
    case False
    then show ?thesis using 1 by (simp add: nat_str.simps [of k] hex_digit_decimal)
  qed
qed

lemma foldl_zeros: "foldl (\<lambda>n c. 10 * n + (of_char c - 48)) (0 :: nat) (replicate k CHR ''0'') = 0"
  by (induction k) auto

lemma code_number_code [simp]: "code_number (grant_code n) = n"
  by (simp add: code_number_def grant_code_def foldl_decimal foldl_zeros)

lemma foldl_max_ge: "x \<in> set xs \<or> x \<le> a \<Longrightarrow> x \<le> foldl max (a :: nat) xs"
proof (induction xs arbitrary: a)
  case (Cons y ys)
  then have "x \<in> set ys \<or> x \<le> max a y" by auto
  from Cons.IH [OF this] show ?case by simp
qed simp

lemma next_number_fresh:
  assumes "r \<in> set rows" "sg_tenant_id r = tenant"
  shows "sg_code r \<noteq> grant_code (next_number rows tenant)"
proof
  assume "sg_code r = grant_code (next_number rows tenant)"
  then have "code_number (sg_code r) = next_number rows tenant" by simp
  moreover have "code_number (sg_code r) \<le> foldl max 0 (map (code_number \<circ> sg_code) (filter (\<lambda>g. sg_tenant_id g = tenant) rows))"
    using assms by (intro foldl_max_ge) auto
  ultimately show False by (simp add: next_number_def)
qed

subsection \<open>One step of a grant\<close>

definition steps_to :: "support_grant \<Rightarrow> support_grant \<Rightarrow> bool" where
  "steps_to g g' \<longleftrightarrow> guard_update g g' \<and> grant_check g'"

abbreviation moved :: "support_grant \<Rightarrow> support_grant \<Rightarrow> bool" where
  "moved \<equiv> steps_to\<^sup>*\<^sup>*"

lemma same_request_trans: "same_request c b \<Longrightarrow> same_request b a \<Longrightarrow> same_request c a"
  by (simp add: same_request_def)

lemma moved_same_request: "moved g g' \<Longrightarrow> same_request g' g"
proof (induction rule: rtranclp_induct)
  case base show ?case by (simp add: same_request_def)
next
  case (step y z) then show ?case using same_request_trans by (auto simp: steps_to_def guard_update_def)
qed

lemma moved_closed:
  assumes "moved g g'" "sg_status g \<in> {Grant_rejected, Grant_revoked}"
  shows "g' = g"
  using assms by (induction rule: rtranclp_induct) (auto simp: steps_to_def guard_update_def grant_moves_def)

lemma moved_check: "moved g g' \<Longrightarrow> grant_check g \<Longrightarrow> grant_check g'"
  by (induction rule: rtranclp_induct) (auto simp: steps_to_def)

lemma moved_granted:
  assumes "moved g g'" "sg_status g \<noteq> Awaiting_approval"
  shows "sg_granted_by g' = sg_granted_by g \<and> sg_granted_at g' = sg_granted_at g \<and> sg_status g' \<noteq> Awaiting_approval"
  using assms by (induction rule: rtranclp_induct) (auto simp: steps_to_def guard_update_def grant_moves_def)

lemma moved_assigned:
  assumes "moved g g'" "sg_status g = Grant_active"
  shows "(sg_staff_user_id g', sg_assigned_by g', sg_activated_at g', sg_expires_at g') =
         (sg_staff_user_id g, sg_assigned_by g, sg_activated_at g, sg_expires_at g) \<and> sg_status g' \<in> {Grant_active, Grant_revoked}"
  using assms by (induction rule: rtranclp_induct) (auto simp: steps_to_def guard_update_def grant_moves_def)

subsection \<open>Rows\<close>

definition put_grant :: "support_grant \<Rightarrow> support_grant list \<Rightarrow> support_grant list" where
  "put_grant g' rows = map (\<lambda>r. if sg_id r = sg_id g' then g' else r) rows"

lemma steps_to_id: "steps_to g g' \<Longrightarrow> sg_id g' = sg_id g \<and> sg_tenant_id g' = sg_tenant_id g \<and> sg_code g' = sg_code g \<and>
    sg_workspace_id g' = sg_workspace_id g \<and> sg_scopes g' = sg_scopes g"
  by (simp add: steps_to_def guard_update_def same_request_def)

lemma same_grant: "distinct (map sg_id rows) \<Longrightarrow> g \<in> set rows \<Longrightarrow> g' \<in> set rows \<Longrightarrow> sg_id g = sg_id g' \<Longrightarrow> g = g'"
  by (metis distinct_map inj_onD)

lemma update_grantE:
  assumes "update_grant sel f rows = Inr (Some g', rows')"
  obtains g where "g \<in> set rows" "sel g" "g' = f g" "steps_to g g'" "rows' = put_grant g' rows"
proof -
  from assms obtain g where g: "List.find sel rows = Some g" "guard_update g (f g)" "grant_check (f g)" "g' = f g"
      "rows' = map (\<lambda>r. if sg_id r = sg_id g then f g else r) rows"
    by (auto simp: update_grant_def split: option.splits if_splits)
  have "sg_id (f g) = sg_id g" using g(2) by (simp add: guard_update_def same_request_def)
  then have "rows' = put_grant g' rows" using g(4,5) by (simp add: put_grant_def)
  then show thesis using g find_SomeD [OF g(1)] by (intro that [of g]) (simp_all add: steps_to_def)
qed

lemma insert_grantD:
  assumes "insert_grant rows new = Inr (g, rows')"
  shows "g = new\<lparr>sg_code := grant_code (next_number rows (sg_tenant_id new))\<rparr> \<and> rows' = rows @ [g] \<and> grant_check g \<and>
    sg_id g \<notin> sg_id ` set rows \<and> sg_status new \<in> {Awaiting_approval, Awaiting_assignment}"
  using assms by (auto simp: insert_grant_def guard_insert_def split: if_splits)

lemma put_grant_ids [simp]: "map sg_id (put_grant g' rows) = map sg_id rows"
  by (simp add: put_grant_def)

lemma put_grant_moved:
  assumes "distinct (map sg_id rows)" "g \<in> set rows" "steps_to g g'" "r \<in> set rows"
  shows "\<exists>r' \<in> set (put_grant g' rows). moved r r'"
proof (cases "sg_id r = sg_id g'")
  case True
  then have "r = g" using same_grant [OF assms(1,4,2)] steps_to_id [OF assms(3)] by simp
  moreover have "g' \<in> set (put_grant g' rows)" using True assms(4) by (force simp: put_grant_def)
  ultimately show ?thesis using assms(3) by blast
next
  case False
  then show ?thesis using assms(4) by (force simp: put_grant_def)
qed

lemma put_grant_rows:
  assumes "r \<in> set (put_grant g' rows)"
  shows "r = g' \<or> r \<in> set rows"
  using assms by (auto simp: put_grant_def)

lemma put_grant_codes:
  assumes "distinct (map sg_id rows)" "g \<in> set rows" "steps_to g g'"
  shows "map (\<lambda>r. (sg_tenant_id r, sg_code r)) (put_grant g' rows) = map (\<lambda>r. (sg_tenant_id r, sg_code r)) rows"
  unfolding put_grant_def map_map
proof (rule map_cong [OF refl])
  fix r assume "r \<in> set rows"
  then show "((\<lambda>r. (sg_tenant_id r, sg_code r)) \<circ> (\<lambda>r. if sg_id r = sg_id g' then g' else r)) r = (sg_tenant_id r, sg_code r)"
    using same_grant [OF assms(1) _ assms(2)] steps_to_id [OF assms(3)] by auto
qed

subsection \<open>Commands\<close>

lemma audit_ok: "make_audit_event e = Inr ev \<Longrightarrow> ev = e"
  by (simp add: make_audit_event_def split: if_splits)

lemma change_grantE:
  assumes "change_grant db c grant_id expected ch audit = Inr (Some g', db')"
  obtains g ev where "g \<in> set (sp_grants db)" "sg_id g = grant_id" "mine c None g" "sg_status g \<in> expected"
    "g' = apply_change ch g" "steps_to g g'" "audit g' = Inr ev"
    "db' = db\<lparr>sp_grants := put_grant g' (sp_grants db), sp_audit := sp_audit db @ [ev]\<rparr>"
proof -
  from assms obtain rows ev where u: "update_grant (\<lambda>g. sg_id g = grant_id \<and> mine c None g \<and> sg_status g \<in> expected) (apply_change ch) (sp_grants db) = Inr (Some g', rows)"
      "audit g' = Inr ev" "db' = db\<lparr>sp_grants := rows, sp_audit := sp_audit db @ [ev]\<rparr>"
    by (auto simp: change_grant_def split: sum.splits prod.splits option.splits)
  from u(1) show thesis by (rule update_grantE) (use u in \<open>auto intro!: that\<close>)
qed

lemma changeE:
  assumes "change now later event_id db c grant_id expected ch action = Inr (v, db')"
  obtains g ev where "g \<in> set (sp_grants db)" "sg_id g = grant_id" "mine c None g" "sg_status g \<in> expected"
    "sv_grant v = apply_change ch g" "steps_to g (apply_change ch g)"
    "support_grant_audit event_id (apply_change ch g) (ac_principal_id c) action now [] = Inr ev"
    "db' = db\<lparr>sp_grants := put_grant (apply_change ch g) (sp_grants db), sp_audit := sp_audit db @ [ev]\<rparr>"
proof -
  let ?audit = "\<lambda>g. support_grant_audit event_id g (ac_principal_id c) action now []"
  from assms obtain g' where ch: "change_grant db c grant_id expected ch ?audit = Inr (Some g', db')"
      "v = hd (views (sp_identity db') later [] [g'])"
    by (auto simp: change_def split: sum.splits prod.splits option.splits)
  have "sv_grant v = g'" using ch(2) by (simp add: Let_def split: option.splits)
  with ch(1) show thesis by (elim change_grantE) (auto intro!: that)
qed

lemma load_grantD: "load_grant db c grant_id = Inr g \<Longrightarrow> g \<in> set (sp_grants db) \<and> sg_id g = grant_id \<and> mine c None g"
  by (auto simp: load_grant_def get_grant_def dest: find_SomeD split: option.splits)

lemma requestE:
  assumes "request cat now new_uuid db c cmd = Inr (v, db')"
  obtains s label reason g rows ev where "ctx_has_feature c SUPPORT_ACCESS_FEATURE"
    "has_scope c SUPPORT_GRANT_SCOPE \<or> has_scope c SUPPORT_REQUEST_SCOPE"
    "catalog_get cat (sq_scope_set_key cmd) = Some s"
    "has_scope c SUPPORT_GRANT_SCOPE \<Longrightarrow> sc_scopes s \<subseteq> ac_scopes c"
    "insert_grant (sp_grants db) (new_grant (new_uuid 0) now c cmd s label reason (has_scope c SUPPORT_GRANT_SCOPE)) = Inr (g, rows)"
    "support_grant_audit (new_uuid 1) g (ac_principal_id c) ''support.grant.requested'' now [] = Inr ev"
    "db' = db\<lparr>sp_grants := rows, sp_audit := sp_audit db @ [ev]\<rparr>" "sv_grant v = g"
proof -
  have differ: "SUPPORT_GRANT_SCOPE \<noteq> SUPPORT_REQUEST_SCOPE" by (simp add: SUPPORT_GRANT_SCOPE_def SUPPORT_REQUEST_SCOPE_def)
  from assms obtain sd s reason label g where
    a: "require_enabled c = Inr ()" "side c = Inr sd" "catalog_get cat (sq_scope_set_key cmd) = Some s"
      "(if sd = SUPPORT_GRANT_SCOPE then require_holds c (sc_scopes s) else Inr ()) = Inr ()"
      "create_grant db (new_grant (new_uuid 0) now c cmd s label reason (sd = SUPPORT_GRANT_SCOPE))
         (\<lambda>g. support_grant_audit (new_uuid 1) g (ac_principal_id c) ''support.grant.requested'' now []) = Inr (g, db')"
      "sv_grant v = g"
    by (auto simp: request_def split: sum.splits prod.splits option.splits if_splits)
  have sd: "sd = SUPPORT_GRANT_SCOPE \<longleftrightarrow> has_scope c SUPPORT_GRANT_SCOPE" "has_scope c SUPPORT_GRANT_SCOPE \<or> has_scope c SUPPORT_REQUEST_SCOPE"
    using a(2) differ by (auto simp: side_def split: if_splits)
  have holds: "has_scope c SUPPORT_GRANT_SCOPE \<Longrightarrow> sc_scopes s \<subseteq> ac_scopes c"
    using a(4) sd(1) by (auto simp: require_holds_def split: if_splits)
  have flag: "ctx_has_feature c SUPPORT_ACCESS_FEATURE"
    using a(1) by (simp add: require_enabled_def split: if_splits)
  from a(5) obtain rows ev where i: "insert_grant (sp_grants db) (new_grant (new_uuid 0) now c cmd s label reason (has_scope c SUPPORT_GRANT_SCOPE)) = Inr (g, rows)"
      "support_grant_audit (new_uuid 1) g (ac_principal_id c) ''support.grant.requested'' now [] = Inr ev"
      "db' = db\<lparr>sp_grants := rows, sp_audit := sp_audit db @ [ev]\<rparr>"
    by (auto simp: create_grant_def sd(1) split: sum.splits prod.splits)
  show thesis by (rule that [OF flag sd(2) a(3) holds i a(6)])
qed

lemma approveE:
  assumes "approve now later event_id m db c grant_id = Inr (v, db')"
  obtains g where "ctx_has_feature c SUPPORT_ACCESS_FEATURE" "has_scope c SUPPORT_GRANT_SCOPE" "load_grant db c grant_id = Inr g"
    "sg_scopes g \<subseteq> ac_scopes c"
    "change now later event_id (m db) c grant_id {Awaiting_approval}
       ((change_to Awaiting_assignment)\<lparr>gc_granted_by := Some (ac_principal_id c), gc_granted_at := Some now\<rparr>)
       ''support.grant.approved'' = Inr (v, db')"
proof -
  from assms obtain g where g: "require_enabled c = Inr ()" "require_granter c = Inr ()" "load_grant db c grant_id = Inr g"
      "require_holds c (sg_scopes g) = Inr ()"
      "change now later event_id (m db) c grant_id {Awaiting_approval}
         ((change_to Awaiting_assignment)\<lparr>gc_granted_by := Some (ac_principal_id c), gc_granted_at := Some now\<rparr>)
         ''support.grant.approved'' = Inr (v, db')"
    by (auto simp: approve_def split: sum.splits)
  from g(1,2,4) show thesis
    by (intro that [OF _ _ g(3) _ g(5)])
      (auto simp: require_enabled_def require_granter_def require_holds_def split: if_splits)
qed

lemma rejectE:
  assumes "reject now later event_id m db c grant_id reason = Inr (v, db')"
  obtains checked where "has_scope c SUPPORT_GRANT_SCOPE"
    "change now later event_id (m db) c grant_id {Awaiting_approval}
       ((change_to Grant_rejected)\<lparr>gc_rejected_by := Some (ac_principal_id c), gc_rejected_at := Some now, gc_reject_reason := Some checked\<rparr>)
       ''support.grant.rejected'' = Inr (v, db')"
  using assms by (auto simp: reject_def require_granter_def split: sum.splits if_splits)

lemma revokeE:
  assumes "revoke now later event_id m db c grant_id = Inr (v, db')"
  obtains "has_scope c SUPPORT_GRANT_SCOPE"
    "change now later event_id (m db) c grant_id OPEN_STATUSES
       ((change_to Grant_revoked)\<lparr>gc_revoked_by := Some (ac_principal_id c), gc_revoked_at := Some now\<rparr>)
       ''support.grant.revoked'' = Inr (v, db')"
  using assms by (auto simp: revoke_def require_granter_def split: sum.splits if_splits)

lemma assignE:
  assumes "assign_support_request now new_uuid operator db grant_id staff = Inr (g', db')"
  obtains g ev where "g \<in> set (sp_grants db)" "sg_id g = grant_id" "sg_status g = Awaiting_assignment" "is_support_staff db staff"
    "g' = assigned_to staff operator now g" "steps_to g g'" "sp_grants db' = put_grant g' (sp_grants db)"
    "sp_staff db' = sp_staff db" "sp_identity db' = sp_identity db" "sp_audit db' = sp_audit db @ [ev]"
proof -
  let ?audit = "\<lambda>g. support_grant_audit (new_uuid 1) g operator ''support.grant.assigned'' now [(''staff_user_id'', JUuid staff)]"
  from assms obtain h rows ev where a: "List.find (\<lambda>g. sg_id g = grant_id) (sp_grants db) = Some h" "sg_status h = Awaiting_assignment"
      "is_support_staff db staff" "update_grant (\<lambda>g. sg_id g = grant_id) (assigned_to staff operator now) (sp_grants db) = Inr (Some g', rows)"
      "?audit g' = Inr ev" "sp_grants db' = rows" "sp_staff db' = sp_staff db" "sp_identity db' = sp_identity db" "sp_audit db' = sp_audit db @ [ev]"
    by (auto simp: assign_support_request_def assign_support_grant_def record_provisioning_def
        split: sum.splits prod.splits option.splits if_splits)
  have "g' = assigned_to staff operator now h \<and> steps_to h g' \<and> rows = put_grant g' (sp_grants db)"
    using a(1,4) unfolding update_grant_def
    by (auto simp: steps_to_def guard_update_def same_request_def put_grant_def split: if_splits)
  then show thesis using find_SomeD [OF a(1)] a(2,3,6-) by (intro that [of h ev]) auto
qed

subsection \<open>The catalog a process is wired with\<close>

inductive catalog_built :: "support_catalog \<Rightarrow> bool" where
  "catalog_built new_catalog"
| "catalog_built cat \<Longrightarrow> register_set cat key label scopes types = Inr cat' \<Longrightarrow> catalog_built cat'"
| "catalog_built cat \<Longrightarrow> register_resource cat rtype d = Inr cat' \<Longrightarrow> catalog_built cat'"
| "catalog_built cat \<Longrightarrow> freeze cat = Inr cat' \<Longrightarrow> catalog_built cat'"

definition offered_ok :: "string \<times> support_scope_set \<Rightarrow> bool" where
  "offered_ok ks \<longleftrightarrow>
     fst ks = sc_key (snd ks) \<and> is_set_key (fst ks) \<and> \<not> ublank (sc_label (snd ks)) \<and> sc_scopes (snd ks) \<noteq> {} \<and>
     (\<forall>s \<in> sc_scopes (snd ks). \<not> forbidden_scope s) \<and> (\<forall>t \<in> sc_resource_types (snd ks). is_resource_type t)"

lemma catalog_offers:
  assumes "catalog_built cat"
  shows "distinct (map fst (cg_sets cat)) \<and> list_all offered_ok (cg_sets cat)"
  using assms
proof (induction rule: catalog_built.induct)
  case 1 show ?case by (simp add: new_catalog_def)
next
  case (2 cat key label scopes types cat')
  from 2(2) have r: "is_set_key key" "key \<notin> fst ` set (cg_sets cat)" "\<not> ublank label" "scopes \<noteq> {}"
      "\<forall>s \<in> scopes. \<not> forbidden_scope s" "\<forall>t \<in> types. is_resource_type t"
      "cg_sets cat' = cg_sets cat @ [(key, \<lparr>sc_key = key, sc_label = ustrip label, sc_scopes = scopes, sc_resource_types = types\<rparr>)]"
    by (auto simp: register_set_def split: sum.splits if_splits)
  then show ?case using 2(3) by (simp add: offered_ok_def)
next
  case (3 cat rtype d cat')
  from 3(2) have "cg_sets cat' = cg_sets cat" by (auto simp: register_resource_def split: sum.splits if_splits)
  with 3(3) show ?case by simp
next
  case (4 cat cat')
  from 4(2) have "cg_sets cat' = cg_sets cat" by (auto simp: freeze_def Let_def split: if_splits)
  with 4(3) show ?case by simp
qed

lemma catalog_get_mem: "catalog_get cat key = Some s \<Longrightarrow> (key, s) \<in> set (cg_sets cat)"
  by (auto simp: catalog_get_def dest: map_of_SomeD)

subsection \<open>How a database evolves\<close>

text \<open>
  \<open>issued\<close> are the access contexts the platform has built. A command of the customer's side that
  reads, checks and then writes may find others' changes in between.
\<close>

inductive evolves :: "(access_context \<Rightarrow> bool) \<Rightarrow> support_catalog \<Rightarrow> support_db \<Rightarrow> support_db \<Rightarrow> bool"
  for issued cat where
  start: "evolves issued cat db db"
| requested: "evolves issued cat db0 db \<Longrightarrow> issued c \<Longrightarrow> request cat now new_uuid db c cmd = Inr (v, db') \<Longrightarrow> evolves issued cat db0 db'"
| approved: "evolves issued cat db0 db \<Longrightarrow> evolves issued cat db db1 \<Longrightarrow> issued c \<Longrightarrow>
    approve now later event_id (\<lambda>_. db1) db c grant_id = Inr (v, db2) \<Longrightarrow> evolves issued cat db0 db2"
| rejected: "evolves issued cat db0 db \<Longrightarrow> evolves issued cat db db1 \<Longrightarrow> issued c \<Longrightarrow>
    reject now later event_id (\<lambda>_. db1) db c grant_id reason = Inr (v, db2) \<Longrightarrow> evolves issued cat db0 db2"
| revoked: "evolves issued cat db0 db \<Longrightarrow> evolves issued cat db db1 \<Longrightarrow> issued c \<Longrightarrow>
    revoke now later event_id (\<lambda>_. db1) db c grant_id = Inr (v, db2) \<Longrightarrow> evolves issued cat db0 db2"
| assigned: "evolves issued cat db0 db \<Longrightarrow>
    assign_support_request now new_uuid operator db grant_id staff = Inr (g, db') \<Longrightarrow> evolves issued cat db0 db'"
| staff_added: "evolves issued cat db0 db \<Longrightarrow>
    add_support_staff sql_lower py_lower now audit_id operator db email label = Inr (u, db') \<Longrightarrow> evolves issued cat db0 db'"
| staff_removed: "evolves issued cat db0 db \<Longrightarrow> remove_support_staff now audit_id operator db u = Inr db' \<Longrightarrow> evolves issued cat db0 db'"
| accessed: "evolves issued cat db0 db \<Longrightarrow> get_access_context_or_support ct now later event_id db rq = Inr (c, db') \<Longrightarrow> evolves issued cat db0 db'"
| elsewhere: "evolves issued cat db0 db \<Longrightarrow>
    evolves issued cat db0 (db\<lparr>sp_identity := i, sp_workspaces := w, sp_tenant_names := n, sp_emails := e, sp_audit := sp_audit db @ events\<rparr>)"

definition authorised :: "(access_context \<Rightarrow> bool) \<Rightarrow> support_grant \<Rightarrow> bool" where
  "authorised issued g \<longleftrightarrow>
     sg_granted_at g = None \<and> sg_granted_by g = None \<or>
     (\<exists>c. issued c \<and> sg_granted_by g = Some (ac_principal_id c) \<and> ac_tenant_id c = sg_tenant_id g \<and>
          ac_workspace_id c = sg_workspace_id g \<and> has_scope c SUPPORT_GRANT_SCOPE \<and> sg_scopes g \<subseteq> ac_scopes c)"

definition well_kept :: "(access_context \<Rightarrow> bool) \<Rightarrow> support_catalog \<Rightarrow> support_grant list \<Rightarrow> bool" where
  "well_kept issued cat rows \<longleftrightarrow>
     distinct (map sg_id rows) \<and> distinct (map (\<lambda>g. (sg_tenant_id g, sg_code g)) rows) \<and>
     (\<forall>g \<in> set rows. grant_check g \<and> sg_scopes g \<in> (sc_scopes \<circ> snd) ` set (cg_sets cat) \<and> authorised issued g)"

lemma well_keptD:
  "well_kept issued cat rows \<Longrightarrow> distinct (map sg_id rows)"
  "well_kept issued cat rows \<Longrightarrow> g \<in> set rows \<Longrightarrow> grant_check g"
  "well_kept issued cat rows \<Longrightarrow> g \<in> set rows \<Longrightarrow> sg_scopes g \<in> (sc_scopes \<circ> snd) ` set (cg_sets cat)"
  "well_kept issued cat rows \<Longrightarrow> g \<in> set rows \<Longrightarrow> authorised issued g"
  by (simp_all add: well_kept_def)

lemma put_well_kept:
  assumes "well_kept issued cat rows" "g \<in> set rows" "steps_to g g'" "authorised issued g'"
  shows "well_kept issued cat (put_grant g' rows)"
  unfolding well_kept_def
proof (intro conjI ballI)
  show "distinct (map sg_id (put_grant g' rows))" using assms(1) by (simp add: well_kept_def)
  show "distinct (map (\<lambda>g. (sg_tenant_id g, sg_code g)) (put_grant g' rows))"
    unfolding put_grant_codes [OF well_keptD(1) [OF assms(1)] assms(2,3)] using assms(1) by (simp add: well_kept_def)
next
  fix r assume "r \<in> set (put_grant g' rows)"
  then consider "r = g'" | "r \<in> set rows" using put_grant_rows by blast
  then show "grant_check r" "sg_scopes r \<in> (sc_scopes \<circ> snd) ` set (cg_sets cat)" "authorised issued r"
    using assms(3,4) steps_to_id [OF assms(3)] well_keptD(2-4) [OF assms(1)] assms(2) by (cases; simp add: steps_to_def)+
qed

lemma insert_well_kept:
  assumes "well_kept issued cat rows" "insert_grant rows new = Inr (g, rows')"
    "sg_scopes new \<in> (sc_scopes \<circ> snd) ` set (cg_sets cat)" "authorised issued g"
  shows "well_kept issued cat rows'"
proof -
  have g: "g = new\<lparr>sg_code := grant_code (next_number rows (sg_tenant_id new))\<rparr>" "rows' = rows @ [g]" "grant_check g" "sg_id g \<notin> sg_id ` set rows"
    using insert_grantD [OF assms(2)] by blast+
  have "(sg_tenant_id g, sg_code g) \<notin> (\<lambda>g. (sg_tenant_id g, sg_code g)) ` set rows"
  proof
    assume "(sg_tenant_id g, sg_code g) \<in> (\<lambda>g. (sg_tenant_id g, sg_code g)) ` set rows"
    then obtain r where r: "r \<in> set rows" "sg_tenant_id r = sg_tenant_id new" "sg_code r = sg_code g" using g(1) by auto
    from next_number_fresh [OF r(1,2)] r(3) g(1) show False by simp
  qed
  then show ?thesis using assms(1,3,4) g unfolding well_kept_def by auto
qed

definition carried :: "(access_context \<Rightarrow> bool) \<Rightarrow> support_catalog \<Rightarrow> support_db \<Rightarrow> support_db \<Rightarrow> bool" where
  "carried issued cat db db' \<longleftrightarrow>
     (well_kept issued cat (sp_grants db) \<longrightarrow>
        well_kept issued cat (sp_grants db') \<and> (\<forall>g \<in> set (sp_grants db). \<exists>g' \<in> set (sp_grants db'). moved g g'))"

lemma carried_trans: "carried issued cat a b \<Longrightarrow> carried issued cat b c \<Longrightarrow> carried issued cat a c"
  unfolding carried_def by (meson rtranclp_trans)

lemma carried_same: "sp_grants db' = sp_grants db \<Longrightarrow> carried issued cat db db'"
  unfolding carried_def by auto

lemma carried_put:
  assumes "sp_grants db' = put_grant g' (sp_grants db)" "g \<in> set (sp_grants db)" "steps_to g g'"
    "well_kept issued cat (sp_grants db) \<Longrightarrow> authorised issued g'"
  shows "carried issued cat db db'"
  unfolding carried_def assms(1)
  using put_well_kept [OF _ assms(2,3)] put_grant_moved [OF _ assms(2,3)] well_keptD(1) assms(4) by blast

lemma authorised_keeps:
  assumes "steps_to g g'" "sg_granted_by g' = sg_granted_by g" "sg_granted_at g' = sg_granted_at g" "authorised issued g"
  shows "authorised issued g'"
  using assms(2-4) steps_to_id [OF assms(1)] by (simp add: authorised_def)

lemma apply_change_granted:
  "gc_granted_by ch = None \<Longrightarrow> gc_granted_at ch = None \<Longrightarrow>
     sg_granted_by (apply_change ch g) = sg_granted_by g \<and> sg_granted_at (apply_change ch g) = sg_granted_at g"
  by (simp add: apply_change_def overlay_def)

lemma carried_change:
  assumes "change now later event_id db c grant_id expected ch action = Inr (v, db')" "gc_granted_by ch = None" "gc_granted_at ch = None"
  shows "carried issued cat db db'"
proof -
  from assms(1) obtain g ev where g: "g \<in> set (sp_grants db)" "steps_to g (apply_change ch g)"
      "sp_grants db' = put_grant (apply_change ch g) (sp_grants db)"
    by (elim changeE) simp
  show ?thesis
    using carried_put [OF g(3,1,2)] authorised_keeps [OF g(2)] apply_change_granted [OF assms(2,3)] well_keptD(4) g(1) by blast
qed

lemma carried_approve:
  assumes "carried issued cat db db1" "issued c" "approve now later event_id (\<lambda>_. db1) db c grant_id = Inr (v, db2)"
    "well_kept issued cat (sp_grants db)"
  shows "carried issued cat db1 db2"
proof -
  let ?ch = "(change_to Awaiting_assignment)\<lparr>gc_granted_by := Some (ac_principal_id c), gc_granted_at := Some now\<rparr>"
  from assms(3) obtain g where g: "has_scope c SUPPORT_GRANT_SCOPE" "load_grant db c grant_id = Inr g" "sg_scopes g \<subseteq> ac_scopes c"
      "change now later event_id db1 c grant_id {Awaiting_approval} ?ch ''support.grant.approved'' = Inr (v, db2)"
    by (rule approveE)
  from g(4) obtain g1 ev where g1: "g1 \<in> set (sp_grants db1)" "sg_id g1 = grant_id" "mine c None g1" "steps_to g1 (apply_change ?ch g1)"
      "sp_grants db2 = put_grant (apply_change ?ch g1) (sp_grants db1)"
    by (elim changeE) simp
  have kept: "well_kept issued cat (sp_grants db1)" and "\<exists>g' \<in> set (sp_grants db1). moved g g'"
    using assms(1,4) load_grantD [OF g(2)] by (auto simp: carried_def)
  then obtain g' where g': "g' \<in> set (sp_grants db1)" "same_request g' g" using moved_same_request by blast
  have "g' = g1" using same_grant [OF well_keptD(1) [OF kept] g'(1) g1(1)] g'(2) g1(2) load_grantD [OF g(2)] by (simp add: same_request_def)
  then have "sg_scopes g1 = sg_scopes g" using g'(2) by (simp add: same_request_def)
  moreover have "sg_granted_by (apply_change ?ch g1) = Some (ac_principal_id c)" by (simp add: apply_change_def overlay_def)
  ultimately have "authorised issued (apply_change ?ch g1)"
    using steps_to_id [OF g1(4)] assms(2) g(1,3) g1(3) by (auto simp: authorised_def mine_def intro!: exI [of _ c])
  then show ?thesis using carried_put [OF g1(5,1,4)] by blast
qed

lemma evolves_carried: "evolves issued cat db db' \<Longrightarrow> carried issued cat db db'"
proof (induction rule: evolves.induct)
  case (start db) show ?case by (rule carried_same) simp
next
  case (requested db0 db c now new_uuid cmd v db')
  from requested(3) obtain s label reason g rows ev where r:
    "catalog_get cat (sq_scope_set_key cmd) = Some s" "has_scope c SUPPORT_GRANT_SCOPE \<Longrightarrow> sc_scopes s \<subseteq> ac_scopes c"
    "insert_grant (sp_grants db) (new_grant (new_uuid 0) now c cmd s label reason (has_scope c SUPPORT_GRANT_SCOPE)) = Inr (g, rows)"
    "sp_grants db' = rows"
    by (elim requestE) simp
  have "authorised issued g"
    using insert_grantD [OF r(3)] r(2) requested(2) by (auto simp: authorised_def new_grant_def intro!: exI [of _ c])
  moreover have "sc_scopes s \<in> (sc_scopes \<circ> snd) ` set (cg_sets cat)" using catalog_get_mem [OF r(1)] by force
  ultimately have "well_kept issued cat (sp_grants db) \<Longrightarrow> well_kept issued cat rows"
    by (intro insert_well_kept [OF _ r(3)]) (simp_all add: new_grant_def)
  then have "carried issued cat db db'" using insert_grantD [OF r(3)] r(4) by (auto simp: carried_def)
  with requested.IH show ?case by (rule carried_trans)
next
  case (approved db0 db db1 c now later event_id grant_id v db2)
  show ?case
  proof (cases "well_kept issued cat (sp_grants db0)")
    case True
    then have "well_kept issued cat (sp_grants db)" using approved.IH(1) by (simp add: carried_def)
    from carried_approve [OF approved.IH(2) approved(3,4) this] carried_trans [OF approved.IH(1) approved.IH(2)]
    show ?thesis by (blast intro: carried_trans)
  qed (simp add: carried_def)
next
  case (rejected db0 db db1 c now later event_id grant_id reason v db2)
  from rejected(4) have "carried issued cat db1 db2" by (elim rejectE) (rule carried_change, assumption, simp_all add: change_to_def)
  with carried_trans [OF rejected.IH] show ?case by (rule carried_trans)
next
  case (revoked db0 db db1 c now later event_id grant_id v db2)
  from revoked(4) have "carried issued cat db1 db2" by (elim revokeE) (rule carried_change, assumption, simp_all add: change_to_def)
  with carried_trans [OF revoked.IH] show ?case by (rule carried_trans)
next
  case (assigned db0 db now new_uuid operator grant_id staff g db')
  from assigned(2) obtain h where h: "h \<in> set (sp_grants db)" "steps_to h g" "sp_grants db' = put_grant g (sp_grants db)"
      "g = assigned_to staff operator now h"
    by (elim assignE) simp
  have "carried issued cat db db'"
    using carried_put [OF h(3,1,2)] authorised_keeps [OF h(2)] h(1,4) well_keptD(4) by (simp add: assigned_to_def)
  with assigned.IH show ?case by (rule carried_trans)
next
  case (staff_added db0 db sql_lower py_lower now audit_id operator email label u db')
  from staff_added(2) have "sp_grants db' = sp_grants db"
    by (auto simp: add_support_staff_def record_provisioning_def Let_def split: if_splits option.splits)
  with staff_added.IH show ?case using carried_same carried_trans by blast
next
  case (staff_removed db0 db now audit_id operator u db')
  from staff_removed(2) have "sp_grants db' = sp_grants db"
    by (auto simp: remove_support_staff_def record_provisioning_def split: if_splits)
  with staff_removed.IH show ?case using carried_same carried_trans by blast
next
  case (accessed db0 db ct now later event_id rq c db')
  from accessed(2) have "sp_grants db' = sp_grants db"
    by (auto simp: get_access_context_or_support_def record_access_def split: if_splits sum.splits option.splits prod.splits)
  with accessed.IH show ?case using carried_same carried_trans by blast
next
  case elsewhere
  then show ?case by (elim carried_trans) (rule carried_same, simp)
qed

lemma evolves_well_kept:
  assumes "evolves issued cat db db'" "sp_grants db = []"
  shows "well_kept issued cat (sp_grants db')"
  using evolves_carried [OF assms(1)] assms(2) by (simp add: carried_def well_kept_def)

lemma evolves_trans: "evolves issued cat b c \<Longrightarrow> evolves issued cat a b \<Longrightarrow> evolves issued cat a c"
  by (induction rule: evolves.induct) (blast intro: evolves.intros)+

subsection \<open>What the door lets through\<close>

lemma in_force:
  "grant_effective_state g now scopes = grant_status_value Grant_active \<longleftrightarrow>
     sg_status g = Grant_active \<and> (\<exists>t. sg_expires_at g = Some t \<and> now < t) \<and> insert SUPPORT_GRANT_SCOPE (sg_scopes g) \<subseteq> scopes"
  by (cases "sg_status g") (auto simp: grant_effective_state_def EXPIRED_def INEFFECTIVE_def split: option.splits)

lemma support_contextE:
  assumes "support_context db now who grant_id = Inr c"
  obtains g plan features where "g \<in> set (sp_grants db)" "sg_id g = grant_id" "sg_staff_user_id g = Some who"
    "grant_effective_state g now (granter_scopes db g) = grant_status_value Grant_active"
    "tenant_plan (sp_identity db) (sg_tenant_id g) = Some (plan, features)" "SUPPORT_ACCESS_FEATURE \<in> features"
    "c = (access_context_defaults (sg_tenant_id g) (sg_workspace_id g) who {} plan)
           \<lparr>ac_scopes := sg_scopes g, ac_feature_flags := features,
            ac_support := Some \<lparr>ss_grant_id = sg_id g, ss_code = sg_code g, ss_resource_type = sg_resource_type g,
                                 ss_resource_id = sg_resource_id g, ss_scope_set_key = sg_scope_set_key g\<rparr>\<rparr>"
proof -
  from assms obtain g where g: "grant_for_staff db who grant_id = Some g" by (auto simp: support_context_def split: option.splits)
  with assms find_SomeD [OF g [unfolded grant_for_staff_def]] show thesis
    by (auto simp: support_context_def access_context_check_def split: if_splits option.splits intro!: that [of g])
qed

lemma build_supportD:
  "build_support db now who methods grant_id = Inr c \<Longrightarrow>
     is_support_staff db who \<and> methods \<inter> SECOND_FACTOR_METHODS \<noteq> {} \<and> support_context db now who grant_id = Inr c"
  by (auto simp: build_support_def split: if_splits)

lemma doorE:
  assumes "get_access_context_or_support ct now later event_id db rq = Inr (c, db')" "hr_support_grant rq = Some raw"
  obtains r grant_id who methods ev where "hr_route rq = Some r" "(hr_method rq, r) \<in> ct_allowed_routes ct" "ct_parse_uuid ct raw = Some grant_id"
    "build_support db now who methods grant_id = Inr c" "db' = record_access ev db" "ae_tenant_id ev = ac_tenant_id c"
    "ae_actor_id ev = ac_principal_id c" "ae_action ev = SUPPORT_ACCESS_ACTION"
    "ae_resource_id ev = JUuid (ss_grant_id (the (ac_support c)))"
proof -
  from assms obtain r where r: "hr_route rq = Some r" "(hr_method rq, r) \<in> ct_allowed_routes ct"
    by (auto simp: get_access_context_or_support_def split: if_splits option.splits)
  with assms obtain grant_id where p: "ct_parse_uuid ct raw = Some grant_id"
    by (auto simp: get_access_context_or_support_def uuid_header_def split: if_splits option.splits)
  with assms r obtain view :: bootstrap_view and identity :: verified_identity and route ev where b:
    "build_support db now (bv_principal_id view) (vi_auth_methods identity) grant_id = Inr c"
    "support_access_audit event_id c (hr_method rq) route (hr_path_ids rq) later = Inr ev" "db' = record_access ev db"
    by (auto simp: get_access_context_or_support_def uuid_header_def split: if_splits option.splits sum.splits)
  from b(2) have "ae_tenant_id ev = ac_tenant_id c \<and> ae_actor_id ev = ac_principal_id c \<and> ae_action ev = SUPPORT_ACCESS_ACTION \<and>
      ae_resource_id ev = JUuid (ss_grant_id (the (ac_support c)))"
    by (auto simp: support_access_audit_def dest!: audit_ok split: option.splits)
  with r p b(1,3) show thesis by (intro that) auto
qed

lemma offered_scopes:
  assumes "catalog_built cat" "scopes \<in> (sc_scopes \<circ> snd) ` set (cg_sets cat)" "s \<in> scopes"
  shows "\<not> forbidden_scope s"
proof -
  from assms(2) obtain ks where ks: "ks \<in> set (cg_sets cat)" "scopes = sc_scopes (snd ks)" by auto
  then have "offered_ok ks" using catalog_offers [OF assms(1)] by (simp add: list_all_iff)
  then show ?thesis using ks(2) assms(3) by (simp add: offered_ok_def)
qed

lemma active_grant_term:
  assumes "grant_check g" "sg_status g = Grant_active"
  obtains a where "sg_activated_at g = Some a" "sg_expires_at g = Some (a + hours (sg_duration_hours g))"
    "1 \<le> sg_duration_hours g" "sg_duration_hours g \<le> MAX_DURATION_HOURS"
proof -
  from assms obtain a t where "sg_activated_at g = Some a" "sg_expires_at g = Some t" "t = a + hours (sg_duration_hours g)"
    by (auto simp: grant_check_def ck_assigned_def)
  moreover have "1 \<le> sg_duration_hours g" "sg_duration_hours g \<le> 336" using assms(1) by (simp_all add: grant_check_def ck_request_def)
  ultimately show thesis by (intro that) (simp_all add: MAX_DURATION_HOURS_def)
qed

text \<open>
  C8: Whatever a request under \<^verbatim>\<open>X-DW-Support-Grant\<close> gets, it is the tenant and workspace of a stored active
  grant that names the caller, with a term of at most 336 hours that has not ended. The caller is
  listed staff and has no role; every action they are allowed is one the person who granted it holds
  at that moment, together with \<^verbatim>\<open>support.grant\<close>, and never one of deciding approvals, runs, audit,
  knowledge, memory, platform, support or directory. The access is one event on the customer's
  trail.
\<close>

theorem support_context_confined:
  assumes "catalog_built cat" "evolves issued cat db0 db" "sp_grants db0 = []"
    "get_access_context_or_support ct now later event_id db rq = Inr (c, db')" "hr_support_grant rq = Some raw"
  shows "\<exists>g a by ev. g \<in> set (sp_grants db) \<and> ct_parse_uuid ct raw = Some (sg_id g) \<and> sg_status g = Grant_active \<and>
    sg_staff_user_id g = Some (ac_principal_id c) \<and> is_support_staff db (ac_principal_id c) \<and>
    sg_activated_at g = Some a \<and> now < a + hours (sg_duration_hours g) \<and> sg_duration_hours g \<le> MAX_DURATION_HOURS \<and>
    ac_tenant_id c = sg_tenant_id g \<and> ac_workspace_id c = sg_workspace_id g \<and> ac_roles c = {} \<and> sg_granted_by g = Some by \<and>
    SUPPORT_GRANT_SCOPE \<in> scopes_of (sp_identity db) (sg_tenant_id g) (sg_workspace_id g) by \<and>
    (\<forall>action. is_allowed PLATFORM_ADMIN_ROLE c action \<longrightarrow>
       action \<in> scopes_of (sp_identity db) (sg_tenant_id g) (sg_workspace_id g) by \<and> \<not> forbidden_scope action) \<and>
    sp_audit db' = sp_audit db @ [ev] \<and> ae_tenant_id ev = sg_tenant_id g \<and> ae_actor_id ev = ac_principal_id c \<and>
    ae_action ev = SUPPORT_ACCESS_ACTION \<and> ae_resource_id ev = JUuid (sg_id g)"
proof -
  from assms(4,5) obtain grant_id who methods ev where d: "ct_parse_uuid ct raw = Some grant_id"
      "build_support db now who methods grant_id = Inr c" "db' = record_access ev db" "ae_tenant_id ev = ac_tenant_id c"
      "ae_actor_id ev = ac_principal_id c" "ae_action ev = SUPPORT_ACCESS_ACTION" "ae_resource_id ev = JUuid (ss_grant_id (the (ac_support c)))"
    by (rule doorE)
  have b: "is_support_staff db who" "support_context db now who grant_id = Inr c" using build_supportD [OF d(2)] by blast+
  from b(2) obtain g plan features where g: "g \<in> set (sp_grants db)" "sg_id g = grant_id" "sg_staff_user_id g = Some who"
      "grant_effective_state g now (granter_scopes db g) = grant_status_value Grant_active"
      "c = (access_context_defaults (sg_tenant_id g) (sg_workspace_id g) who {} plan)
           \<lparr>ac_scopes := sg_scopes g, ac_feature_flags := features,
            ac_support := Some \<lparr>ss_grant_id = sg_id g, ss_code = sg_code g, ss_resource_type = sg_resource_type g,
                                 ss_resource_id = sg_resource_id g, ss_scope_set_key = sg_scope_set_key g\<rparr>\<rparr>"
    by (rule support_contextE)
  have kept: "grant_check g" "sg_scopes g \<in> (sc_scopes \<circ> snd) ` set (cg_sets cat)"
    using well_keptD(2,3) [OF evolves_well_kept [OF assms(2,3)] g(1)] by blast+
  have act: "sg_status g = Grant_active" "\<exists>t. sg_expires_at g = Some t \<and> now < t" "insert SUPPORT_GRANT_SCOPE (sg_scopes g) \<subseteq> granter_scopes db g"
    using g(4) unfolding in_force by blast+
  obtain a where a: "sg_activated_at g = Some a" "sg_expires_at g = Some (a + hours (sg_duration_hours g))" "sg_duration_hours g \<le> MAX_DURATION_HOURS"
    using kept(1) act(1) by (rule active_grant_term)
  from act(3) obtain by' where by': "sg_granted_by g = Some by'" "granter_scopes db g = scopes_of (sp_identity db) (sg_tenant_id g) (sg_workspace_id g) by'"
    by (auto simp: granter_scopes_def split: option.splits)
  have c: "ac_principal_id c = who" "ac_roles c = {}" "ac_scopes c = sg_scopes g" "ac_tenant_id c = sg_tenant_id g"
      "ac_workspace_id c = sg_workspace_id g" "ss_grant_id (the (ac_support c)) = sg_id g"
    using g(5) by (simp_all add: access_context_defaults_def)
  show ?thesis
    using g(1-3) d b(1) act a by' c offered_scopes [OF assms(1) kept(2)]
    by (intro exI [of _ g] exI [of _ a] exI [of _ by'] exI [of _ ev]) (auto simp: is_allowed_iff record_access_def)
qed

text \<open>
  C20: A grant past approval was made by somebody who, when they made it, had a context of that workspace
  with \<^verbatim>\<open>support.grant\<close> and every scope the grant hands over. Grants are numbered without repetition in a
  tenant and each row satisfies the table's constraints.
\<close>

theorem grant_made_by_holder:
  assumes "evolves issued cat db0 db" "sp_grants db0 = []" "g \<in> set (sp_grants db)"
  shows "grant_check g \<and> distinct (map (\<lambda>g. (sg_tenant_id g, sg_code g)) (sp_grants db)) \<and>
    (sg_status g \<in> {Awaiting_assignment, Grant_active} \<longrightarrow>
       (\<exists>c. issued c \<and> sg_granted_by g = Some (ac_principal_id c) \<and> ac_tenant_id c = sg_tenant_id g \<and>
          ac_workspace_id c = sg_workspace_id g \<and> insert SUPPORT_GRANT_SCOPE (sg_scopes g) \<subseteq> ac_scopes c))"
proof -
  note kept = evolves_well_kept [OF assms(1,2)]
  have check: "grant_check g" by (rule well_keptD(2) [OF kept assms(3)])
  have "sg_granted_at g \<noteq> None" if "sg_status g \<in> {Awaiting_assignment, Grant_active}"
    using check that by (auto simp: grant_check_def ck_granted_def)
  then show ?thesis
    using check well_keptD(4) [OF kept assms(3)] kept by (auto simp: authorised_def has_scope_def well_kept_def)
qed

lemma ended_grant:
  assumes "evolves issued cat db0 db" "sp_grants db0 = []" "evolves issued cat db db'" "g \<in> set (sp_grants db)"
    "g' \<in> set (sp_grants db')" "sg_id g' = sg_id g"
  shows "moved g g'"
proof -
  have kept: "well_kept issued cat (sp_grants db)" by (rule evolves_well_kept [OF assms(1,2)])
  then have "well_kept issued cat (sp_grants db') \<and> (\<exists>h \<in> set (sp_grants db'). moved g h)"
    using evolves_carried [OF assms(3)] assms(4) by (simp add: carried_def)
  then obtain h where h: "well_kept issued cat (sp_grants db')" "h \<in> set (sp_grants db')" "moved g h" by blast
  have "sg_id h = sg_id g'" using moved_same_request [OF h(3)] assms(6) by (simp add: same_request_def)
  from same_grant [OF well_keptD(1) [OF h(1)] h(2) assms(5) this] show ?thesis using h(3) by simp
qed

text \<open>
  C35: A grant that was rejected or revoked, or whose term is over, opens nothing at any later time,
  whatever is done in between: no command brings it back and nobody extends it.
\<close>

theorem ended_grant_stays_ended:
  assumes "evolves issued cat db0 db" "sp_grants db0 = []" "g \<in> set (sp_grants db)"
    "sg_status g \<in> {Grant_rejected, Grant_revoked} \<or> sg_status g = Grant_active \<and> the (sg_expires_at g) \<le> now"
    "evolves issued cat db db'" "now \<le> later"
  shows "\<nexists>c. build_support db' later who methods (sg_id g) = Inr c"
proof
  assume "\<exists>c. build_support db' later who methods (sg_id g) = Inr c"
  then obtain c where "support_context db' later who (sg_id g) = Inr c" using build_supportD by blast
  then obtain g' where g': "g' \<in> set (sp_grants db')" "sg_id g' = sg_id g"
      "grant_effective_state g' later (granter_scopes db' g') = grant_status_value Grant_active"
    by (rule support_contextE)
  note m = ended_grant [OF assms(1,2,5,3) g'(1,2)]
  have act: "sg_status g' = Grant_active" "\<exists>t. sg_expires_at g' = Some t \<and> later < t" using g'(3) unfolding in_force by blast+
  from assms(4) show False
  proof
    assume "sg_status g \<in> {Grant_rejected, Grant_revoked}"
    with moved_closed [OF m] act(1) show False by auto
  next
    assume "sg_status g = Grant_active \<and> the (sg_expires_at g) \<le> now"
    with moved_assigned [OF m] act(2) assms(6) show False by auto
  qed
qed

subsection \<open>The screen and the door\<close>

definition cache_ok :: "identity_db \<Rightarrow> uuid \<Rightarrow> ((uuid \<times> uuid) \<times> string set) list \<Rightarrow> bool" where
  "cache_ok idb tenant held \<longleftrightarrow> (\<forall>ws by scopes. map_of held (ws, by) = Some scopes \<longrightarrow> scopes = scopes_of idb tenant ws by)"

lemma not_active_state: "sg_status g \<noteq> Grant_active \<Longrightarrow> grant_effective_state g now a = grant_effective_state g now b"
  by (simp add: grant_effective_state_def)

lemma views_direct:
  assumes "\<forall>g \<in> set gs. sg_tenant_id g = tenant" "cache_ok (sp_identity db) tenant held"
  shows "views (sp_identity db) now held gs = map (\<lambda>g. \<lparr>sv_grant = g, sv_state = state_of db now g\<rparr>) gs"
  using assms
proof (induction gs arbitrary: held)
  case (Cons g gs)
  show ?case
  proof (cases "if sg_status g = Grant_active then sg_granted_by g else None")
    case None
    then have "grant_effective_state g now {} = state_of db now g"
      by (cases "sg_status g = Grant_active") (auto simp: state_of_def granter_scopes_def intro: not_active_state)
    with None Cons show ?thesis by simp
  next
    case (Some who)
    then have who: "sg_granted_by g = Some who" by (simp split: if_splits)
    let ?key = "(sg_workspace_id g, who)"
    let ?held = "case map_of held ?key of None \<Rightarrow> (?key, scopes_of (sp_identity db) (sg_tenant_id g) (sg_workspace_id g) who) # held | Some _ \<Rightarrow> held"
    have "cache_ok (sp_identity db) tenant ?held \<and> map_of ?held ?key = Some (scopes_of (sp_identity db) tenant (sg_workspace_id g) who)"
      using Cons.prems by (auto simp: cache_ok_def split: option.splits)
    with Cons Some who show ?thesis by (simp add: Let_def state_of_def granter_scopes_def)
  qed
qed simp

lemma list_grants_views:
  assumes "list_grants db now c = Inr vs" "v \<in> set vs"
  shows "sv_grant v \<in> set (sp_grants db) \<and> mine c None (sv_grant v) \<and> sv_state v = state_of db now (sv_grant v) \<and>
    (has_scope c SUPPORT_GRANT_SCOPE \<or> sg_requested_by (sv_grant v) = Some (ac_principal_id c))"
proof -
  from assms(1) obtain sd where sd: "side c = Inr sd"
      "vs = views (sp_identity db) now [] (repo_list_grants db c (if sd = SUPPORT_GRANT_SCOPE then None else Some (ac_principal_id c)))"
    by (auto simp: list_grants_def split: sum.splits)
  let ?gs = "repo_list_grants db c (if sd = SUPPORT_GRANT_SCOPE then None else Some (ac_principal_id c))"
  have "\<forall>g \<in> set ?gs. sg_tenant_id g = ac_tenant_id c" by (auto simp: repo_list_grants_def mine_def)
  from views_direct [OF this, of db "[]" now] have "vs = map (\<lambda>g. \<lparr>sv_grant = g, sv_state = state_of db now g\<rparr>) ?gs"
    using sd(2) by (simp add: cache_ok_def)
  moreover have "sd = SUPPORT_GRANT_SCOPE \<longrightarrow> has_scope c SUPPORT_GRANT_SCOPE"
    using sd(1) by (auto simp: side_def SUPPORT_GRANT_SCOPE_def SUPPORT_REQUEST_SCOPE_def split: if_splits)
  ultimately show ?thesis using assms(2) by (auto simp: repo_list_grants_def mine_def split: if_splits option.splits)
qed

text \<open>
  The customer's screen and the staff member's door agree: of the grants a customer sees listed, those
  shown as active are exactly the ones that give their staff member a context, in a tenant that
  has support access.
\<close>

theorem screen_and_door_agree:
  assumes "evolves issued cat db0 db" "sp_grants db0 = []" "list_grants db now c = Inr vs" "v \<in> set vs"
    "sg_staff_user_id (sv_grant v) = Some staff" "is_support_staff db staff" "m \<in> SECOND_FACTOR_METHODS" "m \<in> methods"
    "tenant_plan (sp_identity db) (sg_tenant_id (sv_grant v)) = Some (plan, features)" "SUPPORT_ACCESS_FEATURE \<in> features" "\<not> sblank plan"
  shows "sv_state v = ''active'' \<longleftrightarrow> (\<exists>x. build_support db now staff methods (sg_id (sv_grant v)) = Inr x)"
proof -
  let ?g = "sv_grant v"
  have g: "?g \<in> set (sp_grants db)" "sv_state v = grant_effective_state ?g now (granter_scopes db ?g)"
    using list_grants_views [OF assms(3,4)] by (simp_all add: state_of_def)
  have found: "grant_for_staff db staff (sg_id ?g) = Some ?g"
    unfolding grant_for_staff_def using g(1) assms(5) same_grant [OF well_keptD(1) [OF evolves_well_kept [OF assms(1,2)]]]
    by (intro find_unique) auto
  have "methods \<inter> SECOND_FACTOR_METHODS \<noteq> {}" using assms(7,8) by auto
  moreover have "\<not> sblank ''internal''" by (simp add: blank_simps)
  ultimately show ?thesis
    using g(2) assms(6,9-) by (simp add: build_support_def support_context_def found access_context_check_def access_context_defaults_def)
qed

subsection \<open>Where the code and its documentation part\<close>

lemma null_column_same:
  assumes "null_column u k gs = Inr gs'"
  shows "gs' = gs \<and> (\<forall>g \<in> set gs. column_of k g \<noteq> Some u)"
proof -
  have "\<not> guard_update g (set_null k g)" for g by (cases k) (auto simp: guard_update_def grant_moves_def)
  then show ?thesis using assms by (induction gs arbitrary: gs') (auto split: if_splits sum.splits)
qed

text \<open>
  Deleting a person succeeds only when no grant names them: the trigger refuses every update that keeps
  the status, the foreign keys' \<^verbatim>\<open>SET NULL\<close> included, so the record never outlives the person.
\<close>

theorem named_person_never_deleted:
  assumes "delete_user db u = Inr db'"
  shows "sp_grants db' = sp_grants db \<and> (\<forall>g \<in> set (sp_grants db). \<forall>k. column_of k g \<noteq> Some u)"
proof -
  from assms obtain rows where r: "null_columns u [Requested_by, Granted_by, Rejected_by, Assigned_by, Revoked_by] (sp_grants db) = Inr rows"
      "sp_grants db' = rows" by (auto simp: delete_user_def split: if_splits sum.splits)
  from r have "rows = sp_grants db \<and> (\<forall>k \<in> {Requested_by, Granted_by, Rejected_by, Assigned_by, Revoked_by}. \<forall>g \<in> set (sp_grants db). column_of k g \<noteq> Some u)"
    by (auto dest!: null_column_same split: sum.splits)
  moreover have "k \<in> {Requested_by, Granted_by, Rejected_by, Assigned_by, Revoked_by}" for k by (cases k) auto
  ultimately show ?thesis using r(2) by blast
qed

text \<open>
  Assigning a grant does not look at the tenant's plan: it succeeds in the same way whatever the
  tenant has, and the staff member of a tenant without support access is stopped only at the door.
\<close>

theorem assignment_ignores_plan:
  assumes "assign_support_request now new_uuid operator db grant_id staff = Inr (g, db')" "tenant_plan i (sg_tenant_id g) = None"
  shows "assign_support_request now new_uuid operator (db\<lparr>sp_identity := i\<rparr>) grant_id staff = Inr (g, db'\<lparr>sp_identity := i\<rparr>) \<and>
    sg_status g = Grant_active"
proof -
  have "assign_support_request now new_uuid operator (db\<lparr>sp_identity := i\<rparr>) grant_id staff = Inr (g, db'\<lparr>sp_identity := i\<rparr>)"
    using assms(1) by (auto simp: assign_support_request_def assign_support_grant_def record_provisioning_def is_support_staff_def
        split: option.splits sum.splits if_splits)
  moreover have "sg_status g = Grant_active" using assms(1) by (elim assignE) (simp add: assigned_to_def)
  ultimately show ?thesis by blast
qed

subsection \<open>A grant from request to access\<close>

definition sample_scope_set :: support_scope_set where
  "sample_scope_set = \<lparr>sc_key = ''crm'', sc_label = [67], sc_scopes = {''crm.read''}, sc_resource_types = {''workspace''}\<rparr>"

definition sample_catalog :: support_catalog where
  "sample_catalog = \<lparr>cg_sets = [(''crm'', sample_scope_set)], cg_resources = [], cg_frozen = False\<rparr>"

definition sample_directory :: identity_db where
  "sample_directory =
     \<lparr>id_members = [\<lparr>mr_id = 1, mr_tenant_id = 1, mr_workspace_id = 2, mr_user_id = 11, mr_role_keys = [''owner''],
                      mr_permission_set_keys = [], mr_clearance = ''internal'', mr_manager_user_id = None\<rparr>],
      id_tenants = [\<lparr>tr_id = 1, tr_status = ''active'', tr_record_visibility = ''open'', tr_max_autonomy_level = FAIL_CLOSED_LEVEL\<rparr>],
      id_roles = [(''owner'', [''support.grant'', ''crm.read''])], id_permission_sets = [],
      id_entitlements = [\<lparr>er_tenant_id = 1, er_plan_id = ''pro'', er_feature_overrides = [''support_access'']\<rparr>],
      id_plans = [(''pro'', [])], id_users = [], id_external = []\<rparr>"

definition sample_granter :: access_context where
  "sample_granter = (access_context_defaults 1 2 11 {} ''pro'')\<lparr>ac_scopes := {''support.grant'', ''crm.read''}, ac_feature_flags := {''support_access''}\<rparr>"

definition sample_support :: support_db where
  "sample_support =
     \<lparr>sp_identity = sample_directory, sp_workspaces = [(2, 1, [72])], sp_tenant_names = [(1, [84])], sp_emails = [],
      sp_staff = [\<lparr>st_user_id = 21, st_label = None, st_added_by = Some 31\<rparr>], sp_grants = [], sp_audit = [], sp_provisioning = []\<rparr>"

definition sample_ask :: support_request where
  "sample_ask = \<lparr>sq_scope_set_key = ''crm'', sq_resource_type = ''workspace'', sq_resource_id = None, sq_reason = [104], sq_duration_hours = 24\<rparr>"

definition sample_pending :: support_grant where
  "sample_pending = (new_grant 100 0 sample_granter sample_ask sample_scope_set [72] [104] True)\<lparr>sg_code := grant_code 1\<rparr>"

definition sample_requested :: support_db where
  "sample_requested =
     (case request sample_catalog 0 (\<lambda>i. 100 + i) sample_support sample_granter sample_ask of Inr (_, db) \<Rightarrow> db | Inl _ \<Rightarrow> sample_support)"

definition sample_assigned :: support_db where
  "sample_assigned =
     (case assign_support_request 3 (\<lambda>i. 200 + i) 31 sample_requested 100 21 of Inr (_, db) \<Rightarrow> db | Inl _ \<Rightarrow> sample_requested)"

lemma sample_catalog_built: "catalog_built sample_catalog"
proof -
  have "register_set new_catalog ''crm'' [67] {''crm.read''} {''workspace''} = Inr sample_catalog"
    by (simp add: register_set_def refuse_when_frozen_def new_catalog_def sample_catalog_def sample_scope_set_def is_set_key_def
        is_resource_type_def lower_letter_def lower_or_digit_def forbidden_scope_def FORBIDDEN_SCOPE_PREFIXES_def startswith_def
        blank_simps ustrip_def strip_by_def)
  then show ?thesis by (rule catalog_built.intros(2) [OF catalog_built.intros(1)])
qed

lemma sample_pending_ok: "grant_check sample_pending"
  by (simp add: sample_pending_def new_grant_def sample_ask_def sample_scope_set_def grant_check_def ck_request_def ck_granted_def
      ck_rejected_def ck_assigned_def ck_revoked_def is_resource_type_def lower_letter_def btrim_within_def btrim_def strip_by_def ulit_def)

lemma sample_request:
  "\<exists>ev. request sample_catalog 0 (\<lambda>i. 100 + i) sample_support sample_granter sample_ask =
     Inr (\<lparr>sv_grant = sample_pending, sv_state = ''pending_assignment''\<rparr>, sample_support\<lparr>sp_grants := [sample_pending], sp_audit := [ev]\<rparr>)"
proof -
  have side: "require_enabled sample_granter = Inr ()" "side sample_granter = Inr SUPPORT_GRANT_SCOPE" "require_holds sample_granter {''crm.read''} = Inr ()"
    by (simp_all add: require_enabled_def side_def require_holds_def sample_granter_def ctx_has_feature_def has_scope_def
        SUPPORT_ACCESS_FEATURE_def SUPPORT_GRANT_SCOPE_def)
  have set: "catalog_get sample_catalog ''crm'' = Some sample_scope_set" "sc_scopes sample_scope_set = {''crm.read''}"
      "sc_resource_types sample_scope_set = {''workspace''}"
    by (simp_all add: catalog_get_def sample_catalog_def sample_scope_set_def)
  have label: "resource_label sample_catalog sample_support sample_granter ''workspace'' None = Inr [72]" "checked_reason [104] = Inr [104]"
    by (simp_all add: resource_label_def WORKSPACE_RESOURCE_def workspace_name_def sample_support_def sample_granter_def
        access_context_defaults_def checked_reason_def ustrip_def strip_by_def py_isspace_def MAX_REASON_LENGTH_def)
  let ?new = "new_grant 100 0 sample_granter sample_ask sample_scope_set [72] [104] True"
  have status: "sg_status ?new = Awaiting_assignment" "sg_status sample_pending = Awaiting_assignment"
    by (simp_all add: sample_pending_def new_grant_def)
  have ins: "insert_grant [] ?new = Inr (sample_pending, [sample_pending])"
    using sample_pending_ok by (simp add: insert_grant_def guard_insert_def status next_number_def sample_pending_def)
  have ev: "\<exists>ev. support_grant_audit 101 sample_pending (ac_principal_id sample_granter) ''support.grant.requested'' 0 [] = Inr ev"
    by (simp add: support_grant_audit_def make_audit_event_def blank_simps)
  then obtain ev where ev: "support_grant_audit 101 sample_pending (ac_principal_id sample_granter) ''support.grant.requested'' 0 [] = Inr ev" by blast
  have empty: "sp_grants sample_support = []" "sp_audit sample_support = []" by (simp_all add: sample_support_def)
  show ?thesis
    by (rule exI [of _ ev])
      (simp add: request_def side set label sample_ask_def MAX_DURATION_HOURS_def create_grant_def empty ev status
        ins [unfolded sample_ask_def] del: One_nat_def)
qed

definition sample_active :: support_grant where
  "sample_active = assigned_to 21 31 3 sample_pending"

lemma sample_grant_simps [simp]:
  "sg_id sample_active = 100" "sg_status sample_active = Grant_active" "sg_staff_user_id sample_active = Some 21"
  "sg_expires_at sample_active = Some (3 + hours 24)" "sg_tenant_id sample_active = 1" "sg_workspace_id sample_active = 2"
  "sg_granted_by sample_active = Some 11" "sg_scopes sample_active = {''crm.read''}" "sg_id sample_pending = 100"
  "sg_status sample_pending = Awaiting_assignment" "sg_requested_by sample_active = Some 11"
  by (simp_all add: sample_active_def assigned_to_def sample_pending_def new_grant_def sample_granter_def access_context_defaults_def
      sample_ask_def sample_scope_set_def)

lemma sample_requested_eq: "\<exists>ev. sample_requested = sample_support\<lparr>sp_grants := [sample_pending], sp_audit := [ev]\<rparr>"
  unfolding sample_requested_def using sample_request by auto

lemma sample_step: "steps_to sample_pending sample_active"
proof -
  have "grant_check sample_active"
    using sample_pending_ok unfolding grant_check_def ck_request_def ck_granted_def ck_rejected_def ck_assigned_def ck_revoked_def sample_active_def
    by (simp add: assigned_to_def sample_pending_def new_grant_def)
  then show ?thesis by (simp add: steps_to_def guard_update_def grant_moves_def same_request_def sample_active_def assigned_to_def)
qed

lemma sample_assign:
  "\<exists>ev prov. assign_support_request 3 (\<lambda>i. 200 + i) 31 sample_requested 100 21 =
     Inr (sample_active, sample_requested\<lparr>sp_grants := [sample_active], sp_audit := sp_audit sample_requested @ [ev], sp_provisioning := prov\<rparr>)"
proof -
  obtain ev0 where r: "sample_requested = sample_support\<lparr>sp_grants := [sample_pending], sp_audit := [ev0]\<rparr>" using sample_requested_eq by blast
  have staff: "is_support_staff sample_requested 21" by (simp add: r is_support_staff_def sample_support_def)
  have upd: "update_grant (\<lambda>g. sg_id g = 100) (assigned_to 21 31 3) [sample_pending] = Inr (Some sample_active, [sample_active])"
    using sample_step by (simp add: update_grant_def steps_to_def sample_active_def)
  show ?thesis
    by (simp add: assign_support_request_def assign_support_grant_def staff, simp add: r upd support_grant_audit_def make_audit_event_def
        blank_simps record_provisioning_def) (intro exI, rule refl)
qed

lemma sample_assigned_state:
  "sp_grants sample_assigned = [sample_active]" "sp_identity sample_assigned = sample_directory" "is_support_staff sample_assigned 21"
proof -
  obtain ev prov where a: "sample_assigned = sample_requested\<lparr>sp_grants := [sample_active], sp_audit := sp_audit sample_requested @ [ev], sp_provisioning := prov\<rparr>"
    unfolding sample_assigned_def using sample_assign by auto
  obtain ev0 where r: "sample_requested = sample_support\<lparr>sp_grants := [sample_pending], sp_audit := [ev0]\<rparr>" using sample_requested_eq by blast
  show "sp_grants sample_assigned = [sample_active]" "sp_identity sample_assigned = sample_directory" "is_support_staff sample_assigned 21"
    unfolding a r by (simp_all add: sample_support_def is_support_staff_def)
qed

lemma sample_evolves:
  "evolves (\<lambda>c. c = sample_granter) sample_catalog sample_support sample_assigned" "sp_grants sample_support = []"
proof -
  obtain v ev where "request sample_catalog 0 (\<lambda>i. 100 + i) sample_support sample_granter sample_ask = Inr (v, sample_requested)"
    using sample_request unfolding sample_requested_def by fastforce
  from evolves.requested [OF evolves.start refl this] have r: "evolves (\<lambda>c. c = sample_granter) sample_catalog sample_support sample_requested" .
  obtain g where "assign_support_request 3 (\<lambda>i. 200 + i) 31 sample_requested 100 21 = Inr (g, sample_assigned)"
    using sample_assign unfolding sample_assigned_def by fastforce
  from evolves.assigned [OF r this] show "evolves (\<lambda>c. c = sample_granter) sample_catalog sample_support sample_assigned" .
  show "sp_grants sample_support = []" by (simp add: sample_support_def)
qed

lemma sample_scopes: "scopes_of sample_directory 1 2 11 = {''support.grant'', ''crm.read''}"
  by (simp add: scopes_of_def workspace_members_def sample_directory_def in_scope_def member_scopes_def effective_scopes_def)

lemma sample_plan: "tenant_plan sample_directory 1 = Some (''pro'', {''support_access''})"
  by (simp add: tenant_plan_def sample_directory_def)

lemma sample_in_force:
  "now < 3 + hours 24 \<Longrightarrow> grant_effective_state sample_active now (granter_scopes sample_assigned sample_active) = ''active''"
  by (simp add: grant_effective_state_def granter_scopes_def sample_assigned_state sample_scopes SUPPORT_GRANT_SCOPE_def del: One_nat_def)

definition sample_container :: api_container where
  "sample_container =
     \<lparr>ct_verifier = Some (\<lambda>_. Inr \<lparr>vi_subject = ''s'', vi_issuer = ''i'', vi_auth_methods = {''pwd'', ''otp''}\<rparr>),
      ct_bootstrap = Some (\<lambda>_. Inr \<lparr>bv_principal_id = 21, bv_is_platform_operator = False\<rparr>), ct_has_factory = True, ct_has_support = True,
      ct_has_provisioning = False, ct_allowed_routes = {(''GET'', ''/leads'')}, ct_parse_uuid = (\<lambda>_. Some 100)\<rparr>"

definition sample_call :: api_request where
  "sample_call =
     \<lparr>hr_authorization = Some (ulit ''Bearer t''), hr_tenant = None, hr_workspace = None, hr_support_grant = Some [49], hr_method = ''GET'',
      hr_route = Some ''/leads'', hr_path = ''/leads'', hr_path_ids = []\<rparr>"

lemma sample_build:
  assumes "now < 3 + hours 24"
  shows "\<exists>c. build_support sample_assigned now 21 {''pwd'', ''otp''} 100 = Inr c \<and> ac_principal_id c = 21 \<and> ac_scopes c = {''crm.read''} \<and>
    ac_support c \<noteq> None"
proof -
  have "\<not> sblank ''pro''" "\<not> sblank ''internal''" by (simp_all add: blank_simps)
  moreover have "grant_for_staff sample_assigned 21 100 = Some sample_active" by (simp add: grant_for_staff_def sample_assigned_state)
  ultimately show ?thesis
    using sample_in_force [OF assms]
    by (simp add: build_support_def support_context_def sample_assigned_state sample_plan SECOND_FACTOR_METHODS_def SUPPORT_ACCESS_FEATURE_def
        access_context_check_def access_context_defaults_def del: One_nat_def)
qed

lemma sample_door:
  "\<exists>c db'. get_access_context_or_support sample_container 5 6 300 sample_assigned sample_call = Inr (c, db') \<and> ac_scopes c = {''crm.read''}"
proof -
  obtain c where c: "build_support sample_assigned 5 21 {''pwd'', ''otp''} 100 = Inr c" "ac_scopes c = {''crm.read''}" "ac_support c \<noteq> None"
    using sample_build [of 5] by (auto simp: hours_def)
  have token: "bearer_token (Some (ulit ''Bearer t'')) = Inr [116]"
    by (simp add: bearer_token_def ulit_def ascii_lower_def ustrip_def strip_by_def py_isspace_def)
  obtain ev where "support_access_audit 300 c ''GET'' ''/leads'' [] 6 = Inr ev"
    using c(3) by (auto simp: support_access_audit_def make_audit_event_def SUPPORT_ACCESS_ACTION_def blank_simps)
  then show ?thesis
    using c(1,2) token by (simp add: get_access_context_or_support_def sample_container_def sample_call_def uuid_header_def)
qed

theorem support_context_confined_witness:
  "\<exists>c db' g. get_access_context_or_support sample_container 5 6 300 sample_assigned sample_call = Inr (c, db') \<and>
     g \<in> set (sp_grants sample_assigned) \<and> sg_staff_user_id g = Some (ac_principal_id c) \<and> ac_roles c = {} \<and> is_allowed PLATFORM_ADMIN_ROLE c ''crm.read''"
proof -
  obtain c db' where c: "get_access_context_or_support sample_container 5 6 300 sample_assigned sample_call = Inr (c, db')" "ac_scopes c = {''crm.read''}"
    using sample_door by blast
  have call: "hr_support_grant sample_call = Some [49]" by (simp add: sample_call_def)
  from support_context_confined [OF sample_catalog_built sample_evolves c(1) call] c show ?thesis by (auto simp: is_allowed_iff)
qed

theorem grant_made_by_holder_witness:
  "grant_check sample_active \<and> sg_granted_by sample_active = Some (ac_principal_id sample_granter) \<and>
   insert SUPPORT_GRANT_SCOPE (sg_scopes sample_active) \<subseteq> ac_scopes sample_granter"
proof -
  have "sample_active \<in> set (sp_grants sample_assigned)" by (simp add: sample_assigned_state)
  from grant_made_by_holder [OF sample_evolves this] show ?thesis by auto
qed

theorem ended_grant_stays_ended_witness:
  "\<nexists>c. build_support sample_assigned (3 + hours 24) 21 {''otp''} 100 = Inr c"
proof -
  have "sample_active \<in> set (sp_grants sample_assigned)" by (simp add: sample_assigned_state)
  from ended_grant_stays_ended [OF sample_evolves this, of "3 + hours 24" sample_assigned "3 + hours 24" 21 "{''otp''}"]
  show ?thesis by (simp add: evolves.start)
qed

theorem screen_and_door_agree_witness:
  "\<exists>vs v. list_grants sample_assigned 5 sample_granter = Inr vs \<and> v \<in> set vs \<and> sv_grant v = sample_active \<and>
     (sv_state v = ''active'' \<longleftrightarrow> (\<exists>x. build_support sample_assigned 5 21 {''otp''} (sg_id (sv_grant v)) = Inr x))"
proof -
  have side: "require_enabled sample_granter = Inr ()" "side sample_granter = Inr SUPPORT_GRANT_SCOPE"
    by (simp_all add: require_enabled_def side_def sample_granter_def ctx_has_feature_def has_scope_def SUPPORT_ACCESS_FEATURE_def SUPPORT_GRANT_SCOPE_def)
  have rows: "repo_list_grants sample_assigned sample_granter None = [sample_active]"
    by (simp add: repo_list_grants_def sample_assigned_state mine_def sample_granter_def access_context_defaults_def)
  let ?v = "\<lparr>sv_grant = sample_active, sv_state = state_of sample_assigned 5 sample_active\<rparr>"
  have "views (sp_identity sample_assigned) 5 [] [sample_active] = [?v]"
    using views_direct [of "[sample_active]" 1 sample_assigned "[]" 5] by (simp add: cache_ok_def)
  then have lst: "list_grants sample_assigned 5 sample_granter = Inr [?v]" by (simp add: list_grants_def side rows)
  have plan: "tenant_plan (sp_identity sample_assigned) (sg_tenant_id sample_active) = Some (''pro'', {''support_access''})"
    using sample_plan by (simp add: sample_assigned_state)
  from screen_and_door_agree [OF sample_evolves lst, of ?v 21 "''otp''" "{''otp''}" "''pro''" "{''support_access''}"] plan
  have "sv_state ?v = ''active'' \<longleftrightarrow> (\<exists>x. build_support sample_assigned 5 21 {''otp''} (sg_id (sv_grant ?v)) = Inr x)"
    by (simp add: sample_assigned_state SECOND_FACTOR_METHODS_def SUPPORT_ACCESS_FEATURE_def blank_simps)
  with lst show ?thesis by (intro exI [of _ "[?v]"] exI [of _ ?v]) simp
qed

theorem named_person_never_deleted_witness:
  "\<exists>db'. delete_user sample_assigned 77 = Inr db' \<and> sp_grants db' = [sample_active] \<and> column_of Granted_by sample_active \<noteq> Some 77"
proof -
  have "column_of k sample_active \<noteq> Some 77" for k
    by (cases k) (simp_all, simp_all add: sample_active_def assigned_to_def sample_pending_def new_grant_def)
  then have "null_column 77 k [sample_active] = Inr [sample_active]" for k by simp
  then obtain db' where "delete_user sample_assigned 77 = Inr db'" by (simp add: delete_user_def sample_assigned_state del: null_column.simps)
  with named_person_never_deleted [OF this] show ?thesis by (auto simp: sample_assigned_state)
qed

theorem assignment_ignores_plan_witness:
  "\<exists>db'. assign_support_request 3 (\<lambda>i. 200 + i) 31 (sample_requested\<lparr>sp_identity := sample_directory\<lparr>id_entitlements := []\<rparr>\<rparr>) 100 21 = Inr (sample_active, db')"
proof -
  obtain db' where a: "assign_support_request 3 (\<lambda>i. 200 + i) 31 sample_requested 100 21 = Inr (sample_active, db')" using sample_assign by blast
  have "tenant_plan (sample_directory\<lparr>id_entitlements := []\<rparr>) (sg_tenant_id sample_active) = None" by (simp add: tenant_plan_def)
  from assignment_ignores_plan [OF a this] show ?thesis by blast
qed

end
