(* ===== verification/TenantTables.thy ===== *)
theory TenantTables
  imports KnowledgeFacts "HOL-Library.List_Lexorder" "HOL-Library.Char_ord"
begin

text \<open>
  The Postgres half of tenant offboarding (\<^verbatim>\<open>adapters/persistence/offboarding.py\<close> of
  \<^verbatim>\<open>dw_platform\<close>): the tables are read from the database's own catalog, exported, and purged in an
  order that foreign keys allow. A database is the list of its tables, each with its policies, its
  columns, the two privileges of \<^verbatim>\<open>dw_app\<close> the catalog query asks for, and its rows; a row carries
  its key, its tenant and the foreign keys it holds. \<open>delete_tenant_rows\<close> is the SQL statement
  \<^verbatim>\<open>DELETE FROM t WHERE tenant_id = :t\<close> with the referential actions of the schema: a row that
  references a deleted row through \<^verbatim>\<open>ON DELETE CASCADE\<close> goes too, whatever its table's privileges
  are, and a row left behind that references one through \<^verbatim>\<open>RESTRICT\<close> fails the statement. The
  closure under cascades is computed in as many rounds as there are rows, which is enough
  (\<open>cascade_closed\<close>).
\<close>

subsection \<open>Tables, rows and foreign keys\<close>

type_synonym table_name = "string \<times> string"

record stored_row =
  sw_id :: uuid
  sw_tenant_id :: uuid
  sw_refs :: "(table_name \<times> uuid) list"
  sw_columns :: details

record catalog_table =
  ct_schema :: string
  ct_table :: string
  ct_policies :: "string list"
  ct_columns :: "string list"
  ct_select :: bool
  ct_delete :: bool
  ct_rows :: "stored_row list"

definition ct_name :: "catalog_table \<Rightarrow> table_name" where
  "ct_name t = (ct_schema t, ct_table t)"

type_synonym tenant_db = "catalog_table list"

datatype on_delete = CASCADE | RESTRICT

record foreign_key =
  fk_child :: table_name
  fk_parent :: table_name
  fk_action :: on_delete
  fk_nullable :: bool

definition fkey :: "table_name \<Rightarrow> table_name \<Rightarrow> on_delete \<Rightarrow> bool \<Rightarrow> foreign_key" where
  "fkey c p a n = \<lparr>fk_child = c, fk_parent = p, fk_action = a, fk_nullable = n\<rparr>"

text \<open>
  The foreign keys among tenant-scoped tables: those of the evidence migration, which hold every
  \<^verbatim>\<open>RESTRICT\<close>, and the cascades of the other migrations.
\<close>

definition evidence_foreign_keys :: "foreign_key list" where
  "evidence_foreign_keys =
     [fkey (''knowledge'', ''evidence'') (''knowledge'', ''documents'') RESTRICT False,
      fkey (''knowledge'', ''evidence'') (''knowledge'', ''chunks'') RESTRICT True,
      fkey (''memory'', ''item_evidence'') (''memory'', ''items'') CASCADE False,
      fkey (''memory'', ''item_evidence'') (''knowledge'', ''evidence'') RESTRICT False,
      fkey (''memory'', ''items'') (''platform'', ''worker_runs'') RESTRICT False]"

definition receipt_foreign_keys :: "foreign_key list" where
  "receipt_foreign_keys =
     [fkey (''platform'', ''approval_view_receipts'') (''platform'', ''approval_requests'') CASCADE False,
      fkey (''platform'', ''approval_decision_codes'') (''platform'', ''approval_view_receipts'') CASCADE False]"

definition schema_foreign_keys :: "foreign_key list" where
  "schema_foreign_keys =
     [fkey (''knowledge'', ''chunks'') (''knowledge'', ''documents'') CASCADE False,
      fkey (''platform'', ''approval_decisions'') (''platform'', ''approval_requests'') CASCADE False,
      fkey (''platform'', ''feedback_attachments'') (''platform'', ''feedback'') CASCADE False,
      fkey (''platform'', ''memberships'') (''platform'', ''workspaces'') CASCADE False,
      fkey (''platform'', ''channel_preferences'') (''platform'', ''memberships'') CASCADE False,
      fkey (''platform'', ''channel_deliveries'') (''platform'', ''workspaces'') CASCADE False,
      fkey (''platform'', ''notifications'') (''platform'', ''workspaces'') CASCADE False,
      fkey (''platform'', ''support_grants'') (''platform'', ''workspaces'') CASCADE False]
     @ evidence_foreign_keys @ receipt_foreign_keys"

subsection \<open>The catalog\<close>

text \<open>\<^verbatim>\<open>polname LIKE 'tenant_isolation_%'\<close>: in a pattern an underscore stands for any one character.\<close>

definition tenant_isolation_policy :: "string \<Rightarrow> bool" where
  "tenant_isolation_policy p \<longleftrightarrow> 17 \<le> length p \<and> take 6 p = ''tenant'' \<and> take 9 (drop 7 p) = ''isolation''"

definition catalog_columns :: "catalog_table \<Rightarrow> bool" where
  "catalog_columns t \<longleftrightarrow>
     list_ex tenant_isolation_policy (ct_policies t) \<and> ct_select t \<and> ''tenant_id'' \<in> set (ct_columns t)"

definition order_by_name :: "catalog_table list \<Rightarrow> catalog_table list" where
  "order_by_name ts = sort_key ct_schema (sort_key ct_table ts)"

definition ORDERED_FIRST :: "table_name list" where
  "ORDERED_FIRST =
     [(''memory'', ''items''), (''knowledge'', ''evidence''), (''knowledge'', ''chunks''),
      (''knowledge'', ''documents''), (''platform'', ''worker_runs'')]"

definition NEVER_PURGE :: "table_name set" where
  "NEVER_PURGE = {(''platform'', ''tenant_offboarding_requests'')}"

definition exportable_tables :: "tenant_db \<Rightarrow> table_name list" where
  "exportable_tables db = filter (\<lambda>n. n \<notin> NEVER_PURGE) (map ct_name (order_by_name (filter catalog_columns db)))"

definition purgeable_tables :: "tenant_db \<Rightarrow> table_name list" where
  "purgeable_tables db =
     filter (\<lambda>n. n \<notin> NEVER_PURGE) (map ct_name (order_by_name (filter (\<lambda>t. catalog_columns t \<and> ct_delete t) db)))"

definition purge_order :: "tenant_db \<Rightarrow> table_name list" where
  "purge_order db =
     (let tables = purgeable_tables db
      in filter (\<lambda>n. n \<in> set tables) ORDERED_FIRST @ filter (\<lambda>n. n \<notin> set ORDERED_FIRST) tables)"

text \<open>\<^verbatim>\<open>_SAFE_IDENTIFIER.fullmatch\<close> with \<^verbatim>\<open>[a-z_][a-z0-9_]*\<close>; an optional closing newline of \<^verbatim>\<open>$\<close> does not count under \<^verbatim>\<open>fullmatch\<close>.\<close>

definition lower_or_underscore :: "char \<Rightarrow> bool" where
  "lower_or_underscore c \<longleftrightarrow> c = CHR ''_'' \<or> (97 \<le> (of_char c :: nat) \<and> (of_char c :: nat) \<le> 122)"

definition safe_identifier :: "string \<Rightarrow> bool" where
  "safe_identifier s \<longleftrightarrow>
     s \<noteq> [] \<and> lower_or_underscore (hd s) \<and>
     list_all (\<lambda>c. lower_or_underscore c \<or> (48 \<le> (of_char c :: nat) \<and> (of_char c :: nat) \<le> 57)) (tl s)"

definition quoted :: "table_name \<Rightarrow> string res" where
  "quoted n =
     (if safe_identifier (fst n) \<and> safe_identifier (snd n)
      then Inr ([CHR 0x22] @ fst n @ [CHR 0x22] @ ''.'' @ [CHR 0x22] @ snd n @ [CHR 0x22])
      else Inl (ValueError ''refusing an unsafe catalog identifier''))"

subsection \<open>Reading and exporting\<close>

definition rows_of :: "tenant_db \<Rightarrow> table_name \<Rightarrow> stored_row list" where
  "rows_of db n = concat (map ct_rows (filter (\<lambda>t. ct_name t = n) db))"

definition tenant_rows :: "tenant_db \<Rightarrow> table_name \<Rightarrow> uuid \<Rightarrow> stored_row list" where
  "tenant_rows db n tenant = filter (\<lambda>r. sw_tenant_id r = tenant) (rows_of db n)"

record exported_table =
  ex_schema :: string
  ex_table :: string
  ex_rows :: "details list"

fun export_tables :: "tenant_db \<Rightarrow> uuid \<Rightarrow> table_name list \<Rightarrow> exported_table list res" where
  "export_tables db tenant [] = Inr []"
| "export_tables db tenant (n # ns) =
     (case quoted n of
        Inl e \<Rightarrow> Inl e
      | Inr _ \<Rightarrow>
          (case export_tables db tenant ns of
             Inl e \<Rightarrow> Inl e
           | Inr rest \<Rightarrow>
               Inr (\<lparr>ex_schema = fst n, ex_table = snd n, ex_rows = map sw_columns (tenant_rows db n tenant)\<rparr> # rest)))"

definition export_rows :: "tenant_db \<Rightarrow> uuid \<Rightarrow> exported_table list res" where
  "export_rows db tenant = export_tables db tenant (exportable_tables db)"

subsection \<open>Deleting under referential actions\<close>

type_synonym row_key = "table_name \<times> uuid"

definition row_keys :: "tenant_db \<Rightarrow> row_key list" where
  "row_keys db = concat (map (\<lambda>t. map (\<lambda>r. (ct_name t, sw_id r)) (ct_rows t)) db)"

definition refers :: "foreign_key list \<Rightarrow> on_delete \<Rightarrow> table_name \<Rightarrow> stored_row \<Rightarrow> row_key set \<Rightarrow> bool" where
  "refers fks action n r dead \<longleftrightarrow>
     list_ex (\<lambda>f. fk_child f = n \<and> fk_action f = action \<and> list_ex (\<lambda>k. fst k = fk_parent f \<and> k \<in> dead) (sw_refs r)) fks"

definition pulled :: "foreign_key list \<Rightarrow> tenant_db \<Rightarrow> row_key set \<Rightarrow> row_key list" where
  "pulled fks db dead =
     concat (map (\<lambda>t. map (\<lambda>r. (ct_name t, sw_id r)) (filter (\<lambda>r. refers fks CASCADE (ct_name t) r dead) (ct_rows t))) db)"

fun cascade :: "foreign_key list \<Rightarrow> tenant_db \<Rightarrow> nat \<Rightarrow> row_key set \<Rightarrow> row_key set" where
  "cascade fks db 0 dead = dead"
| "cascade fks db (Suc n) dead = cascade fks db n (dead \<union> set (pulled fks db dead))"

definition doomed :: "foreign_key list \<Rightarrow> tenant_db \<Rightarrow> table_name \<Rightarrow> uuid \<Rightarrow> row_key set" where
  "doomed fks db n tenant =
     cascade fks db (length (row_keys db)) (set (map (\<lambda>r. (n, sw_id r)) (tenant_rows db n tenant)))"

definition without_keys :: "row_key set \<Rightarrow> tenant_db \<Rightarrow> tenant_db" where
  "without_keys dead db = map (\<lambda>t. t\<lparr>ct_rows := filter (\<lambda>r. (ct_name t, sw_id r) \<notin> dead) (ct_rows t)\<rparr>) db"

definition restricted :: "foreign_key list \<Rightarrow> tenant_db \<Rightarrow> row_key set \<Rightarrow> bool" where
  "restricted fks db dead \<longleftrightarrow>
     list_ex (\<lambda>t. list_ex (\<lambda>r. refers fks RESTRICT (ct_name t) r dead) (ct_rows t)) (without_keys dead db)"

definition delete_tenant_rows :: "foreign_key list \<Rightarrow> table_name \<Rightarrow> uuid \<Rightarrow> tenant_db \<Rightarrow> tenant_db res" where
  "delete_tenant_rows fks n tenant db =
     (let dead = doomed fks db n tenant
      in if restricted fks db dead then Inl (OtherError ''IntegrityError'') else Inr (without_keys dead db))"

fun delete_each :: "foreign_key list \<Rightarrow> uuid \<Rightarrow> table_name list \<Rightarrow> tenant_db \<Rightarrow> tenant_db res" where
  "delete_each fks tenant [] db = Inr db"
| "delete_each fks tenant (n # ns) db =
     (case quoted n of
        Inl e \<Rightarrow> Inl e
      | Inr _ \<Rightarrow>
          (case delete_tenant_rows fks n tenant db of Inl e \<Rightarrow> Inl e | Inr db' \<Rightarrow> delete_each fks tenant ns db'))"

text \<open>
  \<^verbatim>\<open>_record_purge_audit\<close>: a row of \<^verbatim>\<open>platform.audit_events\<close> when the tenant has a workspace and a
  request names who asked; \<open>fresh\<close> is \<^verbatim>\<open>gen_random_uuid()\<close>.
\<close>

definition purge_audit_row :: "uuid \<Rightarrow> uuid \<Rightarrow> uuid \<Rightarrow> uuid \<Rightarrow> instant \<Rightarrow> stored_row" where
  "purge_audit_row fresh tenant ws actor now =
     \<lparr>sw_id = fresh, sw_tenant_id = tenant, sw_refs = [],
      sw_columns = [(''id'', JUuid fresh), (''tenant_id'', JUuid tenant), (''workspace_id'', JUuid ws), (''actor_id'', JUuid actor),
                    (''action'', JStr ''tenant.offboarding.purged''), (''resource_type'', JStr ''tenant''),
                    (''resource_id'', JStr (uuid_str tenant)), (''details'', JObj []), (''occurred_at'', JInt now)]\<rparr>"

definition insert_row :: "table_name \<Rightarrow> stored_row \<Rightarrow> tenant_db \<Rightarrow> tenant_db" where
  "insert_row n r db = map (\<lambda>t. if ct_name t = n then t\<lparr>ct_rows := ct_rows t @ [r]\<rparr> else t) db"

definition record_purge_audit :: "uuid \<Rightarrow> uuid \<Rightarrow> uuid option \<Rightarrow> instant \<Rightarrow> tenant_db \<Rightarrow> tenant_db" where
  "record_purge_audit fresh tenant requested_by now db =
     (case (tenant_rows db (''platform'', ''workspaces'') tenant, requested_by) of
        (w # _, Some actor) \<Rightarrow> insert_row (''platform'', ''audit_events'') (purge_audit_row fresh tenant (sw_id w) actor now) db
      | _ \<Rightarrow> db)"

definition purge_rows :: "foreign_key list \<Rightarrow> uuid \<Rightarrow> instant \<Rightarrow> uuid option \<Rightarrow> uuid \<Rightarrow> tenant_db \<Rightarrow> tenant_db res" where
  "purge_rows fks fresh now requested_by tenant db =
     (let db1 = record_purge_audit fresh tenant requested_by now db
      in delete_each fks tenant (purge_order db1) db1)"


subsection \<open>Integrity\<close>

text \<open>
  What the schema keeps of a database: table names and the keys of a table are unique, a row holds a
  reference for each foreign key of its table that is not nullable, and every reference it holds
  names a stored row of the same tenant.
\<close>

definition reference_kept :: "foreign_key \<Rightarrow> stored_row \<Rightarrow> tenant_db \<Rightarrow> bool" where
  "reference_kept f r db \<longleftrightarrow>
     (fk_nullable f \<or> list_ex (\<lambda>k. fst k = fk_parent f) (sw_refs r)) \<and>
     list_all (\<lambda>k. fst k = fk_parent f \<longrightarrow>
        list_ex (\<lambda>p. sw_id p = snd k \<and> sw_tenant_id p = sw_tenant_id r) (rows_of db (fk_parent f))) (sw_refs r)"

definition consistent :: "foreign_key list \<Rightarrow> tenant_db \<Rightarrow> bool" where
  "consistent fks db \<longleftrightarrow>
     distinct (map ct_name db) \<and> list_all (\<lambda>t. distinct (map sw_id (ct_rows t))) db \<and>
     list_all (\<lambda>t. list_all (\<lambda>r. list_all (\<lambda>f. fk_child f = ct_name t \<longrightarrow> reference_kept f r db) fks) (ct_rows t)) db"

lemma rows_of_iff: "r \<in> set (rows_of db n) \<longleftrightarrow> (\<exists>t \<in> set db. ct_name t = n \<and> r \<in> set (ct_rows t))"
  by (auto simp: rows_of_def)

lemma ct_name_update [simp]: "ct_name (t\<lparr>ct_rows := rs\<rparr>) = ct_name t"
  by (simp add: ct_name_def)

lemma rows_of_without [simp]: "rows_of (without_keys dead db) n = filter (\<lambda>r. (n, sw_id r) \<notin> dead) (rows_of db n)"
  by (induction db) (auto simp: rows_of_def without_keys_def intro: filter_cong)

lemma rows_of_distinct:
  assumes "distinct (map ct_name db)" "list_all (\<lambda>t. distinct (map sw_id (ct_rows t))) db"
  shows "distinct (map sw_id (rows_of db n))"
  using assms
proof (induction db)
  case (Cons t db)
  have "filter (\<lambda>u. ct_name u = n) db = []" if "ct_name t = n"
    using Cons.prems(1) that by (auto simp: filter_empty_conv image_iff)
  then have "ct_name t = n \<Longrightarrow> rows_of db n = []" by (simp add: rows_of_def)
  then show ?case using Cons by (cases "ct_name t = n") (simp_all add: rows_of_def)
qed (simp add: rows_of_def)

lemma consistent_unique:
  assumes "consistent fks db" "r \<in> set (rows_of db n)" "r' \<in> set (rows_of db n)" "sw_id r = sw_id r'"
  shows "r = r'"
  using rows_of_distinct [of db n] assms unfolding consistent_def distinct_map inj_on_def by blast

lemma consistent_ref:
  assumes "consistent fks db" "r \<in> set (rows_of db n)" "f \<in> set fks" "fk_child f = n" "k \<in> set (sw_refs r)" "fst k = fk_parent f"
  shows "\<exists>p \<in> set (rows_of db (fk_parent f)). sw_id p = snd k \<and> sw_tenant_id p = sw_tenant_id r"
  using assms unfolding consistent_def rows_of_iff [of r] reference_kept_def list_all_iff list_ex_iff by blast

lemma consistent_mandatory:
  assumes "consistent fks db" "r \<in> set (rows_of db n)" "f \<in> set fks" "fk_child f = n" "\<not> fk_nullable f"
  shows "\<exists>k \<in> set (sw_refs r). fst k = fk_parent f"
  using assms unfolding consistent_def rows_of_iff [of r] reference_kept_def list_all_iff list_ex_iff by blast

subsection \<open>The closure under cascades\<close>

lemma pulled_iff:
  "k \<in> set (pulled fks db dead) \<longleftrightarrow> (\<exists>r \<in> set (rows_of db (fst k)). sw_id r = snd k \<and> refers fks CASCADE (fst k) r dead)"
  unfolding pulled_def rows_of_iff Bex_def by (cases k) (auto simp: image_iff, metis+)

lemma row_keys_iff: "k \<in> set (row_keys db) \<longleftrightarrow> (\<exists>r \<in> set (rows_of db (fst k)). sw_id r = snd k)"
  unfolding row_keys_def rows_of_iff Bex_def by (cases k) (auto simp: image_iff, metis+)

lemma pulled_stored: "set (pulled fks db dead) \<subseteq> set (row_keys db)"
  unfolding subset_iff pulled_iff row_keys_iff by blast

lemma cascade_start: "dead \<subseteq> cascade fks db n dead"
proof (induction n arbitrary: dead)
  case (Suc n)
  show ?case using Suc [of "dead \<union> set (pulled fks db dead)"] by simp
qed simp

lemma cascade_invariant:
  assumes "\<And>k. k \<in> dead \<Longrightarrow> P k" "\<And>d k. (\<And>j. j \<in> d \<Longrightarrow> P j) \<Longrightarrow> k \<in> set (pulled fks db d) \<Longrightarrow> P k" "k \<in> cascade fks db n dead"
  shows "P k"
  using assms(1,3)
proof (induction n arbitrary: dead)
  case (Suc n)
  have "P j" if "j \<in> dead \<union> set (pulled fks db dead)" for j using that Suc.prems(1) assms(2) by blast
  then show ?case using Suc.IH [of "dead \<union> set (pulled fks db dead)"] Suc.prems(2) by simp
qed simp

lemma cascade_fixed: "set (pulled fks db dead) \<subseteq> dead \<Longrightarrow> cascade fks db n dead = dead"
  by (induction n) (simp_all add: Un_absorb2)

lemma cascade_closed_fuel:
  assumes "card (set (row_keys db) - dead) \<le> n"
  shows "set (pulled fks db (cascade fks db n dead)) \<subseteq> cascade fks db n dead"
  using assms
proof (induction n arbitrary: dead)
  case 0
  then have "set (row_keys db) \<subseteq> dead" by (simp add: card_eq_0_iff)
  then show ?case using pulled_stored [of fks db dead] by simp
next
  case (Suc n)
  show ?case
  proof (cases "set (pulled fks db dead) \<subseteq> dead")
    case True then show ?thesis by (simp add: cascade_fixed Un_absorb2)
  next
    case False
    then obtain k where k: "k \<in> set (pulled fks db dead)" "k \<notin> dead" by blast
    have "k \<in> set (row_keys db)" using k(1) pulled_stored by blast
    then have "set (row_keys db) - (dead \<union> set (pulled fks db dead)) \<subset> set (row_keys db) - dead" using k by blast
    then have "card (set (row_keys db) - (dead \<union> set (pulled fks db dead))) < card (set (row_keys db) - dead)"
      by (simp add: psubset_card_mono)
    then show ?thesis using Suc by simp
  qed
qed

lemma cascade_closed: "set (pulled fks db (cascade fks db (length (row_keys db)) dead)) \<subseteq> cascade fks db (length (row_keys db)) dead"
  by (rule cascade_closed_fuel) (meson Diff_subset List.finite_set card_length card_mono le_trans)


subsection \<open>One statement\<close>

lemma refers_iff:
  "refers fks a n r dead \<longleftrightarrow>
     (\<exists>f \<in> set fks. fk_child f = n \<and> fk_action f = a \<and> (\<exists>k \<in> set (sw_refs r). fst k = fk_parent f \<and> k \<in> dead))"
  by (simp add: refers_def list_ex_iff)

lemma restricted_iff:
  "restricted fks db dead \<longleftrightarrow> (\<exists>n. \<exists>r \<in> set (rows_of db n). (n, sw_id r) \<notin> dead \<and> refers fks RESTRICT n r dead)"
proof -
  have "restricted fks db dead \<longleftrightarrow>
      (\<exists>t \<in> set db. \<exists>r \<in> set (ct_rows t). (ct_name t, sw_id r) \<notin> dead \<and> refers fks RESTRICT (ct_name t) r dead)"
    by (auto simp: restricted_def without_keys_def list_ex_iff)
  then show ?thesis by (metis (no_types, lifting) rows_of_iff)
qed

lemma tenant_rows_Nil: "tenant_rows db n tenant = [] \<longleftrightarrow> (\<forall>r \<in> set (rows_of db n). sw_tenant_id r \<noteq> tenant)"
  by (simp add: tenant_rows_def filter_empty_conv)

lemma doomed_closed: "set (pulled fks db (doomed fks db n tenant)) \<subseteq> doomed fks db n tenant"
  unfolding doomed_def by (rule cascade_closed)

lemma doomed_start: "r \<in> set (rows_of db n) \<Longrightarrow> sw_tenant_id r = tenant \<Longrightarrow> (n, sw_id r) \<in> doomed fks db n tenant"
  unfolding doomed_def using cascade_start by (force simp: tenant_rows_def)

text \<open>Only rows of the tenant are doomed.\<close>

lemma doomed_tenant:
  assumes ok: "consistent fks db" and k: "k \<in> doomed fks db n tenant"
  shows "\<exists>r \<in> set (rows_of db (fst k)). sw_id r = snd k \<and> sw_tenant_id r = tenant"
  using k unfolding doomed_def
proof (rule cascade_invariant [rotated 2])
  fix j assume "j \<in> set (map (\<lambda>r. (n, sw_id r)) (tenant_rows db n tenant))"
  then show "\<exists>r \<in> set (rows_of db (fst j)). sw_id r = snd j \<and> sw_tenant_id r = tenant" by (auto simp: tenant_rows_def)
next
  fix d j assume d: "\<And>i. i \<in> d \<Longrightarrow> \<exists>r \<in> set (rows_of db (fst i)). sw_id r = snd i \<and> sw_tenant_id r = tenant"
    and j: "j \<in> set (pulled fks db d)"
  from j obtain r where r: "r \<in> set (rows_of db (fst j))" "sw_id r = snd j" "refers fks CASCADE (fst j) r d" unfolding pulled_iff by blast
  from r(3) obtain f k where f: "f \<in> set fks" "fk_child f = fst j" "k \<in> set (sw_refs r)" "fst k = fk_parent f" "k \<in> d" unfolding refers_iff by blast
  from consistent_ref [OF ok r(1) f(1,2,3,4)] obtain p where p: "p \<in> set (rows_of db (fk_parent f))" "sw_id p = snd k" "sw_tenant_id p = sw_tenant_id r" by blast
  from d [OF f(5)] obtain q where q: "q \<in> set (rows_of db (fst k))" "sw_id q = snd k" "sw_tenant_id q = tenant" by blast
  have "p = q" using consistent_unique [OF ok] p q f(4) by simp
  then show "\<exists>r \<in> set (rows_of db (fst j)). sw_id r = snd j \<and> sw_tenant_id r = tenant" using r p q by auto
qed

lemma others_survive:
  assumes "consistent fks db" "r \<in> set (rows_of db m)" "sw_tenant_id r \<noteq> tenant"
  shows "(m, sw_id r) \<notin> doomed fks db n tenant"
  using doomed_tenant [OF assms(1), of "(m, sw_id r)"] consistent_unique [OF assms(1,2)] assms(3) by fastforce

lemma delete_tenant_rows_cases:
  assumes "delete_tenant_rows fks n tenant db = Inr db'"
  shows "db' = without_keys (doomed fks db n tenant) db" "\<not> restricted fks db (doomed fks db n tenant)"
  using assms by (simp_all add: delete_tenant_rows_def Let_def split: if_splits)

lemma delete_clears:
  assumes "delete_tenant_rows fks n tenant db = Inr db'"
  shows "tenant_rows db' n tenant = []"
  using delete_tenant_rows_cases(1) [OF assms] doomed_start [of _ db n tenant fks] by (auto simp: tenant_rows_Nil)

lemma delete_keeps_empty:
  assumes "delete_tenant_rows fks n tenant db = Inr db'" "tenant_rows db m tenant = []"
  shows "tenant_rows db' m tenant = []"
  using delete_tenant_rows_cases(1) [OF assms(1)] assms(2) by (simp add: tenant_rows_Nil)

lemma delete_keeps_others:
  assumes "consistent fks db" "delete_tenant_rows fks n tenant db = Inr db'"
  shows "filter (\<lambda>r. sw_tenant_id r \<noteq> tenant) (rows_of db' m) = filter (\<lambda>r. sw_tenant_id r \<noteq> tenant) (rows_of db m)"
  using delete_tenant_rows_cases(1) [OF assms(2)] others_survive [OF assms(1), of _ m tenant n] by (auto intro!: filter_cong)

lemma delete_consistent:
  assumes ok: "consistent fks db" and del: "delete_tenant_rows fks n tenant db = Inr db'"
  shows "consistent fks db'"
proof -
  define dead where "dead = doomed fks db n tenant"
  have db': "db' = without_keys dead db" and free: "\<not> restricted fks db dead"
    using delete_tenant_rows_cases [OF del] unfolding dead_def by simp_all
  have kept: "reference_kept f r db'" if r: "r \<in> set (rows_of db m)" "(m, sw_id r) \<notin> dead" and f: "f \<in> set fks" "fk_child f = m" for f r m
  proof -
    have target: "\<exists>p \<in> set (rows_of db (fk_parent f)). (fk_parent f, sw_id p) \<notin> dead \<and> sw_id p = snd k \<and> sw_tenant_id p = sw_tenant_id r"
      if k: "k \<in> set (sw_refs r)" "fst k = fk_parent f" for k
    proof -
      have "k \<notin> dead"
      proof
        assume "k \<in> dead"
        then have ref: "refers fks (fk_action f) m r dead" unfolding refers_iff using f k by blast
        show False
        proof (cases "fk_action f")
          case CASCADE
          then have "(m, sw_id r) \<in> set (pulled fks db dead)" using ref r(1) unfolding pulled_iff by force
          then show False using doomed_closed r(2) unfolding dead_def by blast
        next
          case RESTRICT then show False using free ref r unfolding restricted_iff RESTRICT by blast
        qed
      qed
      moreover have "(fk_parent f, snd k) = k" using k(2) by (metis prod.collapse)
      ultimately show ?thesis using consistent_ref [OF ok r(1) f k] by metis
    qed
    show ?thesis unfolding reference_kept_def list_all_iff list_ex_iff db'
      using consistent_mandatory [OF ok r(1) f] target by force
  qed
  have "reference_kept f r db'" if "t \<in> set db" "r \<in> set (ct_rows t)" "(ct_name t, sw_id r) \<notin> dead" "f \<in> set fks" "fk_child f = ct_name t" for t r f
    using kept [of r "ct_name t" f] that by (auto simp: rows_of_iff)
  moreover have "distinct (map ct_name db') \<and> list_all (\<lambda>t. distinct (map sw_id (ct_rows t))) db'"
    using ok by (auto simp: consistent_def db' without_keys_def list_all_iff comp_def distinct_map_filter)
  ultimately show ?thesis unfolding consistent_def by (auto simp: list_all_iff db' without_keys_def)
qed

text \<open>
  A statement succeeds when the tenant has no row in a table that restricts one of the tables its
  cascades can reach.
\<close>

definition cascades_within :: "foreign_key list \<Rightarrow> table_name set \<Rightarrow> bool" where
  "cascades_within fks C \<longleftrightarrow> (\<forall>f \<in> set fks. fk_action f = CASCADE \<and> fk_parent f \<in> C \<longrightarrow> fk_child f \<in> C)"

lemma doomed_within:
  assumes "cascades_within fks C" "n \<in> C" "k \<in> doomed fks db n tenant"
  shows "fst k \<in> C"
  using assms(3) unfolding doomed_def
proof (rule cascade_invariant [rotated 2])
  fix j assume "j \<in> set (map (\<lambda>r. (n, sw_id r)) (tenant_rows db n tenant))"
  then show "fst j \<in> C" using assms(2) by auto
next
  fix d j assume d: "\<And>i. i \<in> d \<Longrightarrow> fst i \<in> C" and j: "j \<in> set (pulled fks db d)"
  then show "fst j \<in> C" using assms(1) unfolding cascades_within_def pulled_iff refers_iff by metis
qed

lemma delete_succeeds:
  assumes ok: "consistent fks db" and C: "cascades_within fks C" "n \<in> C"
    and clear: "\<And>f. f \<in> set fks \<Longrightarrow> fk_action f = RESTRICT \<Longrightarrow> fk_parent f \<in> C \<Longrightarrow> tenant_rows db (fk_child f) tenant = []"
  shows "\<exists>db'. delete_tenant_rows fks n tenant db = Inr db'"
proof -
  have False if r: "r \<in> set (rows_of db m)" and ref: "refers fks RESTRICT m r (doomed fks db n tenant)" for m r
  proof -
    from ref obtain f k where f: "f \<in> set fks" "fk_child f = m" "fk_action f = RESTRICT" "k \<in> set (sw_refs r)" "fst k = fk_parent f"
      "k \<in> doomed fks db n tenant" unfolding refers_iff by blast
    have "sw_tenant_id r = tenant"
      using consistent_ref [OF ok r f(1,2,4,5)] doomed_tenant [OF ok f(6)] consistent_unique [OF ok] f(5) by fastforce
    moreover have "fk_parent f \<in> C" using doomed_within [OF C f(6)] f(5) by simp
    ultimately show False using clear [OF f(1,3)] r f(2) by (auto simp: tenant_rows_Nil)
  qed
  then have "\<not> restricted fks db (doomed fks db n tenant)" unfolding restricted_iff by blast
  then show ?thesis by (simp add: delete_tenant_rows_def)
qed


subsection \<open>The whole purge\<close>

lemma purgeable_iff:
  "n \<in> set (purgeable_tables db) \<longleftrightarrow> n \<notin> NEVER_PURGE \<and> (\<exists>t \<in> set db. ct_name t = n \<and> catalog_columns t \<and> ct_delete t)"
  by (auto simp: purgeable_tables_def order_by_name_def)

lemma purgeable_image: "set (purgeable_tables db) = ct_name ` set (filter (\<lambda>t. catalog_columns t \<and> ct_delete t) db) - NEVER_PURGE"
  by (auto simp: purgeable_tables_def order_by_name_def)

lemma purgeable_map:
  assumes "\<And>t. ct_name (g t) = ct_name t" "\<And>t. catalog_columns (g t) = catalog_columns t" "\<And>t. ct_delete (g t) = ct_delete t"
  shows "set (purgeable_tables (map g db)) = set (purgeable_tables db)"
  unfolding purgeable_image filter_map set_map image_image by (simp add: assms comp_def)

lemma exportable_iff:
  "n \<in> set (exportable_tables db) \<longleftrightarrow> n \<notin> NEVER_PURGE \<and> (\<exists>t \<in> set db. ct_name t = n \<and> catalog_columns t)"
  by (auto simp: exportable_tables_def order_by_name_def)

lemma set_purge_order: "set (purge_order db) = set (purgeable_tables db)"
  by (auto simp: purge_order_def Let_def)

lemma delete_each_spec:
  assumes "consistent fks db" "delete_each fks tenant ns db = Inr db'"
  shows "(\<forall>n \<in> set ns. tenant_rows db' n tenant = []) \<and> (\<forall>m. tenant_rows db m tenant = [] \<longrightarrow> tenant_rows db' m tenant = []) \<and>
     (\<forall>m. filter (\<lambda>r. sw_tenant_id r \<noteq> tenant) (rows_of db' m) = filter (\<lambda>r. sw_tenant_id r \<noteq> tenant) (rows_of db m)) \<and>
     consistent fks db'"
  using assms
proof (induction ns arbitrary: db)
  case (Cons n ns)
  from Cons.prems(2) obtain mid where mid: "delete_tenant_rows fks n tenant db = Inr mid" "delete_each fks tenant ns mid = Inr db'"
    by (auto split: sum.splits)
  note ok = delete_consistent [OF Cons.prems(1) mid(1)]
  show ?case
    using Cons.IH [OF ok mid(2)] delete_clears [OF mid(1)] delete_keeps_empty [OF mid(1)] delete_keeps_others [OF Cons.prems(1) mid(1)]
    by (simp del: split_paired_All)
qed simp

lemma rows_of_Cons: "rows_of (t # db) m = (if ct_name t = m then ct_rows t else []) @ rows_of db m"
  by (simp add: rows_of_def)

lemma insert_row_Cons: "insert_row n r (t # db) = (if ct_name t = n then t\<lparr>ct_rows := ct_rows t @ [r]\<rparr> else t) # insert_row n r db"
  by (simp add: insert_row_def)

lemma insert_row_absent: "n \<notin> ct_name ` set db \<Longrightarrow> insert_row n r db = db \<and> rows_of db n = []"
  by (induction db) (auto simp: insert_row_def rows_of_def)

lemma rows_of_insert:
  assumes "distinct (map ct_name db)"
  shows "rows_of (insert_row n r db) m = rows_of db m @ (if m = n \<and> n \<in> ct_name ` set db then [r] else [])"
  using assms
proof (induction db)
  case (Cons t db)
  show ?case
  proof (cases "ct_name t = n")
    case True
    then have "insert_row n r db = db \<and> rows_of db n = []" using Cons.prems by (intro insert_row_absent) simp
    then show ?thesis using True by (cases "n = m") (auto simp: insert_row_Cons rows_of_Cons)
  next
    case False
    then show ?thesis using Cons by (simp add: insert_row_Cons rows_of_Cons)
  qed
qed (simp add: rows_of_def insert_row_def)

lemma consistent_insert:
  assumes ok: "consistent fks db" and free: "\<forall>f \<in> set fks. fk_child f \<noteq> n" and new: "sw_id r \<notin> sw_id ` set (rows_of db n)"
  shows "consistent fks (insert_row n r db)"
proof -
  have names: "map ct_name (insert_row n r db) = map ct_name db" by (simp add: insert_row_def)
  have uniq: "distinct (map ct_name db)" using ok by (simp add: consistent_def)
  have kept: "reference_kept f x (insert_row n r db)" if "reference_kept f x db" for f x
    using that unfolding reference_kept_def list_all_iff list_ex_iff rows_of_insert [OF uniq] by (auto; metis)
  have "distinct (map sw_id (ct_rows t))" if "t \<in> set (insert_row n r db)" for t
    using that ok new by (fastforce simp: insert_row_def consistent_def list_all_iff rows_of_iff)
  moreover have "reference_kept f x (insert_row n r db)"
    if t: "t \<in> set (insert_row n r db)" and x: "x \<in> set (ct_rows t)" and f: "f \<in> set fks" "fk_child f = ct_name t" for t x f
  proof -
    have "t \<in> set db" using t f free by (auto simp: insert_row_def split: if_splits)
    then show ?thesis using ok x f by (auto simp: consistent_def list_all_iff intro: kept)
  qed
  ultimately show ?thesis using uniq unfolding consistent_def names by (simp add: list_all_iff)
qed

text \<open>The audit row's key is fresh.\<close>

definition fresh_audit :: "uuid \<Rightarrow> tenant_db \<Rightarrow> bool" where
  "fresh_audit fresh db \<longleftrightarrow> fresh \<notin> set (map sw_id (rows_of db (''platform'', ''audit_events'')))"

definition audit_unreferenced :: "foreign_key list \<Rightarrow> bool" where
  "audit_unreferenced fks \<longleftrightarrow> list_all (\<lambda>f. fk_child f \<noteq> (''platform'', ''audit_events'')) fks"

lemma record_audit_cases:
  "record_purge_audit fresh tenant asked now db = db \<or>
   (\<exists>w actor. record_purge_audit fresh tenant asked now db =
      insert_row (''platform'', ''audit_events'') (purge_audit_row fresh tenant w actor now) db)"
  by (auto simp: record_purge_audit_def split: list.splits option.splits)

lemma record_audit_spec:
  fixes tenant :: uuid and asked :: "uuid option" and now :: instant
  assumes ok: "consistent fks db" and free: "audit_unreferenced fks" "fresh_audit fresh db"
  defines "db1 \<equiv> record_purge_audit fresh tenant asked now db"
  shows "consistent fks db1"
    and "filter (\<lambda>r. sw_tenant_id r \<noteq> tenant) (rows_of db1 m) = filter (\<lambda>r. sw_tenant_id r \<noteq> tenant) (rows_of db m)"
    and "set (purgeable_tables db1) = set (purgeable_tables db)"
proof -
  have uniq: "distinct (map ct_name db)" using ok by (simp add: consistent_def)
  have cols: "catalog_columns (t\<lparr>ct_rows := rs\<rparr>) = catalog_columns t" for t rs by (simp add: catalog_columns_def)
  from record_audit_cases [of fresh tenant asked now db] consider "db1 = db"
    | w actor where "db1 = insert_row (''platform'', ''audit_events'') (purge_audit_row fresh tenant w actor now) db"
    unfolding db1_def by blast
  then have "consistent fks db1 \<and> filter (\<lambda>r. sw_tenant_id r \<noteq> tenant) (rows_of db1 m) = filter (\<lambda>r. sw_tenant_id r \<noteq> tenant) (rows_of db m)
      \<and> set (purgeable_tables db1) = set (purgeable_tables db)"
  proof cases
    case 1 then show ?thesis using ok by simp
  next
    case 2
    have "consistent fks db1" unfolding 2 using ok free
      by (intro consistent_insert) (auto simp: audit_unreferenced_def fresh_audit_def list_all_iff purge_audit_row_def)
    moreover have "set (purgeable_tables db1) = set (purgeable_tables db)"
      unfolding 2 insert_row_def by (rule purgeable_map) (simp_all add: cols)
    ultimately show ?thesis using uniq by (simp add: 2 rows_of_insert purge_audit_row_def)
  qed
  then show "consistent fks db1" "filter (\<lambda>r. sw_tenant_id r \<noteq> tenant) (rows_of db1 m) = filter (\<lambda>r. sw_tenant_id r \<noteq> tenant) (rows_of db m)"
    "set (purgeable_tables db1) = set (purgeable_tables db)" by blast+
qed

lemma purge_rows_spec:
  assumes ok: "consistent fks db" "audit_unreferenced fks" "fresh_audit fresh db" and run: "purge_rows fks fresh now asked tenant db = Inr db'"
  shows "\<forall>n \<in> set (purgeable_tables db). tenant_rows db' n tenant = []"
    and "filter (\<lambda>r. sw_tenant_id r \<noteq> tenant) (rows_of db' m) = filter (\<lambda>r. sw_tenant_id r \<noteq> tenant) (rows_of db m)"
    and "consistent fks db'"
  using delete_each_spec [OF record_audit_spec(1) [OF ok, of tenant asked now], of tenant "purge_order (record_purge_audit fresh tenant asked now db)" db']
    record_audit_spec(2,3) [OF ok, of tenant asked now] run
  by (simp_all add: purge_rows_def Let_def set_purge_order del: split_paired_All)


subsection \<open>The purge order of the schema\<close>

text \<open>
  The tables of \<^verbatim>\<open>_ORDERED_FIRST\<close> are purgeable and every purgeable name is a plain identifier: what
  the catalog query finds in the migrated schema.
\<close>

definition catalog_sound :: "tenant_db \<Rightarrow> bool" where
  "catalog_sound db \<longleftrightarrow>
     list_all (\<lambda>n. n \<in> set (purgeable_tables db)) ORDERED_FIRST \<and>
     list_all (\<lambda>n. safe_identifier (fst n) \<and> safe_identifier (snd n)) (exportable_tables db)"

lemma quoted_safe: "safe_identifier (fst n) \<Longrightarrow> safe_identifier (snd n) \<Longrightarrow> \<exists>q. quoted n = Inr q"
  by (simp add: quoted_def)

lemmas schema_simps = schema_foreign_keys_def evidence_foreign_keys_def receipt_foreign_keys_def fkey_def
lemmas step_simps = cascades_within_def schema_simps lower_or_underscore_def safe_identifier_def

lemma delete_each_step:
  assumes "safe_identifier (fst n)" "safe_identifier (snd n)" "delete_tenant_rows fks n tenant db = Inr mid"
    "\<exists>db'. delete_each fks tenant ns mid = Inr db'"
  shows "\<exists>db'. delete_each fks tenant (n # ns) db = Inr db'"
  using assms by (auto dest: quoted_safe)

lemma restrict_parents:
  assumes "f \<in> set schema_foreign_keys" "fk_action f = RESTRICT"
  shows "fk_parent f = (''knowledge'', ''documents'') \<and> fk_child f = (''knowledge'', ''evidence'') \<or>
     fk_parent f = (''knowledge'', ''chunks'') \<and> fk_child f = (''knowledge'', ''evidence'') \<or>
     fk_parent f = (''knowledge'', ''evidence'') \<and> fk_child f = (''memory'', ''item_evidence'') \<or>
     fk_parent f = (''platform'', ''worker_runs'') \<and> fk_child f = (''memory'', ''items'')"
  using assms by (auto simp: schema_simps)

lemma parent_gone:
  assumes ok: "consistent fks db" and f: "f \<in> set fks" "\<not> fk_nullable f" and none: "tenant_rows db (fk_parent f) tenant = []"
  shows "tenant_rows db (fk_child f) tenant = []"
proof -
  have "sw_tenant_id r \<noteq> tenant" if r: "r \<in> set (rows_of db (fk_child f))" for r
    using consistent_mandatory [OF ok r f(1) refl f(2)] consistent_ref [OF ok r f(1) refl] none unfolding tenant_rows_Nil by metis
  then show ?thesis by (simp add: tenant_rows_Nil)
qed

lemma items_clear_links:
  assumes "consistent schema_foreign_keys db" "tenant_rows db (''memory'', ''items'') tenant = []"
  shows "tenant_rows db (''memory'', ''item_evidence'') tenant = []"
  using parent_gone [OF assms(1), of "fkey (''memory'', ''item_evidence'') (''memory'', ''items'') CASCADE False" tenant] assms(2)
  by (simp add: schema_simps)

lemma first_step:
  assumes ok: "consistent schema_foreign_keys db" and C: "cascades_within schema_foreign_keys C" "n \<in> C"
    and clear: "\<And>f. f \<in> set schema_foreign_keys \<Longrightarrow> fk_action f = RESTRICT \<Longrightarrow> fk_parent f \<in> C \<Longrightarrow> tenant_rows db (fk_child f) tenant = []"
    and safe: "safe_identifier (fst n)" "safe_identifier (snd n)"
    and rest: "\<And>mid. consistent schema_foreign_keys mid \<Longrightarrow> tenant_rows mid n tenant = [] \<Longrightarrow>
       (\<And>m. tenant_rows db m tenant = [] \<Longrightarrow> tenant_rows mid m tenant = []) \<Longrightarrow> \<exists>db'. delete_each schema_foreign_keys tenant ns mid = Inr db'"
  shows "\<exists>db'. delete_each schema_foreign_keys tenant (n # ns) db = Inr db'"
proof -
  from delete_succeeds [OF ok C clear] obtain mid where mid: "delete_tenant_rows schema_foreign_keys n tenant db = Inr mid" by blast
  show ?thesis
    using rest [OF delete_consistent [OF ok mid] delete_clears [OF mid] delete_keeps_empty [OF mid]] safe mid by (intro delete_each_step)
qed

lemma rest_succeeds:
  assumes "consistent schema_foreign_keys db"
    "\<forall>n \<in> set ns. n \<notin> set ORDERED_FIRST \<and> safe_identifier (fst n) \<and> safe_identifier (snd n)"
  shows "\<exists>db'. delete_each schema_foreign_keys tenant ns db = Inr db'"
  using assms
proof (induction ns arbitrary: db)
  case (Cons n ns)
  define C where "C = - {(''knowledge'', ''documents''), (''knowledge'', ''chunks''), (''knowledge'', ''evidence''), (''platform'', ''worker_runs'')}"
  have C: "cascades_within schema_foreign_keys C" "n \<in> C"
    using Cons.prems(2) by (auto simp: cascades_within_def schema_simps C_def ORDERED_FIRST_def)
  have clear: "tenant_rows db (fk_child f) tenant = []" if "f \<in> set schema_foreign_keys" "fk_action f = RESTRICT" "fk_parent f \<in> C" for f
    using restrict_parents [OF that(1,2)] that(3) by (auto simp: C_def)
  show ?case using Cons by (intro first_step [OF Cons.prems(1) C clear]) simp_all
qed simp

lemma ordered_succeeds:
  assumes ok: "consistent schema_foreign_keys db"
    and rest: "\<And>mid. consistent schema_foreign_keys mid \<Longrightarrow> \<exists>db'. delete_each schema_foreign_keys tenant ns mid = Inr db'"
  shows "\<exists>db'. delete_each schema_foreign_keys tenant (ORDERED_FIRST @ ns) db = Inr db'"
  unfolding ORDERED_FIRST_def append.simps
proof (rule first_step [OF ok, of "{(''memory'', ''items''), (''memory'', ''item_evidence'')}"])
  fix a assume a: "consistent schema_foreign_keys a" "tenant_rows a (''memory'', ''items'') tenant = []"
  show "\<exists>db'. delete_each schema_foreign_keys tenant
     ((''knowledge'', ''evidence'') # (''knowledge'', ''chunks'') # (''knowledge'', ''documents'') # (''platform'', ''worker_runs'') # ns) a = Inr db'"
  proof (rule first_step [OF a(1), of "{(''knowledge'', ''evidence'')}"])
    fix b assume b: "consistent schema_foreign_keys b" "tenant_rows b (''knowledge'', ''evidence'') tenant = []"
      "\<And>m. tenant_rows a m tenant = [] \<Longrightarrow> tenant_rows b m tenant = []"
    show "\<exists>db'. delete_each schema_foreign_keys tenant
       ((''knowledge'', ''chunks'') # (''knowledge'', ''documents'') # (''platform'', ''worker_runs'') # ns) b = Inr db'"
    proof (rule first_step [OF b(1), of "{(''knowledge'', ''chunks'')}"])
      fix c assume c: "consistent schema_foreign_keys c" "\<And>m. tenant_rows b m tenant = [] \<Longrightarrow> tenant_rows c m tenant = []"
      have cited: "tenant_rows c (''knowledge'', ''evidence'') tenant = []" using b(2) c(2) by blast
      show "\<exists>db'. delete_each schema_foreign_keys tenant ((''knowledge'', ''documents'') # (''platform'', ''worker_runs'') # ns) c = Inr db'"
      proof (rule first_step [OF c(1), of "{(''knowledge'', ''documents''), (''knowledge'', ''chunks'')}"])
        fix d assume d: "consistent schema_foreign_keys d" "\<And>m. tenant_rows c m tenant = [] \<Longrightarrow> tenant_rows d m tenant = []"
        have items: "tenant_rows d (''memory'', ''items'') tenant = []" using a(2) b(3) c(2) d(2) by blast
        show "\<exists>db'. delete_each schema_foreign_keys tenant ((''platform'', ''worker_runs'') # ns) d = Inr db'"
        proof (rule first_step [OF d(1), of "{(''platform'', ''worker_runs'')}"])
          fix e assume "consistent schema_foreign_keys e"
          then show "\<exists>db'. delete_each schema_foreign_keys tenant ns e = Inr db'" by (rule rest)
        qed (auto simp: step_simps intro: items)
      qed (auto simp: step_simps intro: cited)
    qed (auto simp: step_simps intro: b)
  qed (auto simp: step_simps intro: items_clear_links [OF a])
qed (auto simp: step_simps)


lemma purgeable_exportable: "n \<in> set (purgeable_tables db) \<Longrightarrow> n \<in> set (exportable_tables db)"
  unfolding purgeable_iff exportable_iff by blast

text \<open>
  On a sound catalog and a consistent database the purge never fails: no statement runs into a
  \<^verbatim>\<open>RESTRICT\<close>.
\<close>

lemma purge_rows_succeeds:
  assumes ok: "consistent schema_foreign_keys db" "fresh_audit fresh db" "catalog_sound db"
  shows "\<exists>db'. purge_rows schema_foreign_keys fresh now asked tenant db = Inr db'"
proof -
  define db1 where "db1 = record_purge_audit fresh tenant asked now db"
  have free: "audit_unreferenced schema_foreign_keys" by (simp add: audit_unreferenced_def schema_simps)
  note spec = record_audit_spec [OF ok(1) free ok(2), of tenant asked now, folded db1_def]
  have first: "filter (\<lambda>n. n \<in> set (purgeable_tables db1)) ORDERED_FIRST = ORDERED_FIRST"
    using ok(3) spec(3) by (auto simp: catalog_sound_def list_all_iff filter_id_conv)
  have safe: "safe_identifier (fst n) \<and> safe_identifier (snd n)" if "n \<in> set (purgeable_tables db)" for n
    using purgeable_exportable [OF that] ok(3) unfolding catalog_sound_def list_all_iff by blast
  have "\<exists>db'. delete_each schema_foreign_keys tenant
      (ORDERED_FIRST @ filter (\<lambda>n. n \<notin> set ORDERED_FIRST) (purgeable_tables db1)) db1 = Inr db'"
    using safe spec(3) by (intro ordered_succeeds [OF spec(1)] rest_succeeds) auto
  then show ?thesis by (simp add: purge_rows_def Let_def purge_order_def db1_def [symmetric] first)
qed

text \<open>What an export holds: the tenant's rows of every exportable table, each under its name.\<close>

lemma export_tables_spec:
  assumes "export_tables db tenant ns = Inr ex"
  shows "ex = map (\<lambda>n. \<lparr>ex_schema = fst n, ex_table = snd n, ex_rows = map sw_columns (tenant_rows db n tenant)\<rparr>) ns"
  using assms by (induction ns arbitrary: ex) (auto split: sum.splits)

lemma export_tables_succeeds:
  assumes "\<forall>n \<in> set ns. safe_identifier (fst n) \<and> safe_identifier (snd n)"
  shows "\<exists>ex. export_tables db tenant ns = Inr ex"
  using assms by (induction ns) (auto simp: quoted_def)

end
