(* ===== verification/Offboarding.thy ===== *)
theory Offboarding
  imports TenantTables "HOL-Library.AList"
begin

text \<open>
  Tenant offboarding: the request table with its partial unique index
  (\<^verbatim>\<open>SqlTenantOffboarding.claim_requested\<close>, \<^verbatim>\<open>mark_status\<close>), and the worker's lane
  (\<^verbatim>\<open>apps/worker/.../consumers/offboarding.py\<close>) that exports a tenant's rows and blobs into one
  bundle, then purges tables, buckets and vector collections, reporting each stage on the request.
  A step of the lane acts on the whole world, one of its ports may raise at any step (\<open>flt\<close>), and
  the effects of the steps before it stay: that is what a failed pass or a dead worker leaves. The
  bundle is the list of its zip members, a table's member holding the rows its lines encode.
\<close>

subsection \<open>Requests\<close>

record offboarding_request =
  oq_id :: uuid
  oq_tenant_id :: uuid
  oq_status :: string
  oq_requested_by :: uuid
  oq_requested_at :: instant
  oq_export_key :: "ustr option"
  oq_error :: "string option"
  oq_updated_at :: instant

definition active_request :: "offboarding_request \<Rightarrow> bool" where
  "active_request q \<longleftrightarrow> oq_status q \<notin> {''completed'', ''failed''}"

text \<open>\<^verbatim>\<open>uq_tenant_offboarding_requests_active\<close>: at most one row in flight per tenant.\<close>

definition active_unique :: "offboarding_request list \<Rightarrow> bool" where
  "active_unique qs \<longleftrightarrow> distinct (map oq_tenant_id (filter active_request qs))"

definition STALE_CLAIM_MINUTES :: int where
  "STALE_CLAIM_MINUTES = 30"

definition claimable_request :: "instant \<Rightarrow> offboarding_request \<Rightarrow> bool" where
  "claimable_request now q \<longleftrightarrow>
     oq_status q = ''requested'' \<or>
     oq_status q \<in> {''exporting'', ''purging''} \<and> oq_updated_at q < now - minutes STALE_CLAIM_MINUTES"

definition claim_requested :: "instant \<Rightarrow> offboarding_request list \<Rightarrow> uuid list \<times> offboarding_request list" where
  "claim_requested now qs =
     (map oq_tenant_id (filter (claimable_request now) qs),
      map (\<lambda>q. if claimable_request now q then q\<lparr>oq_status := ''exporting'', oq_updated_at := now\<rparr> else q) qs)"

definition marked :: "instant \<Rightarrow> uuid \<Rightarrow> string \<Rightarrow> ustr option \<Rightarrow> string option \<Rightarrow> offboarding_request \<Rightarrow> offboarding_request" where
  "marked now tenant status key err q =
     (if oq_tenant_id q = tenant
      then q\<lparr>oq_status := status, oq_export_key := (case key of None \<Rightarrow> oq_export_key q | Some k \<Rightarrow> Some k), oq_error := err, oq_updated_at := now\<rparr>
      else q)"

definition mark_status ::
  "instant \<Rightarrow> uuid \<Rightarrow> string \<Rightarrow> ustr option \<Rightarrow> string option \<Rightarrow> offboarding_request list \<Rightarrow> offboarding_request list res" where
  "mark_status now tenant status key err qs =
     (let qs' = map (marked now tenant status key err) qs
      in if active_unique qs' then Inr qs' else Inl (OtherError ''IntegrityError''))"

text \<open>The request \<^verbatim>\<open>ORDER BY requested_at DESC LIMIT 1\<close> finds.\<close>

definition latest_request :: "uuid \<Rightarrow> offboarding_request list \<Rightarrow> offboarding_request option" where
  "latest_request tenant qs =
     (case sort_by (\<lambda>q. - oq_requested_at q) (filter (\<lambda>q. oq_tenant_id q = tenant) qs) of [] \<Rightarrow> None | q # _ \<Rightarrow> Some q)"

subsection \<open>The time stamp\<close>

text \<open>\<^verbatim>\<open>strftime("%Y%m%dT%H%M%SZ")\<close> of a UTC instant: the proleptic Gregorian date of a day number, and the time of day.\<close>

definition civil :: "int \<Rightarrow> int \<times> int \<times> int" where
  "civil day =
     (let z = day + 719468; era = z div 146097; doe = z mod 146097;
          yoe = (doe - doe div 1460 + doe div 36524 - doe div 146096) div 365;
          doy = doe - (365 * yoe + yoe div 4 - yoe div 100);
          mp = (5 * doy + 2) div 153;
          d = doy - (153 * mp + 2) div 5 + 1;
          m = (if mp < 10 then mp + 3 else mp - 9)
      in (yoe + era * 400 + (if m \<le> 2 then 1 else 0), m, d))"

definition padded :: "nat \<Rightarrow> int \<Rightarrow> string" where
  "padded w n = (let s = nat_str (nat n) in replicate (w - length s) CHR ''0'' @ s)"

definition stamp :: "instant \<Rightarrow> string" where
  "stamp now =
     (let secs = now div 1000000; (y, m, d) = civil (secs div 86400); s = secs mod 86400
      in padded 4 y @ padded 2 m @ padded 2 d @ ''T'' @ padded 2 (s div 3600) @ padded 2 (s div 60 mod 60) @ padded 2 (s mod 60) @ ''Z'')"

subsection \<open>Buckets and the bundle\<close>

type_synonym 'b bucket = "(ustr \<times> 'b) list"

definition list_objects :: "'b bucket \<Rightarrow> ustr \<Rightarrow> ustr list" where
  "list_objects b prefix = filter (\<lambda>k. startswith k prefix) (map fst b)"

definition get_object :: "'b bucket \<Rightarrow> ustr \<Rightarrow> 'b res" where
  "get_object b key = (case map_of b key of None \<Rightarrow> Inl (OtherError ''S3Error'') | Some x \<Rightarrow> Inr x)"

definition put_object :: "ustr \<Rightarrow> 'b \<Rightarrow> 'b bucket \<Rightarrow> 'b bucket" where
  "put_object key x b = AList.update key x b"

definition delete_object :: "ustr \<Rightarrow> 'b bucket \<Rightarrow> 'b bucket" where
  "delete_object key b = filter (\<lambda>kx. fst kx \<noteq> key) b"

datatype zip_content = Ndjson "details list" | Blob "nat list"

type_synonym export_bundle = "(ustr \<times> zip_content) list"

definition table_member :: "table_name \<Rightarrow> ustr" where
  "table_member n = ulit (''tables/'' @ fst n @ ''.'' @ snd n @ ''.ndjson'')"

definition build_bundle :: "exported_table list \<Rightarrow> nat list bucket \<Rightarrow> nat list bucket \<Rightarrow> export_bundle" where
  "build_bundle tables artifacts attachments =
     map (\<lambda>t. (table_member (ex_schema t, ex_table t), Ndjson (ex_rows t))) tables @
     map (\<lambda>(k, x). (ulit ''blobs/artifacts/'' @ k, Blob x)) artifacts @
     map (\<lambda>(k, x). (ulit ''blobs/attachments/'' @ k, Blob x)) attachments"

definition artifact_prefix :: "uuid \<Rightarrow> ustr" where
  "artifact_prefix tenant = ulit (uuid_str tenant @ ''/'')"

definition attachment_prefix :: "uuid \<Rightarrow> ustr" where
  "attachment_prefix tenant = ulit (''feedback/'' @ uuid_str tenant @ ''/'')"

definition export_key_for :: "instant \<Rightarrow> uuid \<Rightarrow> ustr" where
  "export_key_for now tenant = ulit (uuid_str tenant @ ''/offboarding-'' @ stamp now @ ''.zip'')"

subsection \<open>The lane\<close>

record offboarding_world =
  ow_db :: tenant_db
  ow_requests :: "offboarding_request list"
  ow_artifacts :: "nat list bucket"
  ow_attachments :: "nat list bucket"
  ow_exports :: "export_bundle bucket"
  ow_vectors :: vector_index
  ow_memory_vectors :: "(uuid \<times> uuid) list option"

datatype lane_step =
    ExportRows | ListArtifacts | GetArtifact ustr | ListAttachments | GetAttachment ustr | PutExport | MarkExporting | MarkPurging
  | PurgeRows | DeleteArtifact ustr | DeleteAttachment ustr | DeleteVectors | DeleteMemoryVectors | MarkCompleted

type_synonym 'a lane = "offboarding_world \<Rightarrow> 'a res \<times> offboarding_world"

definition lane_bind :: "'a lane \<Rightarrow> ('a \<Rightarrow> 'b lane) \<Rightarrow> 'b lane" where
  "lane_bind m f w = (case m w of (Inl e, w') \<Rightarrow> (Inl e, w') | (Inr x, w') \<Rightarrow> f x w')"

definition step :: "(lane_step \<Rightarrow> exc option) \<Rightarrow> lane_step \<Rightarrow> 'a lane \<Rightarrow> 'a lane" where
  "step flt s m w = (case flt s of Some e \<Rightarrow> (Inl e, w) | None \<Rightarrow> m w)"

definition reads :: "(offboarding_world \<Rightarrow> 'a res) \<Rightarrow> 'a lane" where
  "reads q w = (q w, w)"

definition writes :: "(offboarding_world \<Rightarrow> offboarding_world res) \<Rightarrow> unit lane" where
  "writes q w = (case q w of Inl e \<Rightarrow> (Inl e, w) | Inr w' \<Rightarrow> (Inr (), w'))"

fun fetch_all :: "(lane_step \<Rightarrow> exc option) \<Rightarrow> (ustr \<Rightarrow> lane_step) \<Rightarrow> (offboarding_world \<Rightarrow> nat list bucket) \<Rightarrow> ustr list \<Rightarrow> nat list bucket lane" where
  "fetch_all flt s bucket [] = reads (\<lambda>_. Inr [])"
| "fetch_all flt s bucket (k # ks) =
     lane_bind (step flt (s k) (reads (\<lambda>w. get_object (bucket w) k))) (\<lambda>x.
     lane_bind (fetch_all flt s bucket ks) (\<lambda>rest. reads (\<lambda>_. Inr ((k, x) # rest))))"

fun erase_all :: "(lane_step \<Rightarrow> exc option) \<Rightarrow> (ustr \<Rightarrow> lane_step) \<Rightarrow> (ustr \<Rightarrow> offboarding_world \<Rightarrow> offboarding_world) \<Rightarrow> ustr list \<Rightarrow> unit lane" where
  "erase_all flt s del [] = reads (\<lambda>_. Inr ())"
| "erase_all flt s del (k # ks) = lane_bind (step flt (s k) (writes (\<lambda>w. Inr (del k w)))) (\<lambda>_. erase_all flt s del ks)"

definition erase_artifact :: "ustr \<Rightarrow> offboarding_world \<Rightarrow> offboarding_world" where
  "erase_artifact k w = w\<lparr>ow_artifacts := delete_object k (ow_artifacts w)\<rparr>"

definition erase_attachment :: "ustr \<Rightarrow> offboarding_world \<Rightarrow> offboarding_world" where
  "erase_attachment k w = w\<lparr>ow_attachments := delete_object k (ow_attachments w)\<rparr>"

definition report :: "instant \<Rightarrow> uuid \<Rightarrow> string \<Rightarrow> ustr option \<Rightarrow> string option \<Rightarrow> offboarding_world \<Rightarrow> offboarding_world res" where
  "report now tenant status key err w =
     map_sum id (\<lambda>qs. w\<lparr>ow_requests := qs\<rparr>) (mark_status now tenant status key err (ow_requests w))"

definition purge_step :: "foreign_key list \<Rightarrow> (tenant_db \<Rightarrow> uuid) \<Rightarrow> instant \<Rightarrow> uuid \<Rightarrow> offboarding_world \<Rightarrow> offboarding_world res" where
  "purge_step fks gen now tenant w =
     map_sum id (\<lambda>db. w\<lparr>ow_db := db\<rparr>)
       (purge_rows fks (gen (ow_db w)) now (map_option oq_requested_by (latest_request tenant (ow_requests w))) tenant (ow_db w))"

definition forget_points :: "uuid \<Rightarrow> (uuid \<times> uuid) list \<Rightarrow> (uuid \<times> uuid) list" where
  "forget_points tenant ps = filter (\<lambda>p. fst p \<noteq> tenant) ps"

definition forget_memory :: "(lane_step \<Rightarrow> exc option) \<Rightarrow> uuid \<Rightarrow> unit lane" where
  "forget_memory flt tenant w =
     (case ow_memory_vectors w of
        None \<Rightarrow> (Inr (), w)
      | Some ps \<Rightarrow> step flt DeleteMemoryVectors (writes (\<lambda>w. Inr (w\<lparr>ow_memory_vectors := Some (forget_points tenant ps)\<rparr>))) w)"

text \<open>The first half, up to the uploaded bundle; the second half, from \<^verbatim>\<open>purging\<close> to \<^verbatim>\<open>completed\<close>.\<close>

definition export_half :: "(lane_step \<Rightarrow> exc option) \<Rightarrow> instant \<Rightarrow> uuid \<Rightarrow> (ustr list \<times> ustr list) lane" where
  "export_half flt now tenant =
     lane_bind (step flt ExportRows (reads (\<lambda>w. export_rows (ow_db w) tenant))) (\<lambda>tables.
     lane_bind (step flt ListArtifacts (reads (\<lambda>w. Inr (list_objects (ow_artifacts w) (artifact_prefix tenant))))) (\<lambda>aks.
     lane_bind (fetch_all flt GetArtifact ow_artifacts aks) (\<lambda>artifacts.
     lane_bind (step flt ListAttachments (reads (\<lambda>w. Inr (list_objects (ow_attachments w) (attachment_prefix tenant))))) (\<lambda>tks.
     lane_bind (fetch_all flt GetAttachment ow_attachments tks) (\<lambda>attachments.
     lane_bind (step flt PutExport (writes (\<lambda>w. Inr (w\<lparr>ow_exports :=
        put_object (export_key_for now tenant) (build_bundle tables artifacts attachments) (ow_exports w)\<rparr>)))) (\<lambda>_.
     reads (\<lambda>_. Inr (aks, tks))))))))"

definition purge_half ::
  "(lane_step \<Rightarrow> exc option) \<Rightarrow> foreign_key list \<Rightarrow> (tenant_db \<Rightarrow> uuid) \<Rightarrow> instant \<Rightarrow> uuid \<Rightarrow> ustr list \<times> ustr list \<Rightarrow> unit lane" where
  "purge_half flt fks gen now tenant keys =
     lane_bind (step flt MarkExporting (writes (report now tenant ''exporting'' (Some (export_key_for now tenant)) None))) (\<lambda>_.
     lane_bind (step flt MarkPurging (writes (report now tenant ''purging'' (Some (export_key_for now tenant)) None))) (\<lambda>_.
     lane_bind (step flt PurgeRows (writes (purge_step fks gen now tenant))) (\<lambda>_.
     lane_bind (erase_all flt DeleteArtifact erase_artifact (fst keys)) (\<lambda>_.
     lane_bind (erase_all flt DeleteAttachment erase_attachment (snd keys)) (\<lambda>_.
     lane_bind (step flt DeleteVectors (writes (\<lambda>w. Inr (w\<lparr>ow_vectors := delete_by_tenant (ow_vectors w) tenant\<rparr>)))) (\<lambda>_.
     lane_bind (forget_memory flt tenant) (\<lambda>_.
     step flt MarkCompleted (writes (report now tenant ''completed'' (Some (export_key_for now tenant)) None)))))))))"

definition run :: "(lane_step \<Rightarrow> exc option) \<Rightarrow> foreign_key list \<Rightarrow> (tenant_db \<Rightarrow> uuid) \<Rightarrow> instant \<Rightarrow> uuid \<Rightarrow> unit lane" where
  "run flt fks gen now tenant = lane_bind (export_half flt now tenant) (purge_half flt fks gen now tenant)"

text \<open>
  One tick: every claimed tenant in turn; a failed pass is recorded on the request with the first
  500 characters of the exception, and a failure to record it is only logged.
\<close>

definition failure_text :: "(exc \<Rightarrow> string) \<Rightarrow> exc \<Rightarrow> string" where
  "failure_text exc_str e = take 500 (exc_name e @ '': '' @ exc_str e)"

definition offboard_one ::
  "(exc \<Rightarrow> string) \<Rightarrow> (uuid \<Rightarrow> lane_step \<Rightarrow> exc option) \<Rightarrow> foreign_key list \<Rightarrow> (tenant_db \<Rightarrow> uuid) \<Rightarrow> instant \<Rightarrow> uuid \<Rightarrow> offboarding_world \<Rightarrow> offboarding_world" where
  "offboard_one exc_str flt fks gen now tenant w =
     (case run (flt tenant) fks gen now tenant w of
        (Inr _, w') \<Rightarrow> w'
      | (Inl e, w') \<Rightarrow>
          (case report now tenant ''failed'' None (Some (failure_text exc_str e)) w' of Inl _ \<Rightarrow> w' | Inr w'' \<Rightarrow> w''))"

definition consume_offboarding ::
  "(exc \<Rightarrow> string) \<Rightarrow> (uuid \<Rightarrow> lane_step \<Rightarrow> exc option) \<Rightarrow> foreign_key list \<Rightarrow> (tenant_db \<Rightarrow> uuid) \<Rightarrow> instant \<Rightarrow> offboarding_world \<Rightarrow> offboarding_world" where
  "consume_offboarding exc_str flt fks gen now w =
     (case claim_requested now (ow_requests w) of
        (claimed, qs) \<Rightarrow> fold (offboard_one exc_str flt fks gen now) claimed (w\<lparr>ow_requests := qs\<rparr>))"


subsection \<open>Steps that return\<close>

named_theorems lane_simps

lemma lane_bind_Inr [lane_simps]:
  "lane_bind m f w = (Inr y, w') \<longleftrightarrow> (\<exists>x w1. m w = (Inr x, w1) \<and> f x w1 = (Inr y, w'))"
  by (auto simp: lane_bind_def split: prod.splits sum.splits)

lemma step_Inr [lane_simps]: "step flt s m w = (Inr y, w') \<longleftrightarrow> flt s = None \<and> m w = (Inr y, w')"
  by (auto simp: step_def split: option.splits)

lemma reads_Inr [lane_simps]: "reads q w = (Inr y, w') \<longleftrightarrow> q w = Inr y \<and> w' = w"
  by (auto simp: reads_def)

lemma writes_Inr [lane_simps]: "writes q w = (Inr u, w') \<longleftrightarrow> q w = Inr w'"
  by (auto simp: writes_def split: sum.splits)

lemma fetch_all_Inr:
  assumes "fetch_all flt s b ks w = (Inr bs, w')"
  shows "w' = w \<and> (\<forall>k \<in> set ks. \<exists>x. map_of (b w) k = Some x \<and> (k, x) \<in> set bs)"
  using assms
proof (induction ks arbitrary: bs w')
  case (Cons k ks)
  then show ?case by (fastforce simp: lane_simps get_object_def split: option.splits)
qed (simp add: lane_simps)

lemma fetch_all_succeeds:
  assumes "\<And>k. flt (s k) = None" "\<forall>k \<in> set ks. map_of (b w) k \<noteq> None"
  shows "\<exists>bs. fetch_all flt s b ks w = (Inr bs, w)"
  using assms(2)
proof (induction ks)
  case (Cons k ks)
  then obtain bs x where "fetch_all flt s b ks w = (Inr bs, w)" "map_of (b w) k = Some x" by auto
  then show ?case using assms(1) by (simp add: lane_bind_def step_def reads_def get_object_def)
qed (simp add: reads_def)

lemma erase_all_Inr: "erase_all flt s del ks w = (Inr u, w') \<Longrightarrow> w' = fold del ks w"
  by (induction ks arbitrary: w) (auto simp: lane_simps)

lemma erase_all_succeeds: "(\<And>k. flt (s k) = None) \<Longrightarrow> erase_all flt s del ks w = (Inr (), fold del ks w)"
  by (induction ks arbitrary: w) (auto simp: lane_bind_def step_def reads_def writes_def)

lemma fold_erase_artifact:
  "fold erase_artifact ks w = w\<lparr>ow_artifacts := filter (\<lambda>kx. fst kx \<notin> set ks) (ow_artifacts w)\<rparr>"
  by (induction ks arbitrary: w) (simp_all add: erase_artifact_def delete_object_def conj_commute)

lemma fold_erase_attachment:
  "fold erase_attachment ks w = w\<lparr>ow_attachments := filter (\<lambda>kx. fst kx \<notin> set ks) (ow_attachments w)\<rparr>"
  by (induction ks arbitrary: w) (simp_all add: erase_attachment_def delete_object_def conj_commute)

lemma erased_prefix:
  "filter (\<lambda>kx. fst kx \<notin> set (list_objects b p)) b = filter (\<lambda>kx. \<not> startswith (fst kx) p) b"
  by (rule filter_cong) (auto simp: list_objects_def)

lemma report_Inr:
  "report now tenant status key err w = Inr w' \<longleftrightarrow>
     w' = w\<lparr>ow_requests := map (marked now tenant status key err) (ow_requests w)\<rparr> \<and>
     active_unique (map (marked now tenant status key err) (ow_requests w))"
  by (auto simp: report_def mark_status_def Let_def)

lemma purge_step_Inr:
  "purge_step fks gen now tenant w = Inr w' \<longleftrightarrow>
     (\<exists>db. purge_rows fks (gen (ow_db w)) now (map_option oq_requested_by (latest_request tenant (ow_requests w))) tenant (ow_db w) = Inr db \<and>
        w' = w\<lparr>ow_db := db\<rparr>)"
  by (cases "purge_rows fks (gen (ow_db w)) now (map_option oq_requested_by (latest_request tenant (ow_requests w))) tenant (ow_db w)")
    (auto simp: purge_step_def)

text \<open>What the bundle of a tenant holds of a world.\<close>

definition bundle_of :: "uuid \<Rightarrow> offboarding_world \<Rightarrow> export_bundle \<Rightarrow> bool" where
  "bundle_of tenant w b \<longleftrightarrow>
     (\<forall>n \<in> set (exportable_tables (ow_db w)). (table_member n, Ndjson (map sw_columns (tenant_rows (ow_db w) n tenant))) \<in> set b) \<and>
     (\<forall>k x. map_of (ow_artifacts w) k = Some x \<and> startswith k (artifact_prefix tenant) \<longrightarrow> (ulit ''blobs/artifacts/'' @ k, Blob x) \<in> set b) \<and>
     (\<forall>k x. map_of (ow_attachments w) k = Some x \<and> startswith k (attachment_prefix tenant) \<longrightarrow> (ulit ''blobs/attachments/'' @ k, Blob x) \<in> set b)"

lemma listed: "map_of b k = Some x \<Longrightarrow> startswith k p \<Longrightarrow> k \<in> set (list_objects b p)"
  by (auto simp: list_objects_def dest: map_of_SomeD intro: rev_image_eqI)

lemma build_bundle_of:
  assumes "export_rows (ow_db w) tenant = Inr tables"
    and "\<forall>k \<in> set (list_objects (ow_artifacts w) (artifact_prefix tenant)). \<exists>x. map_of (ow_artifacts w) k = Some x \<and> (k, x) \<in> set as"
    and "\<forall>k \<in> set (list_objects (ow_attachments w) (attachment_prefix tenant)). \<exists>x. map_of (ow_attachments w) k = Some x \<and> (k, x) \<in> set ts"
  shows "bundle_of tenant w (build_bundle tables as ts)"
proof -
  have "(table_member n, Ndjson (map sw_columns (tenant_rows (ow_db w) n tenant))) \<in> set (build_bundle tables as ts)"
    if "n \<in> set (exportable_tables (ow_db w))" for n
    using that export_tables_spec [OF assms(1) [unfolded export_rows_def]] by (auto simp: build_bundle_def)
  moreover have "(ulit ''blobs/artifacts/'' @ k, Blob x) \<in> set (build_bundle tables as ts)"
    if "map_of (ow_artifacts w) k = Some x" "startswith k (artifact_prefix tenant)" for k x
    using assms(2) listed [OF that] that by (force simp: build_bundle_def)
  moreover have "(ulit ''blobs/attachments/'' @ k, Blob x) \<in> set (build_bundle tables as ts)"
    if "map_of (ow_attachments w) k = Some x" "startswith k (attachment_prefix tenant)" for k x
    using assms(3) listed [OF that] that by (force simp: build_bundle_def)
  ultimately show ?thesis unfolding bundle_of_def by blast
qed

lemma export_half_Inr:
  assumes "export_half flt now tenant w = (Inr keys, w')"
  shows "\<exists>b. bundle_of tenant w b \<and> w' = w\<lparr>ow_exports := put_object (export_key_for now tenant) b (ow_exports w)\<rparr> \<and>
     keys = (list_objects (ow_artifacts w) (artifact_prefix tenant), list_objects (ow_attachments w) (attachment_prefix tenant))"
  using assms unfolding export_half_def
  by (auto simp: lane_simps dest!: fetch_all_Inr intro!: build_bundle_of)

lemma forget_memory_Inr:
  assumes "forget_memory flt tenant w = (Inr u, w')"
  shows "w' = w\<lparr>ow_memory_vectors := map_option (forget_points tenant) (ow_memory_vectors w)\<rparr>"
proof (cases "ow_memory_vectors w")
  case None
  then have "w\<lparr>ow_memory_vectors := None\<rparr> = w" by (cases w) simp
  then show ?thesis using None assms by (simp add: forget_memory_def)
next
  case (Some ps) then show ?thesis using assms by (simp add: forget_memory_def lane_simps)
qed

lemma purge_half_Inr:
  assumes "purge_half flt fks gen now tenant keys w = (Inr u, w')"
  defines "mk \<equiv> \<lambda>status. map (marked now tenant status (Some (export_key_for now tenant)) None)"
  shows "\<exists>db. purge_rows fks (gen (ow_db w)) now
        (map_option oq_requested_by (latest_request tenant (mk ''purging'' (mk ''exporting'' (ow_requests w))))) tenant (ow_db w) = Inr db \<and>
     w' = w\<lparr>ow_db := db, ow_requests := mk ''completed'' (mk ''purging'' (mk ''exporting'' (ow_requests w))),
        ow_artifacts := filter (\<lambda>kx. fst kx \<notin> set (fst keys)) (ow_artifacts w),
        ow_attachments := filter (\<lambda>kx. fst kx \<notin> set (snd keys)) (ow_attachments w),
        ow_vectors := delete_by_tenant (ow_vectors w) tenant,
        ow_memory_vectors := map_option (forget_points tenant) (ow_memory_vectors w)\<rparr>"
  using assms(1) unfolding purge_half_def mk_def
  by (auto simp: lane_simps report_Inr purge_step_Inr fold_erase_artifact fold_erase_attachment
      dest!: erase_all_Inr forget_memory_Inr)


subsection \<open>What a completed pass leaves\<close>

text \<open>\<^verbatim>\<open>gen_random_uuid()\<close> gives a key the audit table does not hold.\<close>

definition gen_fresh :: "(tenant_db \<Rightarrow> uuid) \<Rightarrow> bool" where
  "gen_fresh gen \<longleftrightarrow> (\<forall>db. fresh_audit (gen db) db)"

lemma schema_audit: "audit_unreferenced schema_foreign_keys"
  by (simp add: audit_unreferenced_def schema_simps)

definition nothing_left :: "uuid \<Rightarrow> offboarding_world \<Rightarrow> bool" where
  "nothing_left tenant w \<longleftrightarrow>
     list_all (\<lambda>n. tenant_rows (ow_db w) n tenant = []) (purgeable_tables (ow_db w)) \<and>
     list_objects (ow_artifacts w) (artifact_prefix tenant) = [] \<and>
     list_objects (ow_attachments w) (attachment_prefix tenant) = [] \<and>
     list_all (\<lambda>(_, c). ix_tenant_id c \<noteq> tenant) (vi_chunks (ow_vectors w)) \<and>
     (case ow_memory_vectors w of None \<Rightarrow> True | Some ps \<Rightarrow> list_all (\<lambda>p. fst p \<noteq> tenant) ps)"

lemma marked_last:
  "oq_tenant_id (marked now tenant status (Some key) err q) = tenant \<Longrightarrow>
   oq_status (marked now tenant status (Some key) err q) = status \<and> oq_export_key (marked now tenant status (Some key) err q) = Some key"
  by (auto simp: marked_def split: if_splits)

lemma purgeable_shape:
  assumes "map (\<lambda>t. t\<lparr>ct_rows := []\<rparr>) db' = map (\<lambda>t. t\<lparr>ct_rows := []\<rparr>) db"
  shows "set (purgeable_tables db') = set (purgeable_tables db)"
proof -
  define g where "g = (\<lambda>t. t\<lparr>ct_rows := []\<rparr> :: catalog_table)"
  have "set (purgeable_tables (map g x)) = set (purgeable_tables x)" for x
    by (rule purgeable_map) (simp_all add: g_def catalog_columns_def)
  then show ?thesis using assms unfolding g_def [symmetric] by metis
qed

lemma delete_each_shape:
  "delete_each fks tenant ns db = Inr db' \<Longrightarrow> map (\<lambda>t. t\<lparr>ct_rows := []\<rparr>) db' = map (\<lambda>t. t\<lparr>ct_rows := []\<rparr>) db"
proof (induction ns arbitrary: db)
  case (Cons n ns)
  then obtain mid where mid: "delete_tenant_rows fks n tenant db = Inr mid" "delete_each fks tenant ns mid = Inr db'"
    by (auto split: sum.splits)
  show ?case using Cons.IH [OF mid(2)] delete_tenant_rows_cases(1) [OF mid(1)] by (simp add: without_keys_def)
qed simp

lemma purge_rows_shape:
  assumes "purge_rows fks fresh now asked tenant db = Inr db'"
  shows "map (\<lambda>t. t\<lparr>ct_rows := []\<rparr>) db' = map (\<lambda>t. t\<lparr>ct_rows := []\<rparr>) db"
proof -
  define db1 where "db1 = record_purge_audit fresh tenant asked now db"
  have "map (\<lambda>t. t\<lparr>ct_rows := []\<rparr>) db1 = map (\<lambda>t. t\<lparr>ct_rows := []\<rparr>) db"
    using record_audit_cases [of fresh tenant asked now db] by (auto simp: db1_def insert_row_def)
  moreover have "delete_each fks tenant (purge_order db1) db1 = Inr db'" using assms by (simp add: purge_rows_def Let_def db1_def)
  ultimately show ?thesis using delete_each_shape by metis
qed

lemma run_leaves:
  assumes "consistent schema_foreign_keys (ow_db w)" "gen_fresh gen"
    and "run flt schema_foreign_keys gen now tenant w = (Inr (), w')"
  shows "(\<exists>b. map_of (ow_exports w') (export_key_for now tenant) = Some b \<and> bundle_of tenant w b) \<and> nothing_left tenant w' \<and>
     (\<forall>q \<in> set (ow_requests w'). oq_tenant_id q = tenant \<longrightarrow>
        oq_status q = ''completed'' \<and> oq_export_key q = Some (export_key_for now tenant))"
proof -
  from assms(3) obtain keys w1 where halves: "export_half flt now tenant w = (Inr keys, w1)"
    "purge_half flt schema_foreign_keys gen now tenant keys w1 = (Inr (), w')"
    by (auto simp: run_def lane_simps)
  from export_half_Inr [OF halves(1)] obtain b where b: "bundle_of tenant w b"
    "w1 = w\<lparr>ow_exports := put_object (export_key_for now tenant) b (ow_exports w)\<rparr>"
    "keys = (list_objects (ow_artifacts w) (artifact_prefix tenant), list_objects (ow_attachments w) (attachment_prefix tenant))" by blast
  from purge_half_Inr [OF halves(2)] obtain asked db qs where p: "purge_rows schema_foreign_keys (gen (ow_db w)) now asked tenant (ow_db w) = Inr db"
    "w' = w1\<lparr>ow_db := db, ow_requests := map (marked now tenant ''completed'' (Some (export_key_for now tenant)) None) qs,
        ow_artifacts := filter (\<lambda>kx. \<not> startswith (fst kx) (artifact_prefix tenant)) (ow_artifacts w),
        ow_attachments := filter (\<lambda>kx. \<not> startswith (fst kx) (attachment_prefix tenant)) (ow_attachments w),
        ow_vectors := delete_by_tenant (ow_vectors w) tenant,
        ow_memory_vectors := map_option (forget_points tenant) (ow_memory_vectors w)\<rparr>"
    by (auto simp: b(2,3) erased_prefix simp del: map_map)
  have fresh: "fresh_audit (gen (ow_db w)) (ow_db w)" using assms(2) by (simp add: gen_fresh_def)
  have "list_all (\<lambda>n. tenant_rows db n tenant = []) (purgeable_tables db)"
    using purge_rows_spec(1) [OF assms(1) schema_audit fresh p(1)] purgeable_shape [OF purge_rows_shape [OF p(1)]] by (simp add: list_all_iff)
  then have "nothing_left tenant w'"
    by (auto simp: nothing_left_def p(2) list_objects_def filter_empty_conv delete_by_tenant_def list_all_iff forget_points_def split: option.splits)
  moreover have "map_of (ow_exports w') (export_key_for now tenant) = Some b" by (simp add: p(2) b(2) put_object_def update_conv')
  ultimately show ?thesis using b(1) marked_last by (auto simp: p(2))
qed



subsection \<open>Other tenants\<close>

definition spares :: "uuid \<Rightarrow> offboarding_world \<Rightarrow> offboarding_world \<Rightarrow> bool" where
  "spares tenant w w' \<longleftrightarrow>
     consistent schema_foreign_keys (ow_db w') \<and>
     (\<forall>m. filter (\<lambda>r. sw_tenant_id r \<noteq> tenant) (rows_of (ow_db w') m) = filter (\<lambda>r. sw_tenant_id r \<noteq> tenant) (rows_of (ow_db w) m)) \<and>
     filter (\<lambda>q. oq_tenant_id q \<noteq> tenant) (ow_requests w') = filter (\<lambda>q. oq_tenant_id q \<noteq> tenant) (ow_requests w) \<and>
     filter (\<lambda>kx. \<not> startswith (fst kx) (artifact_prefix tenant)) (ow_artifacts w') =
       filter (\<lambda>kx. \<not> startswith (fst kx) (artifact_prefix tenant)) (ow_artifacts w) \<and>
     filter (\<lambda>kx. \<not> startswith (fst kx) (attachment_prefix tenant)) (ow_attachments w') =
       filter (\<lambda>kx. \<not> startswith (fst kx) (attachment_prefix tenant)) (ow_attachments w) \<and>
     filter (\<lambda>kx. \<not> startswith (fst kx) (artifact_prefix tenant)) (ow_exports w') =
       filter (\<lambda>kx. \<not> startswith (fst kx) (artifact_prefix tenant)) (ow_exports w) \<and>
     filter (\<lambda>(_, c). ix_tenant_id c \<noteq> tenant) (vi_chunks (ow_vectors w')) = filter (\<lambda>(_, c). ix_tenant_id c \<noteq> tenant) (vi_chunks (ow_vectors w)) \<and>
     map_option (filter (\<lambda>p. fst p \<noteq> tenant)) (ow_memory_vectors w') = map_option (filter (\<lambda>p. fst p \<noteq> tenant)) (ow_memory_vectors w)"

definition careful :: "uuid \<Rightarrow> 'a lane \<Rightarrow> bool" where
  "careful tenant m \<longleftrightarrow> (\<forall>w. consistent schema_foreign_keys (ow_db w) \<longrightarrow> spares tenant w (snd (m w)))"

lemma spares_refl: "consistent schema_foreign_keys (ow_db w) \<Longrightarrow> spares tenant w w"
  by (simp add: spares_def)

lemma spares_trans: "spares tenant w w1 \<Longrightarrow> spares tenant w1 w2 \<Longrightarrow> spares tenant w w2"
  by (simp add: spares_def del: split_paired_All)

lemma spares_consistent: "spares tenant w w' \<Longrightarrow> consistent schema_foreign_keys (ow_db w')"
  by (simp add: spares_def)

named_theorems careful_intros

lemma careful_bind [careful_intros]: "careful tenant m \<Longrightarrow> (\<And>x. careful tenant (f x)) \<Longrightarrow> careful tenant (lane_bind m f)"
  unfolding careful_def lane_bind_def
  by (auto split: prod.splits sum.splits) (metis spares_consistent spares_trans snd_conv)+

lemma careful_step [careful_intros]: "careful tenant m \<Longrightarrow> careful tenant (step flt s m)"
  by (auto simp: careful_def step_def spares_refl split: option.splits)

lemma careful_reads [careful_intros]: "careful tenant (reads q)"
  by (simp add: careful_def reads_def spares_refl)

lemma careful_writes [careful_intros]:
  "(\<And>w w'. consistent schema_foreign_keys (ow_db w) \<Longrightarrow> q w = Inr w' \<Longrightarrow> spares tenant w w') \<Longrightarrow> careful tenant (writes q)"
  by (auto simp: careful_def writes_def spares_refl split: sum.splits)

lemma careful_fetch [careful_intros]: "careful tenant (fetch_all flt s b ks)"
  by (induction ks) (auto intro!: careful_intros)

lemma filter_marked: "filter (\<lambda>q. oq_tenant_id q \<noteq> tenant) (map (marked now tenant status key err) qs) = filter (\<lambda>q. oq_tenant_id q \<noteq> tenant) qs"
  by (induction qs) (simp_all add: marked_def)

lemma careful_report [careful_intros]: "careful tenant (writes (report now tenant status key err))"
  by (rule careful_writes) (auto simp: report_Inr spares_def filter_marked)

lemma careful_purge [careful_intros]:
  assumes "gen_fresh gen"
  shows "careful tenant (writes (purge_step schema_foreign_keys gen now tenant))"
proof (rule careful_writes)
  fix w w' assume ok: "consistent schema_foreign_keys (ow_db w)" and step: "purge_step schema_foreign_keys gen now tenant w = Inr w'"
  from step obtain asked db where db: "purge_rows schema_foreign_keys (gen (ow_db w)) now asked tenant (ow_db w) = Inr db" "w' = w\<lparr>ow_db := db\<rparr>"
    unfolding purge_step_Inr by blast
  have fresh: "fresh_audit (gen (ow_db w)) (ow_db w)" using assms by (simp add: gen_fresh_def)
  show "spares tenant w w'" using purge_rows_spec(2,3) [OF ok schema_audit fresh db(1)] by (simp add: spares_def db(2) del: split_paired_All)
qed

lemma careful_erase_artifacts: "\<forall>k \<in> set ks. startswith k (artifact_prefix tenant) \<Longrightarrow> careful tenant (erase_all flt s erase_artifact ks)"
proof (induction ks)
  case (Cons k ks)
  have "spares tenant w (erase_artifact k w)" if "consistent schema_foreign_keys (ow_db w)" for w
    using that Cons.prems by (auto simp: spares_def erase_artifact_def delete_object_def intro!: filter_cong)
  then show ?case using Cons by (auto intro!: careful_intros)
qed (auto intro!: careful_intros)

lemma careful_erase_attachments: "\<forall>k \<in> set ks. startswith k (attachment_prefix tenant) \<Longrightarrow> careful tenant (erase_all flt s erase_attachment ks)"
proof (induction ks)
  case (Cons k ks)
  have "spares tenant w (erase_attachment k w)" if "consistent schema_foreign_keys (ow_db w)" for w
    using that Cons.prems by (auto simp: spares_def erase_attachment_def delete_object_def intro!: filter_cong)
  then show ?case using Cons by (auto intro!: careful_intros)
qed (auto intro!: careful_intros)

lemma careful_forget_memory [careful_intros]: "careful tenant (forget_memory flt tenant)"
  by (auto simp: careful_def forget_memory_def step_def writes_def spares_def forget_points_def split: option.splits)

lemma careful_forget_vectors [careful_intros]:
  "careful tenant (writes (\<lambda>w. Inr (w\<lparr>ow_vectors := delete_by_tenant (ow_vectors w) tenant\<rparr>)))"
  by (auto intro!: careful_writes simp: spares_def delete_by_tenant_def case_prod_unfold)

lemma filter_update_out: "\<not> P key \<Longrightarrow> filter (\<lambda>kx. P (fst kx)) (AList.update key x b) = filter (\<lambda>kx. P (fst kx)) b"
  by (induction b) auto

lemma export_key_prefix: "startswith (export_key_for now tenant) (artifact_prefix tenant)"
  by (simp add: export_key_for_def artifact_prefix_def ulit_def startswith_def)

lemma careful_export_half: "careful tenant (export_half flt now tenant)"
  unfolding export_half_def
  by (intro careful_intros)
    (auto simp: spares_def put_object_def filter_update_out [of "\<lambda>k. \<not> startswith k (artifact_prefix tenant)"] export_key_prefix)


lemma careful_purge_half:
  assumes "gen_fresh gen" "\<forall>k \<in> set (fst keys). startswith k (artifact_prefix tenant)" "\<forall>k \<in> set (snd keys). startswith k (attachment_prefix tenant)"
  shows "careful tenant (purge_half flt schema_foreign_keys gen now tenant keys)"
  unfolding purge_half_def
  by (intro careful_bind careful_step careful_report careful_purge careful_forget_vectors careful_forget_memory
      careful_erase_artifacts careful_erase_attachments assms)

lemma run_spares:
  assumes "gen_fresh gen" "consistent schema_foreign_keys (ow_db w)"
  shows "spares tenant w (snd (run flt schema_foreign_keys gen now tenant w))"
proof -
  have first: "spares tenant w (snd (export_half flt now tenant w))" using careful_export_half assms(2) by (auto simp: careful_def)
  obtain r w1 where half: "export_half flt now tenant w = (r, w1)" by fastforce
  show ?thesis
  proof (cases r)
    case (Inl e) then show ?thesis using first half by (simp add: run_def lane_bind_def)
  next
    case (Inr keys)
    have "careful tenant (purge_half flt schema_foreign_keys gen now tenant keys)"
      using export_half_Inr [OF half [unfolded Inr]] by (intro careful_purge_half assms(1)) (auto simp: list_objects_def)
    then have "spares tenant w1 (snd (purge_half flt schema_foreign_keys gen now tenant keys w1))"
      using first half spares_consistent by (auto simp: careful_def)
    then show ?thesis using first half Inr spares_trans by (auto simp: run_def lane_bind_def)
  qed
qed

text \<open>Everything a tenant has in the world.\<close>

definition tenant_view where
  "tenant_view u w =
     ((\<lambda>n. tenant_rows (ow_db w) n u), filter (\<lambda>q. oq_tenant_id q = u) (ow_requests w),
      filter (\<lambda>kx. startswith (fst kx) (artifact_prefix u)) (ow_artifacts w),
      filter (\<lambda>kx. startswith (fst kx) (attachment_prefix u)) (ow_attachments w),
      filter (\<lambda>kx. startswith (fst kx) (artifact_prefix u)) (ow_exports w),
      filter (\<lambda>(_, c). ix_tenant_id c = u) (vi_chunks (ow_vectors w)),
      map_option (filter (\<lambda>p. fst p = u)) (ow_memory_vectors w))"

lemma length_uuid_str: "length (uuid_str u) = 36"
  by (simp add: uuid_str_def Let_def)

lemma prefixes_apart:
  assumes "u < 2 ^ 128" "t < 2 ^ 128" "u \<noteq> t" "startswith k (pre @ ulit (uuid_str u) @ post)"
  shows "\<not> startswith k (pre @ ulit (uuid_str t) @ post)"
proof
  assume "startswith k (pre @ ulit (uuid_str t) @ post)"
  then have "pre @ ulit (uuid_str u) @ post = pre @ ulit (uuid_str t) @ post"
    using assms(4) by (simp add: startswith_def ulit_def length_uuid_str)
  then have "uuid_str u = uuid_str t" using ulit_inj by simp
  then show False using uuid_str_inj assms(1-3) by blast
qed

lemma filter_refine:
  assumes "filter Q xs = filter Q ys" "\<And>x. P x \<Longrightarrow> Q x"
  shows "filter P xs = filter P ys"
proof -
  have "filter P zs = filter P (filter Q zs)" for zs using assms(2) by (auto intro: filter_cong)
  then show ?thesis using assms(1) by metis
qed

lemma spares_rows:
  "spares t w w' \<Longrightarrow> filter (\<lambda>r. sw_tenant_id r \<noteq> t) (rows_of (ow_db w') m) = filter (\<lambda>r. sw_tenant_id r \<noteq> t) (rows_of (ow_db w) m)"
  unfolding spares_def by blast

lemma spares_parts:
  assumes "spares t w w'"
  shows "filter (\<lambda>q. oq_tenant_id q \<noteq> t) (ow_requests w') = filter (\<lambda>q. oq_tenant_id q \<noteq> t) (ow_requests w)"
    and "filter (\<lambda>kx. \<not> startswith (fst kx) (artifact_prefix t)) (ow_artifacts w') =
       filter (\<lambda>kx. \<not> startswith (fst kx) (artifact_prefix t)) (ow_artifacts w)"
    and "filter (\<lambda>kx. \<not> startswith (fst kx) (attachment_prefix t)) (ow_attachments w') =
       filter (\<lambda>kx. \<not> startswith (fst kx) (attachment_prefix t)) (ow_attachments w)"
    and "filter (\<lambda>kx. \<not> startswith (fst kx) (artifact_prefix t)) (ow_exports w') =
       filter (\<lambda>kx. \<not> startswith (fst kx) (artifact_prefix t)) (ow_exports w)"
    and "filter (\<lambda>(_, c). ix_tenant_id c \<noteq> t) (vi_chunks (ow_vectors w')) = filter (\<lambda>(_, c). ix_tenant_id c \<noteq> t) (vi_chunks (ow_vectors w))"
  using assms unfolding spares_def by blast+

lemma spares_view:
  assumes w: "spares t w w'" and ids: "u < 2 ^ 128" "t < 2 ^ 128" "u \<noteq> t"
  shows "tenant_view u w' = tenant_view u w"
proof -
  have art: "startswith k (artifact_prefix u) \<Longrightarrow> \<not> startswith k (artifact_prefix t)" for k
    using prefixes_apart [OF ids, of k "[]" "ulit ''/''"] by (simp add: artifact_prefix_def)
  have att: "startswith k (attachment_prefix u) \<Longrightarrow> \<not> startswith k (attachment_prefix t)" for k
    using prefixes_apart [OF ids, of k "ulit ''feedback/''" "ulit ''/''"] unfolding attachment_prefix_def ulit_append .
  have mem: "map_option (filter (\<lambda>p. fst p = u)) (ow_memory_vectors w') = map_option (filter (\<lambda>p. fst p = u)) (ow_memory_vectors w)"
    using w ids(3) by (cases "ow_memory_vectors w"; cases "ow_memory_vectors w'")
      (auto simp: spares_def intro: filter_refine [where Q = "\<lambda>p. fst p \<noteq> t"])
  have rows: "tenant_rows (ow_db w') n u = tenant_rows (ow_db w) n u" for n
    unfolding tenant_rows_def using spares_rows [OF w] by (rule filter_refine) (use ids(3) in simp)
  have reqs: "filter (\<lambda>q. oq_tenant_id q = u) (ow_requests w') = filter (\<lambda>q. oq_tenant_id q = u) (ow_requests w)"
    using spares_parts(1) [OF w] by (rule filter_refine) (use ids(3) in simp)
  have vecs: "filter (\<lambda>(_, c). ix_tenant_id c = u) (vi_chunks (ow_vectors w')) = filter (\<lambda>(_, c). ix_tenant_id c = u) (vi_chunks (ow_vectors w))"
    using spares_parts(5) [OF w] by (rule filter_refine) (use ids(3) in auto)
  show ?thesis unfolding tenant_view_def rows reqs vecs mem
    using filter_refine [OF spares_parts(2) [OF w], of "\<lambda>kx. startswith (fst kx) (artifact_prefix u)", OF art]
      filter_refine [OF spares_parts(3) [OF w], of "\<lambda>kx. startswith (fst kx) (attachment_prefix u)", OF att]
      filter_refine [OF spares_parts(4) [OF w], of "\<lambda>kx. startswith (fst kx) (artifact_prefix u)", OF art]
    by simp
qed

lemma run_view:
  assumes "gen_fresh gen" "consistent schema_foreign_keys (ow_db w)" "u < 2 ^ 128" "t < 2 ^ 128" "u \<noteq> t"
  shows "tenant_view u (snd (run flt schema_foreign_keys gen now t w)) = tenant_view u w"
  by (rule spares_view [OF run_spares [OF assms(1,2)] assms(3-5)])

lemma offboard_one_spares:
  assumes "gen_fresh gen" "consistent schema_foreign_keys (ow_db w)"
  shows "spares t w (offboard_one exc_str flt schema_foreign_keys gen now t w)"
proof -
  obtain r w1 where out: "run (flt t) schema_foreign_keys gen now t w = (r, w1)" by fastforce
  have first: "spares t w w1" using run_spares [OF assms, of t "flt t" now] out by simp
  show ?thesis
  proof (cases r)
    case (Inr x) then show ?thesis using first out by (simp add: offboard_one_def)
  next
    case (Inl e)
    have "spares t w1 w2" if "report now t ''failed'' None (Some (failure_text exc_str e)) w1 = Inr w2" for w2
      using that careful_report [of t now "''failed''" None "Some (failure_text exc_str e)"] spares_consistent [OF first]
      by (auto simp: careful_def writes_def dest: spec [where x = w1])
    then show ?thesis using first out Inl spares_trans by (auto simp: offboard_one_def split: sum.splits)
  qed
qed

lemma consumed_view:
  assumes "gen_fresh gen" "consistent schema_foreign_keys (ow_db w)" "u < 2 ^ 128" "\<forall>t \<in> set ts. t < 2 ^ 128 \<and> t \<noteq> u"
  shows "tenant_view u (fold (offboard_one exc_str flt schema_foreign_keys gen now) ts w) = tenant_view u w \<and>
     consistent schema_foreign_keys (ow_db (fold (offboard_one exc_str flt schema_foreign_keys gen now) ts w))"
  using assms(2,4)
proof (induction ts arbitrary: w)
  case (Cons t ts)
  note sp = offboard_one_spares [OF assms(1) Cons.prems(1), of t exc_str flt now]
  show ?case using Cons.IH [OF spares_consistent [OF sp]] spares_view [OF sp assms(3)] Cons.prems(2) by auto
qed simp

text \<open>
  C15: A tick of the offboarding lane leaves every tenant it has not claimed exactly as it was, whichever port
  fails at whichever step for the tenants it did claim: no row, request, artifact, attachment, export or
  vector of theirs is changed.
\<close>

theorem tick_spares_unclaimed:
  assumes "gen_fresh gen" "consistent schema_foreign_keys (ow_db w)" "u < 2 ^ 128"
    and "\<forall>q \<in> set (ow_requests w). oq_tenant_id q < 2 ^ 128"
    and "u \<notin> set (fst (claim_requested now (ow_requests w)))"
  shows "tenant_view u (consume_offboarding exc_str flt schema_foreign_keys gen now w) = tenant_view u w"
proof -
  obtain ts qs where claim: "claim_requested now (ow_requests w) = (ts, qs)" by fastforce
  define w1 where "w1 = w\<lparr>ow_requests := qs\<rparr>"
  have "filter (\<lambda>q. oq_tenant_id q = u) (map (\<lambda>q. if claimable_request now q then q\<lparr>oq_status := ''exporting'', oq_updated_at := now\<rparr> else q) xs) =
      filter (\<lambda>q. oq_tenant_id q = u) xs" if "u \<notin> oq_tenant_id ` set (filter (claimable_request now) xs)" for xs
    using that by (induction xs) (auto split: if_splits)
  then have "tenant_view u w1 = tenant_view u w"
    using claim assms(5) by (auto simp: tenant_view_def w1_def claim_requested_def)
  moreover have "\<forall>t \<in> set ts. t < 2 ^ 128 \<and> t \<noteq> u" using claim assms(4,5) by (auto simp: claim_requested_def)
  then have "tenant_view u (fold (offboard_one exc_str flt schema_foreign_keys gen now) ts w1) = tenant_view u w1"
    using consumed_view [OF assms(1) _ assms(3), of w1 ts] assms(2) by (simp add: w1_def)
  ultimately show ?thesis by (simp add: consume_offboarding_def claim w1_def)
qed

subsection \<open>When a pass completes, and when it never can\<close>

lemma distinct_by_counts: "distinct (map f xs) \<longleftrightarrow> (\<forall>k. length (filter (\<lambda>x. f x = k) xs) \<le> 1)"
proof (induction xs)
  case (Cons x xs)
  have new: "f x \<notin> f ` set xs \<longleftrightarrow> filter (\<lambda>y. f y = f x) xs = []" by (force simp: filter_empty_conv image_iff)
  show ?case
  proof
    assume "distinct (map f (x # xs))"
    then show "\<forall>k. length (filter (\<lambda>y. f y = k) (x # xs)) \<le> 1" using Cons.IH new by (auto simp: eq_commute)
  next
    assume count: "\<forall>k. length (filter (\<lambda>y. f y = k) (x # xs)) \<le> 1"
    have "length (filter (\<lambda>y. f y = k) xs) \<le> length (filter (\<lambda>y. f y = k) (x # xs))" for k by simp
    then have "\<forall>k. length (filter (\<lambda>y. f y = k) xs) \<le> 1" using count le_trans by blast
    moreover have "filter (\<lambda>y. f y = f x) xs = []" using count [rule_format, of "f x"] by simp
    ultimately show "distinct (map f (x # xs))" using Cons.IH new by simp
  qed
qed simp

lemma active_unique_counts: "active_unique qs \<longleftrightarrow> (\<forall>t. length (filter (\<lambda>q. active_request q \<and> oq_tenant_id q = t) qs) \<le> 1)"
  unfolding active_unique_def distinct_by_counts by (simp add: conj_commute)


definition requests_of :: "uuid \<Rightarrow> offboarding_request list \<Rightarrow> nat" where
  "requests_of tenant qs = length (filter (\<lambda>q. oq_tenant_id q = tenant) qs)"

lemma marked_tenant [simp]: "oq_tenant_id (marked now tenant status key err q) = oq_tenant_id q"
  by (simp add: marked_def)

lemma requests_of_marked [simp]: "requests_of u (map (marked now tenant status key err) qs) = requests_of u qs"
  by (simp add: requests_of_def filter_map comp_def)

lemma marked_unique:
  assumes "active_unique qs" "requests_of tenant qs \<le> 1 \<or> status \<in> {''completed'', ''failed''}"
  shows "active_unique (map (marked now tenant status key err) qs)"
  unfolding active_unique_counts
proof
  fix t
  let ?m = "map (marked now tenant status key err) qs"
  show "length (filter (\<lambda>q. active_request q \<and> oq_tenant_id q = t) ?m) \<le> 1"
  proof (cases "t = tenant")
    case True
    show ?thesis
    proof (cases "status \<in> {''completed'', ''failed''}")
      case ended: True
      have "filter (\<lambda>q. active_request q \<and> oq_tenant_id q = t) ?m = []"
        using ended True by (induction qs) (auto simp: active_request_def marked_def)
      then show ?thesis by simp
    next
      case False
      have "length (filter (\<lambda>q. active_request q \<and> oq_tenant_id q = t) ?m) \<le> requests_of t ?m"
        unfolding requests_of_def by (induction qs) auto
      then show ?thesis using False assms(2) True by simp
    qed
  next
    case False
    have "filter (\<lambda>q. active_request q \<and> oq_tenant_id q = t) ?m = filter (\<lambda>q. active_request q \<and> oq_tenant_id q = t) qs"
      using False by (induction qs) (auto simp: marked_def)
    then show ?thesis using assms(1) by (simp add: active_unique_counts)
  qed
qed

lemma marked_clash:
  assumes "2 \<le> requests_of tenant qs" "status \<notin> {''completed'', ''failed''}"
  shows "\<not> active_unique (map (marked now tenant status key err) qs)"
proof -
  have "filter (\<lambda>q. active_request q \<and> oq_tenant_id q = tenant) (map (marked now tenant status key err) qs) =
      map (marked now tenant status key err) (filter (\<lambda>q. oq_tenant_id q = tenant) qs)"
    using assms(2) by (induction qs) (auto simp: active_request_def marked_def)
  then have "\<not> length (filter (\<lambda>q. active_request q \<and> oq_tenant_id q = tenant) (map (marked now tenant status key err) qs)) \<le> 1"
    using assms(1) by (simp add: requests_of_def)
  then show ?thesis unfolding active_unique_counts by blast
qed

lemma export_half_succeeds:
  assumes "catalog_sound (ow_db w)"
  shows "\<exists>keys w'. export_half (\<lambda>_. None) now tenant w = (Inr keys, w')"
proof -
  from export_tables_succeeds [of "exportable_tables (ow_db w)"] assms obtain tables where t: "export_rows (ow_db w) tenant = Inr tables"
    unfolding catalog_sound_def export_rows_def list_all_iff by blast
  have held: "\<forall>k \<in> set (list_objects b p). map_of b k \<noteq> None" for b :: "nat list bucket" and p
    by (auto simp: list_objects_def map_of_eq_None_iff)
  from fetch_all_succeeds [of "\<lambda>_. None" GetArtifact, OF _ held] obtain as where
    a: "fetch_all (\<lambda>_. None) GetArtifact ow_artifacts (list_objects (ow_artifacts w) (artifact_prefix tenant)) w = (Inr as, w)" by blast
  from fetch_all_succeeds [of "\<lambda>_. None" GetAttachment, OF _ held] obtain ts where
    ts: "fetch_all (\<lambda>_. None) GetAttachment ow_attachments (list_objects (ow_attachments w) (attachment_prefix tenant)) w = (Inr ts, w)" by blast
  show ?thesis by (simp add: export_half_def lane_bind_def step_def reads_def writes_def t a ts)
qed


lemma purge_half_succeeds:
  assumes ok: "consistent schema_foreign_keys (ow_db w)" "gen_fresh gen" "catalog_sound (ow_db w)"
    and one: "active_unique (ow_requests w)" "requests_of tenant (ow_requests w) \<le> 1"
  shows "\<exists>w'. purge_half (\<lambda>_. None) schema_foreign_keys gen now tenant keys w = (Inr (), w')"
proof -
  have fresh: "fresh_audit (gen (ow_db w)) (ow_db w)" using ok(2) by (simp add: gen_fresh_def)
  define mk where "mk = (\<lambda>status. map (marked now tenant status (Some (export_key_for now tenant)) None))"
  have e: "active_unique (mk ''exporting'' (ow_requests w))" unfolding mk_def using one by (intro marked_unique) simp_all
  have p: "active_unique (mk ''purging'' (mk ''exporting'' (ow_requests w)))"
    unfolding mk_def by (rule marked_unique [OF e [unfolded mk_def]]) (use one(2) in simp)
  have c: "active_unique (mk ''completed'' (mk ''purging'' (mk ''exporting'' (ow_requests w))))"
    unfolding mk_def by (rule marked_unique [OF p [unfolded mk_def]]) simp
  from purge_rows_succeeds [OF ok(1) fresh ok(3)] obtain db where
    db: "purge_rows schema_foreign_keys (gen (ow_db w)) now
       (map_option oq_requested_by (latest_request tenant (mk ''purging'' (mk ''exporting'' (ow_requests w))))) tenant (ow_db w) = Inr db" by blast
  show ?thesis
    using e p c db unfolding mk_def
    by (simp add: purge_half_def lane_bind_def step_def writes_def report_def mark_status_def purge_step_def erase_all_succeeds
        fold_erase_artifact fold_erase_attachment forget_memory_def Let_def split: option.splits del: map_map)
qed

lemma run_succeeds:
  assumes "consistent schema_foreign_keys (ow_db w)" "gen_fresh gen" "catalog_sound (ow_db w)"
    and "active_unique (ow_requests w)" "requests_of tenant (ow_requests w) \<le> 1"
  shows "\<exists>w'. run (\<lambda>_. None) schema_foreign_keys gen now tenant w = (Inr (), w')"
proof -
  from export_half_succeeds [OF assms(3)] obtain keys w1 where half: "export_half (\<lambda>_. None) now tenant w = (Inr keys, w1)" by blast
  then have "ow_db w1 = ow_db w" "ow_requests w1 = ow_requests w" using export_half_Inr [OF half] by auto
  then have "\<exists>w'. purge_half (\<lambda>_. None) schema_foreign_keys gen now tenant keys w1 = (Inr (), w')"
    using assms by (intro purge_half_succeeds) simp_all
  then show ?thesis using half by (auto simp: run_def lane_bind_def)
qed

text \<open>
  With the migrated schema and no failing port, the pass for a tenant with one request always completes:
  the order in which the tables are purged never runs into a foreign key that restricts, and every report
  is accepted by the index.
\<close>

theorem run_completes:
  assumes "consistent schema_foreign_keys (ow_db w)" "gen_fresh gen" "catalog_sound (ow_db w)"
    and "active_unique (ow_requests w)" "requests_of tenant (ow_requests w) \<le> 1"
  shows "\<exists>w'. run (\<lambda>_. None) schema_foreign_keys gen now tenant w = (Inr (), w')"
  by (rule run_succeeds [OF assms])

text \<open>A tenant with two request rows: the first report clashes, so nothing is purged.\<close>

lemma fetch_all_keeps: "snd (fetch_all flt s b ks w) = w"
  by (induction ks) (auto simp: lane_bind_def step_def reads_def split: prod.splits sum.splits option.splits)

lemma export_half_keeps:
  "ow_db (snd (export_half flt now tenant w)) = ow_db w \<and> ow_requests (snd (export_half flt now tenant w)) = ow_requests w"
  unfolding export_half_def lane_bind_def step_def reads_def writes_def
  using fetch_all_keeps [of flt GetArtifact ow_artifacts "list_objects (ow_artifacts w) (artifact_prefix tenant)" w]
    fetch_all_keeps [of flt GetAttachment ow_attachments "list_objects (ow_attachments w) (attachment_prefix tenant)" w]
  by (auto split: prod.splits sum.splits option.splits)

lemma run_blocked:
  assumes "2 \<le> requests_of tenant (ow_requests w)"
  shows "\<exists>e. fst (run flt fks gen now tenant w) = Inl e" "ow_db (snd (run flt fks gen now tenant w)) = ow_db w"
    "ow_requests (snd (run flt fks gen now tenant w)) = ow_requests w"
proof -
  obtain r w1 where half: "export_half flt now tenant w = (r, w1)" by fastforce
  have same: "ow_db w1 = ow_db w" "ow_requests w1 = ow_requests w" using export_half_keeps [of flt now tenant w] half by simp_all
  have "\<exists>e. report now tenant ''exporting'' key None w1 = Inl e" for key
    using marked_clash [OF assms, of "''exporting''"] by (simp add: report_def mark_status_def Let_def same)
  then have "\<exists>e. step flt MarkExporting (writes (report now tenant ''exporting'' (Some (export_key_for now tenant)) None)) w1 = (Inl e, w1)"
    by (auto simp: step_def writes_def split: option.splits sum.splits) (metis sum.distinct(1))
  then have "\<exists>e. purge_half flt fks gen now tenant keys w1 = (Inl e, w1)" for keys
    unfolding purge_half_def lane_bind_def by auto
  then have "\<exists>e. run flt fks gen now tenant w = (Inl e, w1)"
    using half by (cases r) (auto simp: run_def lane_bind_def)
  then show "\<exists>e. fst (run flt fks gen now tenant w) = Inl e" "ow_db (snd (run flt fks gen now tenant w)) = ow_db w"
    "ow_requests (snd (run flt fks gen now tenant w)) = ow_requests w" using same by auto
qed


lemma offboard_one_blocked:
  assumes "2 \<le> requests_of tenant (ow_requests w)"
  shows "ow_db (offboard_one exc_str flt fks gen now tenant w) = ow_db w \<and>
     requests_of u (ow_requests (offboard_one exc_str flt fks gen now tenant w)) = requests_of u (ow_requests w)"
proof -
  obtain e w1 where out: "run (flt tenant) fks gen now tenant w = (Inl e, w1)" using run_blocked(1) [OF assms] by (metis prod.collapse)
  then have "ow_db w1 = ow_db w" "ow_requests w1 = ow_requests w" using run_blocked(2,3) [OF assms, of "flt tenant" fks gen now] by simp_all
  then show ?thesis by (auto simp: offboard_one_def out report_Inr split: sum.splits)
qed

lemma view_parts:
  assumes "tenant_view u w' = tenant_view u w"
  shows "tenant_rows (ow_db w') n u = tenant_rows (ow_db w) n u" "requests_of u (ow_requests w') = requests_of u (ow_requests w)"
proof -
  have rows: "fst (tenant_view u x) n = tenant_rows (ow_db x) n u" for x by (simp add: tenant_view_def)
  have reqs: "length (fst (snd (tenant_view u x))) = requests_of u (ow_requests x)" for x by (simp add: tenant_view_def requests_of_def)
  show "tenant_rows (ow_db w') n u = tenant_rows (ow_db w) n u" by (simp only: rows [symmetric] assms)
  show "requests_of u (ow_requests w') = requests_of u (ow_requests w)" by (simp only: reqs [symmetric] assms)
qed

text \<open>What stays true of a tenant with two requests while others are served.\<close>

definition known_ids :: "offboarding_world \<Rightarrow> bool" where
  "known_ids w \<longleftrightarrow> (\<forall>q \<in> set (ow_requests w). oq_tenant_id q < 2 ^ 128)"

definition stuck :: "uuid \<Rightarrow> (table_name \<Rightarrow> stored_row list) \<Rightarrow> offboarding_world \<Rightarrow> bool" where
  "stuck u rows w \<longleftrightarrow>
     consistent schema_foreign_keys (ow_db w) \<and> known_ids w \<and> 2 \<le> requests_of u (ow_requests w) \<and> (\<forall>n. tenant_rows (ow_db w) n u = rows n)"

lemma known_ids_spares: "spares t w w' \<Longrightarrow> t < 2 ^ 128 \<Longrightarrow> known_ids w \<Longrightarrow> known_ids w'"
proof -
  assume w: "spares t w w'" and t: "t < 2 ^ 128" and ids: "known_ids w"
  have "q \<in> set (ow_requests w)" if "q \<in> set (ow_requests w')" "oq_tenant_id q \<noteq> t" for q
    using that arg_cong [OF spares_parts(1) [OF w], of set] by auto
  then show "known_ids w'" using t ids unfolding known_ids_def by blast
qed

lemma stuck_one:
  assumes gen: "gen_fresh gen" and ids: "u < 2 ^ 128" "t < 2 ^ 128" and w: "stuck u rows w"
  shows "stuck u rows (offboard_one exc_str flt schema_foreign_keys gen now t w)"
proof -
  have ok: "consistent schema_foreign_keys (ow_db w)" "known_ids w" using w by (simp_all add: stuck_def)
  note sp = offboard_one_spares [OF gen ok(1), of t exc_str flt now]
  have kept: "requests_of u (ow_requests (offboard_one exc_str flt schema_foreign_keys gen now t w)) = requests_of u (ow_requests w) \<and>
      (\<forall>n. tenant_rows (ow_db (offboard_one exc_str flt schema_foreign_keys gen now t w)) n u = tenant_rows (ow_db w) n u)"
  proof (cases "t = u")
    case True
    then show ?thesis using w offboard_one_blocked [of u w exc_str flt schema_foreign_keys gen now u] unfolding stuck_def by simp
  next
    case False
    have "tenant_view u (offboard_one exc_str flt schema_foreign_keys gen now t w) = tenant_view u w"
      using spares_view [OF sp ids] False by blast
    then show ?thesis using view_parts by metis
  qed
  show ?thesis using w kept spares_consistent [OF sp] known_ids_spares [OF sp ids(2) ok(2)] unfolding stuck_def by metis
qed

lemma stuck_fold:
  assumes "gen_fresh gen" "u < 2 ^ 128" "\<forall>t \<in> set ts. t < 2 ^ 128" "stuck u rows w"
  shows "stuck u rows (fold (offboard_one exc_str flt schema_foreign_keys gen now) ts w)"
  using assms(3,4)
proof (induction ts arbitrary: w)
  case (Cons t ts)
  then have "stuck u rows (offboard_one exc_str flt schema_foreign_keys gen now t w)" by (intro stuck_one [OF assms(1,2)]) simp_all
  then show ?case using Cons by simp
qed simp

lemma stuck_tick:
  assumes "gen_fresh gen" "u < 2 ^ 128" "stuck u rows w"
  shows "stuck u rows (consume_offboarding exc_str flt schema_foreign_keys gen now w)"
proof -
  obtain ts qs where claim: "claim_requested now (ow_requests w) = (ts, qs)" by fastforce
  have ids: "map oq_tenant_id qs = map oq_tenant_id (ow_requests w)" "set ts \<subseteq> oq_tenant_id ` set (ow_requests w)"
    using claim by (auto simp: claim_requested_def)
  have count: "requests_of u xs = length (filter (\<lambda>t. t = u) (map oq_tenant_id xs))" for xs
    by (simp add: requests_of_def filter_map comp_def)
  have known: "known_ids w" using assms(3) by (simp add: stuck_def)
  have "oq_tenant_id ` set qs = oq_tenant_id ` set (ow_requests w)" using arg_cong [OF ids(1), of set] by simp
  then have "oq_tenant_id q \<in> oq_tenant_id ` set (ow_requests w)" if "q \<in> set qs" for q using that by blast
  then have "known_ids (w\<lparr>ow_requests := qs\<rparr>)" using known unfolding known_ids_def by fastforce
  then have "stuck u rows (w\<lparr>ow_requests := qs\<rparr>)" using assms(3) ids(1) by (simp add: stuck_def count)
  moreover have "\<forall>t \<in> set ts. t < 2 ^ 128" using ids(2) known unfolding known_ids_def by blast
  ultimately show ?thesis using stuck_fold [OF assms(1,2)] by (simp add: consume_offboarding_def claim)
qed

text \<open>A tenant with two request rows is never purged, whatever ticks follow.\<close>

lemma second_request_never_purges:
  assumes "gen_fresh gen" "u < 2 ^ 128" "consistent schema_foreign_keys (ow_db w)" "known_ids w" "2 \<le> requests_of u (ow_requests w)"
  shows "tenant_rows (ow_db (fold (\<lambda>(now, flt). consume_offboarding exc_str flt schema_foreign_keys gen now) polls w)) n u = tenant_rows (ow_db w) n u"
proof -
  have "stuck u (\<lambda>n. tenant_rows (ow_db w) n u) w" using assms(3-5) by (simp add: stuck_def)
  then have "stuck u (\<lambda>n. tenant_rows (ow_db w) n u) (fold (\<lambda>(now, flt). consume_offboarding exc_str flt schema_foreign_keys gen now) polls w)"
    by (induction polls rule: rev_induct) (auto intro: stuck_tick [OF assms(1,2)])
  then show ?thesis unfolding stuck_def by metis
qed

lemma exportable_shape:
  assumes "map (\<lambda>t. t\<lparr>ct_rows := []\<rparr>) db' = map (\<lambda>t. t\<lparr>ct_rows := []\<rparr>) db"
  shows "set (exportable_tables db') = set (exportable_tables db)"
proof -
  define g where "g = (\<lambda>t. t\<lparr>ct_rows := []\<rparr> :: catalog_table)"
  have image: "set (exportable_tables x) = ct_name ` set (filter catalog_columns x) - NEVER_PURGE" for x
    by (auto simp: exportable_tables_def order_by_name_def)
  have "set (exportable_tables (map g x)) = set (exportable_tables x)" for x
    unfolding image filter_map set_map image_image by (simp add: g_def catalog_columns_def comp_def)
  then show ?thesis using assms unfolding g_def [symmetric] by metis
qed

text \<open>
  A pass that starts over after an earlier pass had purged archives nothing: the bundle under the key
  the request ends up with has an empty member for every purgeable table. The module says every step is
  safe to run again from the top, uploading over the same key; the key carries the time of the pass.
\<close>

theorem rerun_archives_nothing:
  assumes "consistent schema_foreign_keys (ow_db w)" "gen_fresh gen"
    and "purge_step schema_foreign_keys gen earlier tenant w = Inr w1"
    and "run flt schema_foreign_keys gen now tenant w1 = (Inr (), w')"
  shows "\<exists>b. map_of (ow_exports w') (export_key_for now tenant) = Some b \<and>
     (\<forall>q \<in> set (ow_requests w'). oq_tenant_id q = tenant \<longrightarrow> oq_export_key q = Some (export_key_for now tenant)) \<and>
     (\<forall>n \<in> set (purgeable_tables (ow_db w)). (table_member n, Ndjson []) \<in> set b)"
proof -
  from assms(3) obtain asked db where db: "purge_rows schema_foreign_keys (gen (ow_db w)) earlier asked tenant (ow_db w) = Inr db" "w1 = w\<lparr>ow_db := db\<rparr>"
    unfolding purge_step_Inr by blast
  have fresh: "fresh_audit (gen (ow_db w)) (ow_db w)" using assms(2) by (simp add: gen_fresh_def)
  note gone = purge_rows_spec [OF assms(1) schema_audit fresh db(1)]
  have ok: "consistent schema_foreign_keys (ow_db w1)" using gone(3) by (simp add: db(2))
  from run_leaves [OF ok assms(2,4)] obtain b where b: "map_of (ow_exports w') (export_key_for now tenant) = Some b" "bundle_of tenant w1 b"
    "\<forall>q \<in> set (ow_requests w'). oq_tenant_id q = tenant \<longrightarrow> oq_export_key q = Some (export_key_for now tenant)" by blast
  have "(table_member n, Ndjson []) \<in> set b" if "n \<in> set (purgeable_tables (ow_db w))" for n
  proof -
    have "n \<in> set (exportable_tables (ow_db w1))"
      using purgeable_exportable [OF that] exportable_shape [OF purge_rows_shape [OF db(1)]] by (simp add: db(2))
    moreover have "tenant_rows (ow_db w1) n tenant = []" using gone(1) that by (simp add: db(2))
    ultimately show ?thesis using b(2) unfolding bundle_of_def by fastforce
  qed
  then show ?thesis using b(1,3) by blast
qed


text \<open>
  A purge takes the support grants of the tenant with it, although \<^verbatim>\<open>dw_app\<close> may not delete from that
  table: they go with their workspaces by the cascade of their foreign key. The migration that revoked
  the privilege says offboarding keeps grants with the audit log.
\<close>

theorem purge_takes_support_grants:
  assumes "consistent schema_foreign_keys db" "fresh_audit fresh db" "(''platform'', ''workspaces'') \<in> set (purgeable_tables db)"
    and "purge_rows schema_foreign_keys fresh now asked tenant db = Inr db'"
  shows "tenant_rows db' (''platform'', ''support_grants'') tenant = []"
proof -
  note spec = purge_rows_spec [OF assms(1) schema_audit assms(2,4)]
  define f where "f = fkey (''platform'', ''support_grants'') (''platform'', ''workspaces'') CASCADE False"
  have f: "f \<in> set schema_foreign_keys" "\<not> fk_nullable f" "fk_child f = (''platform'', ''support_grants'')" "fk_parent f = (''platform'', ''workspaces'')"
    by (simp_all add: f_def schema_simps)
  show ?thesis using parent_gone [OF spec(3) f(1,2), of tenant] spec(1) assms(3) by (simp add: f(3,4))
qed

subsection \<open>A tenant being offboarded\<close>

text \<open>
  The tables the purge order names, a workspace and the audit log; tenant 1 has a document with a chunk that
  evidence and a memory rest on, a run that made the memory, an artifact, an attachment and vectors.
\<close>

definition sample_table :: "string \<Rightarrow> string \<Rightarrow> bool \<Rightarrow> stored_row list \<Rightarrow> catalog_table" where
  "sample_table sch tab del rows =
     \<lparr>ct_schema = sch, ct_table = tab, ct_policies = [''tenant_isolation_'' @ tab], ct_columns = [''tenant_id''],
      ct_select = True, ct_delete = del, ct_rows = rows\<rparr>"

definition sample_row :: "uuid \<Rightarrow> (table_name \<times> uuid) list \<Rightarrow> stored_row" where
  "sample_row i refs = \<lparr>sw_id = i, sw_tenant_id = 1, sw_refs = refs, sw_columns = [(''id'', JUuid i), (''tenant_id'', JUuid 1)]\<rparr>"

definition sample_db :: tenant_db where
  "sample_db =
     [sample_table ''memory'' ''items'' True [sample_row 10 [((''platform'', ''worker_runs''), 20)]],
      sample_table ''memory'' ''item_evidence'' True [sample_row 11 [((''memory'', ''items''), 10), ((''knowledge'', ''evidence''), 12)]],
      sample_table ''knowledge'' ''evidence'' True [sample_row 12 [((''knowledge'', ''documents''), 14), ((''knowledge'', ''chunks''), 13)]],
      sample_table ''knowledge'' ''chunks'' True [sample_row 13 [((''knowledge'', ''documents''), 14)]],
      sample_table ''knowledge'' ''documents'' True [sample_row 14 []],
      sample_table ''platform'' ''worker_runs'' True [sample_row 20 []],
      sample_table ''platform'' ''workspaces'' True [sample_row 21 []],
      sample_table ''platform'' ''support_grants'' False [sample_row 22 [((''platform'', ''workspaces''), 21)]],
      sample_table ''platform'' ''audit_events'' False []]"

definition sample_request :: "uuid \<Rightarrow> string \<Rightarrow> offboarding_request" where
  "sample_request i status =
     \<lparr>oq_id = i, oq_tenant_id = 1, oq_status = status, oq_requested_by = 9, oq_requested_at = 0, oq_export_key = None, oq_error = None, oq_updated_at = 0\<rparr>"

definition sample_world :: "offboarding_request list \<Rightarrow> offboarding_world" where
  "sample_world qs =
     \<lparr>ow_db = sample_db, ow_requests = qs, ow_artifacts = [(artifact_prefix 1 @ ulit ''a'', [1])],
      ow_attachments = [(attachment_prefix 1 @ ulit ''b'', [2])], ow_exports = [],
      ow_vectors = \<lparr>vi_chunks = [], vi_tombstoned = {}\<rparr>, ow_memory_vectors = Some [(1, 10)]\<rparr>"

definition sample_gen :: "tenant_db \<Rightarrow> uuid" where
  "sample_gen db = Suc (sum_list (map sw_id (rows_of db (''platform'', ''audit_events''))))"

lemma sample_gen_fresh: "gen_fresh sample_gen"
  unfolding gen_fresh_def fresh_audit_def sample_gen_def
proof (intro allI notI)
  fix db assume "Suc (sum_list (map sw_id (rows_of db (''platform'', ''audit_events'')))) \<in> set (map sw_id (rows_of db (''platform'', ''audit_events'')))"
  then have "Suc (sum_list (map sw_id (rows_of db (''platform'', ''audit_events'')))) \<le> sum_list (map sw_id (rows_of db (''platform'', ''audit_events'')))"
    by (rule member_le_sum_list) simp
  then show False by simp
qed

lemmas sample_simps = sample_db_def sample_table_def sample_row_def sample_request_def sample_world_def

lemma sample_consistent: "consistent schema_foreign_keys (ow_db (sample_world qs))"
  by (simp add: consistent_def schema_simps sample_simps ct_name_def rows_of_def reference_kept_def)

lemma catalog_sound_tables:
  assumes "\<forall>n \<in> set ORDERED_FIRST. n \<notin> NEVER_PURGE \<and> (\<exists>t \<in> set db. ct_name t = n \<and> catalog_columns t \<and> ct_delete t)"
    and "\<forall>t \<in> set db. safe_identifier (ct_schema t) \<and> safe_identifier (ct_table t)"
  shows "catalog_sound db"
  using assms unfolding catalog_sound_def list_all_iff Ball_def purgeable_iff exportable_iff by (auto simp: ct_name_def)

lemma sample_catalog: "catalog_sound (ow_db (sample_world qs))"
  by (rule catalog_sound_tables)
    (simp_all add: sample_simps ORDERED_FIRST_def ct_name_def NEVER_PURGE_def catalog_columns_def tenant_isolation_policy_def
      safe_identifier_def lower_or_underscore_def)

lemma catalog_sound_shape:
  assumes "map (\<lambda>t. t\<lparr>ct_rows := []\<rparr>) db' = map (\<lambda>t. t\<lparr>ct_rows := []\<rparr>) db" "catalog_sound db"
  shows "catalog_sound db'"
  using assms(2) unfolding catalog_sound_def list_all_iff purgeable_shape [OF assms(1)] exportable_shape [OF assms(1)] .

lemma sample_unique: "active_unique [sample_request i status]" "requests_of 1 [sample_request i status] \<le> 1"
  by (simp_all add: active_unique_def requests_of_def)


theorem run_completes_witness:
  "\<exists>w'. run (\<lambda>_. None) schema_foreign_keys sample_gen 0 1 (sample_world [sample_request 1 ''exporting'']) = (Inr (), w')"
  by (rule run_completes [OF sample_consistent sample_gen_fresh sample_catalog]) (simp_all add: sample_world_def sample_unique [simplified])

theorem tick_spares_unclaimed_witness:
  "tenant_view 2 (consume_offboarding (\<lambda>_. []) (\<lambda>_ _. None) schema_foreign_keys sample_gen 0 (sample_world [sample_request 1 ''requested''])) =
   tenant_view 2 (sample_world [sample_request 1 ''requested''])"
  by (rule tick_spares_unclaimed [OF sample_gen_fresh sample_consistent])
    (simp_all add: sample_world_def sample_request_def claim_requested_def)

theorem rerun_archives_nothing_witness:
  "\<exists>w1 w' b. purge_step schema_foreign_keys sample_gen 0 1 (sample_world [sample_request 1 ''purging'']) = Inr w1 \<and>
     run (\<lambda>_. None) schema_foreign_keys sample_gen (minutes 31) 1 w1 = (Inr (), w') \<and>
     map_of (ow_exports w') (export_key_for (minutes 31) 1) = Some b \<and> (table_member (''knowledge'', ''documents''), Ndjson []) \<in> set b"
proof -
  let ?w = "sample_world [sample_request 1 ''purging'']"
  have fresh: "fresh_audit (sample_gen (ow_db ?w)) (ow_db ?w)" using sample_gen_fresh by (simp add: gen_fresh_def)
  from purge_rows_succeeds [OF sample_consistent fresh sample_catalog] obtain db where db: "purge_rows schema_foreign_keys (sample_gen (ow_db ?w)) 0
      (map_option oq_requested_by (latest_request 1 (ow_requests ?w))) 1 (ow_db ?w) = Inr db" by blast
  then have first: "purge_step schema_foreign_keys sample_gen 0 1 ?w = Inr (?w\<lparr>ow_db := db\<rparr>)" unfolding purge_step_Inr by blast
  have ok: "consistent schema_foreign_keys db" by (rule purge_rows_spec(3) [OF sample_consistent schema_audit fresh db])
  have cat: "catalog_sound db" by (rule catalog_sound_shape [OF purge_rows_shape [OF db] sample_catalog])
  have "\<exists>w'. run (\<lambda>_. None) schema_foreign_keys sample_gen (minutes 31) 1 (?w\<lparr>ow_db := db\<rparr>) = (Inr (), w')"
    by (rule run_succeeds) (use ok cat sample_gen_fresh in \<open>simp_all add: sample_world_def sample_unique [simplified]\<close>)
  then obtain w' where second: "run (\<lambda>_. None) schema_foreign_keys sample_gen (minutes 31) 1 (?w\<lparr>ow_db := db\<rparr>) = (Inr (), w')" by blast
  have "(''knowledge'', ''documents'') \<in> set (purgeable_tables (ow_db ?w))"
    using sample_catalog by (simp add: catalog_sound_def ORDERED_FIRST_def)
  then show ?thesis using first second rerun_archives_nothing [OF sample_consistent sample_gen_fresh first second] by blast
qed

theorem purge_takes_support_grants_witness:
  "\<exists>db'. purge_rows schema_foreign_keys (sample_gen sample_db) 0 (Some 9) 1 sample_db = Inr db' \<and>
     tenant_rows sample_db (''platform'', ''support_grants'') 1 \<noteq> [] \<and> tenant_rows db' (''platform'', ''support_grants'') 1 = []"
proof -
  have db: "ow_db (sample_world []) = sample_db" by (simp add: sample_world_def)
  have fresh: "fresh_audit (sample_gen sample_db) sample_db" using sample_gen_fresh by (simp add: gen_fresh_def)
  obtain db' where run: "purge_rows schema_foreign_keys (sample_gen sample_db) 0 (Some 9) 1 sample_db = Inr db'"
    using purge_rows_succeeds [OF sample_consistent [of "[]", unfolded db] fresh sample_catalog [of "[]", unfolded db]] by blast
  have ws: "(''platform'', ''workspaces'') \<in> set (purgeable_tables sample_db)"
    unfolding purgeable_iff by (simp add: sample_simps ct_name_def NEVER_PURGE_def catalog_columns_def tenant_isolation_policy_def)
  have "tenant_rows sample_db (''platform'', ''support_grants'') 1 \<noteq> []" by (simp add: sample_simps tenant_rows_def rows_of_def ct_name_def)
  then show ?thesis using run purge_takes_support_grants [OF sample_consistent [of "[]", unfolded db] fresh ws run] by blast
qed

end
