(* ===== verification/Provisioning.thy ===== *)
theory Provisioning
  imports SupportAccess Offboarding
begin

text \<open>
  The operators' side of the platform (\<^verbatim>\<open>application/provisioning.py\<close> over
  \<^verbatim>\<open>adapters/persistence/provisioning_repo.py\<close>): tenants, the first Org Admin, the operator allowlist
  and the two ends of an offboarding. Each repository call is a transaction of its own, so an operation
  returns its result together with the database the calls before a raise have left. Support staff and the
  assignment of grants are in \<open>SupportAccess\<close>. \<open>new_uuid i\<close> is the i-th identifier the call
  draws; \<open>py_lower\<close> and \<open>sql_lower\<close> are \<^verbatim>\<open>str.lower\<close> and SQL's \<^verbatim>\<open>lower\<close>.
\<close>

subsection \<open>Tables\<close>

record tenant_record =
  tn_id :: uuid
  tn_slug :: ustr
  tn_name :: ustr
  tn_status :: string
  tn_created_at :: instant

record workspace_record =
  wr_id :: uuid
  wr_tenant_id :: uuid
  wr_slug :: string
  wr_name :: ustr

record operator_record =
  op_user_id :: uuid
  op_label :: "ustr option"
  op_created_by :: "uuid option"
  op_created_at :: instant

record user_record =
  us_id :: uuid
  us_email :: "ustr option"
  us_display_name :: ustr

record provisioning_db =
  pb_tenants :: "tenant_record list"
  pb_workspaces :: "workspace_record list"
  pb_entitlements :: "(uuid \<times> uuid \<times> string) list"
  pb_plans :: "string list"
  pb_users :: "user_record list"
  pb_members :: "member_row list"
  pb_staff :: "uuid list"
  pb_operators :: "operator_record list"
  pb_requests :: "offboarding_request list"
  pb_audit :: "provisioning_row list"

type_synonym 'a provisioned = "'a res \<times> provisioning_db"

subsection \<open>Slugs\<close>

text \<open>\<^verbatim>\<open>^[a-z0-9]+(?:-[a-z0-9]+)*$\<close> under \<^verbatim>\<open>match\<close>: \<^verbatim>\<open>$\<close> also matches before a closing newline.\<close>

definition slug_char :: "nat \<Rightarrow> bool" where
  "slug_char c \<longleftrightarrow> (97 \<le> c \<and> c \<le> 122) \<or> (48 \<le> c \<and> c \<le> 57)"

fun slug_from :: "bool \<Rightarrow> ustr \<Rightarrow> bool" where
  "slug_from seen [] = seen"
| "slug_from seen (c # cs) =
     (if slug_char c then slug_from True cs else if c = 10 \<and> cs = [] then seen else c = 45 \<and> seen \<and> slug_from False cs)"

definition slug_matches :: "ustr \<Rightarrow> bool" where
  "slug_matches s = slug_from False s"

subsection \<open>The repository\<close>



definition tenant_exists :: "provisioning_db \<Rightarrow> uuid \<Rightarrow> bool" where
  "tenant_exists db tenant \<longleftrightarrow> tenant \<in> tn_id ` set (pb_tenants db)"


definition update_tenant :: "uuid \<Rightarrow> (tenant_record \<Rightarrow> tenant_record) \<Rightarrow> provisioning_db \<Rightarrow> bool \<times> provisioning_db" where
  "update_tenant tenant f db =
     (tenant_exists db tenant, db\<lparr>pb_tenants := map (\<lambda>t. if tn_id t = tenant then f t else t) (pb_tenants db)\<rparr>)"

definition write_tenant_status :: "uuid \<Rightarrow> string \<Rightarrow> provisioning_db \<Rightarrow> bool \<times> provisioning_db" where
  "write_tenant_status tenant status = update_tenant tenant (tn_status_update (\<lambda>_. status))"


definition create_offboarding_request :: "instant \<Rightarrow> uuid \<Rightarrow> uuid \<Rightarrow> uuid \<Rightarrow> provisioning_db \<Rightarrow> provisioning_db res" where
  "create_offboarding_request now request_id tenant requested_by db =
     (let qs = pb_requests db @
            [\<lparr>oq_id = request_id, oq_tenant_id = tenant, oq_status = ''requested'', oq_requested_by = requested_by, oq_requested_at = now,
              oq_export_key = None, oq_error = None, oq_updated_at = now\<rparr>]
      in if request_id \<in> oq_id ` set (pb_requests db) then Inl (OtherError ''IntegrityError'')
         else if \<not> active_unique qs then raise_dw (ConflictError ''an offboarding request is already in flight for this tenant'')
         else if \<not> tenant_exists db tenant then raise_dw (NotFoundError ''unknown tenant'')
         else Inr (db\<lparr>pb_requests := qs\<rparr>))"









record operator_ref =
  or_operator :: operator_record
  or_email :: "ustr option"
  or_display_name :: ustr

definition list_operators :: "provisioning_db \<Rightarrow> operator_ref list" where
  "list_operators db =
     concat (map (\<lambda>r. map (\<lambda>u. \<lparr>or_operator = r, or_email = us_email u, or_display_name = us_display_name u\<rparr>)
                        (filter (\<lambda>u. us_id u = op_user_id r) (pb_users db)))
       (sort_by op_created_at (pb_operators db)))"

subsection \<open>The service\<close>

definition audited :: "instant \<Rightarrow> uuid \<Rightarrow> uuid \<Rightarrow> string \<Rightarrow> string \<Rightarrow> uuid \<Rightarrow> details \<Rightarrow> provisioning_db \<Rightarrow> provisioning_db" where
  "audited now audit_id operator action ttype target given db =
     db\<lparr>pb_audit := pb_audit db @
        [\<lparr>pv_id = audit_id, pv_actor_id = operator, pv_action = action, pv_target_type = ttype, pv_target_id = target,
          pv_details = given, pv_occurred_at = now\<rparr>]\<rparr>"




definition initiate_offboarding :: "instant \<Rightarrow> (nat \<Rightarrow> uuid) \<Rightarrow> uuid \<Rightarrow> uuid \<Rightarrow> provisioning_db \<Rightarrow> offboarding_request provisioned" where
  "initiate_offboarding now new_uuid operator tenant db =
     (case create_offboarding_request now (new_uuid 0) tenant operator db of
        Inl e \<Rightarrow> (Inl e, db)
      | Inr db1 \<Rightarrow>
          (case write_tenant_status tenant ''offboarding'' db1 of
             (changed, db2) \<Rightarrow>
               if \<not> changed then (raise_dw (NotFoundError ''unknown tenant''), db2)
               else (let db3 = audited now (new_uuid 1) operator ''platform.tenant.offboarding_initiate'' ''tenant'' tenant [] db2
                     in case latest_request tenant (pb_requests db3) of
                          None \<Rightarrow> (Inl AssertionError, db3)
                        | Some q \<Rightarrow> (Inr q, db3))))"







subsection \<open>What operators can do to the tables\<close>


definition tenants_kept :: "tenant_record list \<Rightarrow> bool" where
  "tenants_kept ts \<longleftrightarrow>
     distinct (map tn_id ts) \<and> distinct (map tn_slug ts) \<and>
     list_all (\<lambda>t. slug_matches (tn_slug t) \<and> tn_status t \<in> {''active'', ''locked'', ''offboarding'', ''offboarded''}) ts"

definition provisioning_kept :: "provisioning_db \<Rightarrow> bool" where
  "provisioning_kept db \<longleftrightarrow> tenants_kept (pb_tenants db) \<and> active_unique (pb_requests db) \<and> pb_operators db \<noteq> []"

lemma audited_fields [simp]:
  "pb_tenants (audited now i o1 a tt x d db) = pb_tenants db" "pb_requests (audited now i o1 a tt x d db) = pb_requests db"
  "pb_operators (audited now i o1 a tt x d db) = pb_operators db"
  by (simp_all add: audited_def)




lemma audited_kept [simp]: "provisioning_kept (audited now i o1 a tt x d db) = provisioning_kept db"
  by (simp add: provisioning_kept_def)











subsection \<open>From request to offboarded\<close>

text \<open>
  C38: A tenant that had a request before is offered a new one and is then never purged: the new request is
  accepted as soon as the earlier one has ended, and from then on every pass of the worker fails at its
  first report, because \<^verbatim>\<open>mark_status\<close> writes both rows and the index admits one in flight. The repository
  says a failed request does not block a later retry.
\<close>

theorem retried_offboarding_never_purges:
  assumes "initiate_offboarding now ids o1 t db = (Inr q, db')" "1 \<le> requests_of t (pb_requests db)"
    and "ow_requests w = pb_requests db'" "consistent schema_foreign_keys (ow_db w)" "gen_fresh gen" "known_ids w" "t < 2 ^ 128"
  shows "tenant_rows (ow_db (fold (\<lambda>(now, flt). consume_offboarding exc_str flt schema_foreign_keys gen now) polls w)) n t = tenant_rows (ow_db w) n t"
proof -
  from assms(1) have "\<exists>db1. create_offboarding_request now (ids 0) t o1 db = Inr db1 \<and> pb_requests db' = pb_requests db1"
    by (auto simp: initiate_offboarding_def write_tenant_status_def update_tenant_def Let_def split: sum.splits prod.splits option.splits if_splits)
  then have "requests_of t (pb_requests db') = Suc (requests_of t (pb_requests db))"
    by (auto simp: create_offboarding_request_def requests_of_def Let_def split: if_splits)
  then show ?thesis using second_request_never_purges [OF assms(5,7,4,6)] assms(2,3) by simp
qed







subsection \<open>A platform with one tenant\<close>

definition sample_platform :: "offboarding_request list \<Rightarrow> provisioning_db" where
  "sample_platform qs =
     \<lparr>pb_tenants = [\<lparr>tn_id = 1, tn_slug = ulit ''acme'', tn_name = ulit ''Acme'', tn_status = ''active'', tn_created_at = 0\<rparr>],
      pb_workspaces = [\<lparr>wr_id = 21, wr_tenant_id = 1, wr_slug = ''main'', wr_name = ulit ''Main workspace''\<rparr>],
      pb_entitlements = [(3, 1, ''team'')], pb_plans = [''team''],
      pb_users = [\<lparr>us_id = 9, us_email = Some (ulit ''op''), us_display_name = ulit ''Op''\<rparr>],
      pb_members = [], pb_staff = [],
      pb_operators = [\<lparr>op_user_id = 9, op_label = None, op_created_by = None, op_created_at = 0\<rparr>],
      pb_requests = qs, pb_audit = []\<rparr>"



theorem retried_offboarding_never_purges_witness:
  "tenant_rows (ow_db (fold (\<lambda>(now, flt). consume_offboarding (\<lambda>_. []) flt schema_foreign_keys sample_gen now) [(7, \<lambda>_ _. None)]
      (sample_world (pb_requests (snd (initiate_offboarding 5 (\<lambda>i. 40 + i) 9 1 (sample_platform [sample_request 1 ''failed''])))))))
     (''knowledge'', ''documents'') 1 = [sample_row 14 []]"
proof -
  let ?out = "initiate_offboarding 5 (\<lambda>i. 40 + i) 9 1 (sample_platform [sample_request 1 ''failed''])"
  obtain q where out: "?out = (Inr q, snd ?out)"
    by (simp add: sample_request_def sample_platform_def initiate_offboarding_def create_offboarding_request_def active_unique_def active_request_def
        write_tenant_status_def update_tenant_def tenant_exists_def latest_request_def Let_def)
  have ids: "known_ids (sample_world (pb_requests (snd ?out)))"
    by (simp add: known_ids_def sample_world_def sample_request_def sample_platform_def initiate_offboarding_def create_offboarding_request_def
        active_unique_def active_request_def write_tenant_status_def update_tenant_def tenant_exists_def latest_request_def Let_def)
  have one: "1 \<le> requests_of 1 (pb_requests (sample_platform [sample_request 1 ''failed'']))"
    by (simp add: sample_platform_def sample_request_def requests_of_def)
  have same: "ow_requests (sample_world (pb_requests (snd ?out))) = pb_requests (snd ?out)" by (simp add: sample_world_def)
  show ?thesis
    by (subst retried_offboarding_never_purges [OF out one same sample_consistent sample_gen_fresh ids])
      (simp_all add: sample_simps tenant_rows_def rows_of_def ct_name_def)
qed


end
