(* ===== verification/Spec2Isabelle.thy ===== *)
theory Spec2Isabelle
  imports Circuit Overlay Access Autonomy Idempotency Runs Approval Hierarchy Membership Codes Executor Outbox Notify Pagination Chunking Memory IngestJobs SupportLaws Provisioning
begin

text \<open>
  Verification of the core of the Digital Worker Platform (directories under \<^verbatim>\<open>src/\<close>): a multi-tenant
  service in which AI workers call tools on behalf of people, with approvals by people in between.
  The sources are Python packages over PostgreSQL; this development models their state machines,
  policies and database transactions as functions on explicit state and proves what they promise.

  \<^bold>\<open>Parts and how they interact.\<close> A request is authenticated and becomes an access context (tenant,
  workspace, person, scopes, clearance); a support staff member gets one from a grant a customer
  made. Commands run behind an idempotency key. A worker run calls tools through the executor,
  which checks scopes, plan, autonomy and budget, asks for an approval where the ladder says so,
  and keeps every execution. A person decides the approval in the portal or, with a code, in a
  chat; deciding and resuming the run happen in one transaction. What happened is written as audit
  events and outbox events in the same transaction; the worker process delivers the outbox, sends
  notices to chats and ingests uploads. Documents are chunked, indexed and retrieved under the
  caller's clearance, and facts learned from them are stored as memories that cite evidence.

  \<^bold>\<open>How the model is written.\<close> Identifiers are natural numbers, instants are integers of microseconds.
  A table is a list of rows, a transaction a function from the database to a result and a
  database, a raise is the left side of a sum. Row-level security appears as the tenant test of
  each query. Clocks, id generators and calls to services are arguments, and so is what other
  transactions do between two of a command's own; where a property needs something of such
  an argument the theorem says so as a hypothesis, and its witness instantiates it. Loops are
  structural recursions or carry a termination proof; lanes that run for ever are modelled as
  their ticks, and the liveness theorems bound the number of ticks that is enough by the attempts
  still owed. The one computation with fuel is the cascade of a delete in \<open>TenantTables\<close>.

  \<^bold>\<open>Theories\<close>, in the order they build on each other (sources relative to \<^verbatim>\<open>src/packages/python\<close>, with the
  package as prefix, or to \<^verbatim>\<open>src/apps\<close>):
  \<^item> \<open>Prelude\<close>: strings, stable sorting, lookup, and the locale \<open>draining\<close> of a lane that works off a
    backlog. \<open>Errors\<close>: \<^verbatim>\<open>dw_kernel/errors.py\<close> and the API's replies. \<open>Events\<close>: audit and outbox events,
    \<^verbatim>\<open>dw_platform/domain\<close>.
  \<^item> \<open>Circuit\<close>: the circuit breaker of \<^verbatim>\<open>dw_kernel/resilience.py\<close>. \<open>Overlay\<close>: tenant overlays
    (\<^verbatim>\<open>dw_kernel/overlay.py\<close>, \<^verbatim>\<open>dw_agent_runtime/toolsets.py\<close>) behind the locale \<open>layered_lookup\<close>.
  \<^item> \<open>Access\<close>: access context, authorization, approval audience, plans. \<open>Hierarchy\<close>: the reporting tree and
    its recursive query. \<open>Membership\<close>: how a context is built from memberships, and for a linked chat
    (locale \<open>linked_access\<close>).
  \<^item> \<open>SupportAccess\<close>, \<open>SupportLaws\<close>: customer-granted support access, its table with constraints and trigger,
    and the doors of the API. Codes are unique, grants are made by holders, the door gives no more
    than the granter holds, ended grants stay ended.
  \<^item> \<open>Autonomy\<close>: runtime contracts and the approval ladder. \<open>Redaction\<close>: redaction of payloads. \<open>Executor\<close>: the
    pipeline of a tool call, with its gates, replay, attempts and trace.
  \<^item> \<open>Idempotency\<close>: replay protection of requests (locale \<open>idempotency_store\<close>), with concurrent requests as a
    step relation. \<open>Runs\<close>: the run store and its unique index. \<open>Approval\<close>: the approval aggregate, its
    repository and the decide-and-resume unit of work. \<open>Codes\<close>: single-use codes and decisions from a
    chat. \<open>Pagination\<close>: cursors byte by byte and keyset listings (locale \<open>keyset_listing\<close>).
  \<^item> \<open>Outbox\<close>, \<open>Notify\<close>: the dispatcher, notices and the channel outbox; both lanes interpret \<open>draining\<close>.
  \<^item> \<open>Chunking\<close>, \<open>Evidence\<close>, \<open>VectorIndex\<close>, \<open>Knowledge\<close>, \<open>KnowledgeFacts\<close>, \<open>Retrieval\<close>, \<open>RetrievalSamples\<close>, \<open>IngestJobs\<close>: the
    package \<^verbatim>\<open>dw_knowledge\<close> and the upload lane. \<open>vector_index_port\<close> is what the gateway needs of an index;
    ingestion and deletion refine the update of an abstract library with one current version per
    document.
  \<^item> \<open>RetentionPolicy\<close>, \<open>Memory\<close>: \<^verbatim>\<open>dw_platform/retention_policy.py\<close> and the package \<^verbatim>\<open>dw_memory\<close>; the locale
    \<open>evidence_contract\<close> is what memory needs of the evidence store.
  \<^item> \<open>TenantTables\<close>, \<open>Offboarding\<close>: tenant offboarding, \<^verbatim>\<open>dw_platform/adapters/persistence/offboarding.py\<close> and the
    worker's \<^verbatim>\<open>consumers/offboarding.py\<close>. A database is its catalog; a delete cascades and is restricted as
    the migrations' foreign keys say, the cascade taking as many rounds as there are rows (shown to be
    enough). The order of the purge never meets a restriction, a pass that returns has archived all
    it destroyed, and other tenants are untouched whatever fails.
  \<^item> \<open>Provisioning\<close>: the operators' commands of \<^verbatim>\<open>dw_platform/application/provisioning.py\<close>, their invariant over any
    sequence, and the flow from an offboarding request to an offboarded tenant.
  \<^bold>\<open>What the theorems show.\<close> Invariants are proved by rule induction on relations that interleave the
  operations (\<open>knowledge_reach\<close>, \<open>queue_reach\<close>, \<open>evolves\<close>, the reach relations of the other components); safety
  theorems say what a caller can get from any reachable state; refinement theorems relate the
  gateway to the abstract library; liveness theorems bound the work a backlog needs; some
  theorems state where the code does not keep what its comments say, and these are the findings
  of the manifest.

  \<^bold>\<open>Not modelled.\<close> Adapters that only translate to a service or a library, since they keep no state of
  their own and what they call is outside \<^verbatim>\<open>src/\<close>: Qdrant, MinIO, the parsers and rerankers, OpenAI and
  LangGraph, the chat provider, telemetry exporters, the document generator over the vendored
  \<^verbatim>\<open>brandkit\<close>. Composition roots and settings, which construct objects; the evaluation harness and the
  maintenance scripts, which are not part of the running system; the web client, which is not
  Python; and, of the migrations, everything but the constraints, triggers and functions that the
  components above rely on. Floating point is exact rational arithmetic: no theorem depends on
  rounding. Isolation between transactions is that of the statements modelled here, row locks and
  unique indexes included; the database's own implementation is not.
\<close>

end
